(* ===== verification/Prelude.thy ===== *)
theory Prelude
  imports Complex_Main "HOL-Library.Multiset" "HOL-Library.Product_Lexorder"
begin

text \<open>
  Shared vocabulary of the development: the types the tables are keyed by, results that may
  carry an exception, the loop that stops at the first exception, row updates in a table, and
  the generic lemmas on them that every component theory uses.

  A function of the source that may raise is a function into a sum: \<open>Inl e\<close> for the exception
  and \<open>Inr v\<close> for the value. A method that changes the database takes the state and returns the
  new one inside the result, so an exception returns no state: the request's transaction is
  rolled back by \<open>get_session\<close> in \<open>app/core/database.py\<close>.
\<close>

section \<open>Names of types\<close>

text \<open>
  A UUID is a natural number drawn from a supply that never repeats, a date is its day number
  (\<open>date.toordinal\<close>), a timestamp its number of seconds, and a Decimal is its rational value.
\<close>

type_synonym uuid = nat
type_synonym date = int
type_synonym timestamp = int

type_synonym decimal = rat

text \<open>\<open>datetime.date()\<close> of a UTC timestamp.\<close>

definition utc_date :: "timestamp \<Rightarrow> date" where
  "utc_date t = t div 86400"

named_theorems table_simps \<open>rewriting of lookups and updates of table rows\<close>
named_theorems frame_simps \<open>fields that an operation leaves unchanged\<close>

section \<open>Results that may carry an exception\<close>

definition res_bind :: "('e + 'a) \<Rightarrow> ('a \<Rightarrow> 'e + 'b) \<Rightarrow> 'e + 'b" where
  "res_bind m f = (case m of Inl e \<Rightarrow> Inl e | Inr a \<Rightarrow> f a)"

definition ensure :: "bool \<Rightarrow> 'e \<Rightarrow> 'e + unit" where
  "ensure b e = (if b then Inr () else Inl e)"

definition is_ok :: "('e + 'a) \<Rightarrow> bool" where
  "is_ok m = (case m of Inl _ \<Rightarrow> False | Inr _ \<Rightarrow> True)"

lemma res_bind_Inl [simp]: "res_bind (Inl e) f = Inl e"
  by (simp add: res_bind_def)

lemma res_bind_Inr [simp]: "res_bind (Inr a) f = f a"
  by (simp add: res_bind_def)

lemma res_bind_eq_Inr [simp]: "res_bind m f = Inr b \<longleftrightarrow> (\<exists>a. m = Inr a \<and> f a = Inr b)"
  by (simp add: res_bind_def split: sum.splits)

lemma res_bind_pairE:
  assumes "res_bind m (\<lambda>(a, s). Inr (f a s)) = Inr c"
  obtains a s where "m = Inr (a, s)" "f a s = c"
  using assms by auto

lemma res_bind_eq_Inl:
  "res_bind m f = Inl e \<longleftrightarrow> m = Inl e \<or> (\<exists>a. m = Inr a \<and> f a = Inl e)"
  by (auto simp: res_bind_def split: sum.splits)

lemma ensure_eq_Inr [simp]: "ensure b e = Inr u \<longleftrightarrow> b"
  by (simp add: ensure_def)

lemma ensure_eq_Inl [simp]: "ensure b e = Inl e' \<longleftrightarrow> \<not> b \<and> e' = e"
  by (auto simp: ensure_def)

lemma ensure_True [simp]: "ensure True e = Inr ()"
  by (simp add: ensure_def)

lemma ensure_False [simp]: "ensure False e = Inl e"
  by (simp add: ensure_def)

lemma is_ok_Inl [simp]: "\<not> is_ok (Inl e)" and is_ok_Inr [simp]: "is_ok (Inr a)"
  by (simp_all add: is_ok_def)

lemma is_ok_iff: "is_ok m \<longleftrightarrow> (\<exists>a. m = Inr a)"
  by (cases m) auto

section \<open>Loops that stop at the first exception\<close>

text \<open>
  A \<open>for\<close> loop of the source whose body may raise: the state runs through the body once per
  element, in the order of the list.
\<close>

fun fold_res :: "('x \<Rightarrow> 's \<Rightarrow> 'e + 's) \<Rightarrow> 'x list \<Rightarrow> 's \<Rightarrow> 'e + 's" where
  "fold_res f [] s = Inr s"
| "fold_res f (x # xs) s = res_bind (f x s) (fold_res f xs)"

lemma fold_res_append:
  "fold_res f (xs @ ys) s = res_bind (fold_res f xs s) (fold_res f ys)"
  by (induction xs arbitrary: s) (auto simp: res_bind_def split: sum.splits)

lemma fold_res_invariant:
  assumes "fold_res f xs s = Inr t" and "I s"
    and "\<And>x a b. x \<in> set xs \<Longrightarrow> I a \<Longrightarrow> f x a = Inr b \<Longrightarrow> I b"
  shows "I t"
  using assms
proof (induction xs arbitrary: s)
  case Nil
  then show ?case by simp
next
  case (Cons x xs)
  from Cons.prems(1) obtain m where m: "f x s = Inr m" "fold_res f xs m = Inr t" by auto
  have "I m" using Cons.prems(2,3) m(1) by (meson list.set_intros(1))
  then show ?case using Cons.IH [OF m(2)] Cons.prems(3) by (meson list.set_intros(2))
qed

text \<open>A quantity that every round raises by \<open>g x\<close> has been raised by the sum at the end.\<close>

lemma fold_res_measure:
  fixes M :: "'s \<Rightarrow> 'b::comm_monoid_add"
  assumes "fold_res f xs s = Inr t"
    and "\<And>x a b. x \<in> set xs \<Longrightarrow> f x a = Inr b \<Longrightarrow> M b = M a + g x"
  shows "M t = M s + (\<Sum>x\<leftarrow>xs. g x)"
  using assms
proof (induction xs arbitrary: s)
  case Nil
  then show ?case by simp
next
  case (Cons x xs)
  from Cons.prems(1) obtain m where m: "f x s = Inr m" "fold_res f xs m = Inr t" by auto
  have "M t = M m + (\<Sum>x\<leftarrow>xs. g x)"
    using Cons.IH [OF m(2)] Cons.prems(2) by (meson list.set_intros(2))
  moreover have "M m = M s + g x" using Cons.prems(2) m(1) by (meson list.set_intros(1))
  ultimately show ?case by (simp add: add.assoc)
qed

text \<open>
  A loop that also collects a value per element, as a list comprehension over awaited calls does.
\<close>

fun map_state :: "('x \<Rightarrow> 's \<Rightarrow> 'e + 'b \<times> 's) \<Rightarrow> 'x list \<Rightarrow> 's \<Rightarrow> 'e + 'b list \<times> 's" where
  "map_state f [] s = Inr ([], s)"
| "map_state f (x # xs) s =
     res_bind (f x s) (\<lambda>(b, s'). res_bind (map_state f xs s') (\<lambda>(bs, t). Inr (b # bs, t)))"

lemma map_state_Cons_ok:
  "map_state f (x # xs) s = Inr (bs, t) \<longleftrightarrow>
   (\<exists>b s' bs'. f x s = Inr (b, s') \<and> map_state f xs s' = Inr (bs', t) \<and> bs = b # bs')"
  by auto

lemma map_state_length: "map_state f xs s = Inr (bs, t) \<Longrightarrow> length bs = length xs"
  by (induction xs arbitrary: s bs) auto

lemma map_state_invariant:
  assumes "map_state f xs s = Inr (bs, t)" and "I s"
    and "\<And>x a b c. x \<in> set xs \<Longrightarrow> I a \<Longrightarrow> f x a = Inr (b, c) \<Longrightarrow> I c"
  shows "I t"
  using assms
proof (induction xs arbitrary: s bs)
  case (Cons x xs)
  from Cons.prems(1) obtain b m bs' where m: "f x s = Inr (b, m)" "map_state f xs m = Inr (bs', t)"
    by (auto simp only: map_state_Cons_ok)
  have "I m" using Cons.prems(2,3) m(1) by (meson list.set_intros(1))
  then show ?case using Cons.IH [OF m(2)] Cons.prems(3) by (meson list.set_intros(2))
qed simp

lemma map_state_measure:
  fixes M :: "'s \<Rightarrow> 'b::comm_monoid_add"
  assumes "map_state f xs s = Inr (bs, t)" and "I s"
    and "\<And>x a b c. x \<in> set xs \<Longrightarrow> I a \<Longrightarrow> f x a = Inr (b, c) \<Longrightarrow> I c \<and> M c = M a + g x"
  shows "M t = M s + (\<Sum>x\<leftarrow>xs. g x)"
  using assms
proof (induction xs arbitrary: s bs)
  case (Cons x xs)
  from Cons.prems(1) obtain b m bs' where m: "f x s = Inr (b, m)" "map_state f xs m = Inr (bs', t)"
    by (auto simp only: map_state_Cons_ok)
  have x: "I m" "M m = M s + g x" using Cons.prems(2,3) m(1) by (meson list.set_intros(1))+
  have "M t = M m + (\<Sum>x\<leftarrow>xs. g x)"
    using Cons.IH [OF m(2) x(1)] Cons.prems(3) by (meson list.set_intros(2))
  then show ?case using x(2) by (simp add: add.assoc)
qed simp

text \<open>The values collected when every call returns one that its element determines.\<close>

lemma map_state_values:
  assumes "map_state f xs s = Inr (bs, t)"
    and "\<And>x a b c. x \<in> set xs \<Longrightarrow> f x a = Inr (b, c) \<Longrightarrow> h b = g x"
  shows "map h bs = map g xs"
  using assms
proof (induction xs arbitrary: s bs)
  case (Cons x xs)
  from Cons.prems(1) obtain b m bs' where m: "f x s = Inr (b, m)" "map_state f xs m = Inr (bs', t)"
      "bs = b # bs'"
    by (auto simp only: map_state_Cons_ok)
  have "h b = g x" using Cons.prems(2) m(1) by (meson list.set_intros(1))
  moreover have "map h bs' = map g xs"
    using Cons.IH [OF m(2)] Cons.prems(2) by (meson list.set_intros(2))
  ultimately show ?case using m(3) by simp
qed simp

section \<open>Rows of a table\<close>

text \<open>
  A table is the list of its rows. \<open>result.scalars().first()\<close> is the first row that satisfies
  the predicate, and assigning to attributes of that row changes this row only.
\<close>

fun first_row :: "('r \<Rightarrow> bool) \<Rightarrow> 'r list \<Rightarrow> 'r option" where
  "first_row p [] = None"
| "first_row p (r # rs) = (if p r then Some r else first_row p rs)"

fun upd_first :: "('r \<Rightarrow> bool) \<Rightarrow> ('r \<Rightarrow> 'r) \<Rightarrow> 'r list \<Rightarrow> 'r list" where
  "upd_first p f [] = []"
| "upd_first p f (r # rs) = (if p r then f r # rs else r # upd_first p f rs)"

definition upd_rows :: "('r \<Rightarrow> bool) \<Rightarrow> ('r \<Rightarrow> 'r) \<Rightarrow> 'r list \<Rightarrow> 'r list" where
  "upd_rows p f rs = map (\<lambda>r. if p r then f r else r) rs"

lemma first_row_Some: "first_row p rs = Some r \<Longrightarrow> r \<in> set rs \<and> p r"
  by (induction rs) (auto split: if_splits)

lemma first_row_None: "first_row p rs = None \<longleftrightarrow> (\<forall>r \<in> set rs. \<not> p r)"
  by (induction rs) auto

lemma first_row_append:
  "first_row p (xs @ ys) = (case first_row p xs of None \<Rightarrow> first_row p ys | Some r \<Rightarrow> Some r)"
  by (induction xs) auto

lemma first_row_cong:
  "(\<And>r. r \<in> set rs \<Longrightarrow> p r = q r) \<Longrightarrow> first_row p rs = first_row q rs"
  by (induction rs) auto

lemma length_upd_first [simp]: "length (upd_first p f rs) = length rs"
  by (induction rs) auto

lemma length_upd_rows [simp]: "length (upd_rows p f rs) = length rs"
  by (simp add: upd_rows_def)

lemma upd_first_None: "first_row p rs = None \<Longrightarrow> upd_first p f rs = rs"
  by (induction rs) (auto split: if_splits)

lemma set_upd_first:
  "x \<in> set (upd_first p f rs) \<Longrightarrow> x \<in> set rs \<or> (\<exists>r \<in> set rs. p r \<and> x = f r)"
  by (induction rs) (auto split: if_splits)

text \<open>Columns that the assignment does not touch read the same in every row.\<close>

lemma map_upd_first:
  "(\<And>r. r \<in> set rs \<Longrightarrow> p r \<Longrightarrow> g (f r) = g r) \<Longrightarrow> map g (upd_first p f rs) = map g rs"
  by (induction rs) auto

lemma map_upd_rows:
  "(\<And>r. r \<in> set rs \<Longrightarrow> p r \<Longrightarrow> g (f r) = g r) \<Longrightarrow> map g (upd_rows p f rs) = map g rs"
  by (auto simp: upd_rows_def)

lemma first_row_upd_first_same:
  "first_row p rs = Some r \<Longrightarrow> (\<And>x. p (f x) = p x) \<Longrightarrow>
   first_row p (upd_first p f rs) = Some (f r)"
  by (induction rs) (auto split: if_splits)

lemma first_row_upd_first_other:
  "(\<And>x. p x \<Longrightarrow> \<not> q x) \<Longrightarrow> (\<And>x. q (f x) = q x) \<Longrightarrow>
   first_row q (upd_first p f rs) = first_row q rs"
  by (induction rs) auto

lemma upd_first_eq_list_update:
  "first_row p rs = Some r \<Longrightarrow>
   \<exists>xs ys. rs = xs @ r # ys \<and> (\<forall>x \<in> set xs. \<not> p x) \<and> p r \<and>
     upd_first p f rs = xs @ f r # ys"
proof (induction rs)
  case Nil
  then show ?case by simp
next
  case (Cons a rs)
  show ?case
  proof (cases "p a")
    case True
    with Cons.prems show ?thesis by (intro exI [of _ "[]"] exI [of _ rs]) auto
  next
    case False
    with Cons.prems have "first_row p rs = Some r" by simp
    then obtain xs ys where "rs = xs @ r # ys" "\<forall>x \<in> set xs. \<not> p x" "p r"
        "upd_first p f rs = xs @ f r # ys"
      using Cons.IH by blast
    with False show ?thesis by (intro exI [of _ "a # xs"] exI [of _ ys]) auto
  qed
qed

text \<open>An update by key, when keys are unique.\<close>

lemma upd_first_key_map:
  "distinct (map key xs) \<Longrightarrow> upd_first (\<lambda>x. key x = i) f xs = map (\<lambda>x. if key x = i then f x else x) xs"
proof (induction xs)
  case (Cons x xs)
  then have "key x = i \<Longrightarrow> map (\<lambda>x. if key x = i then f x else x) xs = xs"
    by (intro map_idI) (auto simp: image_iff)
  then show ?case using Cons by auto
qed simp

lemma upd_first_upd_first:
  "(\<And>x. p x \<Longrightarrow> p (f x)) \<Longrightarrow> upd_first p g (upd_first p f xs) = upd_first p (\<lambda>x. g (f x)) xs"
  by (induction xs) auto

lemma upd_first_append:
  "x \<in> set xs \<Longrightarrow> p x \<Longrightarrow> upd_first p f (xs @ ys) = upd_first p f xs @ ys"
  by (induction xs) auto

lemma in_map_if:
  assumes "x \<in> set (map (\<lambda>y. if P y then f y else y) xs)"
  obtains y where "y \<in> set xs" "P y" "x = f y" | "x \<in> set xs" "\<not> P x"
  using assms by (auto split: if_splits)

text \<open>The sum of a column over the rows that satisfy a predicate.\<close>

definition sum_rows :: "('r \<Rightarrow> bool) \<Rightarrow> ('r \<Rightarrow> 'b::comm_monoid_add) \<Rightarrow> 'r list \<Rightarrow> 'b" where
  "sum_rows q g rs = (\<Sum>r \<leftarrow> filter q rs. g r)"

lemma sum_rows_Nil [simp]: "sum_rows q g [] = 0"
  by (simp add: sum_rows_def)

lemma sum_rows_Cons: "sum_rows q g (r # rs) = (if q r then g r else 0) + sum_rows q g rs"
  by (simp add: sum_rows_def)

lemma sum_rows_append: "sum_rows q g (xs @ ys) = sum_rows q g xs + sum_rows q g ys"
  by (simp add: sum_rows_def)

lemma sum_rows_upd_first:
  fixes g :: "'r \<Rightarrow> 'b::ab_group_add"
  assumes "first_row p rs = Some r" and "\<And>x. q (f x) = q x"
  shows "sum_rows q g (upd_first p f rs) =
    sum_rows q g rs + (if q r then g (f r) - g r else 0)"
proof -
  obtain xs ys where "rs = xs @ r # ys" "upd_first p f rs = xs @ f r # ys"
    using upd_first_eq_list_update [OF assms(1), of f] by blast
  then show ?thesis by (simp add: sum_rows_append sum_rows_Cons assms(2) algebra_simps)
qed

lemma sum_rows_nonneg:
  fixes g :: "'r \<Rightarrow> 'b::{ordered_comm_monoid_add}"
  shows "(\<And>r. r \<in> set rs \<Longrightarrow> q r \<Longrightarrow> 0 \<le> g r) \<Longrightarrow> 0 \<le> sum_rows q g rs"
  by (auto simp: sum_rows_def intro!: sum_list_nonneg)

section \<open>Lists\<close>

lemma sum_list_filter_le:
  fixes g :: "'a \<Rightarrow> 'b::ordered_comm_monoid_add"
  assumes "\<And>x. x \<in> set xs \<Longrightarrow> 0 \<le> g x"
  shows "(\<Sum>x \<leftarrow> filter q xs. g x) \<le> (\<Sum>x \<leftarrow> xs. g x)"
  using assms
proof (induction xs)
  case Nil
  then show ?case by simp
next
  case (Cons x xs)
  have IH: "(\<Sum>x \<leftarrow> filter q xs. g x) \<le> (\<Sum>x \<leftarrow> xs. g x)" using Cons by auto
  have "0 \<le> g x" using Cons.prems by simp
  then show ?case using IH by (auto intro: add_mono add_increasing)
qed

text \<open>Grouping by a key and adding up the groups adds up the elements whose key occurs.\<close>

lemma sum_list_groups:
  fixes f :: "'l \<Rightarrow> 'b::comm_monoid_add"
  assumes "distinct (map key xs)"
  shows "(\<Sum>x\<leftarrow>xs. \<Sum>l\<leftarrow>filter (\<lambda>l. k l = key x \<and> q l) ls. f l) =
    (\<Sum>l\<leftarrow>filter (\<lambda>l. k l \<in> key ` set xs \<and> q l) ls. f l)"
  using assms
proof (induction xs)
  case (Cons x xs)
  have split: "(\<Sum>l\<leftarrow>filter (\<lambda>l. k l = key x \<and> q l) ms. f l) + (\<Sum>l\<leftarrow>filter (\<lambda>l. k l \<in> key ` set xs \<and> q l) ms. f l)
      = (\<Sum>l\<leftarrow>filter (\<lambda>l. k l \<in> key ` set (x # xs) \<and> q l) ms. f l)" for ms
  proof (induction ms)
    case (Cons m ms)
    have "\<not> (k m = key x \<and> k m \<in> key ` set xs)" using Cons.prems \<open>distinct (map key (x # xs))\<close> by auto
    then show ?case using Cons by (auto simp: ac_simps)
  qed simp
  show ?case using Cons.IH Cons.prems split [of ls] by simp
qed simp

lemma sum_list_minus:
  fixes g :: "'a \<Rightarrow> 'b::ab_group_add"
  shows "(\<Sum>x \<leftarrow> xs. - g x) = - (\<Sum>x \<leftarrow> xs. g x)"
  by (induction xs) simp_all

lemma sum_list_list_update:
  fixes xs :: "'a::ab_group_add list"
  shows "k < length xs \<Longrightarrow> sum_list (xs[k := x]) = sum_list xs - xs ! k + x"
  by (induction xs arbitrary: k) (auto simp: algebra_simps split: nat.split)

lemma sum_list_perm:
  fixes g :: "'a \<Rightarrow> 'b::comm_monoid_add"
  shows "mset xs = mset ys \<Longrightarrow> (\<Sum>x \<leftarrow> xs. g x) = (\<Sum>x \<leftarrow> ys. g x)"
  by (metis mset_map sum_mset_sum_list)

lemma sum_list_sort_key:
  fixes g :: "'a \<Rightarrow> 'b::comm_monoid_add"
  shows "(\<Sum>x \<leftarrow> sort_key k xs. g x) = (\<Sum>x \<leftarrow> xs. g x)"
  by (rule sum_list_perm) simp

end
