(* ===== verification/Decimals.thy ===== *)
theory Decimals
  imports Prelude
begin

text \<open>
  Python's \<open>decimal\<close> module as the backend uses it: a Decimal is its rational value; products
  and quotients are rounded to the 28 significant digits of the default context, half to even;
  \<open>quantize\<close> rounds to a fixed number of places in the rounding mode of the call.

  Sums and differences of Decimals are written \<open>+\<close> and \<open>-\<close>: the operands the code adds are
  column values (at most 18 digits), whose sum a 28-digit context represents exactly
  (\<open>ctx_round_grid\<close>). \<open>quantize\<close> traps (\<open>InvalidOperation\<close>) only where the result needs more
  than 28 digits, that is from \<open>10 ^ 26\<close> on for two places, twelve orders of magnitude above
  what a \<open>NUMERIC(16, 2)\<close> column stores; this trap is outside the model.
\<close>

section \<open>Rounding modes\<close>

text \<open>A rounding mode sends a rational to an integer, keeps integers and is monotone.\<close>

locale rounding =
  fixes rnd :: "rat \<Rightarrow> int"
  assumes rnd_int: "rnd (of_int k) = k"
    and rnd_mono: "x \<le> y \<Longrightarrow> rnd x \<le> rnd y"
begin

lemma rnd_ge: "of_int k \<le> x \<Longrightarrow> k \<le> rnd x"
  using rnd_mono [of "of_int k" x] by (simp add: rnd_int)

lemma rnd_le: "x \<le> of_int k \<Longrightarrow> rnd x \<le> k"
  using rnd_mono [of x "of_int k"] by (simp add: rnd_int)

lemma rnd_0: "rnd 0 = 0"
  using rnd_int [of 0] by simp

lemma rnd_nonneg: "0 \<le> x \<Longrightarrow> 0 \<le> rnd x"
  using rnd_ge [of 0 x] by simp

lemma rnd_close: "\<bar>of_int (rnd x) - x\<bar> < 1"
proof -
  have "\<lfloor>x\<rfloor> \<le> rnd x" by (rule rnd_ge) simp
  moreover have "rnd x \<le> \<lceil>x\<rceil>" by (rule rnd_le) simp
  ultimately have "of_int \<lfloor>x\<rfloor> \<le> (of_int (rnd x) :: rat)" "(of_int (rnd x) :: rat) \<le> of_int \<lceil>x\<rceil>"
    by simp_all
  then show ?thesis by linarith
qed

end

text \<open>A mode to nearest is off by at most one half.\<close>

locale nearest_rounding = rounding +
  assumes rnd_nearest: "\<bar>of_int (rnd x) - x\<bar> \<le> 1 / 2"

definition round_half_up :: "rat \<Rightarrow> int" where
  "round_half_up x = (if 0 \<le> x then \<lfloor>x + 1 / 2\<rfloor> else - \<lfloor>- x + 1 / 2\<rfloor>)"

definition round_half_even :: "rat \<Rightarrow> int" where
  "round_half_even x =
     (let f = \<lfloor>x\<rfloor>; d = x - of_int f
      in if d < 1 / 2 then f else if 1 / 2 < d then f + 1 else if even f then f else f + 1)"

definition round_down :: "rat \<Rightarrow> int" where
  "round_down x = (if 0 \<le> x then \<lfloor>x\<rfloor> else - \<lfloor>- x\<rfloor>)"

lemma round_half_even_bounds: "\<lfloor>x\<rfloor> \<le> round_half_even x" "round_half_even x \<le> \<lfloor>x\<rfloor> + 1"
  by (auto simp: round_half_even_def Let_def)

lemma round_half_even_mono: "x \<le> y \<Longrightarrow> round_half_even x \<le> round_half_even y"
proof (cases "\<lfloor>x\<rfloor> = \<lfloor>y\<rfloor>")
  case True
  assume "x \<le> y"
  with True show ?thesis by (auto simp: round_half_even_def Let_def)
next
  case False
  assume "x \<le> y"
  then have "\<lfloor>x\<rfloor> \<le> \<lfloor>y\<rfloor>" by (rule floor_mono)
  with False have "\<lfloor>x\<rfloor> + 1 \<le> \<lfloor>y\<rfloor>" by simp
  with round_half_even_bounds(2) [of x] round_half_even_bounds(1) [of y] show ?thesis by simp
qed

lemma round_half_even_nearest: "\<bar>of_int (round_half_even x) - x\<bar> \<le> 1 / 2"
proof -
  have "of_int \<lfloor>x\<rfloor> \<le> x" "x < of_int \<lfloor>x\<rfloor> + 1" by linarith+
  then show ?thesis
    unfolding round_half_even_def Let_def by (auto simp only: abs_le_iff of_int_add of_int_1 split: if_split)
qed

lemma round_half_up_nearest: "\<bar>of_int (round_half_up x) - x\<bar> \<le> 1 / 2"
proof (cases "0 \<le> x")
  case True
  have "of_int \<lfloor>x + 1 / 2\<rfloor> \<le> x + 1 / 2" "x + 1 / 2 < of_int \<lfloor>x + 1 / 2\<rfloor> + 1" by linarith+
  then have "\<bar>of_int \<lfloor>x + 1 / 2\<rfloor> - x\<bar> \<le> 1 / 2" unfolding abs_le_iff by linarith
  with True show ?thesis by (simp add: round_half_up_def)
next
  case False
  have "of_int \<lfloor>- x + 1 / 2\<rfloor> \<le> - x + 1 / 2" "- x + 1 / 2 < of_int \<lfloor>- x + 1 / 2\<rfloor> + 1" by linarith+
  then have "\<bar>- of_int \<lfloor>- x + 1 / 2\<rfloor> - x\<bar> \<le> 1 / 2" unfolding abs_le_iff by linarith
  with False show ?thesis by (simp add: round_half_up_def)
qed

lemma floor_of_int_half: "\<lfloor>of_int k + 1 / 2 :: rat\<rfloor> = k"
  by linarith

lemma round_half_up_int: "round_half_up (of_int k) = k"
  using floor_of_int_half [of k] floor_of_int_half [of "- k"] by (simp add: round_half_up_def)

lemma round_half_up_mono: "x \<le> y \<Longrightarrow> round_half_up x \<le> round_half_up y"
proof -
  assume xy: "x \<le> y"
  consider "0 \<le> x" | "x < 0" "0 \<le> y" | "y < 0" using xy by linarith
  then show ?thesis
  proof cases
    case 1
    with xy show ?thesis by (simp add: round_half_up_def floor_mono)
  next
    case 2
    have "0 \<le> \<lfloor>- x + 1 / 2\<rfloor>" "0 \<le> \<lfloor>y + 1 / 2\<rfloor>" using 2 unfolding zero_le_floor by linarith+
    then have "- \<lfloor>- x + 1 / 2\<rfloor> \<le> \<lfloor>y + 1 / 2\<rfloor>" by linarith
    with 2 show ?thesis by (simp add: round_half_up_def)
  next
    case 3
    with xy show ?thesis by (simp add: round_half_up_def floor_mono)
  qed
qed

lemma round_down_mono: "x \<le> y \<Longrightarrow> round_down x \<le> round_down y"
proof -
  assume xy: "x \<le> y"
  consider "0 \<le> x" | "x < 0" "0 \<le> y" | "y < 0" using xy by linarith
  then show ?thesis
  proof cases
    case 1
    with xy show ?thesis by (simp add: round_down_def floor_mono)
  next
    case 2
    have "0 \<le> \<lfloor>- x\<rfloor>" "0 \<le> \<lfloor>y\<rfloor>" using 2 unfolding zero_le_floor by linarith+
    then have "- \<lfloor>- x\<rfloor> \<le> \<lfloor>y\<rfloor>" by linarith
    with 2 show ?thesis by (simp add: round_down_def)
  next
    case 3
    with xy show ?thesis by (simp add: round_down_def floor_mono)
  qed
qed

interpretation half_up: nearest_rounding round_half_up
  by unfold_locales (rule round_half_up_int, erule round_half_up_mono, rule round_half_up_nearest)

interpretation half_even: nearest_rounding round_half_even
  by unfold_locales
    (simp add: round_half_even_def, erule round_half_even_mono, rule round_half_even_nearest)

interpretation down: rounding round_down
  by unfold_locales (simp add: round_down_def flip: of_int_minus, simp add: round_down_mono)

lemma round_down_le: "0 \<le> x \<Longrightarrow> of_int (round_down x) \<le> x"
  by (simp add: round_down_def)

lemma round_half_even_minus: "round_half_even (- x) = - round_half_even x"
proof (cases "x = of_int \<lfloor>x\<rfloor>")
  case True
  then show ?thesis by (metis half_even.rnd_int of_int_minus)
next
  case False
  then have "\<lfloor>- x\<rfloor> = - \<lfloor>x\<rfloor> - 1" by linarith
  then show ?thesis by (auto simp: round_half_even_def Let_def)
qed

section \<open>Fixed-point grids and quantize\<close>

definition on_grid :: "nat \<Rightarrow> decimal \<Rightarrow> bool" where
  "on_grid n x \<longleftrightarrow> of_int \<lfloor>x * 10 ^ n\<rfloor> = x * 10 ^ n"

definition quantize :: "(rat \<Rightarrow> int) \<Rightarrow> nat \<Rightarrow> decimal \<Rightarrow> decimal" where
  "quantize rnd n x = of_int (rnd (x * 10 ^ n)) / 10 ^ n"

lemma on_grid_iff: "on_grid n x \<longleftrightarrow> (\<exists>k. x = of_int k / 10 ^ n)"
proof
  assume "on_grid n x"
  then have "of_int \<lfloor>x * 10 ^ n\<rfloor> = x * 10 ^ n" unfolding on_grid_def .
  moreover have "x = x * 10 ^ n / 10 ^ n" by simp
  ultimately show "\<exists>k. x = of_int k / 10 ^ n" by metis
next
  assume "\<exists>k. x = of_int k / 10 ^ n"
  then show "on_grid n x" by (auto simp: on_grid_def)
qed

lemma on_gridE: "on_grid n x \<Longrightarrow> (\<And>k. x = of_int k / 10 ^ n \<Longrightarrow> P) \<Longrightarrow> P"
  by (auto simp: on_grid_iff)

lemma on_grid_of_int [simp]: "on_grid n (of_int k / 10 ^ n)"
  by (auto simp: on_grid_iff)

lemma on_grid_0 [simp]: "on_grid n 0"
  by (simp add: on_grid_def)

lemma on_grid_add [intro]: "on_grid n x \<Longrightarrow> on_grid n y \<Longrightarrow> on_grid n (x + y)"
  unfolding on_grid_iff by (metis add_divide_distrib of_int_add)

lemma on_grid_minus [intro]: "on_grid n x \<Longrightarrow> on_grid n (- x)"
  unfolding on_grid_iff by (metis minus_divide_left of_int_minus)

lemma on_grid_diff [intro]: "on_grid n x \<Longrightarrow> on_grid n y \<Longrightarrow> on_grid n (x - y)"
  using on_grid_add [of n x "- y"] by auto

lemma on_grid_mult:
  assumes "on_grid m x" "on_grid n y"
  shows "on_grid (m + n) (x * y)"
proof -
  obtain i j where "x = of_int i / 10 ^ m" "y = of_int j / 10 ^ n"
    using assms by (auto simp: on_grid_iff)
  then have "x * y = of_int (i * j) / 10 ^ (m + n)" by (simp add: power_add)
  then show ?thesis unfolding on_grid_iff by blast
qed

lemma on_grid_0_of_int [simp]: "on_grid 0 (of_int k)" and on_grid_0_numeral [simp]: "on_grid 0 (numeral j)"
  by (simp_all add: on_grid_def)

lemma on_grid_mult_numeral [intro]: "on_grid n x \<Longrightarrow> on_grid n (x * numeral j)"
  using on_grid_mult [of n x 0 "numeral j"] by simp

lemma on_grid_sum_list [intro]: "(\<And>x. x \<in> set xs \<Longrightarrow> on_grid n (f x)) \<Longrightarrow> on_grid n (\<Sum>x\<leftarrow>xs. f x)"
  by (induction xs) auto

lemma on_grid_min [intro]: "on_grid n x \<Longrightarrow> on_grid n y \<Longrightarrow> on_grid n (min x y)"
  by (simp add: min_def)

text \<open>Two values of one grid that are closer than a step are equal.\<close>

lemma on_grid_close:
  assumes "on_grid n x" "on_grid n y" "\<bar>x - y\<bar> < 1 / 10 ^ n"
  shows "x = y"
proof -
  obtain i j where ij: "x = of_int i / 10 ^ n" "y = of_int j / 10 ^ n"
    using assms(1,2) by (auto simp: on_grid_iff)
  then have "x - y = of_int (i - j) / 10 ^ n" by (simp add: diff_divide_distrib)
  then have "\<bar>of_int (i - j) :: rat\<bar> / 10 ^ n < 1 / 10 ^ n" using assms(3) by simp
  then have "\<bar>of_int (i - j) :: rat\<bar> < 1" by (simp add: divide_less_cancel)
  then have "i = j" by linarith
  then show ?thesis using ij by simp
qed

lemma on_grid_le_iff:
  assumes "on_grid n x" "on_grid n y"
  shows "x < y \<longleftrightarrow> x + 1 / 10 ^ n \<le> y"
proof -
  obtain i j where "x = of_int i / 10 ^ n" "y = of_int j / 10 ^ n"
    using assms by (auto simp: on_grid_iff)
  moreover have "(of_int i :: rat) < of_int j \<longleftrightarrow> of_int i + 1 \<le> (of_int j :: rat)"
    by (metis of_int_1 of_int_add of_int_le_iff of_int_less_iff zless_imp_add1_zle zle_add1_eq_le
        less_add_one order_less_le_trans)
  ultimately show ?thesis by (simp add: divide_less_cancel divide_le_cancel flip: add_divide_distrib)
qed

context rounding
begin

lemma quantize_grid: "on_grid n (quantize rnd n x)"
  by (simp add: quantize_def)

lemma quantize_id: "on_grid n x \<Longrightarrow> quantize rnd n x = x"
  by (auto simp: quantize_def rnd_int elim!: on_gridE)

lemma quantize_mono: "x \<le> y \<Longrightarrow> quantize rnd n x \<le> quantize rnd n y"
  by (simp add: quantize_def divide_right_mono rnd_mono mult_right_mono)

lemma quantize_0: "quantize rnd n 0 = 0"
  by (simp add: quantize_def rnd_0)

lemma quantize_nonneg: "0 \<le> x \<Longrightarrow> 0 \<le> quantize rnd n x"
  using quantize_mono [of 0 x n] by (simp add: quantize_0)

lemma quantize_close: "\<bar>quantize rnd n x - x\<bar> < 1 / 10 ^ n"
proof -
  have "quantize rnd n x - x = (of_int (rnd (x * 10 ^ n)) - x * 10 ^ n) / 10 ^ n"
    by (simp add: quantize_def field_simps)
  then show ?thesis using rnd_close [of "x * 10 ^ n"] by (simp add: divide_strict_right_mono)
qed

lemma quantize_le_grid: "on_grid n y \<Longrightarrow> x \<le> y \<Longrightarrow> quantize rnd n x \<le> y"
  using quantize_mono [of x y n] by (simp add: quantize_id)

lemma quantize_ge_grid: "on_grid n y \<Longrightarrow> y \<le> x \<Longrightarrow> y \<le> quantize rnd n x"
  using quantize_mono [of y x n] by (simp add: quantize_id)

end

context nearest_rounding
begin

lemma quantize_nearest: "\<bar>quantize rnd n x - x\<bar> \<le> 1 / (2 * 10 ^ n)"
proof -
  have "quantize rnd n x - x = (of_int (rnd (x * 10 ^ n)) - x * 10 ^ n) / 10 ^ n"
    by (simp add: quantize_def field_simps)
  then show ?thesis
    using rnd_nearest [of "x * 10 ^ n"] divide_right_mono [of _ "1 / 2" "10 ^ n"] by simp
qed

end

lemma quantize_down_le: "0 \<le> x \<Longrightarrow> quantize round_down n x \<le> x"
  using round_down_le [of "x * 10 ^ n"] by (simp add: quantize_def field_simps)

section \<open>The 28-digit context\<close>

text \<open>The number of decimal digits of an integer that is not negative.\<close>

function ndigits :: "int \<Rightarrow> nat" where
  "ndigits n = (if n < 10 then 1 else Suc (ndigits (n div 10)))"
  by pat_completeness auto
termination
  by (relation "measure nat") auto

declare ndigits.simps [simp del]

text \<open>\<open>Decimal.adjusted\<close>: the exponent of the most significant digit.\<close>

definition adjusted :: "rat \<Rightarrow> int" where
  "adjusted x =
     (if 1 \<le> \<bar>x\<bar> then int (ndigits \<lfloor>\<bar>x\<bar>\<rfloor>) - 1
      else - int (ndigits (\<lceil>1 / \<bar>x\<bar>\<rceil> - 1)))"

definition ctx_round :: "rat \<Rightarrow> decimal" where
  "ctx_round x =
     (if x = 0 then 0
      else let e = adjusted x - 27 in of_int (round_half_even (x / 10 powi e)) * 10 powi e)"

definition dmul :: "decimal \<Rightarrow> decimal \<Rightarrow> decimal" where
  "dmul x y = ctx_round (x * y)"

definition ddiv :: "decimal \<Rightarrow> decimal \<Rightarrow> decimal" where
  "ddiv x y = ctx_round (x / y)"

lemma ndigits_pos: "1 \<le> ndigits n"
  by (subst ndigits.simps) simp

lemma ndigits_upper: "n < 10 ^ ndigits n"
proof (induction n rule: ndigits.induct)
  case (1 n)
  show ?case
  proof (cases "n < 10")
    case True
    then show ?thesis by (simp add: ndigits.simps [of n])
  next
    case False
    with "1.IH" have "n div 10 < 10 ^ ndigits (n div 10)" by simp
    then have "n div 10 + 1 \<le> 10 ^ ndigits (n div 10)" by simp
    then have "10 * (n div 10) + 10 \<le> 10 * 10 ^ ndigits (n div 10)" by simp
    moreover have "n < 10 * (n div 10) + 10" by presburger
    ultimately have "n < 10 * 10 ^ ndigits (n div 10)" by linarith
    with False show ?thesis by (simp add: ndigits.simps [of n])
  qed
qed

lemma ndigits_lower: "1 \<le> n \<Longrightarrow> 10 ^ (ndigits n - 1) \<le> n"
proof (induction n rule: ndigits.induct)
  case (1 n)
  show ?case
  proof (cases "n < 10")
    case True
    with "1.prems" show ?thesis by (simp add: ndigits.simps [of n])
  next
    case False
    with "1.IH" have "10 ^ (ndigits (n div 10) - 1) \<le> n div 10" by simp
    then have "10 * 10 ^ (ndigits (n div 10) - 1) \<le> 10 * (n div 10)" by simp
    also have "10 * (n div 10) \<le> n" by presburger
    finally have "10 * 10 ^ (ndigits (n div 10) - 1) \<le> n" .
    moreover have "Suc (ndigits (n div 10) - 1) = ndigits (n div 10)"
      using ndigits_pos [of "n div 10"] by simp
    ultimately have "10 ^ ndigits (n div 10) \<le> n" by (metis power_Suc)
    with False show ?thesis by (simp add: ndigits.simps [of n])
  qed
qed

lemma adjusted_bounds:
  assumes "x \<noteq> 0"
  shows "10 powi adjusted x \<le> \<bar>x\<bar>" "\<bar>x\<bar> < 10 powi (adjusted x + 1)"
proof -
  have "10 powi adjusted x \<le> \<bar>x\<bar> \<and> \<bar>x\<bar> < 10 powi (adjusted x + 1)"
  proof (cases "1 \<le> \<bar>x\<bar>")
    case True
    define n where "n = \<lfloor>\<bar>x\<bar>\<rfloor>"
    have "1 \<le> n" using True unfolding n_def one_le_floor .
    have n: "of_int n \<le> \<bar>x\<bar>" "\<bar>x\<bar> < of_int n + 1" unfolding n_def by linarith+
    have adj: "adjusted x = int (ndigits n - 1)" "adjusted x + 1 = int (ndigits n)"
      using True ndigits_pos [of n] by (simp_all add: adjusted_def n_def of_nat_diff)
    have "of_int (10 ^ (ndigits n - 1)) \<le> (of_int n :: rat)"
      unfolding of_int_le_iff using \<open>1 \<le> n\<close> by (rule ndigits_lower)
    moreover have "of_int (n + 1) \<le> (of_int (10 ^ ndigits n) :: rat)"
      unfolding of_int_le_iff using ndigits_upper [of n] by simp
    ultimately have "(10::rat) ^ (ndigits n - 1) \<le> of_int n" "of_int n + 1 \<le> (10::rat) ^ ndigits n"
      by simp_all
    then show ?thesis using n unfolding adj(2) unfolding adj(1) power_int_of_nat by linarith
  next
    case False
    define y where "y = 1 / \<bar>x\<bar>"
    have xp: "0 < \<bar>x\<bar>" using assms by simp
    then have y1: "1 < y" using False by (simp add: y_def)
    define n where "n = \<lceil>y\<rceil> - 1"
    have "1 < \<lceil>y\<rceil>" using y1 by (simp add: less_ceiling_iff)
    then have nn: "1 \<le> n" by (simp add: n_def)
    have n: "of_int n < y" "y \<le> of_int n + 1" unfolding n_def by linarith+
    obtain k where k: "ndigits n = Suc k" using ndigits_pos [of n] by (cases "ndigits n") auto
    have adj: "adjusted x = - int (Suc k)" "adjusted x + 1 = - int k"
      using False k by (simp_all add: adjusted_def n_def y_def)
    have "of_int (10 ^ k) \<le> (of_int n :: rat)"
      unfolding of_int_le_iff using ndigits_lower [OF nn] by (simp add: k)
    then have "10 ^ k \<le> (of_int n :: rat)" unfolding of_int_power of_int_numeral .
    then have 1: "10 ^ k < y" using n(1) by linarith
    have "of_int (n + 1) \<le> (of_int (10 ^ Suc k) :: rat)"
      unfolding of_int_le_iff using ndigits_upper [of n] by (simp add: k)
    then have 2: "y \<le> 10 ^ Suc k" using n(2) by simp
    have xy: "\<bar>x\<bar> = 1 / y" by (simp add: y_def)
    have "1 / 10 ^ Suc k \<le> 1 / y" using 2 y1 by (intro divide_left_mono) auto
    moreover have "1 / y < 1 / 10 ^ k" using 1 y1 by (intro divide_strict_left_mono) auto
    ultimately show ?thesis
      unfolding xy adj(2) unfolding adj(1) power_int_minus power_int_of_nat
      by (simp only: inverse_eq_divide)
  qed
  then show "10 powi adjusted x \<le> \<bar>x\<bar>" "\<bar>x\<bar> < 10 powi (adjusted x + 1)" by simp_all
qed

lemma power_int_10_less: "(10::rat) powi a < 10 powi b \<Longrightarrow> a < b"
proof (rule ccontr)
  assume *: "(10::rat) powi a < 10 powi b" "\<not> a < b"
  then have "(10::rat) powi b \<le> 10 powi a" by (intro power_int_increasing) auto
  with * show False by simp
qed

lemma ctx_round_0 [simp]: "ctx_round 0 = 0"
  by (simp add: ctx_round_def)

lemma adjusted_minus: "adjusted (- x) = adjusted x"
  by (simp add: adjusted_def)

lemma ctx_round_minus: "ctx_round (- x) = - ctx_round x"
  by (simp add: ctx_round_def adjusted_minus round_half_even_minus Let_def)

text \<open>The relative error of a rounded result is below \<open>5 / 10 ^ 28\<close>.\<close>

lemma ctx_round_error: "\<bar>ctx_round x - x\<bar> \<le> \<bar>x\<bar> / (2 * 10 ^ 27)"
proof (cases "x = 0")
  case False
  define p :: rat where "p = 10 powi (adjusted x - 27)"
  have p: "0 < p" by (simp add: p_def)
  have c: "ctx_round x = of_int (round_half_even (x / p)) * p"
    using False by (simp add: ctx_round_def p_def Let_def)
  then have "ctx_round x - x = (of_int (round_half_even (x / p)) - x / p) * p"
    using p by (simp add: field_simps)
  then have "\<bar>ctx_round x - x\<bar> = \<bar>of_int (round_half_even (x / p)) - x / p\<bar> * p"
    using p by (simp add: abs_mult)
  also have "\<dots> \<le> 1 / 2 * p"
    using p half_even.rnd_nearest by (intro mult_right_mono) auto
  also have "p = 10 powi adjusted x / 10 ^ 27"
    unfolding p_def by (simp add: power_int_diff)
  also have "1 / 2 * (10 powi adjusted x / 10 ^ 27) \<le> \<bar>x\<bar> / (2 * 10 ^ 27)"
    using adjusted_bounds(1) [OF False] by (simp add: field_simps)
  finally show ?thesis .
qed simp

text \<open>A value that needs at most 28 digits is represented exactly.\<close>

lemma ctx_round_grid:
  assumes "on_grid n x" and "\<bar>x\<bar> * 10 ^ n < 10 ^ 28"
  shows "ctx_round x = x"
proof (cases "x = 0")
  case False
  obtain k where k: "x = of_int k / 10 ^ n" using assms(1) by (auto simp: on_grid_iff)
  define e where "e = adjusted x - 27"
  have "10 powi (e + 27) * 10 ^ n \<le> \<bar>x\<bar> * 10 ^ n"
    using adjusted_bounds(1) [OF False] by (simp add: e_def)
  then have "10 powi (e + 27) * 10 powi int n < (10 ^ 28 :: rat)"
    using assms(2) unfolding power_int_of_nat by linarith
  then have "(10::rat) powi (e + 27 + int n) < 10 powi 28"
    by (simp add: power_int_add del: power_int_add_numeral)
  then have "e + 27 + int n < 28" by (rule power_int_10_less)
  then have "e \<le> - int n" by simp
  then obtain d where d: "- int n - e = int d" using zero_le_imp_eq_int [of "- int n - e"] by auto
  have "x / 10 powi e = of_int k * (10 powi (- int n) / 10 powi e)"
    using k by (simp add: power_int_minus field_simps)
  also have "10 powi (- int n) / 10 powi e = (10::rat) powi (int d)"
    by (simp add: d [symmetric] power_int_diff)
  finally have "x / 10 powi e = of_int (k * 10 ^ d)" by simp
  then have "round_half_even (x / 10 powi e) = k * 10 ^ d"
    by (metis half_even.rnd_int)
  with \<open>x / 10 powi e = of_int (k * 10 ^ d)\<close> have "of_int (round_half_even (x / 10 powi e)) = x / 10 powi e"
    by simp
  then show ?thesis using False by (simp add: ctx_round_def e_def [symmetric] Let_def)
qed simp

text \<open>An equation for evaluation: what has few digits is not rounded.\<close>

lemma ctx_round_code [code]:
  "ctx_round x =
     (if on_grid 6 x \<and> \<bar>x\<bar> * 10 ^ 6 < 10 ^ 28 then x
      else if x = 0 then 0
      else let e = adjusted x - 27 in of_int (round_half_even (x / 10 powi e)) * 10 powi e)"
  using ctx_round_grid [of 6 x] by (simp add: ctx_round_def)

lemma ctx_round_nonneg: "0 \<le> x \<Longrightarrow> 0 \<le> ctx_round x"
  by (auto simp: ctx_round_def Let_def intro!: mult_nonneg_nonneg half_even.rnd_nonneg)

lemma ctx_round_bounds_pos:
  assumes "0 < x"
  shows "10 powi adjusted x \<le> ctx_round x" "ctx_round x \<le> 10 powi (adjusted x + 1)"
proof -
  define e where "e = adjusted x - 27"
  define p :: rat where "p = 10 powi e"
  have p: "0 < p" by (simp add: p_def)
  have lo: "10 powi adjusted x = of_int (10 ^ 27) * p" and hi: "10 powi (adjusted x + 1) = of_int (10 ^ 28) * p"
    by (simp_all add: p_def e_def power_int_diff power_int_add)
  have c: "ctx_round x = of_int (round_half_even (x / p)) * p"
    using assms by (simp add: ctx_round_def p_def e_def Let_def)
  have "of_int (10 ^ 27) \<le> x / p" "x / p \<le> of_int (10 ^ 28)"
    using adjusted_bounds [of x] assms p unfolding lo hi by (simp_all add: field_simps)
  then have "10 ^ 27 \<le> round_half_even (x / p)" "round_half_even (x / p) \<le> 10 ^ 28"
    using half_even.rnd_ge half_even.rnd_le by blast+
  then have "(of_int (10 ^ 27) :: rat) \<le> of_int (round_half_even (x / p))"
    "(of_int (round_half_even (x / p)) :: rat) \<le> of_int (10 ^ 28)"
    unfolding of_int_le_iff .
  then show "10 powi adjusted x \<le> ctx_round x" "ctx_round x \<le> 10 powi (adjusted x + 1)"
    unfolding lo hi c using p by (auto intro: mult_right_mono)
qed

lemma ctx_round_mono_pos:
  assumes "0 < x" "x \<le> y"
  shows "ctx_round x \<le> ctx_round y"
proof (cases "adjusted x = adjusted y")
  case True
  have "x / 10 powi (adjusted y - 27) \<le> y / 10 powi (adjusted y - 27)"
    using assms(2) by (simp add: divide_right_mono)
  then show ?thesis using assms True
    by (simp add: ctx_round_def Let_def mult_right_mono half_even.rnd_mono)
next
  case False
  have "(10::rat) powi adjusted x < 10 powi (adjusted y + 1)"
    using adjusted_bounds(1) [of x] adjusted_bounds(2) [of y] assms by auto
  then have "adjusted x < adjusted y + 1"
    by (rule power_int_10_less)
  with False have "adjusted x + 1 \<le> adjusted y" by simp
  then have "(10::rat) powi (adjusted x + 1) \<le> 10 powi adjusted y"
    by (intro power_int_increasing) auto
  then show ?thesis
    using ctx_round_bounds_pos(2) [of x] ctx_round_bounds_pos(1) [of y] assms by linarith
qed

lemma ctx_round_mono: "x \<le> y \<Longrightarrow> ctx_round x \<le> ctx_round y"
proof -
  assume xy: "x \<le> y"
  consider "0 < x" | "x \<le> 0" "0 \<le> y" | "y < 0" by linarith
  then show ?thesis
  proof cases
    case 1
    then show ?thesis using xy by (rule ctx_round_mono_pos)
  next
    case 2
    then have "0 \<le> ctx_round (- x)" "0 \<le> ctx_round y" by (simp_all add: ctx_round_nonneg)
    then show ?thesis by (simp add: ctx_round_minus)
  next
    case 3
    then have "ctx_round (- y) \<le> ctx_round (- x)" using xy by (intro ctx_round_mono_pos) auto
    then show ?thesis by (simp add: ctx_round_minus)
  qed
qed

lemma dmul_nonneg: "0 \<le> x \<Longrightarrow> 0 \<le> y \<Longrightarrow> 0 \<le> dmul x y"
  by (simp add: dmul_def ctx_round_nonneg)

lemma ddiv_nonneg: "0 \<le> x \<Longrightarrow> 0 \<le> y \<Longrightarrow> 0 \<le> ddiv x y"
  by (simp add: ddiv_def ctx_round_nonneg)

lemma dmul_0 [simp]: "dmul 0 y = 0" "dmul x 0 = 0"
  by (simp_all add: dmul_def)

lemma ddiv_0 [simp]: "ddiv 0 y = 0"
  by (simp add: ddiv_def)

end
