(* ===== verification/Exceptions.thy ===== *)
theory Exceptions
  imports Prelude
begin

text \<open>
  \<open>app/core/exceptions.py\<close> and the exception handlers of \<open>app/core/middleware.py\<close>: the classes
  of domain errors with their HTTP status and default code, the built-in exceptions the code
  raises or lets escape, and the envelope the client receives. Messages are left out: they are
  formatted text that no branch of the code reads back.
\<close>

section \<open>The exception hierarchy\<close>

datatype error_class =
    AppError
  | ValidationError
  | AuthenticationError
  | PermissionDeniedError
  | NotFoundError
  | ConflictError
  | BusinessRuleError
  | RateLimitExceeded

fun status_code :: "error_class \<Rightarrow> nat" where
  "status_code AppError = 400"
| "status_code ValidationError = 422"
| "status_code AuthenticationError = 401"
| "status_code PermissionDeniedError = 403"
| "status_code NotFoundError = 404"
| "status_code ConflictError = 409"
| "status_code BusinessRuleError = 422"
| "status_code RateLimitExceeded = 429"

fun default_code :: "error_class \<Rightarrow> string" where
  "default_code AppError = ''app_error''"
| "default_code ValidationError = ''validation_error''"
| "default_code AuthenticationError = ''authentication_error''"
| "default_code PermissionDeniedError = ''permission_denied''"
| "default_code NotFoundError = ''not_found''"
| "default_code ConflictError = ''conflict''"
| "default_code BusinessRuleError = ''business_rule_violation''"
| "default_code RateLimitExceeded = ''rate_limited''"

text \<open>
  Everything a request can raise: the built-in exceptions, the \<open>InsufficientStockError\<close> of
  \<open>inventory/fefo.py\<close> with the requested and the available quantity, and an \<open>AppError\<close> with its
  class and the machine-readable code it carries.
\<close>

datatype exn =
    ValueError
  | TypeError
  | KeyError
  | InvalidOperation
  | VerificationError
  | ZeroDivisionError
  | IntegrityError
  | InsufficientStockError decimal decimal
  | App error_class string

type_synonym 'a res = "exn + 'a"

text \<open>\<open>AppError.__init__\<close>: the class's code unless the caller passes one.\<close>

definition app_error :: "error_class \<Rightarrow> string option \<Rightarrow> exn" where
  "app_error c code = App c (case code of None \<Rightarrow> default_code c | Some k \<Rightarrow> k)"

abbreviation business :: "string \<Rightarrow> exn" where
  "business code \<equiv> App BusinessRuleError code"

abbreviation business_rule :: exn where
  "business_rule \<equiv> App BusinessRuleError ''business_rule_violation''"

abbreviation not_found :: exn where
  "not_found \<equiv> App NotFoundError ''not_found''"

section \<open>The client envelope\<close>

record envelope =
  ev_code :: string
  ev_correlation_id :: "string option"

definition build_error_body :: "string \<Rightarrow> string option \<Rightarrow> envelope" where
  "build_error_body code correlation_id = \<lparr>ev_code = code, ev_correlation_id = correlation_id\<rparr>"

text \<open>
  \<open>register_exception_handlers\<close>: an \<open>AppError\<close> is answered with its own status and code, every
  other exception with 500 and \<open>internal_error\<close>.
\<close>

fun handle_exception :: "string option \<Rightarrow> exn \<Rightarrow> nat \<times> envelope" where
  "handle_exception cid (App c code) = (status_code c, build_error_body code cid)"
| "handle_exception cid _ = (500, build_error_body ''internal_error'' cid)"

section \<open>One request, one transaction\<close>

text \<open>
  \<open>get_session\<close> rolls back when the handler raises; the handler's own \<open>session.commit()\<close> makes
  the new state the database. The reply is the handler's value or the handled exception.
\<close>

definition run_request ::
  "string option \<Rightarrow> ('s \<Rightarrow> ('a \<times> 's) res) \<Rightarrow> 's \<Rightarrow> ((nat \<times> envelope) + 'a) \<times> 's" where
  "run_request cid handler db =
     (case handler db of
        Inl e \<Rightarrow> (Inl (handle_exception cid e), db)
      | Inr (a, db') \<Rightarrow> (Inr a, db'))"

lemma run_request_rollback: "handler db = Inl e \<Longrightarrow> snd (run_request cid handler db) = db"
  by (simp add: run_request_def)

lemma run_request_commit:
  "handler db = Inr (a, db') \<Longrightarrow> run_request cid handler db = (Inr a, db')"
  by (simp add: run_request_def)

text \<open>A sequence of requests, each in its own transaction.\<close>

definition serve :: "('x \<Rightarrow> 's \<Rightarrow> ('a \<times> 's) res) \<Rightarrow> 'x list \<Rightarrow> 's \<Rightarrow> 's" where
  "serve handler xs s = foldl (\<lambda>s x. snd (run_request None (handler x) s)) s xs"

text \<open>
  The contract of the handlers over one state: what every successful call with an admissible
  argument keeps, requests keep whether they succeed or not, in any order and number.
\<close>

locale handler_contract =
  fixes inv_ok :: "'s \<Rightarrow> bool"
    and admissible :: "'x \<Rightarrow> bool"
    and handler :: "'x \<Rightarrow> 's \<Rightarrow> ('a \<times> 's) res"
  assumes handler_keeps: "admissible x \<Longrightarrow> inv_ok s \<Longrightarrow> handler x s = Inr (a, t) \<Longrightarrow> inv_ok t"
begin

lemma request_keeps: "admissible x \<Longrightarrow> inv_ok s \<Longrightarrow> inv_ok (snd (run_request cid (handler x) s))"
  by (auto simp: run_request_def handler_keeps split: sum.split)

lemma serve_keeps: "\<forall>x \<in> set xs. admissible x \<Longrightarrow> inv_ok s \<Longrightarrow> inv_ok (serve handler xs s)"
  by (induction xs arbitrary: s) (simp_all add: serve_def request_keeps)

end

lemma handle_exception_leaks_nothing:
  "fst (handle_exception cid e) = 500 \<Longrightarrow> ev_code (snd (handle_exception cid e)) = ''internal_error''"
proof (cases e)
  case (App c code)
  assume "fst (handle_exception cid e) = 500"
  with App show ?thesis by (cases c) simp_all
qed (simp_all add: build_error_body_def)

end
