(* ===== verification/Money.thy ===== *)
theory Money
  imports Decimals Exceptions
begin

text \<open>
  The money kernel, \<open>app/common/money/decimal.py\<close>: amounts quantised to two places half-up,
  discounts, tax on top of and inside an amount, and the split of a total over weights by
  largest remainders. Products and quotients go through the 28-digit context of
  theory \<open>Decimals\<close>.
\<close>

section \<open>The functions\<close>

definition CURRENCY_QUANTUM :: decimal where
  "CURRENCY_QUANTUM = 1 / 100"

definition quantize_money :: "decimal \<Rightarrow> decimal" where
  "quantize_money amount = quantize round_half_up 2 amount"

definition quantize_rate :: "decimal \<Rightarrow> decimal" where
  "quantize_rate rate = quantize round_half_up 4 rate"

text \<open>
  \<open>Money\<close> accepts a Decimal, an int or a str and refuses a float. A str stands for what
  \<open>Decimal(str)\<close> reads in it, if anything.
\<close>

datatype numeric = NumDecimal decimal | NumInt int | NumStr "decimal option" | NumFloat rat

fun money_of :: "numeric \<Rightarrow> decimal res" where
  "money_of (NumFloat _) = Inl TypeError"
| "money_of (NumDecimal d) = Inr (quantize_money d)"
| "money_of (NumInt i) = Inr (quantize_money (of_int i))"
| "money_of (NumStr None) = Inl InvalidOperation"
| "money_of (NumStr (Some d)) = Inr (quantize_money d)"

text \<open>Every call in the services passes a Decimal.\<close>

definition Money :: "decimal \<Rightarrow> decimal" where
  "Money value = quantize_money value"

definition apply_percentage_discount :: "decimal \<Rightarrow> decimal \<Rightarrow> decimal res" where
  "apply_percentage_discount amount percent =
     (if percent < 0 \<or> 100 < percent then Inl ValueError
      else let factor = ddiv (100 - percent) 100
           in Inr (quantize_money (dmul amount factor)))"

definition tax_on_exclusive :: "decimal \<Rightarrow> decimal \<Rightarrow> decimal res" where
  "tax_on_exclusive amount gst_percent =
     (if gst_percent < 0 then Inl ValueError
      else Inr (quantize_money (ddiv (dmul amount gst_percent) 100)))"

definition split_tax_from_inclusive :: "decimal \<Rightarrow> decimal \<Rightarrow> (decimal \<times> decimal) res" where
  "split_tax_from_inclusive gross gst_percent =
     (if gst_percent < 0 then Inl ValueError
      else let net = quantize_money (ddiv (dmul gross 100) (100 + gst_percent));
               tax = quantize_money (gross - net)
           in Inr (net, tax))"

text \<open>
  \<open>allocate\<close>: floor every proportional share to the paisa, then hand the missing pennies to the
  largest remainders in turn. \<open>fractional\<close> is the list of indices by decreasing remainder (a
  stable sort), and the loop adds one penny to the index at position \<open>k mod n\<close>.
\<close>

definition raw_shares :: "decimal \<Rightarrow> decimal list \<Rightarrow> decimal list" where
  "raw_shares tot weights = map (\<lambda>w. ddiv (dmul tot w) (sum_list weights)) weights"

definition fractional_order :: "decimal list \<Rightarrow> decimal list \<Rightarrow> nat list" where
  "fractional_order raw floored = sort_key (\<lambda>i. - (raw ! i - floored ! i)) [0..<length raw]"

fun spread_pennies :: "nat list \<Rightarrow> nat \<Rightarrow> decimal list \<Rightarrow> decimal list" where
  "spread_pennies fractional 0 floored = floored"
| "spread_pennies fractional (Suc k) floored =
     (let fl = spread_pennies fractional k floored;
          i = fractional ! (k mod length floored)
      in fl[i := fl ! i + CURRENCY_QUANTUM])"

definition allocate :: "decimal \<Rightarrow> decimal list \<Rightarrow> decimal list res" where
  "allocate tot weights =
     (if weights = [] then Inl ValueError
      else if \<exists>w \<in> set weights. w < 0 then Inl ValueError
      else if sum_list weights = 0 then Inr ((map (\<lambda>_. 0) weights)[0 := quantize_money tot])
      else let raw = raw_shares tot weights;
               floored = map (quantize round_down 2) raw;
               remainder = quantize_money (tot - sum_list floored);
               pennies = round_half_even (ddiv remainder CURRENCY_QUANTUM);
               fractional = fractional_order raw floored
           in Inr (map quantize_money (spread_pennies fractional (nat pennies) floored)))"

section \<open>Currency values\<close>

abbreviation paisa_grid :: "decimal \<Rightarrow> bool" where
  "paisa_grid x \<equiv> on_grid 2 x"

lemma Money_eq_quantize: "Money = quantize round_half_up 2"
  by (simp add: fun_eq_iff Money_def quantize_money_def)

lemmas money_defs = Money_def quantize_money_def

lemma Money_grid [simp]: "paisa_grid (Money x)"
  by (simp add: Money_eq_quantize half_up.quantize_grid)

lemma quantize_money_grid [simp]: "paisa_grid (quantize_money x)"
  by (simp add: quantize_money_def half_up.quantize_grid)

lemma Money_id: "paisa_grid x \<Longrightarrow> Money x = x"
  by (simp add: Money_eq_quantize half_up.quantize_id)

lemma quantize_money_id: "paisa_grid x \<Longrightarrow> quantize_money x = x"
  by (simp add: quantize_money_def half_up.quantize_id)

lemma Money_Money [simp]: "Money (Money x) = Money x"
  by (simp add: Money_id)

lemma Money_0 [simp]: "Money 0 = 0"
  by (simp add: Money_eq_quantize half_up.quantize_0)

lemma quantize_money_0 [simp]: "quantize_money 0 = 0"
  by (simp add: quantize_money_def half_up.quantize_0)

lemma Money_mono: "x \<le> y \<Longrightarrow> Money x \<le> Money y"
  by (simp add: Money_eq_quantize half_up.quantize_mono)

lemma Money_nonneg: "0 \<le> x \<Longrightarrow> 0 \<le> Money x"
  using Money_mono [of 0 x] by simp

lemma quantize_money_nonneg: "0 \<le> x \<Longrightarrow> 0 \<le> quantize_money x"
  using Money_nonneg by (simp add: Money_def)

lemma Money_nearest: "\<bar>Money x - x\<bar> \<le> 1 / 200"
  using half_up.quantize_nearest [of 2 x] by (simp add: Money_eq_quantize)

lemma Money_pos: "paisa_grid x \<Longrightarrow> 0 < x \<Longrightarrow> 0 < Money x"
  by (simp add: Money_id)

lemma paisa_grid_quantum [simp]: "paisa_grid CURRENCY_QUANTUM"
  by (simp add: CURRENCY_QUANTUM_def on_grid_def)

lemma Money_add_grid: "paisa_grid x \<Longrightarrow> paisa_grid y \<Longrightarrow> Money (x + y) = x + y"
  by (simp add: Money_id on_grid_add)

lemma Money_diff_grid: "paisa_grid x \<Longrightarrow> paisa_grid y \<Longrightarrow> Money (x - y) = x - y"
  by (simp add: Money_id on_grid_diff)

lemma money_of_decimal: "money_of (NumDecimal d) = Inr (Money d)"
  by (simp add: Money_def)

section \<open>Discounts and tax\<close>

lemma apply_percentage_discount_ok:
  "apply_percentage_discount amount percent = Inr net \<longleftrightarrow>
   0 \<le> percent \<and> percent \<le> 100 \<and> net = quantize_money (dmul amount (ddiv (100 - percent) 100))"
  by (auto simp: apply_percentage_discount_def Let_def)

lemma discount_grid: "apply_percentage_discount amount percent = Inr net \<Longrightarrow> paisa_grid net"
  by (auto simp: apply_percentage_discount_ok)

lemma discount_factor_le_1: "0 \<le> percent \<Longrightarrow> ddiv (100 - percent) 100 \<le> 1"
proof -
  assume "0 \<le> percent"
  then have "ctx_round ((100 - percent) / 100) \<le> ctx_round 1" by (intro ctx_round_mono) simp
  then show ?thesis using ctx_round_grid [of 0 1] by (simp add: ddiv_def on_grid_def)
qed

lemma ctx_round_amount:
  assumes "paisa_grid x" "\<bar>x\<bar> < 10 ^ 26"
  shows "ctx_round x = x"
  using assms by (intro ctx_round_grid [of 2]) auto

lemma discount_between:
  assumes "apply_percentage_discount amount percent = Inr net"
    and "paisa_grid amount" "0 \<le> amount" "amount < 10 ^ 26"
  shows "0 \<le> net" "net \<le> amount"
proof -
  let ?f = "ddiv (100 - percent) 100"
  have p: "0 \<le> percent" "percent \<le> 100" and net: "net = quantize_money (dmul amount ?f)"
    using assms(1) by (simp_all add: apply_percentage_discount_ok)
  have f: "0 \<le> ?f" "?f \<le> 1" using p by (simp_all add: ddiv_nonneg discount_factor_le_1)
  show "0 \<le> net" using f assms(3) unfolding net by (intro quantize_money_nonneg dmul_nonneg)
  have "dmul amount ?f \<le> ctx_round amount"
    unfolding dmul_def using assms(3) f by (intro ctx_round_mono) (simp add: mult_left_le)
  also have "\<dots> = amount" using assms by (intro ctx_round_amount) auto
  finally show "net \<le> amount"
    unfolding net quantize_money_def using assms(2) by (intro half_up.quantize_le_grid)
qed

lemma discount_zero:
  assumes "paisa_grid amount" "\<bar>amount\<bar> < 10 ^ 26"
  shows "apply_percentage_discount amount 0 = Inr amount"
proof -
  have "ddiv 100 100 = 1" using ctx_round_grid [of 0 1] by (simp add: ddiv_def on_grid_def)
  then show ?thesis
    using assms by (simp add: apply_percentage_discount_def dmul_def ctx_round_amount quantize_money_id)
qed

lemma discount_full: "apply_percentage_discount amount 100 = Inr 0"
  by (simp add: apply_percentage_discount_def)

lemma tax_on_exclusive_ok:
  "tax_on_exclusive amount gst = Inr tax \<longleftrightarrow>
   0 \<le> gst \<and> tax = quantize_money (ddiv (dmul amount gst) 100)"
  by (auto simp: tax_on_exclusive_def)

lemma tax_on_exclusive_grid: "tax_on_exclusive amount gst = Inr tax \<Longrightarrow> paisa_grid tax"
  by (auto simp: tax_on_exclusive_ok)

lemma tax_on_exclusive_nonneg:
  "tax_on_exclusive amount gst = Inr tax \<Longrightarrow> 0 \<le> amount \<Longrightarrow> 0 \<le> tax"
  by (auto simp: tax_on_exclusive_ok intro!: quantize_money_nonneg ddiv_nonneg dmul_nonneg)

lemma split_tax_grid:
  "split_tax_from_inclusive gross gst = Inr (net, tax) \<Longrightarrow> paisa_grid net \<and> paisa_grid tax"
  by (auto simp: split_tax_from_inclusive_def Let_def split: if_splits)

lemma split_tax_sum:
  "split_tax_from_inclusive gross gst = Inr (net, tax) \<Longrightarrow> paisa_grid gross \<Longrightarrow> net + tax = gross"
  by (auto simp: split_tax_from_inclusive_def Let_def quantize_money_id on_grid_diff split: if_splits)

lemma split_tax_nonneg:
  assumes "split_tax_from_inclusive gross gst = Inr (net, tax)"
    and "paisa_grid gross" "0 \<le> gross" "gross < 10 ^ 24"
  shows "0 \<le> net \<and> 0 \<le> tax"
proof -
  have gst: "0 \<le> gst" and net: "net = quantize_money (ddiv (dmul gross 100) (100 + gst))"
    using assms(1) by (auto simp: split_tax_from_inclusive_def Let_def split: if_splits)
  have "dmul gross 100 = gross * 100"
    unfolding dmul_def using assms(2-4)
    by (intro ctx_round_grid [of 2] on_grid_mult_numeral) auto
  then have "ddiv (dmul gross 100) (100 + gst) = ctx_round (gross * 100 / (100 + gst))"
    by (simp add: ddiv_def)
  also have "\<dots> \<le> ctx_round gross"
    using assms(3) gst by (intro ctx_round_mono) (simp add: field_simps)
  also have "\<dots> = gross" using assms by (intro ctx_round_amount) auto
  finally have "net \<le> gross"
    unfolding net quantize_money_def using assms(2) by (intro half_up.quantize_le_grid)
  moreover have "0 \<le> net"
    unfolding net using assms(3) gst by (intro quantize_money_nonneg ddiv_nonneg dmul_nonneg) auto
  ultimately show ?thesis using split_tax_sum [OF assms(1,2)] by simp
qed

text \<open>
  C26: Splitting a tax-inclusive amount loses nothing: net and tax add up to the gross amount,
  neither is negative, and the net amount is the exact one up to half a paisa and the context's
  rounding.
\<close>

theorem split_tax_reconstitutes:
  assumes "split_tax_from_inclusive gross gst = Inr (net, tax)"
    and "paisa_grid gross" "0 \<le> gross" "gross < 10 ^ 24"
  shows "net + tax = gross \<and> 0 \<le> net \<and> 0 \<le> tax \<and>
    \<bar>net - gross * 100 / (100 + gst)\<bar> \<le> 6 / 1000"
proof -
  have gst: "0 \<le> gst" and net: "net = quantize_money (ddiv (dmul gross 100) (100 + gst))"
    using assms(1) by (auto simp: split_tax_from_inclusive_def Let_def split: if_splits)
  define e where "e = gross * 100 / (100 + gst)"
  have e: "0 \<le> e" "e \<le> gross" using assms(3) gst by (simp_all add: e_def field_simps)
  have "dmul gross 100 = gross * 100"
    unfolding dmul_def using assms(2-4) by (intro ctx_round_grid [of 2] on_grid_mult_numeral) auto
  then have n: "net = quantize_money (ctx_round e)" using net by (simp add: ddiv_def e_def)
  have "\<bar>ctx_round e - e\<bar> \<le> 1 / 1000"
    using ctx_round_error [of e] e assms(4) by simp
  moreover have "\<bar>net - ctx_round e\<bar> \<le> 1 / 200"
    using Money_nearest [of "ctx_round e"] by (simp add: n Money_def)
  ultimately have "\<bar>net - e\<bar> \<le> 6 / 1000" unfolding abs_le_iff by linarith
  then show ?thesis
    using split_tax_nonneg [OF assms] split_tax_sum [OF assms(1,2)] by (simp add: e_def)
qed

theorem split_tax_reconstitutes_witness:
  "split_tax_from_inclusive 100 18 = Inr (8475 / 100, 1525 / 100) \<and>
   8475 / 100 + 1525 / 100 = (100 :: decimal) \<and> \<bar>8475 / 100 - 100 * 100 / (100 + 18)\<bar> \<le> (6 / 1000 :: decimal)"
proof -
  have *: "split_tax_from_inclusive 100 18 = Inr (8475 / 100, 1525 / 100)" by code_simp
  have "paisa_grid 100" by (simp add: on_grid_def)
  from split_tax_reconstitutes [OF * this] * show ?thesis by simp
qed

section \<open>Largest-remainder allocation\<close>

lemma length_spread [simp]: "length (spread_pennies fr k fl) = length fl"
  by (induction k) (simp_all add: Let_def)

lemma spread_grid:
  assumes "\<forall>x \<in> set fl. paisa_grid x" "fl \<noteq> []" "set fr \<subseteq> {..<length fl}" "length fr = length fl"
  shows "\<forall>x \<in> set (spread_pennies fr k fl). paisa_grid x"
proof (induction k)
  case 0
  then show ?case using assms by simp
next
  case (Suc k)
  let ?fl = "spread_pennies fr k fl" and ?i = "fr ! (k mod length fl)"
  have "k mod length fl < length fr" using assms by simp
  then have "?i \<in> set fr" by (rule nth_mem)
  then have "?i < length ?fl" using assms(3) by auto
  then have "?fl ! ?i \<in> set ?fl" by (rule nth_mem)
  then have "paisa_grid (?fl ! ?i)" using Suc.IH by simp
  then have "paisa_grid (?fl ! ?i + CURRENCY_QUANTUM)" by (rule on_grid_add) simp
  moreover have "set (spread_pennies fr (Suc k) fl) \<subseteq> insert (?fl ! ?i + CURRENCY_QUANTUM) (set ?fl)"
    by (simp add: Let_def set_update_subset_insert)
  ultimately show ?case using Suc.IH by blast
qed

lemma spread_sum:
  assumes "fl \<noteq> []" "set fr \<subseteq> {..<length fl}" "length fr = length fl"
  shows "sum_list (spread_pennies fr k fl) = sum_list fl + of_nat k / 100"
proof (induction k)
  case 0
  then show ?case by simp
next
  case (Suc k)
  let ?fl = "spread_pennies fr k fl" and ?i = "fr ! (k mod length fl)"
  have "k mod length fl < length fr" using assms by simp
  then have "?i \<in> set fr" by (rule nth_mem)
  then have "?i < length ?fl" using assms(2) by auto
  then show ?case using Suc.IH
    by (simp add: Let_def sum_list_list_update CURRENCY_QUANTUM_def add_divide_distrib)
qed

text \<open>While there are at most as many pennies as shares, no share receives two.\<close>

lemma spread_nth:
  assumes "distinct fr" "length fr = length fl" "set fr \<subseteq> {..<length fl}" "k \<le> length fl" "j < length fl"
  shows "spread_pennies fr k fl ! j = fl ! j + (if j \<in> set (take k fr) then 1 / 100 else 0)"
  using assms(4)
proof (induction k)
  case 0
  then show ?case by simp
next
  case (Suc k)
  then have k: "k < length fl" by simp
  have tk: "take (Suc k) fr = take k fr @ [fr ! k]"
    using k assms(2) by (simp add: take_Suc_conv_app_nth)
  have new: "fr ! k \<notin> set (take k fr)"
    using assms(1,2) k by (auto simp: in_set_conv_nth nth_eq_iff_index_eq)
  have "fr ! k \<in> set fr" using assms(2) k by simp
  then have "fr ! k < length fl" using assms(3) by auto
  then show ?case
    using Suc.IH k new assms(5) by (auto simp: Let_def tk CURRENCY_QUANTUM_def nth_list_update)
qed

lemma fractional_order_props:
  assumes "length fl = length raw"
  shows "distinct (fractional_order raw fl)" "length (fractional_order raw fl) = length raw"
    "set (fractional_order raw fl) = {..<length raw}"
  by (simp_all add: fractional_order_def atLeast_upt lessThan_atLeast0)

lemma ctx_round_upper: "0 \<le> x \<Longrightarrow> ctx_round x \<le> x * (1 + 1 / (2 * 10 ^ 27))"
  using ctx_round_error [of x] unfolding abs_le_iff by (simp add: field_simps)

lemma ctx_round_lower: "0 \<le> x \<Longrightarrow> x * (1 - 1 / (2 * 10 ^ 27)) \<le> ctx_round x"
  using ctx_round_error [of x] unfolding abs_le_iff by (simp add: field_simps)

lemma raw_share_bounds:
  assumes "0 \<le> tot" "0 \<le> w" "0 < W"
  shows "tot / W * w * (1 - 1 / 10 ^ 26) \<le> ddiv (dmul tot w) W"
    "ddiv (dmul tot w) W \<le> tot / W * w * (1 + 1 / 10 ^ 26)"
proof -
  define d :: rat where "d = 1 / (2 * 10 ^ 27)"
  have d: "0 < d" "d < 1" by (simp_all add: d_def)
  define p where "p = dmul tot w"
  have tw: "0 \<le> tot * w" using assms by simp
  have p: "tot * w * (1 - d) \<le> p" "p \<le> tot * w * (1 + d)" "0 \<le> p"
    using ctx_round_lower [OF tw] ctx_round_upper [OF tw] assms
    by (simp_all add: p_def dmul_def d_def ctx_round_nonneg)
  have pW: "0 \<le> p / W" using p(3) assms(3) by simp
  have "ddiv p W \<le> p / W * (1 + d)" using ctx_round_upper [OF pW] by (simp add: ddiv_def d_def)
  also have "\<dots> \<le> tot * w * (1 + d) / W * (1 + d)"
    using p(2) assms(3) d by (intro mult_right_mono divide_right_mono) auto
  also have "\<dots> = tot / W * w * ((1 + d) * (1 + d))" by simp
  also have "\<dots> \<le> tot / W * w * (1 + 1 / 10 ^ 26)"
    using assms by (intro mult_left_mono) (auto simp: d_def)
  finally show "ddiv (dmul tot w) W \<le> tot / W * w * (1 + 1 / 10 ^ 26)" by (simp add: p_def)
  have "tot / W * w * (1 - 1 / 10 ^ 26) \<le> tot / W * w * ((1 - d) * (1 - d))"
    using assms by (intro mult_left_mono) (auto simp: d_def)
  also have "\<dots> = tot * w * (1 - d) / W * (1 - d)" by simp
  also have "\<dots> \<le> p / W * (1 - d)"
    using p(1) assms(3) d by (intro mult_right_mono divide_right_mono) auto
  also have "\<dots> \<le> ddiv p W" using ctx_round_lower [OF pW] by (simp add: ddiv_def d_def)
  finally show "tot / W * w * (1 - 1 / 10 ^ 26) \<le> ddiv (dmul tot w) W" by (simp add: p_def)
qed

lemma sum_raw_shares:
  assumes "0 \<le> tot" "\<forall>w \<in> set ws. 0 \<le> w" "0 < sum_list ws"
  shows "tot * (1 - 1 / 10 ^ 26) \<le> sum_list (raw_shares tot ws)"
    "sum_list (raw_shares tot ws) \<le> tot * (1 + 1 / 10 ^ 26)"
proof -
  let ?W = "sum_list ws"
  have s: "(\<Sum>w\<leftarrow>ws. tot / ?W * w * c) = tot * c" for c
  proof -
    have "(\<Sum>w\<leftarrow>ws. tot / ?W * w * c) = tot / ?W * ?W * c"
      by (simp only: sum_list_mult_const sum_list_const_mult list.map_ident)
    then show ?thesis using assms(3) by simp
  qed
  have "(\<Sum>w\<leftarrow>ws. tot / ?W * w * (1 - 1 / 10 ^ 26)) \<le> sum_list (raw_shares tot ws)"
    unfolding raw_shares_def using assms by (intro sum_list_mono raw_share_bounds) auto
  then show "tot * (1 - 1 / 10 ^ 26) \<le> sum_list (raw_shares tot ws)" unfolding s .
  have "sum_list (raw_shares tot ws) \<le> (\<Sum>w\<leftarrow>ws. tot / ?W * w * (1 + 1 / 10 ^ 26))"
    unfolding raw_shares_def using assms by (intro sum_list_mono raw_share_bounds) auto
  then show "sum_list (raw_shares tot ws) \<le> tot * (1 + 1 / 10 ^ 26)" unfolding s .
qed

lemma sum_floored_bounds:
  fixes raw :: "rat list"
  assumes "\<forall>r \<in> set raw. 0 \<le> r"
  shows "sum_list (map (quantize round_down 2) raw) \<le> sum_list raw"
    "sum_list raw - of_nat (length raw) / 100 \<le> sum_list (map (quantize round_down 2) raw)"
proof -
  show "sum_list (map (quantize round_down 2) raw) \<le> sum_list raw"
    using assms by (induction raw) (auto intro!: add_mono quantize_down_le)
  show "sum_list raw - of_nat (length raw) / 100 \<le> sum_list (map (quantize round_down 2) raw)"
  proof (induction raw)
    case (Cons r raw)
    have "r - 1 / 100 < quantize round_down 2 r"
      using down.quantize_close [of 2 r] unfolding abs_less_iff by simp
    then show ?case using Cons.IH by (simp add: add_divide_distrib)
  qed simp
qed

text \<open>
  The pennies left after flooring: never negative and never more than one per share, although
  the proportional shares themselves carry the context's rounding error.
\<close>

lemma pennies_left:
  assumes "0 \<le> tot" "tot < 10 ^ 20" "paisa_grid tot" "\<forall>w \<in> set ws. 0 \<le> w" "0 < sum_list ws"
  defines "floored \<equiv> map (quantize round_down 2) (raw_shares tot ws)"
  defines "k \<equiv> nat (round_half_even (ddiv (quantize_money (tot - sum_list floored)) CURRENCY_QUANTUM))"
  shows "of_nat k / 100 = tot - sum_list floored" "k \<le> length ws"
proof -
  have nonneg: "\<forall>r \<in> set (raw_shares tot ws). 0 \<le> r"
    using assms(1,4,5) by (auto simp: raw_shares_def intro!: ddiv_nonneg dmul_nonneg)
  have len: "length (raw_shares tot ws) = length ws" by (simp add: raw_shares_def)
  have S_grid: "paisa_grid (sum_list floored)"
    using on_grid_sum_list [of floored 2 "\<lambda>x. x"] by (auto simp: floored_def down.quantize_grid)
  have eps: "tot / 10 ^ 26 < 1 / 10 ^ 6" using assms(2) by simp
  have raw: "tot - tot / 10 ^ 26 \<le> sum_list (raw_shares tot ws)"
      "sum_list (raw_shares tot ws) \<le> tot + tot / 10 ^ 26"
    using sum_raw_shares [OF assms(1,4,5)] by (simp_all add: algebra_simps)
  have S: "sum_list floored \<le> sum_list (raw_shares tot ws)"
      "sum_list (raw_shares tot ws) - of_nat (length ws) / 100 \<le> sum_list floored"
    using sum_floored_bounds [OF nonneg] unfolding floored_def len by simp_all
  have upper: "sum_list floored < tot + 1 / 100" using S(1) raw(2) eps by simp
  have le: "sum_list floored \<le> tot"
    using upper on_grid_le_iff [OF assms(3) S_grid] by force
  have rem_grid: "paisa_grid (tot - sum_list floored)" using assms(3) S_grid by (rule on_grid_diff)
  then obtain j where j: "tot - sum_list floored = of_int j / 100" by (auto elim: on_gridE)
  have "0 \<le> j" using le j by simp
  have "0 \<le> sum_list floored"
    using nonneg by (auto simp: floored_def intro!: sum_list_nonneg down.quantize_nonneg)
  then have "tot - sum_list floored < 10 ^ 20" using assms(2) by simp
  then have "(of_int j :: rat) < 10 ^ 28" using j by simp
  then have "ctx_round (of_int j) = of_int j" using \<open>0 \<le> j\<close> by (intro ctx_round_grid [of 0]) auto
  then have "ddiv (quantize_money (tot - sum_list floored)) CURRENCY_QUANTUM = of_int j"
    unfolding quantize_money_id [OF rem_grid] by (simp add: j ddiv_def CURRENCY_QUANTUM_def)
  then have k: "k = nat j" unfolding k_def by (simp add: half_even.rnd_int)
  show "of_nat k / 100 = tot - sum_list floored" using j k \<open>0 \<le> j\<close> by (simp add: of_nat_nat)
  then have "of_nat k / 100 \<le> of_nat (length ws) / 100 + (1 / 10 ^ 6 :: rat)"
    using S(2) raw(1) eps by linarith
  then have "(of_nat k :: rat) < of_nat (Suc (length ws))" by simp
  then show "k \<le> length ws" by simp
qed

lemma allocate_spread:
  assumes "allocate tot ws = Inr shares" "0 \<le> tot" "tot < 10 ^ 20" "paisa_grid tot" "sum_list ws \<noteq> 0"
  defines "floored \<equiv> map (quantize round_down 2) (raw_shares tot ws)"
  obtains k where "shares = spread_pennies (fractional_order (raw_shares tot ws) floored) k floored"
    "of_nat k / 100 = tot - sum_list floored" "k \<le> length ws"
    "ws \<noteq> []" "\<forall>w \<in> set ws. 0 \<le> w" "0 < sum_list ws"
proof -
  have ne: "ws \<noteq> []" and nn: "\<forall>w \<in> set ws. 0 \<le> w"
    using assms(1) by (auto simp: allocate_def split: if_splits)
  then have "0 \<le> sum_list ws" by (intro sum_list_nonneg) auto
  with assms(5) have W: "0 < sum_list ws" by simp
  let ?fr = "fractional_order (raw_shares tot ws) floored"
  define k where "k = nat (round_half_even (ddiv (quantize_money (tot - sum_list floored)) CURRENCY_QUANTUM))"
  have "shares = map quantize_money (spread_pennies ?fr k floored)"
    using assms(1) ne nn W by (auto simp: allocate_def Let_def k_def floored_def split: if_splits)
  also have "\<dots> = spread_pennies ?fr k floored"
  proof (intro map_idI quantize_money_id)
    fix x
    assume x: "x \<in> set (spread_pennies ?fr k floored)"
    have "\<forall>x \<in> set floored. paisa_grid x" by (auto simp: floored_def down.quantize_grid)
    moreover have "floored \<noteq> []" "length ?fr = length floored" "set ?fr \<subseteq> {..<length floored}"
      using ne fractional_order_props [of floored "raw_shares tot ws"]
      by (auto simp: floored_def raw_shares_def)
    ultimately show "paisa_grid x" using spread_grid x by blast
  qed
  finally have sh: "shares = spread_pennies ?fr k floored" .
  from pennies_left [OF assms(2,3,4) nn W]
  have "of_nat k / 100 = tot - sum_list floored" "k \<le> length ws"
    unfolding k_def floored_def by blast+
  with sh ne nn W show thesis by (intro that)
qed

lemma allocate_sum:
  assumes "allocate tot ws = Inr shares" "paisa_grid tot" "0 \<le> tot" "tot < 10 ^ 20"
  shows "length shares = length ws \<and> sum_list shares = tot"
proof (cases "sum_list ws = 0")
  case True
  have ne: "ws \<noteq> []" and sh: "shares = (map (\<lambda>_. 0) ws)[0 := tot]"
    using assms True by (auto simp: allocate_def quantize_money_id split: if_splits)
  then show ?thesis by (auto simp: neq_Nil_conv sum_list_triv)
next
  case False
  let ?fl = "map (quantize round_down 2) (raw_shares tot ws)"
  obtain k where k: "shares = spread_pennies (fractional_order (raw_shares tot ws) ?fl) k ?fl"
      "of_nat k / 100 = tot - sum_list ?fl" and ne: "ws \<noteq> []"
    using allocate_spread [OF assms(1,3,4,2) False] by metis
  have "sum_list shares = sum_list ?fl + of_nat k / 100"
    unfolding k(1) using ne fractional_order_props [of ?fl "raw_shares tot ws"]
    by (intro spread_sum) (auto simp: raw_shares_def)
  then show ?thesis using k by (simp add: raw_shares_def)
qed

lemma allocate_grid: "allocate tot ws = Inr shares \<Longrightarrow> x \<in> set shares \<Longrightarrow> paisa_grid x"
  by (auto simp: allocate_def Let_def split: if_splits dest!: set_update_subset_insert [THEN subsetD])

lemma spread_ge:
  assumes "j < length fl"
  shows "fl ! j \<le> spread_pennies fr k fl ! j"
proof (induction k)
  case (Suc k)
  then show ?case using assms
    by (cases "fr ! (k mod length fl) = j") (auto simp: Let_def CURRENCY_QUANTUM_def)
qed simp

lemma allocate_nonneg:
  assumes "allocate tot ws = Inr shares" "paisa_grid tot" "0 \<le> tot" "tot < 10 ^ 20" "x \<in> set shares"
  shows "0 \<le> x"
proof (cases "sum_list ws = 0")
  case True
  have "ws \<noteq> []" and sh: "shares = (map (\<lambda>_. 0) ws)[0 := tot]"
    using assms True by (auto simp: allocate_def quantize_money_id split: if_splits)
  then show ?thesis using assms(3,5) by (auto simp: neq_Nil_conv)
next
  case False
  let ?raw = "raw_shares tot ws"
  let ?fl = "map (quantize round_down 2) ?raw"
  obtain k where k: "shares = spread_pennies (fractional_order ?raw ?fl) k ?fl"
      and nn: "\<forall>w \<in> set ws. 0 \<le> w" and W: "0 < sum_list ws"
    using allocate_spread [OF assms(1,3,4,2) False] by metis
  obtain i where i: "i < length ?fl" "x = shares ! i"
    using assms(5) by (auto simp: in_set_conv_nth k)
  have "0 \<le> ?fl ! i"
    using i(1) assms(3) nn W by (auto simp: raw_shares_def intro!: down.quantize_nonneg ddiv_nonneg dmul_nonneg)
  also have "\<dots> \<le> x" unfolding i(2) k using i(1) by (rule spread_ge)
  finally show ?thesis .
qed

text \<open>
  C25: No leakage. Splitting a currency amount over any admissible weights gives one share per
  weight, and the shares add up to the amount to the paisa, although the proportional shares are
  computed in the 28-digit context and are not exact.
\<close>

theorem allocate_sums_to_total:
  assumes "allocate tot ws = Inr shares" "paisa_grid tot" "0 \<le> tot" "tot < 10 ^ 20"
  shows "length shares = length ws \<and> sum_list shares = tot"
  using assms by (rule allocate_sum)

theorem allocate_sums_to_total_witness:
  "\<exists>shares. allocate 100 [1, 1, 1] = Inr shares \<and> length shares = 3 \<and> sum_list shares = 100"
proof -
  have *: "allocate 100 [1, 1, 1] = Inr [3334 / 100, 3333 / 100, 3333 / 100]" by code_simp
  have "paisa_grid 100" by (simp add: on_grid_def)
  then show ?thesis using allocate_sums_to_total [OF *] * by auto
qed

text \<open>
  Fairness of the split. No share is negative, and each is within one paisa (and the
  context's rounding, below a millionth) of the exact proportion of its weight.
\<close>

theorem allocate_fair:
  assumes "allocate tot ws = Inr shares" "paisa_grid tot" "0 \<le> tot" "tot < 10 ^ 20"
    and "sum_list ws \<noteq> 0" "i < length ws"
  shows "0 \<le> shares ! i \<and> \<bar>shares ! i - tot * ws ! i / sum_list ws\<bar> \<le> 1 / 100 + 1 / 10 ^ 6"
proof -
  let ?raw = "raw_shares tot ws"
  let ?fl = "map (quantize round_down 2) ?raw"
  obtain k where k: "shares = spread_pennies (fractional_order ?raw ?fl) k ?fl" "k \<le> length ws"
    and nn: "\<forall>w \<in> set ws. 0 \<le> w" and W: "0 < sum_list ws"
    using allocate_spread [OF assms(1,3,4,2,5)] by metis
  define e where "e = tot / sum_list ws * ws ! i"
  have wi: "0 \<le> ws ! i" using nn assms(6) by simp
  have "ws ! i \<le> sum_list ws" using nn assms(6) by (intro member_le_sum_list) auto
  then have "tot * (ws ! i / sum_list ws) \<le> tot * 1" using W assms(3) by (intro mult_left_mono) auto
  then have e: "0 \<le> e" "e \<le> tot" using wi W assms(3) by (simp_all add: e_def)
  have raw: "e - e / 10 ^ 26 \<le> ?raw ! i" "?raw ! i \<le> e + e / 10 ^ 26"
    using raw_share_bounds [OF assms(3) wi W] assms(6) by (simp_all add: raw_shares_def e_def algebra_simps)
  have raw_nn: "0 \<le> ?raw ! i"
    using assms(3,6) wi W by (simp add: raw_shares_def ddiv_nonneg dmul_nonneg)
  have fl: "?fl ! i = quantize round_down 2 (?raw ! i)" using assms(6) by (simp add: raw_shares_def)
  have fl_b: "0 \<le> ?fl ! i" "?fl ! i \<le> ?raw ! i" "?raw ! i - 1 / 100 < ?fl ! i"
    unfolding fl using raw_nn down.quantize_close [of 2 "?raw ! i"]
    by (simp_all add: down.quantize_nonneg quantize_down_le abs_less_iff)
  have "shares ! i = ?fl ! i + (if i \<in> set (take k (fractional_order ?raw ?fl)) then 1 / 100 else 0)"
    unfolding k(1) using fractional_order_props [of ?fl ?raw] k(2) assms(6)
    by (intro spread_nth) (auto simp: raw_shares_def)
  then have sh: "?fl ! i \<le> shares ! i" "shares ! i \<le> ?fl ! i + 1 / 100" by simp_all
  have eps: "e / 10 ^ 26 \<le> 1 / 10 ^ 6" using e assms(4) by simp
  have "tot * ws ! i / sum_list ws = e" by (simp add: e_def)
  moreover have "\<bar>shares ! i - e\<bar> \<le> 1 / 100 + 1 / 10 ^ 6"
    unfolding abs_le_iff using sh fl_b raw eps by linarith
  ultimately show ?thesis using sh(1) fl_b(1) by simp
qed

theorem allocate_fair_witness:
  "\<exists>shares. allocate 100 [1, 2] = Inr shares \<and> 0 \<le> shares ! 1 \<and>
     \<bar>shares ! 1 - 100 * 2 / 3\<bar> \<le> 1 / 100 + 1 / 10 ^ 6"
proof -
  have *: "allocate 100 [1, 2] = Inr [3333 / 100, 6667 / 100]" by code_simp
  have "paisa_grid 100" by (simp add: on_grid_def)
  then show ?thesis using allocate_fair [OF *, of 1] * by simp
qed

lemma allocate_succeeds:
  "ws \<noteq> [] \<Longrightarrow> \<forall>w \<in> set ws. 0 \<le> w \<Longrightarrow> \<exists>shares. allocate tot ws = Inr shares"
  by (fastforce simp: allocate_def Let_def)

text \<open>
  The docstring of \<open>allocate\<close> promises that the shares always sum exactly to the total. For a
  negative total the leftover is a negative number of pennies, over which the loop does not run.
\<close>

lemma allocate_negative_total_leaks: "allocate (- (1 / 100)) [1, 1] = Inr [0, 0]"
  by code_simp

end
