(* ===== verification/Pricing.thy ===== *)
theory Pricing
  imports Money
begin

text \<open>
  The pricing engine, \<open>app/modules/pricing/engine.py\<close>: resolution of the unit price by priority
  and the decimal-safe total of one line with discount, tax and advisory warnings. Warnings are
  values instead of formatted text.
\<close>

section \<open>Inputs and results\<close>

datatype price_source = CONTRACT | CUSTOMER_PRICE_LIST | QUANTITY_SLAB | WHOLESALE | RETAIL | MRP

record quantity_slab =
  min_quantity :: decimal
  slab_unit_price :: decimal

record price_input =
  pi_quantity :: decimal
  pi_retail_price :: decimal
  pi_mrp :: decimal
  pi_wholesale_price :: "decimal option"
  pi_min_wholesale_quantity :: "decimal option"
  pi_contract_price :: "decimal option"
  pi_price_list_price :: "decimal option"
  pi_quantity_slabs :: "quantity_slab list"
  pi_gst_percent :: decimal
  pi_tax_inclusive :: bool
  pi_discount_percent :: decimal
  pi_cost_price :: "decimal option"
  pi_min_margin_percent :: "decimal option"
  pi_max_discount_percent :: "decimal option"

text \<open>The dataclass defaults, for calls that pass the three required fields only.\<close>

definition PriceInput :: "decimal \<Rightarrow> decimal \<Rightarrow> decimal \<Rightarrow> price_input" where
  "PriceInput quantity retail_price mrp =
     \<lparr>pi_quantity = quantity, pi_retail_price = retail_price, pi_mrp = mrp,
      pi_wholesale_price = None, pi_min_wholesale_quantity = None, pi_contract_price = None,
      pi_price_list_price = None, pi_quantity_slabs = [], pi_gst_percent = 0,
      pi_tax_inclusive = False, pi_discount_percent = 0, pi_cost_price = None,
      pi_min_margin_percent = None, pi_max_discount_percent = None\<rparr>"

datatype price_warning = DiscountExceedsMax decimal decimal | BelowMinimumMargin

record price_result =
  pr_unit_price :: decimal
  pr_source :: price_source
  pr_quantity :: decimal
  pr_gross_before_discount :: decimal
  pr_discount_amount :: decimal
  pr_net_amount :: decimal
  pr_tax_amount :: decimal
  pr_total_amount :: decimal
  pr_warnings :: "price_warning list"

section \<open>Resolving the unit price\<close>

text \<open>\<open>max(eligible, key = ...)\<close> keeps the first of the slabs with the highest threshold.\<close>

fun max_slab :: "quantity_slab \<Rightarrow> quantity_slab list \<Rightarrow> quantity_slab" where
  "max_slab best [] = best"
| "max_slab best (s # ss) = max_slab (if min_quantity best < min_quantity s then s else best) ss"

definition best_slab :: "quantity_slab list \<Rightarrow> decimal \<Rightarrow> decimal option" where
  "best_slab slabs quantity =
     (case filter (\<lambda>s. min_quantity s \<le> quantity) slabs of
        [] \<Rightarrow> None
      | s # eligible \<Rightarrow> Some (slab_unit_price (max_slab s eligible)))"

definition resolve_unit_price :: "price_input \<Rightarrow> decimal \<times> price_source" where
  "resolve_unit_price d =
     (case pi_contract_price d of Some p \<Rightarrow> (Money p, CONTRACT)
      | None \<Rightarrow>
     (case pi_price_list_price d of Some p \<Rightarrow> (Money p, CUSTOMER_PRICE_LIST)
      | None \<Rightarrow>
     (case best_slab (pi_quantity_slabs d) (pi_quantity d) of Some p \<Rightarrow> (Money p, QUANTITY_SLAB)
      | None \<Rightarrow>
     (case (pi_wholesale_price d, pi_min_wholesale_quantity d) of
        (Some w, Some m) \<Rightarrow>
          if m \<le> pi_quantity d then (Money w, WHOLESALE)
          else if 0 < pi_retail_price d then (Money (pi_retail_price d), RETAIL)
          else (Money (pi_mrp d), MRP)
      | _ \<Rightarrow>
          if 0 < pi_retail_price d then (Money (pi_retail_price d), RETAIL)
          else (Money (pi_mrp d), MRP)))))"

section \<open>Pricing a line\<close>

definition line_tax :: "price_input \<Rightarrow> decimal \<Rightarrow> (decimal \<times> decimal) res" where
  "line_tax d net_before_tax =
     (if pi_tax_inclusive d then split_tax_from_inclusive net_before_tax (pi_gst_percent d)
      else res_bind (tax_on_exclusive net_before_tax (pi_gst_percent d))
        (\<lambda>tax. Inr (net_before_tax, tax)))"

definition discount_warnings :: "price_input \<Rightarrow> price_warning list" where
  "discount_warnings d =
     (case pi_max_discount_percent d of
        Some m \<Rightarrow> if m < pi_discount_percent d then [DiscountExceedsMax (pi_discount_percent d) m] else []
      | None \<Rightarrow> [])"

definition margin_warnings :: "price_input \<Rightarrow> decimal \<Rightarrow> price_warning list" where
  "margin_warnings d net_amount =
     (case (pi_cost_price d, pi_min_margin_percent d) of
        (Some cost, Some margin) \<Rightarrow>
          let effective_unit = (if pi_quantity d \<noteq> 0 then ddiv net_amount (pi_quantity d) else 0);
              min_price = Money (ddiv (dmul cost (100 + margin)) 100)
          in if effective_unit < min_price then [BelowMinimumMargin] else []
      | _ \<Rightarrow> [])"

definition price_line :: "price_input \<Rightarrow> price_result res" where
  "price_line d =
     (if pi_quantity d \<le> 0 then Inl ValueError
      else let (unit_price, source) = resolve_unit_price d;
               gross = Money (dmul unit_price (pi_quantity d))
           in res_bind (apply_percentage_discount gross (pi_discount_percent d)) (\<lambda>net_before_tax.
              let discount_amount = Money (gross - net_before_tax)
              in res_bind (line_tax d net_before_tax) (\<lambda>(net_amount, tax_amount).
                 let total_amount = Money (net_amount + tax_amount)
                 in Inr \<lparr>pr_unit_price = unit_price, pr_source = source, pr_quantity = pi_quantity d,
                         pr_gross_before_discount = gross, pr_discount_amount = discount_amount,
                         pr_net_amount = net_amount, pr_tax_amount = tax_amount,
                         pr_total_amount = total_amount,
                         pr_warnings = discount_warnings d @ margin_warnings d net_amount\<rparr>)))"

section \<open>The resolved price\<close>

lemma max_slab_in: "max_slab b ss \<in> insert b (set ss)"
  by (induction b ss rule: max_slab.induct) auto

lemma max_slab_ge:
  "min_quantity b \<le> min_quantity (max_slab b ss) \<and>
   (\<forall>s \<in> set ss. min_quantity s \<le> min_quantity (max_slab b ss))"
proof (induction b ss rule: max_slab.induct)
  case (1 best)
  then show ?case by simp
next
  case (2 best s ss)
  then show ?case by (auto split: if_splits)
qed

text \<open>
  The priority list of the module's docstring: each source with the price it offers, if any.
\<close>

definition price_offers :: "price_input \<Rightarrow> (price_source \<times> decimal option) list" where
  "price_offers d =
     [(CONTRACT, pi_contract_price d),
      (CUSTOMER_PRICE_LIST, pi_price_list_price d),
      (QUANTITY_SLAB, best_slab (pi_quantity_slabs d) (pi_quantity d)),
      (WHOLESALE,
        (case pi_min_wholesale_quantity d of
           Some m \<Rightarrow> if m \<le> pi_quantity d then pi_wholesale_price d else None
         | None \<Rightarrow> None)),
      (RETAIL, if 0 < pi_retail_price d then Some (pi_retail_price d) else None),
      (MRP, Some (pi_mrp d))]"

fun first_offer :: "(price_source \<times> decimal option) list \<Rightarrow> (decimal \<times> price_source) option" where
  "first_offer [] = None"
| "first_offer ((src, Some p) # os) = Some (Money p, src)"
| "first_offer ((src, None) # os) = first_offer os"

lemma first_offer_Cons:
  "first_offer ((src, opt) # os) = (case opt of Some p \<Rightarrow> Some (Money p, src) | None \<Rightarrow> first_offer os)"
  by (cases opt) simp_all


text \<open>
  Volume tiers. A slab price is offered exactly when some threshold is met, and then it is the
  price of an eligible slab that no eligible slab exceeds.
\<close>

theorem best_slab_deepest_tier:
  "(best_slab slabs q = None \<longleftrightarrow> (\<forall>s \<in> set slabs. q < min_quantity s)) \<and>
   (best_slab slabs q = Some p \<longrightarrow>
     (\<exists>s \<in> set slabs. min_quantity s \<le> q \<and> slab_unit_price s = p \<and>
       (\<forall>s' \<in> set slabs. min_quantity s' \<le> q \<longrightarrow> min_quantity s' \<le> min_quantity s)))"
proof (cases "filter (\<lambda>s. min_quantity s \<le> q) slabs")
  case Nil
  then show ?thesis by (auto simp: best_slab_def filter_empty_conv not_le)
next
  case (Cons s ss)
  let ?m = "max_slab s ss"
  have el: "set (s # ss) = {x \<in> set slabs. min_quantity x \<le> q}" by (simp flip: Cons)
  have "?m \<in> set (s # ss)" using max_slab_in [of s ss] by simp
  then have m: "?m \<in> set slabs" "min_quantity ?m \<le> q" unfolding el by simp_all
  have "\<forall>x \<in> set (s # ss). min_quantity x \<le> min_quantity ?m" using max_slab_ge [of s ss] by simp
  then have top: "\<forall>x \<in> set slabs. min_quantity x \<le> q \<longrightarrow> min_quantity x \<le> min_quantity ?m"
    unfolding el by simp
  have b: "best_slab slabs q = Some (slab_unit_price ?m)" by (simp add: best_slab_def Cons)
  show ?thesis using b m top by (auto simp: not_less intro!: bexI [of _ ?m])
qed

theorem best_slab_deepest_tier_witness:
  "best_slab [\<lparr>min_quantity = 10, slab_unit_price = 9\<rparr>, \<lparr>min_quantity = 50, slab_unit_price = 8\<rparr>] 60 = Some 8 \<and>
   (\<exists>s \<in> set [\<lparr>min_quantity = 10, slab_unit_price = 9\<rparr>, \<lparr>min_quantity = 50, slab_unit_price = 8\<rparr>].
      min_quantity s \<le> 60 \<and> slab_unit_price s = (8 :: decimal))"
proof -
  have *: "best_slab [\<lparr>min_quantity = 10, slab_unit_price = 9\<rparr>, \<lparr>min_quantity = 50, slab_unit_price = 8\<rparr>] 60
      = Some 8" by code_simp
  then show ?thesis
    using best_slab_deepest_tier [of "[\<lparr>min_quantity = 10, slab_unit_price = 9\<rparr>,
      \<lparr>min_quantity = 50, slab_unit_price = 8\<rparr>]" 60 8] by blast
qed

lemma resolve_unit_price_grid: "paisa_grid (fst (resolve_unit_price d))"
  by (auto simp: resolve_unit_price_def split: option.split)

text \<open>The prices on offer are not negative.\<close>

definition prices_nonneg :: "price_input \<Rightarrow> bool" where
  "prices_nonneg d \<longleftrightarrow>
     0 \<le> pi_retail_price d \<and> 0 \<le> pi_mrp d \<and> pred_option (\<lambda>p. 0 \<le> p) (pi_wholesale_price d) \<and>
     pred_option (\<lambda>p. 0 \<le> p) (pi_contract_price d) \<and> pred_option (\<lambda>p. 0 \<le> p) (pi_price_list_price d) \<and>
     (\<forall>s \<in> set (pi_quantity_slabs d). 0 \<le> slab_unit_price s)"

lemma best_slab_nonneg:
  "best_slab slabs q = Some p \<Longrightarrow> \<forall>s \<in> set slabs. 0 \<le> slab_unit_price s \<Longrightarrow> 0 \<le> p"
proof -
  assume *: "best_slab slabs q = Some p" "\<forall>s \<in> set slabs. 0 \<le> slab_unit_price s"
  then obtain s ss where s: "filter (\<lambda>s. min_quantity s \<le> q) slabs = s # ss" "p = slab_unit_price (max_slab s ss)"
    by (auto simp: best_slab_def split: list.splits)
  have "max_slab s ss \<in> set (filter (\<lambda>s. min_quantity s \<le> q) slabs)"
    using max_slab_in [of s ss] by (simp add: s(1))
  then show ?thesis using *(2) s(2) by simp
qed

lemma resolve_unit_price_nonneg:
  assumes "prices_nonneg d"
  shows "0 \<le> fst (resolve_unit_price d)"
  using assms best_slab_nonneg [of "pi_quantity_slabs d" "pi_quantity d"]
  by (auto simp: resolve_unit_price_def prices_nonneg_def intro!: Money_nonneg split: option.split)

section \<open>The arithmetic of a line\<close>

lemma line_tax_ok:
  assumes "line_tax d nbt = Inr (net, tax)" "paisa_grid nbt" "0 \<le> nbt" "nbt < 10 ^ 24"
  shows "paisa_grid net" "paisa_grid tax" "0 \<le> net" "0 \<le> tax"
    "pi_tax_inclusive d \<Longrightarrow> net + tax = nbt" "\<not> pi_tax_inclusive d \<Longrightarrow> net = nbt"
  using assms split_tax_grid [of nbt "pi_gst_percent d" net tax] split_tax_sum [of nbt "pi_gst_percent d" net tax]
    split_tax_nonneg [of nbt "pi_gst_percent d" net tax] tax_on_exclusive_grid [of nbt "pi_gst_percent d" tax]
    tax_on_exclusive_nonneg [of nbt "pi_gst_percent d" tax]
  by (auto simp: line_tax_def split: if_splits)

lemma price_line_ok:
  "price_line d = Inr r \<longleftrightarrow>
   0 < pi_quantity d \<and>
   (\<exists>nbt. apply_percentage_discount (Money (dmul (fst (resolve_unit_price d)) (pi_quantity d)))
            (pi_discount_percent d) = Inr nbt \<and>
     line_tax d nbt = Inr (pr_net_amount r, pr_tax_amount r) \<and>
     r = \<lparr>pr_unit_price = fst (resolve_unit_price d), pr_source = snd (resolve_unit_price d),
          pr_quantity = pi_quantity d,
          pr_gross_before_discount = Money (dmul (fst (resolve_unit_price d)) (pi_quantity d)),
          pr_discount_amount = Money (Money (dmul (fst (resolve_unit_price d)) (pi_quantity d)) - nbt),
          pr_net_amount = pr_net_amount r, pr_tax_amount = pr_tax_amount r,
          pr_total_amount = Money (pr_net_amount r + pr_tax_amount r),
          pr_warnings = discount_warnings d @ margin_warnings d (pr_net_amount r)\<rparr>)"
  by (auto simp: price_line_def Let_def case_prod_beta split: if_splits)

text \<open>What a line that charges tax on top adds up to, and the totals of several such lines.\<close>

definition line_amounts_ok :: "price_result \<Rightarrow> bool" where
  "line_amounts_ok r \<longleftrightarrow>
     paisa_grid (pr_net_amount r) \<and> paisa_grid (pr_tax_amount r) \<and> paisa_grid (pr_discount_amount r)
     \<and> pr_total_amount r = pr_net_amount r + pr_tax_amount r \<and> 0 \<le> pr_net_amount r \<and> 0 \<le> pr_tax_amount r"

lemma exclusive_line:
  assumes "price_line d = Inr r" "\<not> pi_tax_inclusive d" "prices_nonneg d"
  shows "line_amounts_ok r"
proof -
  define g where "g = Money (dmul (fst (resolve_unit_price d)) (pi_quantity d))"
  obtain nbt where q: "0 < pi_quantity d" and disc: "apply_percentage_discount g (pi_discount_percent d) = Inr nbt"
    and tax: "line_tax d nbt = Inr (pr_net_amount r, pr_tax_amount r)"
    and r: "pr_discount_amount r = Money (g - nbt)" "pr_total_amount r = Money (pr_net_amount r + pr_tax_amount r)"
    using assms(1) unfolding price_line_ok g_def [symmetric]
    by (metis price_result.select_convs(5,8))
  have g: "0 \<le> g"
    using resolve_unit_price_nonneg [OF assms(3)] q by (simp add: g_def Money_nonneg dmul_nonneg)
  have n: "pr_net_amount r = nbt" and t: "tax_on_exclusive nbt (pi_gst_percent d) = Inr (pr_tax_amount r)"
    using tax assms(2) by (auto simp: line_tax_def)
  have "0 \<le> nbt"
    using disc g by (auto simp: apply_percentage_discount_ok intro!: quantize_money_nonneg dmul_nonneg ddiv_nonneg)
  then show ?thesis
    using discount_grid [OF disc] tax_on_exclusive_grid [OF t] tax_on_exclusive_nonneg [OF t]
    by (simp add: line_amounts_ok_def r n Money_id on_grid_add)
qed

lemma line_totals:
  assumes "\<forall>r \<in> set rs. line_amounts_ok r"
  shows "Money (\<Sum>r\<leftarrow>rs. pr_net_amount r) = (\<Sum>r\<leftarrow>rs. pr_net_amount r)"
    "Money (\<Sum>r\<leftarrow>rs. pr_tax_amount r) = (\<Sum>r\<leftarrow>rs. pr_tax_amount r)"
    "Money (\<Sum>r\<leftarrow>rs. pr_total_amount r) = (\<Sum>r\<leftarrow>rs. pr_total_amount r)"
    "(\<Sum>r\<leftarrow>rs. pr_total_amount r) = (\<Sum>r\<leftarrow>rs. pr_net_amount r) + (\<Sum>r\<leftarrow>rs. pr_tax_amount r)"
    "0 \<le> (\<Sum>r\<leftarrow>rs. pr_net_amount r)" "0 \<le> (\<Sum>r\<leftarrow>rs. pr_tax_amount r)"
proof -
  show "Money (\<Sum>r\<leftarrow>rs. pr_net_amount r) = (\<Sum>r\<leftarrow>rs. pr_net_amount r)"
    "Money (\<Sum>r\<leftarrow>rs. pr_tax_amount r) = (\<Sum>r\<leftarrow>rs. pr_tax_amount r)"
    "Money (\<Sum>r\<leftarrow>rs. pr_total_amount r) = (\<Sum>r\<leftarrow>rs. pr_total_amount r)"
    using assms by (auto simp: line_amounts_ok_def intro!: Money_id on_grid_sum_list on_grid_add)
  show "(\<Sum>r\<leftarrow>rs. pr_total_amount r) = (\<Sum>r\<leftarrow>rs. pr_net_amount r) + (\<Sum>r\<leftarrow>rs. pr_tax_amount r)"
    unfolding sum_list_addf [symmetric]
    by (rule arg_cong [where f = sum_list], rule map_cong [OF refl]) (use assms in \<open>auto simp: line_amounts_ok_def\<close>)
  show "0 \<le> (\<Sum>r\<leftarrow>rs. pr_net_amount r)" "0 \<le> (\<Sum>r\<leftarrow>rs. pr_tax_amount r)"
    using assms by (auto simp: line_amounts_ok_def intro!: sum_list_nonneg)
qed

text \<open>
  C28: The line adds up. For non-negative prices, the discounted gross is what the tax is computed
  on: exclusive lines charge it as the net amount, inclusive lines split it into net and tax; the
  total is net plus tax; every amount is a non-negative number of paise, and the discount never
  exceeds the gross.
\<close>

theorem price_line_adds_up:
  assumes "price_line d = Inr r" "prices_nonneg d" "pr_gross_before_discount r < 10 ^ 24"
  shows "pr_total_amount r = pr_net_amount r + pr_tax_amount r
    \<and> pr_gross_before_discount r - pr_discount_amount r
        = (if pi_tax_inclusive d then pr_total_amount r else pr_net_amount r)
    \<and> 0 \<le> pr_discount_amount r \<and> pr_discount_amount r \<le> pr_gross_before_discount r
    \<and> 0 \<le> pr_net_amount r \<and> 0 \<le> pr_tax_amount r
    \<and> (\<forall>x \<in> {pr_unit_price r, pr_gross_before_discount r, pr_discount_amount r, pr_net_amount r,
             pr_tax_amount r, pr_total_amount r}. paisa_grid x)"
proof -
  define u where "u = fst (resolve_unit_price d)"
  define g where "g = Money (dmul u (pi_quantity d))"
  obtain nbt where q: "0 < pi_quantity d"
    and disc: "apply_percentage_discount g (pi_discount_percent d) = Inr nbt"
    and tax: "line_tax d nbt = Inr (pr_net_amount r, pr_tax_amount r)"
    and r: "pr_unit_price r = u" "pr_gross_before_discount r = g" "pr_discount_amount r = Money (g - nbt)"
      "pr_total_amount r = Money (pr_net_amount r + pr_tax_amount r)"
    using assms(1) unfolding price_line_ok u_def [symmetric] g_def [symmetric]
    by (metis price_result.select_convs(1,4,5,8))
  have u: "0 \<le> u" "paisa_grid u"
    using resolve_unit_price_nonneg [OF assms(2)] resolve_unit_price_grid by (simp_all add: u_def)
  have g: "paisa_grid g" "0 \<le> g" "g < 10 ^ 24"
    using u q assms(3) r(2) by (simp_all add: g_def Money_nonneg dmul_nonneg)
  have nbt: "paisa_grid nbt" "0 \<le> nbt" "nbt \<le> g"
    using discount_grid [OF disc] discount_between [OF disc g(1,2)] g(3) by simp_all
  have "nbt < 10 ^ 24" using nbt(3) g(3) by simp
  note t = line_tax_ok [OF tax nbt(1,2) this]
  have "pr_discount_amount r = g - nbt" unfolding r(3) using g(1) nbt(1) by (simp add: Money_diff_grid)
  moreover have "pr_total_amount r = pr_net_amount r + pr_tax_amount r"
    unfolding r(4) using t(1,2) by (simp add: Money_add_grid)
  ultimately show ?thesis using t g nbt u r by (auto simp: on_grid_diff on_grid_add)
qed

definition sample_line :: price_input where
  "sample_line = (PriceInput 3 (24999 / 100) 300)\<lparr>pi_gst_percent := 18, pi_discount_percent := 5\<rparr>"

theorem price_line_adds_up_witness:
  "\<exists>r. price_line sample_line = Inr r \<and> pr_total_amount r = 84071 / 100 \<and>
     pr_total_amount r = pr_net_amount r + pr_tax_amount r"
proof -
  define r where "r = \<lparr>pr_unit_price = 24999 / 100, pr_source = RETAIL, pr_quantity = 3,
    pr_gross_before_discount = 74997 / 100, pr_discount_amount = 3750 / 100, pr_net_amount = 71247 / 100,
    pr_tax_amount = 12824 / 100, pr_total_amount = 84071 / 100, pr_warnings = []\<rparr>"
  have "price_line sample_line = Inr r" unfolding r_def by code_simp
  moreover have "prices_nonneg sample_line" by (simp add: prices_nonneg_def sample_line_def PriceInput_def)
  ultimately show ?thesis using price_line_adds_up [of sample_line r] by (auto simp: r_def)
qed


end
