(* ===== verification/Units.thy ===== *)
theory Units
  imports Money
begin

text \<open>
  Unit conversion, \<open>app/common/units/conversion.py\<close>: quantities are stored in the smallest base
  unit; a packaging unit is a positive factor.
\<close>

record unit_conversion =
  unit_code :: string
  base_factor :: decimal

text \<open>\<open>UnitConversion(...)\<close>: \<open>__post_init__\<close> refuses a factor that is not positive.\<close>

definition UnitConversion :: "string \<Rightarrow> decimal \<Rightarrow> unit_conversion res" where
  "UnitConversion code factor =
     (if factor \<le> 0 then Inl ValueError else Inr \<lparr>unit_code = code, base_factor = factor\<rparr>)"

definition to_base_quantity :: "decimal \<Rightarrow> unit_conversion \<Rightarrow> decimal res" where
  "to_base_quantity q conversion =
     (if q < 0 then Inl ValueError else Inr (dmul q (base_factor conversion)))"

definition to_display_quantity :: "decimal \<Rightarrow> unit_conversion \<Rightarrow> nat \<Rightarrow> decimal res" where
  "to_display_quantity base_q conversion fractional_digits =
     (if base_q < 0 then Inl ValueError
      else Inr (quantize round_down fractional_digits (ddiv base_q (base_factor conversion))))"

text \<open>
  Display never overstates. Converting base units to a packaging unit and back never yields
  more base units than there are, as long as the quotient is exact in the context, and at most
  one display step of the unit is lost.
\<close>

theorem display_never_overstates:
  assumes "to_display_quantity b u d = Inr q" "0 < base_factor u"
    and "ctx_round (b / base_factor u) = b / base_factor u"
  shows "0 \<le> q \<and> q * base_factor u \<le> b \<and> b < (q + 1 / 10 ^ d) * base_factor u"
proof -
  define e where "e = b / base_factor u"
  have b: "0 \<le> b" and q: "q = quantize round_down d e"
    using assms by (auto simp: to_display_quantity_def ddiv_def e_def split: if_splits)
  have e: "0 \<le> e" "e * base_factor u = b" using b assms(2) by (simp_all add: e_def)
  have "0 \<le> q" "q \<le> e" "e < q + 1 / 10 ^ d"
    unfolding q using e down.quantize_close [of d e]
    by (simp_all add: down.quantize_nonneg quantize_down_le abs_less_iff)
  then have "q * base_factor u \<le> e * base_factor u" "e * base_factor u < (q + 1 / 10 ^ d) * base_factor u"
    using assms(2) by (auto intro: mult_right_mono mult_strict_right_mono)
  with \<open>0 \<le> q\<close> show ?thesis unfolding e(2) by simp
qed

theorem display_never_overstates_witness:
  "\<exists>q. to_display_quantity 50 \<lparr>unit_code = ''carton'', base_factor = 20\<rparr> 0 = Inr q \<and> q * 20 \<le> 50 \<and> 50 < (q + 1) * 20"
proof -
  have *: "to_display_quantity 50 \<lparr>unit_code = ''carton'', base_factor = 20\<rparr> 0 = Inr 2" by code_simp
  have "ctx_round (50 / 20) = 50 / 20" by code_simp
  then show ?thesis using display_never_overstates [OF *] * by auto
qed

text \<open>
  Round trip. A quantity on the display grid, converted to base units and back, is unchanged,
  provided the base quantity fits the 28 digits of the context.
\<close>

theorem base_display_roundtrip:
  assumes "to_base_quantity q u = Inr b" "0 < base_factor u" "on_grid d q" "q * 10 ^ d < 10 ^ 28"
    and "ctx_round (q * base_factor u) = q * base_factor u"
  shows "to_display_quantity b u d = Inr q"
proof -
  have q: "0 \<le> q" and b: "b = q * base_factor u"
    using assms by (auto simp: to_base_quantity_def dmul_def split: if_splits)
  have "ctx_round q = q" using assms(3,4) q by (intro ctx_round_grid [of d]) auto
  then have "ddiv b (base_factor u) = q" using b assms(2) by (simp add: ddiv_def)
  moreover have "0 \<le> b" using q b assms(2) by simp
  ultimately show ?thesis
    using assms(3) by (simp add: to_display_quantity_def down.quantize_id)
qed

theorem base_display_roundtrip_witness:
  "to_base_quantity (5 / 2) \<lparr>unit_code = ''bag'', base_factor = 50000\<rparr> = Inr 125000 \<and>
   to_display_quantity 125000 \<lparr>unit_code = ''bag'', base_factor = 50000\<rparr> 3 = Inr (5 / 2)"
proof -
  have *: "to_base_quantity (5 / 2) \<lparr>unit_code = ''bag'', base_factor = 50000\<rparr> = Inr 125000" by code_simp
  have "ctx_round (5 / 2 * 50000) = 5 / 2 * 50000" by code_simp
  moreover have "on_grid 3 (5 / 2)" by code_simp
  ultimately show ?thesis using base_display_roundtrip [OF *, of 3] * by simp
qed

end
