(* ===== verification/Greedy.thy ===== *)
theory Greedy
  imports Prelude
begin

text \<open>
  The contract three loops of the program share: draw an amount from a list of sources in the
  order given, each source giving all it has until the amount is met. Stock is issued this way
  over batches (\<open>allocate_fefo\<close>), a payment over invoices (\<open>allocate_payment\<close>) and a release
  over reservations (\<open>release_reservation\<close>). The locale states the loop's equations; its lemmas
  are the accounting of every such loop.
\<close>

locale greedy_draw =
  fixes cap :: "'b \<Rightarrow> rat"
    and mk :: "'b \<Rightarrow> rat \<Rightarrow> 'c"
    and amt :: "'c \<Rightarrow> rat"
    and ok :: "rat \<Rightarrow> bool"
    and draw :: "rat \<Rightarrow> 'b list \<Rightarrow> 'c list"
  assumes draw_Nil: "draw r [] = []"
    and draw_done: "r \<le> 0 \<Longrightarrow> draw r bs = []"
    and draw_Cons: "0 < r \<Longrightarrow> 0 < cap b \<Longrightarrow> ok r \<Longrightarrow> ok (cap b) \<Longrightarrow>
      draw r (b # bs) = mk b (min (cap b) r) # draw (r - min (cap b) r) bs"
    and amt_mk: "ok q \<Longrightarrow> amt (mk b q) = q"
    and ok_diff: "ok x \<Longrightarrow> ok y \<Longrightarrow> ok (x - y)"
begin

definition stocked :: "'b list \<Rightarrow> bool" where
  "stocked bs \<longleftrightarrow> (\<forall>b \<in> set bs. 0 < cap b \<and> ok (cap b))"

lemma stocked_simps [simp]: "stocked []" "stocked (b # bs) \<longleftrightarrow> 0 < cap b \<and> ok (cap b) \<and> stocked bs"
  by (auto simp: stocked_def)

lemma stocked_sum_nonneg: "stocked bs \<Longrightarrow> 0 \<le> (\<Sum>b\<leftarrow>bs. cap b)"
  by (auto simp: stocked_def less_imp_le intro!: sum_list_nonneg)

lemma ok_min: "ok x \<Longrightarrow> ok y \<Longrightarrow> ok (min x y)"
  by (simp add: min_def)

text \<open>What is drawn is the amount, or everything there is.\<close>

lemma draw_sum:
  "stocked bs \<Longrightarrow> ok r \<Longrightarrow> 0 \<le> r \<Longrightarrow> (\<Sum>c\<leftarrow>draw r bs. amt c) = min r (\<Sum>b\<leftarrow>bs. cap b)"
proof (induction bs arbitrary: r)
  case Nil
  then show ?case by (simp add: draw_Nil)
next
  case (Cons b bs)
  show ?case
  proof (cases "r = 0")
    case True
    then show ?thesis using stocked_sum_nonneg [OF Cons.prems(1)] by (simp add: draw_done)
  next
    case False
    have b: "0 < cap b" "ok (cap b)" and bs: "stocked bs" using Cons.prems(1) by simp_all
    let ?r = "r - min (cap b) r"
    have d: "draw r (b # bs) = mk b (min (cap b) r) # draw ?r bs"
      using Cons.prems b False by (intro draw_Cons) auto
    have "(\<Sum>c\<leftarrow>draw ?r bs. amt c) = min ?r (\<Sum>b\<leftarrow>bs. cap b)"
      using Cons.prems b by (intro Cons.IH bs ok_diff ok_min) auto
    then show ?thesis
      using stocked_sum_nonneg [OF bs] b Cons.prems(2) by (simp add: d amt_mk ok_min)
  qed
qed

text \<open>The draws follow the sources in order, and only the last one may leave a remainder.\<close>

lemma draw_nth:
  "stocked bs \<Longrightarrow> ok r \<Longrightarrow> i < length (draw r bs) \<Longrightarrow>
   i < length bs \<and> (\<exists>q. draw r bs ! i = mk (bs ! i) q \<and> ok q \<and> 0 < q \<and> q \<le> cap (bs ! i) \<and>
     (Suc i < length (draw r bs) \<longrightarrow> q = cap (bs ! i)))"
proof (induction bs arbitrary: r i)
  case Nil
  then show ?case by (simp add: draw_Nil)
next
  case (Cons b bs)
  have b: "0 < cap b" "ok (cap b)" and bs: "stocked bs" using Cons.prems(1) by simp_all
  have r: "0 < r" using Cons.prems(3) by (cases "r \<le> 0") (simp_all add: draw_done)
  let ?q = "min (cap b) r"
  have d: "draw r (b # bs) = mk b ?q # draw (r - ?q) bs" using r b Cons.prems by (intro draw_Cons)
  have q: "ok ?q" "0 < ?q" "?q \<le> cap b" using b r Cons.prems(2) by (auto simp: ok_min)
  show ?case
  proof (cases i)
    case 0
    have "?q = cap b" if "draw (r - ?q) bs \<noteq> []"
    proof (cases "r \<le> cap b")
      case True
      then have "r - ?q = 0" by simp
      then show ?thesis using that draw_done [of "r - ?q" bs] by simp
    qed simp
    then show ?thesis using q by (auto simp: 0 d intro!: exI [of _ ?q])
  next
    case (Suc j)
    have "j < length (draw (r - ?q) bs)" using Cons.prems(3) by (simp add: Suc d)
    from Cons.IH [OF bs ok_diff [OF Cons.prems(2) q(1)] this] show ?thesis by (simp add: Suc d)
  qed
qed

lemma length_draw: "stocked bs \<Longrightarrow> ok r \<Longrightarrow> length (draw r bs) \<le> length bs"
  using draw_nth [of bs r "length (draw r bs) - 1"] by (cases "draw r bs") auto

lemma draw_in:
  assumes "stocked bs" "ok r" "c \<in> set (draw r bs)"
  shows "\<exists>b \<in> set bs. \<exists>q. c = mk b q \<and> ok q \<and> 0 < q \<and> q \<le> cap b"
proof -
  from assms(3) obtain i where i: "i < length (draw r bs)" "c = draw r bs ! i"
    by (auto simp: in_set_conv_nth)
  from draw_nth [OF assms(1,2) i(1)] show ?thesis
    by (metis i(2) nth_mem)
qed

text \<open>The draws as a whole: a prefix of the sources, one draw each.\<close>

lemma draw_map:
  assumes "stocked bs" "ok r" and "\<And>b q. f (mk b q) = g b"
  shows "map f (draw r bs) = map g (take (length (draw r bs)) bs)"
proof (rule nth_equalityI)
  show "length (map f (draw r bs)) = length (map g (take (length (draw r bs)) bs))"
    using length_draw [OF assms(1,2)] by simp
next
  fix i assume "i < length (map f (draw r bs))"
  then show "map f (draw r bs) ! i = map g (take (length (draw r bs)) bs) ! i"
    using draw_nth [OF assms(1,2), of i] length_draw [OF assms(1,2)] assms(3) by auto
qed

text \<open>A source skipped although it comes before one that was drawn from does not exist.\<close>

lemma draw_unserved:
  assumes "stocked bs" "ok r" "0 \<le> r" "length (draw r bs) < length bs"
  shows "(\<Sum>c\<leftarrow>draw r bs. amt c) = r"
proof -
  let ?n = "length (draw r bs)"
  have "r = min r (\<Sum>b\<leftarrow>bs. cap b)"
    using assms
  proof (induction bs arbitrary: r)
    case Nil
    then show ?case by simp
  next
    case (Cons b bs)
    show ?case
    proof (cases "r = 0")
      case True
      then show ?thesis using stocked_sum_nonneg [OF Cons.prems(1)] by simp
    next
      case False
      have b: "0 < cap b" "ok (cap b)" and bs: "stocked bs" using Cons.prems(1) by simp_all
      let ?q = "min (cap b) r"
      have d: "draw r (b # bs) = mk b ?q # draw (r - ?q) bs"
        using Cons.prems b False by (intro draw_Cons) auto
      have "r - ?q = min (r - ?q) (\<Sum>b\<leftarrow>bs. cap b)"
        using Cons.prems b bs by (intro Cons.IH ok_diff ok_min) (auto simp: d)
      then show ?thesis using stocked_sum_nonneg [OF bs] by (simp add: min_def split: if_splits)
    qed
  qed
  then show ?thesis using draw_sum [OF assms(1,2,3)] by simp
qed

end

end
