(* ===== verification/Allocation.thy ===== *)
theory Allocation
  imports Greedy Money
begin

text \<open>
  Spreading a payment over invoices, \<open>app/modules/collections/allocation.py\<close>: oldest first, never
  more than an invoice is short of, the excess reported as an advance. The loop skips settled
  invoices and rounds every share; on currency amounts it meets the contract of theory \<open>Greedy\<close>.
\<close>

section \<open>The functions\<close>

record outstanding_invoice =
  oi_invoice_id :: uuid
  oi_outstanding :: decimal

record invoice_allocation =
  ia_invoice_id :: uuid
  ia_amount :: decimal

record allocation_result =
  ar_allocations :: "invoice_allocation list"
  ar_allocated_total :: decimal
  ar_unallocated :: decimal

text \<open>The loop returns the allocations and what remains of the amount.\<close>

fun payment_loop ::
  "decimal \<Rightarrow> outstanding_invoice list \<Rightarrow> invoice_allocation list \<times> decimal" where
  "payment_loop remaining [] = ([], remaining)"
| "payment_loop remaining (invoice # rest) =
     (if remaining \<le> 0 then ([], remaining)
      else if oi_outstanding invoice \<le> 0 then payment_loop remaining rest
      else let take_amt = min (oi_outstanding invoice) remaining;
               (allocs, left) = payment_loop (Money (remaining - take_amt)) rest
           in (\<lparr>ia_invoice_id = oi_invoice_id invoice, ia_amount = Money take_amt\<rparr> # allocs, left))"

definition allocate_payment :: "decimal \<Rightarrow> outstanding_invoice list \<Rightarrow> allocation_result res" where
  "allocate_payment amount invoices =
     (if amount \<le> 0 then Inl ValueError
      else let (allocs, left) = payment_loop (Money amount) invoices
           in Inr \<lparr>ar_allocations = allocs,
                   ar_allocated_total = Money (\<Sum>a\<leftarrow>allocs. ia_amount a),
                   ar_unallocated = Money left\<rparr>)"

section \<open>The loop draws greedily\<close>

definition payment_alloc :: "outstanding_invoice \<Rightarrow> decimal \<Rightarrow> invoice_allocation" where
  "payment_alloc invoice q = \<lparr>ia_invoice_id = oi_invoice_id invoice, ia_amount = Money q\<rparr>"

lemma payment_alloc_sel [simp]:
  "ia_invoice_id (payment_alloc invoice q) = oi_invoice_id invoice" "ia_amount (payment_alloc invoice q) = Money q"
  by (simp_all add: payment_alloc_def)

definition payment_draw :: "decimal \<Rightarrow> outstanding_invoice list \<Rightarrow> invoice_allocation list" where
  "payment_draw r invs = fst (payment_loop r invs)"

lemma payment_draw_Cons:
  assumes "0 < r" "0 < oi_outstanding invoice" "paisa_grid r" "paisa_grid (oi_outstanding invoice)"
  shows "payment_draw r (invoice # invs) = payment_alloc invoice (min (oi_outstanding invoice) r)
    # payment_draw (r - min (oi_outstanding invoice) r) invs"
  using assms by (simp add: payment_draw_def payment_alloc_def Let_def case_prod_beta Money_diff_grid on_grid_min)

interpretation payment: greedy_draw oi_outstanding payment_alloc ia_amount paisa_grid payment_draw
proof unfold_locales
  show "payment_draw r [] = []" for r by (simp add: payment_draw_def)
  show "payment_draw r invs = []" if "r \<le> 0" for r invs
    using that by (cases invs) (auto simp: payment_draw_def)
qed (simp_all add: payment_draw_Cons Money_id on_grid_diff)

text \<open>Settled invoices play no part.\<close>

definition open_invoices :: "outstanding_invoice list \<Rightarrow> outstanding_invoice list" where
  "open_invoices invs = filter (\<lambda>i. 0 < oi_outstanding i) invs"

lemma payment_loop_open: "payment_loop r invs = payment_loop r (open_invoices invs)"
proof (induction invs arbitrary: r)
  case (Cons invoice invs)
  then show ?case by (cases "open_invoices invs") (auto simp: open_invoices_def Let_def not_le)
qed (simp add: open_invoices_def)

lemma payment_left:
  assumes "paisa_grid r" "\<forall>i \<in> set invs. paisa_grid (oi_outstanding i)" "0 \<le> r"
  shows "snd (payment_loop r invs) = r - (\<Sum>a\<leftarrow>fst (payment_loop r invs). ia_amount a)"
  using assms
proof (induction invs arbitrary: r)
  case (Cons invoice invs)
  show ?case
  proof (cases "r \<le> 0 \<or> oi_outstanding invoice \<le> 0")
    case True
    then show ?thesis using Cons by auto
  next
    case False
    let ?q = "min (oi_outstanding invoice) r"
    have g: "paisa_grid ?q" using Cons.prems by (simp add: on_grid_min)
    have "snd (payment_loop (r - ?q) invs) = r - ?q - (\<Sum>a\<leftarrow>fst (payment_loop (r - ?q) invs). ia_amount a)"
      using Cons.prems g by (intro Cons.IH) (auto simp: on_grid_diff)
    then show ?thesis
      using False Cons.prems g by (simp add: Let_def case_prod_beta Money_diff_grid Money_id)
  qed
qed simp

lemma stocked_open:
  "\<forall>i \<in> set invs. paisa_grid (oi_outstanding i) \<Longrightarrow> payment.stocked (open_invoices invs)"
  by (simp add: payment.stocked_def open_invoices_def)

lemma allocate_payment_ok:
  "allocate_payment amount invs = Inr r \<longleftrightarrow>
   0 < amount \<and> ar_allocations r = payment_draw (Money amount) (open_invoices invs) \<and>
   ar_allocated_total r = Money (\<Sum>a\<leftarrow>ar_allocations r. ia_amount a) \<and>
   ar_unallocated r = Money (snd (payment_loop (Money amount) invs))"
  by (cases r) (auto simp: allocate_payment_def payment_draw_def case_prod_beta Let_def
      simp flip: payment_loop_open)

text \<open>What the clients of the allocation use: where the shares go and what they add up to.\<close>

lemma allocate_payment_shares:
  assumes "allocate_payment amount invs = Inr r" "\<forall>i \<in> set invs. paisa_grid (oi_outstanding i)"
  shows "al \<in> set (ar_allocations r) \<Longrightarrow> \<exists>i \<in> set invs. ia_invoice_id al = oi_invoice_id i \<and> 0 < ia_amount al
      \<and> ia_amount al \<le> oi_outstanding i \<and> paisa_grid (ia_amount al)"
    "distinct (map oi_invoice_id invs) \<Longrightarrow> distinct (map ia_invoice_id (ar_allocations r))"
    "ar_allocated_total r = (\<Sum>a\<leftarrow>ar_allocations r. ia_amount a)"
proof -
  have a: "ar_allocations r = payment_draw (Money amount) (open_invoices invs)"
    using assms(1) by (simp add: allocate_payment_ok)
  have st: "payment.stocked (open_invoices invs)" by (rule stocked_open [OF assms(2)])
  show share: "\<exists>i \<in> set invs. ia_invoice_id al = oi_invoice_id i \<and> 0 < ia_amount al
      \<and> ia_amount al \<le> oi_outstanding i \<and> paisa_grid (ia_amount al)" if "al \<in> set (ar_allocations r)" for al
  proof -
    obtain i q where "i \<in> set (open_invoices invs)" "al = payment_alloc i q" "paisa_grid q" "0 < q" "q \<le> oi_outstanding i"
      using payment.draw_in [OF st, where r = "Money amount" and c = al] \<open>al \<in> set (ar_allocations r)\<close>
      unfolding a by auto
    then show ?thesis by (intro bexI [of _ i]) (auto simp: Money_id open_invoices_def)
  qed
  have "map ia_invoice_id (ar_allocations r) = map oi_invoice_id (take (length (ar_allocations r)) (open_invoices invs))"
    unfolding a by (intro payment.draw_map st) simp_all
  moreover have "distinct (map oi_invoice_id (open_invoices invs))" if "distinct (map oi_invoice_id invs)"
    using that by (simp add: open_invoices_def distinct_map_filter)
  ultimately show "distinct (map oi_invoice_id invs) \<Longrightarrow> distinct (map ia_invoice_id (ar_allocations r))"
    by (metis distinct_take take_map)
  have "paisa_grid (\<Sum>a\<leftarrow>ar_allocations r. ia_amount a)" by (rule on_grid_sum_list) (use share in blast)
  then show "ar_allocated_total r = (\<Sum>a\<leftarrow>ar_allocations r. ia_amount a)"
    using assms(1) by (simp add: allocate_payment_ok Money_id)
qed

lemma allocate_payment_totals:
  assumes "allocate_payment amount invs = Inr r" "\<forall>i \<in> set invs. paisa_grid (oi_outstanding i)"
  shows "ar_unallocated r = Money amount - ar_allocated_total r"
    "ar_allocated_total r = min (Money amount) (\<Sum>i\<leftarrow>open_invoices invs. oi_outstanding i)"
proof -
  let ?as = "ar_allocations r"
  have a: "0 \<le> Money amount" "?as = payment_draw (Money amount) (open_invoices invs)"
    using assms(1) by (auto simp: allocate_payment_ok Money_nonneg)
  have st: "payment.stocked (open_invoices invs)" by (rule stocked_open [OF assms(2)])
  note t = allocate_payment_shares(3) [OF assms]
  have g: "paisa_grid (\<Sum>a\<leftarrow>?as. ia_amount a)"
    by (rule on_grid_sum_list) (use allocate_payment_shares(1) [OF assms] in blast)
  have "ar_unallocated r = Money (snd (payment_loop (Money amount) invs))"
    using assms(1) by (simp add: allocate_payment_ok)
  also have "\<dots> = Money (Money amount - (\<Sum>a\<leftarrow>?as. ia_amount a))"
    using payment_left [of "Money amount" invs] assms(2) a
    by (simp add: payment_draw_def flip: payment_loop_open)
  also have "\<dots> = Money amount - (\<Sum>a\<leftarrow>?as. ia_amount a)" using g by (simp add: Money_id on_grid_diff)
  finally show "ar_unallocated r = Money amount - ar_allocated_total r" unfolding t .
  show "ar_allocated_total r = min (Money amount) (\<Sum>i\<leftarrow>open_invoices invs. oi_outstanding i)"
    unfolding t a(2) using a(1) by (intro payment.draw_sum st) simp_all
qed

text \<open>
  Applying a payment to invoices. What is allocated and the advance that is left add up to the
  amount received; the allocation is the amount capped by the total outstanding; it goes to the
  open invoices in the given order, each receiving a positive amount of at most what it is short
  of, and each but the last being settled completely.
\<close>

theorem allocate_payment_correct:
  assumes "allocate_payment amount invs = Inr r"
    and "\<forall>i \<in> set invs. paisa_grid (oi_outstanding i)"
  defines "opened \<equiv> open_invoices invs" and "as \<equiv> ar_allocations r"
  shows "ar_allocated_total r + ar_unallocated r = Money amount
    \<and> ar_allocated_total r = (\<Sum>a\<leftarrow>as. ia_amount a)
    \<and> ar_allocated_total r = min (Money amount) (\<Sum>i\<leftarrow>opened. oi_outstanding i)
    \<and> map ia_invoice_id as = map oi_invoice_id (take (length as) opened)
    \<and> (\<forall>k < length as. 0 < ia_amount (as ! k) \<and> ia_amount (as ! k) \<le> oi_outstanding (opened ! k) \<and>
         (Suc k < length as \<longrightarrow> ia_amount (as ! k) = oi_outstanding (opened ! k)))"
proof -
  have a: "0 \<le> Money amount" "as = payment_draw (Money amount) opened"
    using assms(1) by (auto simp: allocate_payment_ok Money_nonneg opened_def as_def)
  have st: "payment.stocked opened" unfolding opened_def by (rule stocked_open [OF assms(2)])
  have m: "map ia_invoice_id as = map oi_invoice_id (take (length as) opened)"
    unfolding a(2) by (intro payment.draw_map st) simp_all
  have "\<exists>q. as ! k = payment_alloc (opened ! k) q \<and> paisa_grid q \<and> 0 < q \<and> q \<le> oi_outstanding (opened ! k) \<and>
      (Suc k < length as \<longrightarrow> q = oi_outstanding (opened ! k))" if "k < length as" for k
    using payment.draw_nth [OF st, where r = "Money amount" and i = k] that by (auto simp: a(2))
  then have "0 < ia_amount (as ! k) \<and> ia_amount (as ! k) \<le> oi_outstanding (opened ! k) \<and>
      (Suc k < length as \<longrightarrow> ia_amount (as ! k) = oi_outstanding (opened ! k))" if "k < length as" for k
    using that by (metis Money_id payment_alloc_sel(2))
  then show ?thesis
    using allocate_payment_totals [OF assms(1,2)] allocate_payment_shares(3) [OF assms(1,2)] m
    by (simp add: as_def opened_def)
qed

definition sample_outstanding :: "outstanding_invoice list" where
  "sample_outstanding =
     [\<lparr>oi_invoice_id = 1, oi_outstanding = 100\<rparr>, \<lparr>oi_invoice_id = 2, oi_outstanding = 0\<rparr>,
      \<lparr>oi_invoice_id = 3, oi_outstanding = 80\<rparr>]"

theorem allocate_payment_correct_witness:
  "\<exists>r. allocate_payment 130 sample_outstanding = Inr r \<and>
     ar_allocations r = [\<lparr>ia_invoice_id = 1, ia_amount = 100\<rparr>, \<lparr>ia_invoice_id = 3, ia_amount = 30\<rparr>] \<and>
     ar_allocated_total r + ar_unallocated r = 130"
proof -
  define r where "r = \<lparr>ar_allocations = [\<lparr>ia_invoice_id = 1, ia_amount = 100\<rparr>, \<lparr>ia_invoice_id = 3, ia_amount = 30\<rparr>],
    ar_allocated_total = 130, ar_unallocated = 0\<rparr>"
  have *: "allocate_payment 130 sample_outstanding = Inr r" unfolding r_def by code_simp
  have "\<forall>i \<in> set sample_outstanding. paisa_grid (oi_outstanding i)"
    by (simp add: sample_outstanding_def on_grid_def)
  from allocate_payment_correct [OF * this]
  have "ar_allocated_total r + ar_unallocated r = Money 130" by blast
  moreover have "Money 130 = 130" by (simp add: Money_id on_grid_def)
  ultimately show ?thesis using * by (intro exI [of _ r]) (simp add: r_def)
qed

end
