(* ===== verification/LandedCost.thy ===== *)
theory LandedCost
  imports Money
begin

text \<open>
  Landed cost of received goods, \<open>app/modules/purchases/landed_cost.py\<close>: discounts, apportioned
  overheads and the cost per unit over billed and free units.
\<close>

section \<open>The functions\<close>

record purchase_line_input =
  li_line_id :: string
  li_billed_quantity :: decimal
  li_free_quantity :: decimal
  li_unit_rate :: decimal
  li_trade_discount_percent :: decimal
  li_cash_discount_percent :: decimal

record landed_cost_line =
  lc_line_id :: string
  lc_net_line_value :: decimal
  lc_allocated_overhead :: decimal
  lc_total_landed_value :: decimal
  lc_total_units :: decimal
  lc_landed_unit_cost :: decimal

record landed_cost_result =
  lr_lines :: "landed_cost_line list"
  lr_goods_value :: decimal
  lr_total_overhead :: decimal
  lr_grand_total :: decimal

definition net_line_value :: "purchase_line_input \<Rightarrow> decimal res" where
  "net_line_value line =
     (let gross = Money (dmul (li_unit_rate line) (li_billed_quantity line))
      in res_bind (apply_percentage_discount gross (li_trade_discount_percent line)) (\<lambda>after_trade.
         apply_percentage_discount after_trade (li_cash_discount_percent line)))"

definition check_line :: "purchase_line_input \<Rightarrow> unit res" where
  "check_line line =
     (if li_billed_quantity line \<le> 0 then Inl ValueError
      else ensure (\<not> li_free_quantity line < 0) ValueError)"

text \<open>The two loops over the lines, the first failure first.\<close>

fun check_lines :: "purchase_line_input list \<Rightarrow> unit res" where
  "check_lines [] = Inr ()"
| "check_lines (line # lines) = res_bind (check_line line) (\<lambda>_. check_lines lines)"

fun net_line_values :: "purchase_line_input list \<Rightarrow> decimal list res" where
  "net_line_values [] = Inr []"
| "net_line_values (line # lines) =
     res_bind (net_line_value line) (\<lambda>v. res_bind (net_line_values lines) (\<lambda>vs. Inr (v # vs)))"

text \<open>The quantum of the unit cost; \<open>quantize\<close> without a rounding argument is half-even.\<close>

definition landed_line :: "purchase_line_input \<Rightarrow> decimal \<Rightarrow> decimal \<Rightarrow> landed_cost_line" where
  "landed_line line net_value overhead =
     (let total_units = li_billed_quantity line + li_free_quantity line;
          total_landed = Money (net_value + overhead)
      in \<lparr>lc_line_id = li_line_id line, lc_net_line_value = net_value, lc_allocated_overhead = overhead,
          lc_total_landed_value = total_landed, lc_total_units = total_units,
          lc_landed_unit_cost = quantize round_half_even 4 (ddiv total_landed total_units)\<rparr>)"

definition landed_lines ::
  "purchase_line_input list \<Rightarrow> decimal list \<Rightarrow> decimal list \<Rightarrow> landed_cost_line list" where
  "landed_lines lines net_values shares =
     map (\<lambda>(line, net_value, overhead). landed_line line net_value overhead)
       (zip lines (zip net_values shares))"

definition compute_landed_cost ::
  "purchase_line_input list \<Rightarrow> decimal \<Rightarrow> decimal \<Rightarrow> decimal \<Rightarrow> landed_cost_result res" where
  "compute_landed_cost lines freight loading other_charges =
     (if lines = [] then Inl ValueError
      else res_bind (check_lines lines) (\<lambda>_.
           res_bind (net_line_values lines) (\<lambda>net_values.
           let goods_value = Money (sum_list net_values);
               total_overhead = Money (freight + loading + other_charges)
           in res_bind (allocate total_overhead net_values) (\<lambda>shares.
              Inr \<lparr>lr_lines = landed_lines lines net_values shares, lr_goods_value = goods_value,
                   lr_total_overhead = total_overhead,
                   lr_grand_total = Money (goods_value + total_overhead)\<rparr>))))"

section \<open>Lemmas\<close>

lemma check_lines_ok:
  "check_lines lines = Inr u \<longleftrightarrow> (\<forall>l \<in> set lines. 0 < li_billed_quantity l \<and> 0 \<le> li_free_quantity l)"
  by (induction lines) (auto simp: check_line_def)

lemma net_line_values_ok:
  "net_line_values lines = Inr vs \<Longrightarrow>
   length vs = length lines \<and> (\<forall>i < length lines. net_line_value (lines ! i) = Inr (vs ! i))"
  by (induction lines arbitrary: vs) (auto simp: nth_Cons split: nat.split)

lemma net_line_value_grid: "net_line_value l = Inr v \<Longrightarrow> paisa_grid v"
  by (auto simp: net_line_value_def intro: discount_grid)

lemma net_line_values_grid: "net_line_values lines = Inr vs \<Longrightarrow> v \<in> set vs \<Longrightarrow> paisa_grid v"
  by (induction lines arbitrary: vs) (auto dest: net_line_value_grid)

lemma net_line_value_bounds:
  assumes "net_line_value l = Inr v" "0 \<le> li_unit_rate l" "0 \<le> li_billed_quantity l"
    and "Money (dmul (li_unit_rate l) (li_billed_quantity l)) < 10 ^ 20"
  shows "0 \<le> v" "v \<le> Money (dmul (li_unit_rate l) (li_billed_quantity l))"
proof -
  let ?g = "Money (dmul (li_unit_rate l) (li_billed_quantity l))"
  obtain t where t: "apply_percentage_discount ?g (li_trade_discount_percent l) = Inr t"
      "apply_percentage_discount t (li_cash_discount_percent l) = Inr v"
    using assms(1) by (auto simp: net_line_value_def Let_def)
  have g: "0 \<le> ?g" "?g < 10 ^ 26" using assms(2-4) by (simp_all add: Money_nonneg dmul_nonneg)
  note b1 = discount_between [OF t(1) Money_grid g]
  have "t < 10 ^ 26" using b1(2) g(2) by simp
  note b2 = discount_between [OF t(2) discount_grid [OF t(1)] b1(1) this]
  show "0 \<le> v" "v \<le> ?g" using b1 b2 by auto
qed

lemma landed_lines_sum:
  assumes "length vs = length lines" "length sh = length lines"
    and "\<forall>v \<in> set vs. paisa_grid v" "\<forall>s \<in> set sh. paisa_grid s"
  shows "(\<Sum>l\<leftarrow>landed_lines lines vs sh. lc_total_landed_value l) = sum_list vs + sum_list sh"
  using assms
proof (induction lines arbitrary: vs sh)
  case (Cons l ls)
  then obtain v vs' s sh' where e: "vs = v # vs'" "sh = s # sh'" by (metis length_Suc_conv)
  have "lc_total_landed_value (landed_line l v s) = v + s"
    using Cons.prems by (simp add: e landed_line_def Let_def Money_add_grid)
  then show ?case using Cons.IH [of vs' sh'] Cons.prems by (simp add: e landed_lines_def)
qed (simp add: landed_lines_def)

lemma compute_landed_cost_ok:
  assumes "compute_landed_cost lines f l c = Inr r"
  obtains vs sh where "lines \<noteq> []" "check_lines lines = Inr ()" "net_line_values lines = Inr vs"
    "allocate (Money (f + l + c)) vs = Inr sh"
    "r = \<lparr>lr_lines = landed_lines lines vs sh, lr_goods_value = Money (sum_list vs),
          lr_total_overhead = Money (f + l + c), lr_grand_total = Money (Money (sum_list vs) + Money (f + l + c))\<rparr>"
  using assms by (auto simp: compute_landed_cost_def Let_def split: if_splits)

text \<open>
  No cost is lost or invented. The landed values of the lines add up to the grand total, which
  is the goods value plus the overheads charged; each line carries its net value and a
  non-negative share of the overhead.
\<close>

theorem landed_cost_conserves:
  assumes "compute_landed_cost lines freight loading other = Inr r"
    and "0 \<le> freight + loading + other" "freight + loading + other < 10 ^ 19"
  shows "(\<Sum>l\<leftarrow>lr_lines r. lc_total_landed_value l) = lr_grand_total r
    \<and> lr_grand_total r = lr_goods_value r + lr_total_overhead r
    \<and> lr_total_overhead r = Money (freight + loading + other)
    \<and> length (lr_lines r) = length lines
    \<and> (\<forall>l \<in> set (lr_lines r). 0 \<le> lc_allocated_overhead l \<and>
         lc_total_landed_value l = lc_net_line_value l + lc_allocated_overhead l)"
proof -
  let ?o = "Money (freight + loading + other)"
  obtain vs sh where v: "net_line_values lines = Inr vs" and sh: "allocate ?o vs = Inr sh"
    and r: "r = \<lparr>lr_lines = landed_lines lines vs sh, lr_goods_value = Money (sum_list vs),
      lr_total_overhead = ?o, lr_grand_total = Money (Money (sum_list vs) + ?o)\<rparr>"
    using compute_landed_cost_ok [OF assms(1)] by metis
  have vs: "length vs = length lines" "\<forall>x \<in> set vs. paisa_grid x"
    using net_line_values_ok [OF v] net_line_values_grid [OF v] by auto
  have "?o \<le> freight + loading + other + 1 / 200"
    using Money_nearest [of "freight + loading + other"] unfolding abs_le_iff by linarith
  then have o: "paisa_grid ?o" "0 \<le> ?o" "?o < 10 ^ 20"
    using assms(2,3) by (simp_all add: Money_nonneg)
  have shs: "length sh = length vs" "sum_list sh = ?o" using allocate_sum [OF sh o] by simp_all
  have shg: "\<forall>s \<in> set sh. paisa_grid s \<and> 0 \<le> s"
    using allocate_grid [OF sh] allocate_nonneg [OF sh o] by blast
  have g: "paisa_grid (sum_list vs)" using on_grid_sum_list [of vs 2 "\<lambda>x. x"] vs(2) by simp
  have "lc_total_landed_value x = lc_net_line_value x + lc_allocated_overhead x \<and> 0 \<le> lc_allocated_overhead x"
    if "x \<in> set (landed_lines lines vs sh)" for x
    using that vs(2) shg
    by (auto simp: landed_lines_def landed_line_def Let_def Money_add_grid elim!: in_set_zipE)
  then show ?thesis
    using landed_lines_sum [of vs lines sh] vs shs shg g
    by (auto simp: r Money_id Money_add_grid landed_lines_def)
qed

definition sample_purchase :: "purchase_line_input list" where
  "sample_purchase =
     [\<lparr>li_line_id = ''a'', li_billed_quantity = 10, li_free_quantity = 2, li_unit_rate = 50,
       li_trade_discount_percent = 10, li_cash_discount_percent = 0\<rparr>,
      \<lparr>li_line_id = ''b'', li_billed_quantity = 3, li_free_quantity = 0, li_unit_rate = 100,
       li_trade_discount_percent = 0, li_cash_discount_percent = 0\<rparr>]"

theorem landed_cost_conserves_witness:
  "\<exists>r. compute_landed_cost sample_purchase 50 25 0 = Inr r \<and> lr_grand_total r = 825 \<and>
     (\<Sum>l\<leftarrow>lr_lines r. lc_total_landed_value l) = 825 \<and>
     map lc_landed_unit_cost (lr_lines r) = [41250 / 1000, 110]"
proof -
  have "res_bind (compute_landed_cost sample_purchase 50 25 0) (\<lambda>r.
      Inr (lr_grand_total r, map lc_landed_unit_cost (lr_lines r))) = Inr (825, [41250 / 1000, 110])"
    by code_simp
  then obtain r where r: "compute_landed_cost sample_purchase 50 25 0 = Inr r"
      "lr_grand_total r = 825" "map lc_landed_unit_cost (lr_lines r) = [41250 / 1000, 110]"
    by auto
  with landed_cost_conserves [OF r(1)] show ?thesis by auto
qed

text \<open>
  Free goods carry cost. The unit cost is the landed value of the line over all units received,
  billed and free, to within half of the fourth decimal (and the context's rounding).
\<close>

theorem landed_unit_cost_spreads:
  assumes "compute_landed_cost lines freight loading other = Inr r" "i < length lines"
    and "0 \<le> lc_total_landed_value (lr_lines r ! i)" "lc_total_landed_value (lr_lines r ! i) < 10 ^ 20"
    and "1 \<le> li_billed_quantity (lines ! i)"
  defines "l \<equiv> lr_lines r ! i"
  shows "lc_total_units l = li_billed_quantity (lines ! i) + li_free_quantity (lines ! i)
    \<and> \<bar>lc_landed_unit_cost l - lc_total_landed_value l / lc_total_units l\<bar> \<le> 6 / 10 ^ 5"
proof -
  obtain vs sh where c: "check_lines lines = Inr ()" and v: "net_line_values lines = Inr vs"
    and sh: "allocate (Money (freight + loading + other)) vs = Inr sh"
    and r: "lr_lines r = landed_lines lines vs sh"
    using compute_landed_cost_ok [OF assms(1)] by (metis landed_cost_result.select_convs(1))
  have len: "length vs = length lines" using net_line_values_ok [OF v] by simp
  have lsh: "length sh = length vs"
    using sh by (auto simp: allocate_def Let_def raw_shares_def split: if_splits)
  have l: "l = landed_line (lines ! i) (vs ! i) (sh ! i)"
    using assms(2) len lsh by (simp add: l_def r landed_lines_def)
  have free: "0 \<le> li_free_quantity (lines ! i)" using c assms(2) by (simp add: check_lines_ok)
  define t u where "t = lc_total_landed_value l" and "u = lc_total_units l"
  have u: "u = li_billed_quantity (lines ! i) + li_free_quantity (lines ! i)" "1 \<le> u"
    using free assms(5) by (simp_all add: u_def l landed_line_def Let_def)
  have t: "0 \<le> t" "t < 10 ^ 20" using assms(3,4) by (simp_all add: t_def l_def)
  have q: "lc_landed_unit_cost l = quantize round_half_even 4 (ctx_round (t / u))"
    by (simp add: t_def u_def l landed_line_def Let_def ddiv_def)
  have "t / u \<le> t / 1" using t u by (intro divide_left_mono) auto
  then have tu: "0 \<le> t / u" "t / u < 10 ^ 20" using t u by auto
  have "\<bar>ctx_round (t / u) - t / u\<bar> \<le> 1 / 10 ^ 5"
  proof -
    have "\<bar>t / u\<bar> / (2 * 10 ^ 27) \<le> 1 / 10 ^ 5" using tu by (simp only: abs_of_nonneg) simp
    with ctx_round_error [of "t / u"] show ?thesis by (rule order_trans)
  qed
  moreover have "\<bar>quantize round_half_even 4 (ctx_round (t / u)) - ctx_round (t / u)\<bar> \<le> 5 / 10 ^ 5"
    using half_even.quantize_nearest [of 4 "ctx_round (t / u)"] by simp
  ultimately have "\<bar>lc_landed_unit_cost l - t / u\<bar> \<le> 6 / 10 ^ 5" unfolding q abs_le_iff by linarith
  then show ?thesis using u(1) by (simp add: t_def u_def)
qed

theorem landed_unit_cost_spreads_witness:
  "\<exists>r. compute_landed_cost sample_purchase 50 25 0 = Inr r \<and>
     lc_total_units (lr_lines r ! 0) = 12 \<and>
     \<bar>lc_landed_unit_cost (lr_lines r ! 0) - 495 / 12\<bar> \<le> 6 / 10 ^ 5"
proof -
  have "res_bind (compute_landed_cost sample_purchase 50 25 0) (\<lambda>r.
      Inr (map lc_total_landed_value (lr_lines r))) = Inr [495, 330]"
    by code_simp
  then obtain r where r: "compute_landed_cost sample_purchase 50 25 0 = Inr r"
      "map lc_total_landed_value (lr_lines r) = [495, 330]"
    by auto
  have ll: "lc_total_landed_value (lr_lines r ! 0) = 495" using r(2) by auto
  note * = landed_unit_cost_spreads [OF r(1), of 0, unfolded ll]
  then have u: "lc_total_units (lr_lines r ! 0) = 12" by (simp add: sample_purchase_def)
  have "\<bar>lc_landed_unit_cost (lr_lines r ! 0) - 495 / 12\<bar> \<le> 6 / 10 ^ 5"
    using * unfolding u by (simp add: sample_purchase_def)
  with r(1) u show ?thesis by blast
qed

end
