(* ===== verification/Fefo.thy ===== *)
theory Fefo
  imports Greedy Exceptions
begin

text \<open>
  First-expiry-first-out allocation, \<open>app/modules/inventory/fefo.py\<close>: the batches that may be
  sold, their order, the greedy loop, and what an allocation promises. The loop meets the
  contract of theory \<open>Greedy\<close>.
\<close>

section \<open>The functions\<close>

record availability_row =
  ba_batch_id :: "uuid option"
  ba_expiry_date :: "date option"
  ba_available :: decimal

record allocation =
  al_batch_id :: "uuid option"
  al_quantity :: decimal

text \<open>\<open>date.max\<close> is day 3652059.\<close>

definition date_max :: date where
  "date_max = 3652059"

definition fefo_sort_key :: "availability_row \<Rightarrow> nat \<times> date" where
  "fefo_sort_key b = (case ba_expiry_date b of None \<Rightarrow> (1, date_max) | Some d \<Rightarrow> (0, d))"

definition usable :: "date \<Rightarrow> availability_row \<Rightarrow> bool" where
  "usable as_of b \<longleftrightarrow>
     0 < ba_available b \<and> (case ba_expiry_date b of None \<Rightarrow> True | Some d \<Rightarrow> as_of < d)"

fun fefo_loop :: "decimal \<Rightarrow> availability_row list \<Rightarrow> allocation list" where
  "fefo_loop remaining [] = []"
| "fefo_loop remaining (batch # rest) =
     (if remaining \<le> 0 then []
      else let take_qty = min (ba_available batch) remaining
           in \<lparr>al_batch_id = ba_batch_id batch, al_quantity = take_qty\<rparr>
              # fefo_loop (remaining - take_qty) rest)"

definition total_available :: "availability_row list \<Rightarrow> decimal" where
  "total_available bs = (\<Sum>b\<leftarrow>bs. ba_available b)"

definition allocate_fefo :: "availability_row list \<Rightarrow> decimal \<Rightarrow> date \<Rightarrow> allocation list res" where
  "allocate_fefo batches required as_of =
     (if required \<le> 0 then Inl ValueError
      else let us = filter (usable as_of) batches
           in if total_available us < required
              then Inl (InsufficientStockError required (total_available us))
              else Inr (fefo_loop required (sort_key fefo_sort_key us)))"

section \<open>The loop draws greedily\<close>

definition fefo_alloc :: "availability_row \<Rightarrow> decimal \<Rightarrow> allocation" where
  "fefo_alloc b q = \<lparr>al_batch_id = ba_batch_id b, al_quantity = q\<rparr>"

lemma fefo_alloc_sel [simp]:
  "al_batch_id (fefo_alloc b q) = ba_batch_id b" "al_quantity (fefo_alloc b q) = q"
  by (simp_all add: fefo_alloc_def)

interpretation fefo: greedy_draw ba_available fefo_alloc al_quantity "\<lambda>_. True" fefo_loop
proof unfold_locales
  show "fefo_loop r bs = []" if "r \<le> 0" for r bs
    using that by (cases bs) auto
qed (simp_all add: fefo_alloc_def Let_def)

lemma allocate_fefo_ok:
  "allocate_fefo batches required as_of = Inr as \<longleftrightarrow>
   0 < required \<and> required \<le> total_available (filter (usable as_of) batches) \<and>
   as = fefo_loop required (sort_key fefo_sort_key (filter (usable as_of) batches))"
  by (auto simp: allocate_fefo_def Let_def not_le not_less)

lemma stocked_usable: "fefo.stocked (sort_key fefo_sort_key (filter (usable as_of) bs))"
  by (simp add: fefo.stocked_def usable_def)

lemma total_available_sort: "total_available (sort_key k bs) = total_available bs"
  by (simp add: total_available_def sum_list_sort_key)

lemma allocate_fefo_sum:
  assumes "allocate_fefo bs req as_of = Inr as"
  shows "(\<Sum>a\<leftarrow>as. al_quantity a) = req"
proof -
  let ?us = "sort_key fefo_sort_key (filter (usable as_of) bs)"
  have a: "0 < req" "req \<le> total_available ?us" "as = fefo_loop req ?us"
    using assms by (simp_all add: allocate_fefo_ok total_available_sort)
  then show ?thesis
    using fefo.draw_sum [OF stocked_usable [of as_of bs], where r = req] by (simp add: total_available_def)
qed

lemma allocate_fefo_in:
  assumes "allocate_fefo bs req as_of = Inr as" "a \<in> set as"
  shows "\<exists>b \<in> set bs. usable as_of b \<and> al_batch_id a = ba_batch_id b \<and>
    0 < al_quantity a \<and> al_quantity a \<le> ba_available b"
  using fefo.draw_in [OF stocked_usable [of as_of bs], where r = req and c = a] assms
  by (auto simp: allocate_fefo_ok)

lemma allocate_fefo_pos:
  "allocate_fefo bs req as_of = Inr as \<Longrightarrow> a \<in> set as \<Longrightarrow> 0 < al_quantity a"
  using allocate_fefo_in by blast

lemma allocate_fefo_keys:
  assumes "allocate_fefo bs req as_of = Inr as"
  shows "map al_batch_id as =
    map ba_batch_id (take (length as) (sort_key fefo_sort_key (filter (usable as_of) bs)))"
  using fefo.draw_map [OF stocked_usable [of as_of bs], where r = req and f = al_batch_id and g = ba_batch_id] assms
  by (simp add: allocate_fefo_ok)

text \<open>Batches that stand in one row each are drawn from at most once each.\<close>

lemma allocate_fefo_distinct:
  assumes "allocate_fefo bs req as_of = Inr as" "distinct (map ba_batch_id bs)"
  shows "distinct (map al_batch_id as)"
proof -
  have "distinct (map ba_batch_id (filter (usable as_of) bs))"
    using assms(2) by (rule distinct_map_filter)
  then have "distinct (map ba_batch_id (sort_key fefo_sort_key (filter (usable as_of) bs)))"
    by (metis distinct_map distinct_sort set_sort)
  then show ?thesis
    unfolding allocate_fefo_keys [OF assms(1)] take_map [symmetric] by (rule distinct_take)
qed

text \<open>
  C21: Issuing stock by earliest expiry. An allocation adds up to exactly the requested quantity;
  it draws from a prefix of the saleable batches sorted by expiry (batches without expiry last),
  never more than a batch has and never from an expired one, and every batch but the last one
  drawn from is emptied before the next is touched.
\<close>

theorem allocate_fefo_correct:
  assumes "allocate_fefo bs req as_of = Inr as"
  defines "us \<equiv> sort_key fefo_sort_key (filter (usable as_of) bs)"
  shows "(\<Sum>a\<leftarrow>as. al_quantity a) = req
    \<and> map al_batch_id as = map ba_batch_id (take (length as) us)
    \<and> sorted (map fefo_sort_key us)
    \<and> (\<forall>i < length as. 0 < al_quantity (as ! i) \<and> al_quantity (as ! i) \<le> ba_available (us ! i)
         \<and> usable as_of (us ! i)
         \<and> (Suc i < length as \<longrightarrow> al_quantity (as ! i) = ba_available (us ! i)))"
proof -
  have as: "as = fefo_loop req us" using assms by (simp add: allocate_fefo_ok)
  have st: "fefo.stocked us" unfolding us_def by (rule stocked_usable)
  have u: "usable as_of b" if "b \<in> set us" for b using that by (simp add: us_def)
  have "0 < al_quantity (as ! i) \<and> al_quantity (as ! i) \<le> ba_available (us ! i) \<and> usable as_of (us ! i)
      \<and> (Suc i < length as \<longrightarrow> al_quantity (as ! i) = ba_available (us ! i))" if "i < length as" for i
    using fefo.draw_nth [OF st, where r = req and i = i] that u by (auto simp: as)
  moreover have "map al_batch_id as = map ba_batch_id (take (length as) us)"
    using allocate_fefo_keys [OF assms(1)] by (simp add: us_def)
  ultimately show ?thesis
    using allocate_fefo_sum [OF assms(1)] by (simp add: us_def)
qed

definition sample_batches :: "availability_row list" where
  "sample_batches =
     [\<lparr>ba_batch_id = None, ba_expiry_date = None, ba_available = 50\<rparr>,
      \<lparr>ba_batch_id = Some 1, ba_expiry_date = Some 900, ba_available = 4\<rparr>,
      \<lparr>ba_batch_id = Some 2, ba_expiry_date = Some 700, ba_available = 3\<rparr>,
      \<lparr>ba_batch_id = Some 3, ba_expiry_date = Some 500, ba_available = 9\<rparr>]"

theorem allocate_fefo_correct_witness:
  "allocate_fefo sample_batches 5 600 =
     Inr [\<lparr>al_batch_id = Some 2, al_quantity = 3\<rparr>, \<lparr>al_batch_id = Some 1, al_quantity = 2\<rparr>]
   \<and> (\<Sum>a\<leftarrow>[\<lparr>al_batch_id = Some 2, al_quantity = 3\<rparr>, \<lparr>al_batch_id = Some 1, al_quantity = 2\<rparr>].
        al_quantity a) = (5 :: decimal)"
proof -
  have *: "allocate_fefo sample_batches 5 600 =
     Inr [\<lparr>al_batch_id = Some 2, al_quantity = 3\<rparr>, \<lparr>al_batch_id = Some 1, al_quantity = 2\<rparr>]"
    by code_simp
  with allocate_fefo_correct [OF *] show ?thesis by blast
qed

text \<open>
  When stock cannot be issued. The allocation fails exactly for a quantity that is not positive
  (\<open>ValueError\<close>) or one above the total of the saleable batches; the error then carries both
  quantities.
\<close>

theorem allocate_fefo_fails_iff:
  "allocate_fefo bs req as_of = Inl e \<longleftrightarrow>
     req \<le> 0 \<and> e = ValueError \<or>
     0 < req \<and> (\<Sum>b\<leftarrow>filter (usable as_of) bs. ba_available b) < req \<and>
       e = InsufficientStockError req (\<Sum>b\<leftarrow>filter (usable as_of) bs. ba_available b)"
  by (auto simp: allocate_fefo_def Let_def total_available_def not_le)

end
