(* ===== verification/Inventory.thy ===== *)
theory Inventory
  imports Fefo
begin

text \<open>
  The stock ledger: \<open>app/modules/inventory/models.py\<close> and \<open>repository.py\<close>, and \<open>post_movement\<close> of
  \<open>service.py\<close>, through which every change of stock goes. The theory ends with the invariant of
  the two tables: a balance is the sum of the movements of its key.
\<close>

section \<open>Movement types\<close>

datatype movement_type =
    OPENING | PURCHASE_RECEIPT | RETAIL_SALE | WHOLESALE_SALE | SALES_RETURN | PURCHASE_RETURN
  | TRANSFER_OUT | TRANSFER_IN | DAMAGE | EXPIRY | ADJUSTMENT | REPAIR_CONSUMPTION | REPAIR_RETURN
  | RECONCILIATION

definition INBOUND_TYPES :: "movement_type set" where
  "INBOUND_TYPES = {OPENING, PURCHASE_RECEIPT, SALES_RETURN, TRANSFER_IN, REPAIR_RETURN}"

definition OUTBOUND_TYPES :: "movement_type set" where
  "OUTBOUND_TYPES =
     {RETAIL_SALE, WHOLESALE_SALE, PURCHASE_RETURN, TRANSFER_OUT, DAMAGE, EXPIRY, REPAIR_CONSUMPTION}"

definition movement_direction :: "movement_type \<Rightarrow> int" where
  "movement_direction mt =
     (if mt \<in> INBOUND_TYPES then 1 else if mt \<in> OUTBOUND_TYPES then - 1 else 0)"

lemma movement_direction_cases:
  "movement_direction mt = 1 \<or> movement_direction mt = - 1 \<or> movement_direction mt = 0"
  by (simp add: movement_direction_def)

section \<open>The tables\<close>

record batch =
  bt_id :: uuid
  bt_organization_id :: uuid
  bt_product_id :: uuid
  bt_batch_number :: string
  bt_manufacture_date :: "date option"
  bt_expiry_date :: "date option"
  bt_mrp :: "decimal option"

record stock_movement =
  mv_id :: uuid
  mv_organization_id :: uuid
  mv_branch_id :: "uuid option"
  mv_warehouse_id :: uuid
  mv_product_id :: uuid
  mv_batch_id :: "uuid option"
  mv_movement_type :: movement_type
  mv_base_quantity :: decimal
  mv_source_document_type :: "string option"
  mv_source_document_id :: "uuid option"
  mv_reason :: "string option"
  mv_created_by :: "uuid option"
  mv_created_at :: timestamp

record stock_balance =
  sb_id :: uuid
  sb_organization_id :: uuid
  sb_warehouse_id :: uuid
  sb_product_id :: uuid
  sb_batch_id :: "uuid option"
  sb_on_hand :: decimal
  sb_reserved :: decimal

definition sb_available :: "stock_balance \<Rightarrow> decimal" where
  "sb_available b = sb_on_hand b - sb_reserved b"

text \<open>
  The component's tables, the supply of its UUIDs and the clock of the request
  (\<open>datetime.now(tz=utc)\<close> and \<open>func.now()\<close>).
\<close>

record inventory =
  iv_batches :: "batch list"
  iv_movements :: "stock_movement list"
  iv_balances :: "stock_balance list"
  iv_next :: uuid
  iv_now :: timestamp

type_synonym stock_key = "uuid \<times> uuid \<times> uuid option"

definition sb_key :: "stock_balance \<Rightarrow> stock_key" where
  "sb_key b = (sb_warehouse_id b, sb_product_id b, sb_batch_id b)"

definition mv_key :: "stock_movement \<Rightarrow> stock_key" where
  "mv_key m = (mv_warehouse_id m, mv_product_id m, mv_batch_id m)"

section \<open>The repository\<close>

definition get_balance :: "uuid \<Rightarrow> uuid \<Rightarrow> uuid option \<Rightarrow> inventory \<Rightarrow> stock_balance option" where
  "get_balance warehouse_id product_id batch_id s =
     first_row (\<lambda>b. sb_warehouse_id b = warehouse_id \<and> sb_product_id b = product_id \<and>
       sb_batch_id b = batch_id) (iv_balances s)"

text \<open>The \<open>INSERT\<close> fails on \<open>ck_movement_nonzero\<close>.\<close>

definition add_movement :: "stock_movement \<Rightarrow> inventory \<Rightarrow> (uuid \<times> inventory) res" where
  "add_movement movement s =
     (if mv_base_quantity movement = 0 then Inl IntegrityError
      else Inr (iv_next s,
        s\<lparr>iv_movements := iv_movements s @ [movement\<lparr>mv_id := iv_next s, mv_created_at := iv_now s\<rparr>],
          iv_next := Suc (iv_next s)\<rparr>))"

text \<open>The flush of the balance row fails on \<open>ck_balance_non_negative\<close>.\<close>

definition upsert_balance_delta ::
  "uuid \<Rightarrow> uuid \<Rightarrow> uuid \<Rightarrow> uuid option \<Rightarrow> decimal \<Rightarrow> inventory \<Rightarrow> inventory res" where
  "upsert_balance_delta organization_id warehouse_id product_id batch_id delta s =
     (case get_balance warehouse_id product_id batch_id s of
        None \<Rightarrow>
          (if 0 + delta < 0 then Inl IntegrityError
           else Inr (s\<lparr>iv_balances := iv_balances s @
                  [\<lparr>sb_id = iv_next s, sb_organization_id = organization_id,
                    sb_warehouse_id = warehouse_id, sb_product_id = product_id,
                    sb_batch_id = batch_id, sb_on_hand = 0 + delta, sb_reserved = 0\<rparr>],
                  iv_next := Suc (iv_next s)\<rparr>))
      | Some balance \<Rightarrow>
          (if sb_on_hand balance + delta < 0 then Inl IntegrityError
           else Inr (s\<lparr>iv_balances := upd_first
                  (\<lambda>b. sb_warehouse_id b = warehouse_id \<and> sb_product_id b = product_id \<and>
                    sb_batch_id b = batch_id)
                  (\<lambda>b. b\<lparr>sb_on_hand := sb_on_hand b + delta\<rparr>) (iv_balances s)\<rparr>)))"

text \<open>The expiry date that the outer join with \<open>batches\<close> finds for a balance row.\<close>

definition batch_expiry :: "inventory \<Rightarrow> uuid option \<Rightarrow> date option" where
  "batch_expiry s batch_id =
     (case batch_id of
        None \<Rightarrow> None
      | Some i \<Rightarrow> (case first_row (\<lambda>b. bt_id b = i) (iv_batches s) of
          None \<Rightarrow> None
        | Some b \<Rightarrow> bt_expiry_date b))"

definition batch_availability :: "uuid \<Rightarrow> uuid \<Rightarrow> inventory \<Rightarrow> availability_row list" where
  "batch_availability warehouse_id product_id s =
     map (\<lambda>b. \<lparr>ba_batch_id = sb_batch_id b, ba_expiry_date = batch_expiry s (sb_batch_id b),
               ba_available = sb_on_hand b - sb_reserved b\<rparr>)
       (filter (\<lambda>b. sb_warehouse_id b = warehouse_id \<and> sb_product_id b = product_id \<and>
                 sb_reserved b < sb_on_hand b) (iv_balances s))"

definition adjust_reserved ::
  "uuid \<Rightarrow> uuid \<Rightarrow> uuid option \<Rightarrow> decimal \<Rightarrow> inventory \<Rightarrow> inventory res" where
  "adjust_reserved warehouse_id product_id batch_id delta s =
     (case get_balance warehouse_id product_id batch_id s of
        None \<Rightarrow> Inl ValueError
      | Some balance \<Rightarrow> Inr (s\<lparr>iv_balances := upd_first
                  (\<lambda>b. sb_warehouse_id b = warehouse_id \<and> sb_product_id b = product_id \<and>
                    sb_batch_id b = batch_id)
                  (\<lambda>b. b\<lparr>sb_reserved := sb_reserved b + delta\<rparr>) (iv_balances s)\<rparr>))"

definition reserved_balances :: "uuid \<Rightarrow> uuid \<Rightarrow> inventory \<Rightarrow> availability_row list" where
  "reserved_balances warehouse_id product_id s =
     map (\<lambda>b. \<lparr>ba_batch_id = sb_batch_id b, ba_expiry_date = batch_expiry s (sb_batch_id b),
               ba_available = sb_reserved b\<rparr>)
       (filter (\<lambda>b. sb_warehouse_id b = warehouse_id \<and> sb_product_id b = product_id \<and>
                 0 < sb_reserved b) (iv_balances s))"

section \<open>Posting a movement\<close>

text \<open>The keyword arguments of \<open>post_movement\<close>, and a call that gives the required ones only.\<close>

record movement_args =
  ma_organization_id :: uuid
  ma_warehouse_id :: uuid
  ma_product_id :: uuid
  ma_movement_type :: movement_type
  ma_base_quantity :: decimal
  ma_batch_id :: "uuid option"
  ma_branch_id :: "uuid option"
  ma_source_document_type :: "string option"
  ma_source_document_id :: "uuid option"
  ma_reason :: "string option"
  ma_created_by :: "uuid option"
  ma_signed_quantity :: "decimal option"

definition required_args :: "uuid \<Rightarrow> uuid \<Rightarrow> uuid \<Rightarrow> movement_type \<Rightarrow> decimal \<Rightarrow> movement_args" where
  "required_args organization_id warehouse_id product_id mt base_quantity =
     \<lparr>ma_organization_id = organization_id, ma_warehouse_id = warehouse_id, ma_product_id = product_id,
      ma_movement_type = mt, ma_base_quantity = base_quantity, ma_batch_id = None, ma_branch_id = None,
      ma_source_document_type = None, ma_source_document_id = None, ma_reason = None,
      ma_created_by = None, ma_signed_quantity = None\<rparr>"

record posted_movement =
  pm_movement_id :: uuid
  pm_batch_id :: "uuid option"
  pm_base_quantity :: decimal

definition ma_key :: "movement_args \<Rightarrow> stock_key" where
  "ma_key a = (ma_warehouse_id a, ma_product_id a, ma_batch_id a)"

text \<open>The signed change: from the direction of the type, or the signed quantity the caller gives.\<close>

definition movement_delta :: "movement_args \<Rightarrow> decimal res" where
  "movement_delta a =
     (let direction = movement_direction (ma_movement_type a)
      in if direction = 0
         then (case ma_signed_quantity a of
                 None \<Rightarrow> Inl business_rule
               | Some q \<Rightarrow> if q = 0 then Inl business_rule else Inr q)
         else if ma_base_quantity a \<le> 0 then Inl business_rule
         else Inr (ma_base_quantity a * of_int direction))"

definition stock_movement_of :: "movement_args \<Rightarrow> decimal \<Rightarrow> stock_movement" where
  "stock_movement_of a delta =
     \<lparr>mv_id = 0, mv_organization_id = ma_organization_id a, mv_branch_id = ma_branch_id a,
      mv_warehouse_id = ma_warehouse_id a, mv_product_id = ma_product_id a, mv_batch_id = ma_batch_id a,
      mv_movement_type = ma_movement_type a, mv_base_quantity = delta,
      mv_source_document_type = ma_source_document_type a,
      mv_source_document_id = ma_source_document_id a, mv_reason = ma_reason a,
      mv_created_by = ma_created_by a, mv_created_at = 0\<rparr>"

definition post_movement :: "movement_args \<Rightarrow> inventory \<Rightarrow> (posted_movement \<times> inventory) res" where
  "post_movement a s =
     res_bind (movement_delta a) (\<lambda>delta.
     let on_hand = (case get_balance (ma_warehouse_id a) (ma_product_id a) (ma_batch_id a) s of
                      None \<Rightarrow> 0 | Some balance \<Rightarrow> sb_on_hand balance)
     in if delta < 0 \<and> on_hand + delta < 0 then Inl (business ''insufficient_stock'')
        else res_bind (add_movement (stock_movement_of a delta) s) (\<lambda>(movement_id, s1).
             res_bind (upsert_balance_delta (ma_organization_id a) (ma_warehouse_id a) (ma_product_id a)
                         (ma_batch_id a) delta s1) (\<lambda>s2.
             Inr (\<lparr>pm_movement_id = movement_id, pm_batch_id = ma_batch_id a, pm_base_quantity = delta\<rparr>,
                  s2))))"

text \<open>\<open>receive\<close> passes its keyword arguments on; its movement type is \<open>PURCHASE_RECEIPT\<close> by default.\<close>

definition receive :: "movement_args \<Rightarrow> inventory \<Rightarrow> (posted_movement \<times> inventory) res" where
  "receive a s = post_movement a s"

section \<open>Reading the tables\<close>

text \<open>The level of a key, as the balance table has it and as the ledger adds it up.\<close>

definition on_hand_of :: "inventory \<Rightarrow> stock_key \<Rightarrow> decimal" where
  "on_hand_of s k = sum_rows (\<lambda>b. sb_key b = k) sb_on_hand (iv_balances s)"

definition ledger_of :: "inventory \<Rightarrow> stock_key \<Rightarrow> decimal" where
  "ledger_of s k = sum_rows (\<lambda>m. mv_key m = k) mv_base_quantity (iv_movements s)"

definition reserved_of :: "inventory \<Rightarrow> stock_key \<Rightarrow> decimal" where
  "reserved_of s k = sum_rows (\<lambda>b. sb_key b = k) sb_reserved (iv_balances s)"

text \<open>The physical stock and the reservations of a product in a warehouse, over all its batches.\<close>

definition stock_of :: "inventory \<Rightarrow> uuid \<Rightarrow> uuid \<Rightarrow> decimal" where
  "stock_of s w p = sum_rows (\<lambda>b. sb_warehouse_id b = w \<and> sb_product_id b = p) sb_on_hand (iv_balances s)"

definition reservations_of :: "inventory \<Rightarrow> uuid \<Rightarrow> uuid \<Rightarrow> decimal" where
  "reservations_of s w p =
     sum_rows (\<lambda>b. sb_warehouse_id b = w \<and> sb_product_id b = p) sb_reserved (iv_balances s)"

section \<open>The invariant\<close>

definition keys_unique :: "inventory \<Rightarrow> bool" where
  "keys_unique s \<longleftrightarrow> distinct (map sb_key (iv_balances s))"

text \<open>
  One balance row per key, no negative balance, no empty movement, distinct movement identities,
  and every balance equal to the sum of the movements of its key.
\<close>

definition ledger_ok :: "inventory \<Rightarrow> bool" where
  "ledger_ok s \<longleftrightarrow>
     keys_unique s
     \<and> (\<forall>b \<in> set (iv_balances s). 0 \<le> sb_on_hand b)
     \<and> (\<forall>m \<in> set (iv_movements s). mv_base_quantity m \<noteq> 0 \<and> mv_id m < iv_next s)
     \<and> distinct (map mv_id (iv_movements s))
     \<and> (\<forall>k. on_hand_of s k = ledger_of s k)"

text \<open>Reservations are covered by the stock of the row they are on.\<close>

definition reserved_ok :: "inventory \<Rightarrow> bool" where
  "reserved_ok s \<longleftrightarrow> (\<forall>b \<in> set (iv_balances s). 0 \<le> sb_reserved b \<and> sb_reserved b \<le> sb_on_hand b)"

definition empty_inventory :: "timestamp \<Rightarrow> inventory" where
  "empty_inventory t = \<lparr>iv_batches = [], iv_movements = [], iv_balances = [], iv_next = 0, iv_now = t\<rparr>"

lemma empty_inventory_ok: "ledger_ok (empty_inventory t) \<and> reserved_ok (empty_inventory t)"
  by (simp add: empty_inventory_def ledger_ok_def keys_unique_def reserved_ok_def on_hand_of_def ledger_of_def)

lemma ledger_okD: "ledger_ok s \<Longrightarrow> on_hand_of s k = ledger_of s k"
  by (simp only: ledger_ok_def)

lemma ledger_ok_unique: "ledger_ok s \<Longrightarrow> keys_unique s"
  and ledger_ok_nonneg: "ledger_ok s \<Longrightarrow> \<forall>b \<in> set (iv_balances s). 0 \<le> sb_on_hand b"
  by (auto simp: ledger_ok_def)

section \<open>One row per key\<close>

lemma get_balance_key: "get_balance w p b s = first_row (\<lambda>r. sb_key r = (w, p, b)) (iv_balances s)"
  by (auto simp: get_balance_def sb_key_def intro: first_row_cong)

lemma upd_first_key:
  "upd_first (\<lambda>b. sb_warehouse_id b = w \<and> sb_product_id b = p \<and> sb_batch_id b = i) f rs =
   upd_first (\<lambda>r. sb_key r = (w, p, i)) f rs"
  by (simp add: sb_key_def)

lemma first_row_unique:
  "distinct (map sb_key rs) \<Longrightarrow> b \<in> set rs \<Longrightarrow> first_row (\<lambda>r. sb_key r = sb_key b) rs = Some b"
  by (induction rs) (auto simp: image_iff)

lemma sum_rows_unique:
  "distinct (map sb_key rs) \<Longrightarrow>
   sum_rows (\<lambda>b. sb_key b = k) g rs =
     (case first_row (\<lambda>b. sb_key b = k) rs of None \<Rightarrow> 0 | Some b \<Rightarrow> g b)"
proof (induction rs)
  case (Cons r rs)
  show ?case
  proof (cases "sb_key r = k")
    case True
    then have "filter (\<lambda>b. sb_key b = k) rs = []"
      using Cons.prems by (auto simp: filter_empty_conv image_iff)
    then show ?thesis using True by (simp add: sum_rows_Cons sum_rows_def)
  next
    case False
    then show ?thesis using Cons by (simp add: sum_rows_Cons)
  qed
qed simp

lemma on_hand_of_row:
  "keys_unique s \<Longrightarrow> b \<in> set (iv_balances s) \<Longrightarrow> on_hand_of s (sb_key b) = sb_on_hand b"
  by (simp add: on_hand_of_def keys_unique_def sum_rows_unique first_row_unique)

lemma reserved_of_row:
  "keys_unique s \<Longrightarrow> b \<in> set (iv_balances s) \<Longrightarrow> reserved_of s (sb_key b) = sb_reserved b"
  by (simp add: reserved_of_def keys_unique_def sum_rows_unique first_row_unique)

lemma get_balance_on_hand:
  "keys_unique s \<Longrightarrow> (case get_balance w p b s of None \<Rightarrow> 0 | Some r \<Rightarrow> sb_on_hand r) = on_hand_of s (w, p, b)"
  by (simp add: on_hand_of_def keys_unique_def sum_rows_unique get_balance_key)

lemma on_hand_of_nonneg:
  "\<forall>b \<in> set (iv_balances s). 0 \<le> sb_on_hand b \<Longrightarrow> 0 \<le> on_hand_of s k"
  unfolding on_hand_of_def by (intro sum_rows_nonneg) auto

section \<open>What the upserts change\<close>

lemma upsert_cases:
  assumes "upsert_balance_delta org w p b d s = Inr t"
  obtains
    (insert) n where "first_row (\<lambda>r. sb_key r = (w, p, b)) (iv_balances s) = None" "0 \<le> d"
      "t = s\<lparr>iv_balances := iv_balances s @ [\<lparr>sb_id = n, sb_organization_id = org, sb_warehouse_id = w,
          sb_product_id = p, sb_batch_id = b, sb_on_hand = d, sb_reserved = 0\<rparr>], iv_next := Suc n\<rparr>"
      "n = iv_next s"
  | (update) r where "first_row (\<lambda>r. sb_key r = (w, p, b)) (iv_balances s) = Some r" "0 \<le> sb_on_hand r + d"
      "t = s\<lparr>iv_balances := upd_first (\<lambda>r. sb_key r = (w, p, b)) (\<lambda>r. r\<lparr>sb_on_hand := sb_on_hand r + d\<rparr>)
          (iv_balances s)\<rparr>"
  using assms
  by (fastforce simp: upsert_balance_delta_def get_balance_key upd_first_key split: option.splits if_splits)

lemma upsert_frame [frame_simps]:
  assumes "upsert_balance_delta org w p b d s = Inr t"
  shows "iv_movements t = iv_movements s" "iv_batches t = iv_batches s" "iv_now t = iv_now s"
    "iv_next s \<le> iv_next t"
  using assms by (cases rule: upsert_cases; simp)+

lemma upsert_keys_unique:
  assumes "upsert_balance_delta org w p b d s = Inr t" "keys_unique s"
  shows "keys_unique t"
  using assms(1)
proof (cases rule: upsert_cases)
  case (insert n)
  then have "(w, p, b) \<notin> sb_key ` set (iv_balances s)" by (auto simp: first_row_None)
  then show ?thesis using assms(2) insert(3) by (simp add: keys_unique_def sb_key_def)
next
  case (update r)
  have "map sb_key (iv_balances t) = map sb_key (iv_balances s)"
    unfolding update(3) by (simp, rule map_upd_first) (simp add: sb_key_def)
  then show ?thesis using assms(2) by (simp add: keys_unique_def)
qed

lemma upsert_succeeds_iff:
  assumes "keys_unique s"
  shows "is_ok (upsert_balance_delta org w p b d s) \<longleftrightarrow> 0 \<le> on_hand_of s (w, p, b) + d"
  using get_balance_on_hand [OF assms, of w p b]
  by (cases "get_balance w p b s") (simp_all add: upsert_balance_delta_def)

text \<open>The on-hand column, summed over any set of keys, moves by the delta when the key is in it.\<close>

lemma upsert_on_hand:
  assumes "upsert_balance_delta org w p b d s = Inr t"
  shows "sum_rows (\<lambda>r. Q (sb_key r)) sb_on_hand (iv_balances t) =
    sum_rows (\<lambda>r. Q (sb_key r)) sb_on_hand (iv_balances s) + (if Q (w, p, b) then d else 0)"
  using assms
proof (cases rule: upsert_cases)
  case (insert n)
  then show ?thesis by (simp add: sum_rows_append sum_rows_Cons sb_key_def)
next
  case (update r)
  have k: "sb_key r = (w, p, b)" using first_row_Some [OF update(1)] by simp
  have "Q (sb_key (x\<lparr>sb_on_hand := v\<rparr>)) = Q (sb_key x)" for x v by (simp add: sb_key_def)
  from sum_rows_upd_first [OF update(1), of "\<lambda>r. Q (sb_key r)" "\<lambda>r. r\<lparr>sb_on_hand := sb_on_hand r + d\<rparr>" sb_on_hand, OF this]
  show ?thesis unfolding update(3) by (simp add: k)
qed

lemma upsert_reserved:
  assumes "upsert_balance_delta org w p b d s = Inr t"
  shows "sum_rows (\<lambda>r. Q (sb_key r)) sb_reserved (iv_balances t) =
    sum_rows (\<lambda>r. Q (sb_key r)) sb_reserved (iv_balances s)"
  using assms
proof (cases rule: upsert_cases)
  case (insert n)
  then show ?thesis by (simp add: sum_rows_append sum_rows_Cons)
next
  case (update r)
  show ?thesis unfolding update(3)
    by (simp, subst sum_rows_upd_first [OF update(1)]) (simp_all add: sb_key_def)
qed

lemma upsert_rows:
  assumes "upsert_balance_delta org w p b d s = Inr t" "x \<in> set (iv_balances t)"
  shows "x \<in> set (iv_balances s) \<or> sb_key x = (w, p, b) \<and> 0 \<le> sb_on_hand x \<and>
    (sb_on_hand x = d \<and> sb_reserved x = 0 \<or>
     (\<exists>y \<in> set (iv_balances s). sb_key y = (w, p, b) \<and> sb_on_hand x = sb_on_hand y + d \<and>
        sb_reserved x = sb_reserved y))"
  using assms(1)
proof (cases rule: upsert_cases)
  case (insert n)
  then show ?thesis using assms(2) by (auto simp: sb_key_def)
next
  case (update r)
  obtain xs ys where l: "iv_balances s = xs @ r # ys" "sb_key r = (w, p, b)"
      "iv_balances t = xs @ r\<lparr>sb_on_hand := sb_on_hand r + d\<rparr> # ys"
    using upd_first_eq_list_update [OF update(1), of "\<lambda>r. r\<lparr>sb_on_hand := sb_on_hand r + d\<rparr>"]
    by (auto simp: update(3))
  then show ?thesis using assms(2) update(2) by (auto simp: sb_key_def)
qed

section \<open>What posting a movement changes\<close>

lemma movement_delta_nonzero: "movement_delta a = Inr d \<Longrightarrow> d \<noteq> 0"
  using movement_direction_cases [of "ma_movement_type a"]
  by (auto simp: movement_delta_def Let_def split: if_splits option.splits)

lemma post_movement_cases:
  assumes "post_movement a s = Inr (p, t)"
  obtains d u where "movement_delta a = Inr d" "d \<noteq> 0"
    "u = s\<lparr>iv_movements := iv_movements s @
        [(stock_movement_of a d)\<lparr>mv_id := iv_next s, mv_created_at := iv_now s\<rparr>], iv_next := Suc (iv_next s)\<rparr>"
    "upsert_balance_delta (ma_organization_id a) (ma_warehouse_id a) (ma_product_id a) (ma_batch_id a) d u = Inr t"
    "p = \<lparr>pm_movement_id = iv_next s, pm_batch_id = ma_batch_id a, pm_base_quantity = d\<rparr>"
  using assms movement_delta_nonzero
  by (auto simp: post_movement_def Let_def add_movement_def split: if_splits)

lemma post_movement_frame:
  assumes "post_movement a s = Inr (p, t)"
  shows "iv_batches t = iv_batches s" "iv_now t = iv_now s" "iv_next s < iv_next t"
  using assms by (cases rule: post_movement_cases, use upsert_frame in fastforce)+

text \<open>
  The effect on the tables: one movement with the delta is appended, and the row of its key moves
  by the delta.
\<close>

lemma post_movement_effect:
  assumes "post_movement a s = Inr (p, t)"
  obtains d where "movement_delta a = Inr d" "pm_base_quantity p = d" "pm_batch_id p = ma_batch_id a"
    "iv_movements t = iv_movements s @ [(stock_movement_of a d)\<lparr>mv_id := iv_next s, mv_created_at := iv_now s\<rparr>]"
    "\<And>Q. sum_rows (\<lambda>r. Q (sb_key r)) sb_on_hand (iv_balances t) =
      sum_rows (\<lambda>r. Q (sb_key r)) sb_on_hand (iv_balances s) + (if Q (ma_key a) then d else 0)"
    "\<And>Q. sum_rows (\<lambda>r. Q (sb_key r)) sb_reserved (iv_balances t) =
      sum_rows (\<lambda>r. Q (sb_key r)) sb_reserved (iv_balances s)"
    "keys_unique s \<Longrightarrow> keys_unique t"
proof -
  obtain d u where d: "movement_delta a = Inr d"
    and u: "u = s\<lparr>iv_movements := iv_movements s @
        [(stock_movement_of a d)\<lparr>mv_id := iv_next s, mv_created_at := iv_now s\<rparr>], iv_next := Suc (iv_next s)\<rparr>"
    and t: "upsert_balance_delta (ma_organization_id a) (ma_warehouse_id a) (ma_product_id a) (ma_batch_id a) d u = Inr t"
    and p: "p = \<lparr>pm_movement_id = iv_next s, pm_batch_id = ma_batch_id a, pm_base_quantity = d\<rparr>"
    using assms by (rule post_movement_cases)
  have k: "keys_unique u = keys_unique s" by (simp add: u keys_unique_def)
  show thesis
    by (rule that [OF d]) (use upsert_frame [OF t] upsert_on_hand [OF t] upsert_reserved [OF t]
      upsert_keys_unique [OF t] in \<open>simp_all add: p u ma_key_def k [unfolded u]\<close>)
qed

text \<open>The movement can be posted exactly when the delta is valid and the row covers it.\<close>

lemma post_movement_succeeds_iff:
  assumes "keys_unique s" "\<forall>b \<in> set (iv_balances s). 0 \<le> sb_on_hand b"
  shows "is_ok (post_movement a s) \<longleftrightarrow>
    (\<exists>d. movement_delta a = Inr d \<and> 0 \<le> on_hand_of s (ma_key a) + d)"
proof (cases "movement_delta a")
  case (Inl e)
  then show ?thesis by (simp add: post_movement_def)
next
  case (Inr d)
  have nn: "0 \<le> on_hand_of s (ma_key a)" by (rule on_hand_of_nonneg [OF assms(2)])
  have up: "is_ok (upsert_balance_delta (ma_organization_id a) (ma_warehouse_id a) (ma_product_id a) (ma_batch_id a) d
      (s\<lparr>iv_movements := m, iv_next := n\<rparr>)) \<longleftrightarrow> 0 \<le> on_hand_of s (ma_key a) + d" for m n
    using upsert_succeeds_iff [of "s\<lparr>iv_movements := m, iv_next := n\<rparr>"] assms(1)
    by (simp add: keys_unique_def ma_key_def on_hand_of_def)
  show ?thesis
    using up [unfolded is_ok_iff] nn movement_delta_nonzero [OF Inr]
    by (auto simp: is_ok_iff post_movement_def Inr Let_def add_movement_def get_balance_on_hand [OF assms(1)] ma_key_def
        stock_movement_of_def)
qed

lemma post_movement_on_hand:
  assumes "post_movement a s = Inr (p, t)"
  shows "on_hand_of t k = on_hand_of s k + (if k = ma_key a then pm_base_quantity p else 0)"
    "reserved_of t k = reserved_of s k"
    "stock_of t w pr = stock_of s w pr +
       (if w = ma_warehouse_id a \<and> pr = ma_product_id a then pm_base_quantity p else 0)"
    "reservations_of t w pr = reservations_of s w pr"
proof -
  obtain d where d: "pm_base_quantity p = d"
    and h: "\<And>Q. sum_rows (\<lambda>r. Q (sb_key r)) sb_on_hand (iv_balances t) =
      sum_rows (\<lambda>r. Q (sb_key r)) sb_on_hand (iv_balances s) + (if Q (ma_key a) then d else 0)"
    and r: "\<And>Q. sum_rows (\<lambda>r. Q (sb_key r)) sb_reserved (iv_balances t) =
      sum_rows (\<lambda>r. Q (sb_key r)) sb_reserved (iv_balances s)"
    using post_movement_effect [OF assms] by metis
  show "on_hand_of t k = on_hand_of s k + (if k = ma_key a then pm_base_quantity p else 0)"
    using h [of "\<lambda>x. x = k"] by (auto simp: on_hand_of_def d)
  show "reserved_of t k = reserved_of s k" using r [of "\<lambda>x. x = k"] by (simp add: reserved_of_def)
  show "stock_of t w pr = stock_of s w pr +
       (if w = ma_warehouse_id a \<and> pr = ma_product_id a then pm_base_quantity p else 0)"
    using h [of "\<lambda>x. fst x = w \<and> fst (snd x) = pr"] by (auto simp: stock_of_def sb_key_def ma_key_def d)
  show "reservations_of t w pr = reservations_of s w pr"
    using r [of "\<lambda>x. fst x = w \<and> fst (snd x) = pr"] by (simp add: reservations_of_def sb_key_def)
qed

lemma post_movement_rows:
  assumes "post_movement a s = Inr (p, t)" "x \<in> set (iv_balances t)"
  shows "x \<in> set (iv_balances s) \<or> sb_key x = ma_key a \<and> 0 \<le> sb_on_hand x \<and>
    (sb_on_hand x = pm_base_quantity p \<and> sb_reserved x = 0 \<or>
     (\<exists>y \<in> set (iv_balances s). sb_key y = ma_key a \<and> sb_on_hand x = sb_on_hand y + pm_base_quantity p \<and>
        sb_reserved x = sb_reserved y))"
  using assms(1)
proof (cases rule: post_movement_cases)
  case (1 d u)
  then show ?thesis using upsert_rows [OF 1(4) assms(2)] by (simp add: ma_key_def)
qed

theorem post_movement_ledger_ok:
  assumes "post_movement a s = Inr (p, t)" "ledger_ok s"
  shows "ledger_ok t"
proof -
  obtain d where d: "movement_delta a = Inr d" "pm_base_quantity p = d"
    and m: "iv_movements t = iv_movements s @ [(stock_movement_of a d)\<lparr>mv_id := iv_next s, mv_created_at := iv_now s\<rparr>]"
    and k: "keys_unique s \<Longrightarrow> keys_unique t"
    using post_movement_effect [OF assms(1)] by metis
  have "\<forall>b \<in> set (iv_balances t). 0 \<le> sb_on_hand b"
    using post_movement_rows [OF assms(1)] assms(2) by (auto simp: ledger_ok_def)
  moreover have "on_hand_of t j = ledger_of t j" for j
  proof -
    have "mv_key ((stock_movement_of a d)\<lparr>mv_id := i, mv_created_at := c\<rparr>) = ma_key a" for i c
      by (simp add: mv_key_def ma_key_def stock_movement_of_def)
    then have "ledger_of t j = ledger_of s j + (if j = ma_key a then d else 0)"
      by (auto simp: ledger_of_def m sum_rows_append sum_rows_Cons stock_movement_of_def)
    then show ?thesis
      using post_movement_on_hand(1) [OF assms(1), of j] ledger_okD [OF assms(2), of j] by (simp add: d(2))
  qed
  moreover have "\<forall>x \<in> set (iv_movements t). mv_base_quantity x \<noteq> 0 \<and> mv_id x < iv_next t"
    using assms(2) movement_delta_nonzero [OF d(1)] post_movement_frame(3) [OF assms(1)]
    by (auto simp: m ledger_ok_def stock_movement_of_def)
  moreover have "distinct (map mv_id (iv_movements t))"
    using assms(2) by (auto simp: m ledger_ok_def)
  ultimately show ?thesis using k assms(2) by (simp add: ledger_ok_def)
qed

text \<open>Adding stock keeps reservations covered; taking it does when the row has it to spare.\<close>

lemma post_movement_reserved_ok:
  assumes "post_movement a s = Inr (p, t)" "reserved_ok s" "keys_unique s"
    and "0 \<le> pm_base_quantity p \<or> - pm_base_quantity p \<le> on_hand_of s (ma_key a) - reserved_of s (ma_key a)"
  shows "reserved_ok t"
  unfolding reserved_ok_def
proof
  fix x assume x: "x \<in> set (iv_balances t)"
  have c: "0 \<le> pm_base_quantity p \<or> - pm_base_quantity p \<le> sb_on_hand y - sb_reserved y"
    if "y \<in> set (iv_balances s)" "sb_key y = ma_key a" for y
    using assms(4) on_hand_of_row [OF assms(3) that(1)] reserved_of_row [OF assms(3) that(1)] that(2) by simp
  from post_movement_rows [OF assms(1) x] show "0 \<le> sb_reserved x \<and> sb_reserved x \<le> sb_on_hand x"
    using assms(2) c by (fastforce simp: reserved_ok_def)
qed

section \<open>What moving a reservation changes\<close>

lemma adjust_reserved_cases:
  assumes "adjust_reserved w p b d s = Inr t"
  obtains r where "first_row (\<lambda>r. sb_key r = (w, p, b)) (iv_balances s) = Some r"
    "t = s\<lparr>iv_balances := upd_first (\<lambda>r. sb_key r = (w, p, b)) (\<lambda>r. r\<lparr>sb_reserved := sb_reserved r + d\<rparr>)
      (iv_balances s)\<rparr>"
  using assms by (auto simp: adjust_reserved_def get_balance_key upd_first_key split: option.splits)

lemma adjust_reserved_frame:
  assumes "adjust_reserved w p b d s = Inr t"
  shows "iv_movements t = iv_movements s" "iv_batches t = iv_batches s" "iv_now t = iv_now s"
    "iv_next t = iv_next s" "map sb_key (iv_balances t) = map sb_key (iv_balances s)"
    "map sb_on_hand (iv_balances t) = map sb_on_hand (iv_balances s)"
  using assms by (cases rule: adjust_reserved_cases; simp add: map_upd_first sb_key_def)+

lemma adjust_reserved_reserved:
  assumes "adjust_reserved w p b d s = Inr t"
  shows "sum_rows (\<lambda>r. Q (sb_key r)) sb_reserved (iv_balances t) =
    sum_rows (\<lambda>r. Q (sb_key r)) sb_reserved (iv_balances s) + (if Q (w, p, b) then d else 0)"
  using assms
proof (cases rule: adjust_reserved_cases)
  case (1 r)
  have k: "sb_key r = (w, p, b)" using first_row_Some [OF 1(1)] by simp
  have "Q (sb_key (x\<lparr>sb_reserved := v\<rparr>)) = Q (sb_key x)" for x v by (simp add: sb_key_def)
  from sum_rows_upd_first [OF 1(1), of "\<lambda>r. Q (sb_key r)" "\<lambda>r. r\<lparr>sb_reserved := sb_reserved r + d\<rparr>" sb_reserved, OF this]
  show ?thesis unfolding 1(2) by (simp add: k)
qed

lemma adjust_reserved_on_hand:
  assumes "adjust_reserved w p b d s = Inr t"
  shows "sum_rows (\<lambda>r. Q (sb_key r)) sb_on_hand (iv_balances t) =
    sum_rows (\<lambda>r. Q (sb_key r)) sb_on_hand (iv_balances s)"
  using assms
proof (cases rule: adjust_reserved_cases)
  case (1 r)
  have "Q (sb_key (x\<lparr>sb_reserved := v\<rparr>)) = Q (sb_key x)" for x v by (simp add: sb_key_def)
  from sum_rows_upd_first [OF 1(1), of "\<lambda>r. Q (sb_key r)" "\<lambda>r. r\<lparr>sb_reserved := sb_reserved r + d\<rparr>" sb_on_hand, OF this]
  show ?thesis unfolding 1(2) by simp
qed

lemma adjust_reserved_rows:
  assumes "adjust_reserved w p b d s = Inr t" "x \<in> set (iv_balances t)"
  shows "x \<in> set (iv_balances s) \<or>
    (\<exists>y \<in> set (iv_balances s). sb_key y = (w, p, b) \<and> x = y\<lparr>sb_reserved := sb_reserved y + d\<rparr>)"
  using assms(1)
proof (cases rule: adjust_reserved_cases)
  case (1 r)
  then show ?thesis using assms(2) set_upd_first by fastforce
qed

lemma adjust_reserved_ledger_ok:
  assumes "adjust_reserved w p b d s = Inr t" "ledger_ok s"
  shows "ledger_ok t"
proof -
  note f = adjust_reserved_frame [OF assms(1)]
  have "on_hand_of t k = ledger_of t k" for k
    using ledger_okD [OF assms(2), of k] adjust_reserved_on_hand [OF assms(1), of "\<lambda>x. x = k"]
    by (simp add: on_hand_of_def ledger_of_def f)
  moreover have "\<forall>x \<in> set (iv_balances t). 0 \<le> sb_on_hand x"
    using assms(2) adjust_reserved_rows [OF assms(1)] by (fastforce simp: ledger_ok_def)
  ultimately show ?thesis using assms(2) by (simp add: ledger_ok_def keys_unique_def f)
qed

end
