(* ===== verification/Access.thy ===== *)
theory Access
  imports Exceptions
begin

text \<open>
  Who may do what: the request context \<open>app/core/context.py\<close>, the permission catalogue and default
  roles \<open>app/core/permissions.py\<close>, the guards of \<open>app/core/deps.py\<close> and the fixed-window rate
  limiter \<open>app/core/ratelimit.py\<close>. Verifying a token's signature is the work of the \<open>jwt\<close> package;
  its verdict is an argument here.
\<close>

section \<open>The current user\<close>

record current_user =
  cu_user_id :: uuid
  cu_organization_id :: uuid
  cu_session_id :: uuid
  cu_is_owner :: bool
  cu_branch_ids :: "uuid list"
  cu_permissions :: "string list"

definition has_permission :: "current_user \<Rightarrow> string \<Rightarrow> bool" where
  "has_permission u code \<longleftrightarrow> cu_is_owner u \<or> code \<in> set (cu_permissions u)"

definition can_access_branch :: "current_user \<Rightarrow> uuid \<Rightarrow> bool" where
  "can_access_branch u branch_id \<longleftrightarrow> cu_is_owner u \<or> branch_id \<in> set (cu_branch_ids u)"

definition default_branch_id :: "current_user \<Rightarrow> uuid option" where
  "default_branch_id u = (case cu_branch_ids u of [] \<Rightarrow> None | b # _ \<Rightarrow> Some b)"

definition require_permission :: "string \<Rightarrow> current_user \<Rightarrow> current_user res" where
  "require_permission code u =
     (if has_permission u code then Inr u else Inl (App PermissionDeniedError ''permission_denied''))"

section \<open>From the token to the user\<close>

text \<open>
  A claim of the payload may be absent, may hold what \<open>uuid.UUID\<close> does not parse, or is a value.
\<close>

datatype 'a claim = Missing | Malformed | Claim 'a

record jwt_payload =
  jp_type :: "string option"
  jp_sub :: "uuid claim"
  jp_org :: "uuid claim"
  jp_sid :: "uuid claim"
  jp_owner :: "bool option"
  jp_branches :: "uuid claim list option"
  jp_perms :: "string list option"

datatype jwt_verdict = ExpiredSignature | InvalidToken | Payload jwt_payload

definition ACCESS_TOKEN_TYPE :: string where
  "ACCESS_TOKEN_TYPE = ''access''"

text \<open>\<open>decode_access_token\<close>: the package's verdict, and the type of the token.\<close>

definition decode_access_token :: "(string \<Rightarrow> jwt_verdict) \<Rightarrow> string \<Rightarrow> jwt_verdict" where
  "decode_access_token jwt_decode token =
     (case jwt_decode token of
        Payload p \<Rightarrow> if jp_type p \<noteq> Some ACCESS_TOKEN_TYPE then InvalidToken else Payload p
      | v \<Rightarrow> v)"

record request =
  rq_access_cookie :: "string option"
  rq_bearer :: "string option"

text \<open>
  The cookie when it is there and not empty, otherwise the token behind \<open>Bearer\<close> in the
  \<open>Authorization\<close> header (stripped), which may be the empty string.
\<close>

definition extract_token :: "request \<Rightarrow> string res" where
  "extract_token r =
     (case rq_access_cookie r of
        Some (c # cs) \<Rightarrow> Inr (c # cs)
      | _ \<Rightarrow> (case rq_bearer r of
               Some t \<Rightarrow> Inr t
             | None \<Rightarrow> Inl (App AuthenticationError ''authentication_error'')))"

fun claim_value :: "'a claim \<Rightarrow> 'a res" where
  "claim_value Missing = Inl KeyError"
| "claim_value Malformed = Inl ValueError"
| "claim_value (Claim a) = Inr a"

fun claim_values :: "'a claim list \<Rightarrow> 'a list res" where
  "claim_values [] = Inr []"
| "claim_values (c # cs) = res_bind (claim_value c) (\<lambda>a. res_bind (claim_values cs) (\<lambda>as. Inr (a # as)))"

definition user_of_payload :: "jwt_payload \<Rightarrow> current_user res" where
  "user_of_payload p =
     res_bind (claim_value (jp_sub p)) (\<lambda>sub.
     res_bind (claim_value (jp_org p)) (\<lambda>org.
     res_bind (claim_value (jp_sid p)) (\<lambda>sid.
     res_bind (claim_values (case jp_branches p of None \<Rightarrow> [] | Some bs \<Rightarrow> bs)) (\<lambda>branches.
     Inr \<lparr>cu_user_id = sub, cu_organization_id = org, cu_session_id = sid,
          cu_is_owner = (jp_owner p = Some True), cu_branch_ids = branches,
          cu_permissions = (case jp_perms p of None \<Rightarrow> [] | Some ps \<Rightarrow> ps)\<rparr>))))"

definition get_current_user :: "(string \<Rightarrow> jwt_verdict) \<Rightarrow> request \<Rightarrow> current_user res" where
  "get_current_user jwt_decode r =
     res_bind (extract_token r) (\<lambda>token.
     case decode_access_token jwt_decode token of
       ExpiredSignature \<Rightarrow> Inl (App AuthenticationError ''token_expired'')
     | InvalidToken \<Rightarrow> Inl (App AuthenticationError ''authentication_error'')
     | Payload p \<Rightarrow> (case user_of_payload p of
           Inl _ \<Rightarrow> Inl (App AuthenticationError ''authentication_error'')
         | Inr u \<Rightarrow> Inr u))"

section \<open>Permissions and roles\<close>

definition ALL_PERMISSION_CODES :: "string list" where
  "ALL_PERMISSION_CODES =
     [''product.view'', ''product.create'', ''product.update'', ''pricing.view_cost'', ''pricing.override'',
      ''inventory.view'', ''inventory.adjust'', ''stock.transfer'', ''purchase.view'', ''purchase.create'',
      ''sales.create'', ''sales.finalize'', ''sales.cancel'', ''customer.view'', ''customer.create'',
      ''payment.receive'', ''report.view'', ''report.view_profit'', ''service.manage'', ''user.manage'',
      ''settings.manage'', ''audit.view'']"

record role_spec =
  rs_code :: string
  rs_name :: string
  rs_permissions :: "string list"

definition DEFAULT_ROLES :: "role_spec list" where
  "DEFAULT_ROLES =
     [\<lparr>rs_code = ''owner'', rs_name = ''Owner'', rs_permissions = ALL_PERMISSION_CODES\<rparr>,
      \<lparr>rs_code = ''counter_sales'', rs_name = ''Counter / Sales'', rs_permissions =
        [''product.view'', ''inventory.view'', ''sales.create'', ''sales.finalize'', ''customer.view'',
         ''customer.create'', ''payment.receive'']\<rparr>,
      \<lparr>rs_code = ''store_inventory'', rs_name = ''Store / Inventory'', rs_permissions =
        [''product.view'', ''product.create'', ''product.update'', ''inventory.view'', ''inventory.adjust'',
         ''stock.transfer'', ''purchase.view'', ''purchase.create'']\<rparr>]"

lemma require_permission_ok [simp]:
  "require_permission code u = Inr v \<longleftrightarrow> has_permission u code \<and> v = u"
  by (auto simp: require_permission_def)

text \<open>Every permission a role is given is in the catalogue, which has no duplicates.\<close>

lemma default_roles_in_catalogue:
  "distinct ALL_PERMISSION_CODES \<and>
   (\<forall>r \<in> set DEFAULT_ROLES. set (rs_permissions r) \<subseteq> set ALL_PERMISSION_CODES)"
  by code_simp

text \<open>
  Stock and cash stay separate: no staff role both moves stock by hand and takes money, and no
  staff role sees costs, profit or the audit trail or changes users and settings.
\<close>

lemma staff_roles_separated:
  "\<forall>r \<in> set DEFAULT_ROLES. rs_code r \<noteq> ''owner'' \<longrightarrow>
     \<not> (''inventory.adjust'' \<in> set (rs_permissions r) \<and> ''payment.receive'' \<in> set (rs_permissions r)) \<and>
     (\<forall>p \<in> {''pricing.view_cost'', ''report.view_profit'', ''user.manage'', ''settings.manage'', ''audit.view''}.
        p \<notin> set (rs_permissions r))"
  by code_simp

section \<open>The rate limiter\<close>

text \<open>The buckets of the keys; a key that was never seen has bucket \<open>(0, 0)\<close>.\<close>

type_synonym buckets = "string \<Rightarrow> int \<times> int"

definition no_buckets :: buckets where
  "no_buckets = (\<lambda>_. (0, 0))"

text \<open>\<open>check\<close> at time \<open>now\<close>; \<open>%\<close> by zero raises.\<close>

definition rate_check :: "int \<Rightarrow> string \<Rightarrow> int \<Rightarrow> int \<Rightarrow> buckets \<Rightarrow> buckets res" where
  "rate_check now key limit window_seconds b =
     (if window_seconds = 0 then Inl ZeroDivisionError
      else let window_start = now - now mod window_seconds; (start, used) = b key
           in if start \<noteq> window_start then Inr (b(key := (window_start, 1)))
              else if limit \<le> used then Inl (App RateLimitExceeded ''rate_limited'')
              else Inr (b(key := (window_start, used + 1))))"

text \<open>
  A sequence of calls at given times, for one key; a refused call leaves the buckets as they are.
  The result counts the calls let through in the window that starts at \<open>w\<close>.
\<close>

fun rate_calls :: "string \<Rightarrow> int \<Rightarrow> int \<Rightarrow> int list \<Rightarrow> buckets \<Rightarrow> (int \<times> bool) list" where
  "rate_calls key limit window [] b = []"
| "rate_calls key limit window (now # ts) b =
     (case rate_check now key limit window b of
        Inl _ \<Rightarrow> (now, False) # rate_calls key limit window ts b
      | Inr b' \<Rightarrow> (now, True) # rate_calls key limit window ts b')"

definition allowed_in :: "int \<Rightarrow> int \<Rightarrow> (int \<times> bool) list \<Rightarrow> nat" where
  "allowed_in window w calls = length (filter (\<lambda>(t, ok). ok \<and> t - t mod window = w) calls)"

lemma rate_calls_times: "(t, ok) \<in> set (rate_calls key limit window ts b) \<Longrightarrow> t \<in> set ts"
  by (induction ts arbitrary: b) (auto split: sum.splits)

lemma rate_calls_bound:
  assumes "sorted ts" "0 < window" "1 \<le> limit"
    and "b key = (start, used)" "\<forall>t \<in> set ts. start \<le> t - t mod window" "0 \<le> used"
  shows "int (allowed_in window w (rate_calls key limit window ts b))
    \<le> (if w = start then max 0 (limit - used) else limit)"
  using assms
proof (induction ts arbitrary: b start used)
  case Nil
  then show ?case by (simp add: allowed_in_def)
next
  case (Cons t ts)
  let ?ws = "t - t mod window"
  have mono: "?ws \<le> u - u mod window" if "u \<in> set ts" for u
  proof -
    have "t div window \<le> u div window" using that Cons.prems(1,2) by (auto intro: zdiv_mono1)
    then have "window * (t div window) \<le> window * (u div window)"
      using Cons.prems(2) by (intro mult_left_mono) auto
    then show ?thesis by (simp add: minus_mod_eq_mult_div)
  qed
  have st: "sorted ts" using Cons.prems(1) by simp
  show ?case
  proof (cases "start = ?ws")
    case False
    let ?b = "b(key := (?ws, 1))"
    have c: "rate_check t key limit window b = Inr ?b"
      using Cons.prems(2,4) False by (simp add: rate_check_def Let_def)
    have "int (allowed_in window w (rate_calls key limit window ts ?b))
        \<le> (if w = ?ws then max 0 (limit - 1) else limit)"
      using Cons.prems(2,3) st mono by (intro Cons.IH) auto
    moreover have "w = start \<Longrightarrow> w \<noteq> ?ws" using False by simp
    moreover have "allowed_in window start (rate_calls key limit window ts ?b) = 0"
    proof -
      have "start < ?ws" using Cons.prems(5) False by auto
      then have "\<forall>u \<in> set ts. u - u mod window \<noteq> start" using mono by force
      then show ?thesis by (auto simp: allowed_in_def filter_empty_conv dest!: rate_calls_times)
    qed
    ultimately show ?thesis using Cons.prems(3) by (auto simp: c allowed_in_def split: if_splits)
  next
    case True
    show ?thesis
    proof (cases "limit \<le> used")
      case full: True
      then have c: "rate_check t key limit window b = Inl (App RateLimitExceeded ''rate_limited'')"
        using Cons.prems(2,4) True by (simp add: rate_check_def Let_def)
      have "int (allowed_in window w (rate_calls key limit window ts b))
          \<le> (if w = start then max 0 (limit - used) else limit)"
        using Cons.prems st by (intro Cons.IH) auto
      then show ?thesis by (simp add: c allowed_in_def)
    next
      case False
      let ?b = "b(key := (?ws, used + 1))"
      have c: "rate_check t key limit window b = Inr ?b"
        using Cons.prems(2,4) False True by (simp add: rate_check_def Let_def)
      have "int (allowed_in window w (rate_calls key limit window ts ?b))
          \<le> (if w = ?ws then max 0 (limit - (used + 1)) else limit)"
        using Cons.prems st mono by (intro Cons.IH) auto
      then show ?thesis using True False by (auto simp: c allowed_in_def split: if_splits)
    qed
  qed
qed

text \<open>
  The limiter limits. However many calls one client makes, in any order of non-decreasing
  times, at most \<open>limit\<close> of them are let through in any one window.
\<close>

theorem rate_limit_holds:
  assumes "sorted ts" "0 < window" "1 \<le> limit" "\<forall>t \<in> set ts. 0 \<le> t"
  shows "int (allowed_in window w (rate_calls key limit window ts no_buckets)) \<le> limit"
proof -
  have "\<forall>t \<in> set ts. 0 \<le> t - t mod window" using assms(2,4) by (auto intro: zmod_le_nonneg_dividend)
  from rate_calls_bound [OF assms(1-3) _ this, of no_buckets key 0 w] show ?thesis
    using assms(3) by (simp add: no_buckets_def split: if_splits)
qed

theorem rate_limit_holds_witness:
  "rate_calls ''login:1'' 2 60 [100, 110, 115, 121] no_buckets = [(100, True), (110, True), (115, False), (121, True)]
   \<and> int (allowed_in 60 60 (rate_calls ''login:1'' 2 60 [100, 110, 115, 121] no_buckets)) \<le> 2"
proof -
  have "rate_calls ''login:1'' 2 60 [100, 110, 115, 121] no_buckets
      = [(100, True), (110, True), (115, False), (121, True)]" by code_simp
  moreover have "sorted [100, 110, 115, 121 :: int]" by simp
  ultimately show ?thesis
    using rate_limit_holds [of "[100, 110, 115, 121]" 60 2 60 "''login:1''"] by simp
qed

end
