(* ===== verification/Stock.thy ===== *)
theory Stock
  imports Inventory Access
begin

text \<open>
  The stock service, the rest of \<open>app/modules/inventory/service.py\<close>, and the two mutating endpoints
  of \<open>app/modules/inventory/api.py\<close>: what is available, issuing by earliest expiry, corrections,
  reservations and transfers. Its lemmas say what each operation moves and when it succeeds; the
  theory ends with the histories of the whole component.
\<close>

section \<open>Availability and issue\<close>

definition as_of_or_today :: "date option \<Rightarrow> inventory \<Rightarrow> date" where
  "as_of_or_today as_of s = (case as_of of None \<Rightarrow> utc_date (iv_now s) | Some d \<Rightarrow> d)"

definition available :: "uuid \<Rightarrow> uuid \<Rightarrow> date option \<Rightarrow> inventory \<Rightarrow> decimal" where
  "available warehouse_id product_id as_of s =
     (\<Sum>b\<leftarrow>filter (usable (as_of_or_today as_of s)) (batch_availability warehouse_id product_id s).
        ba_available b)"

text \<open>\<open>except InsufficientStockError\<close>: a business error with the caller's code.\<close>

definition catch_insufficient :: "string \<Rightarrow> 'a res \<Rightarrow> 'a res" where
  "catch_insufficient code r =
     (case r of Inl (InsufficientStockError _ _) \<Rightarrow> Inl (business code) | _ \<Rightarrow> r)"

record issue_args =
  is_organization_id :: uuid
  is_warehouse_id :: uuid
  is_product_id :: uuid
  is_base_quantity :: decimal
  is_movement_type :: movement_type
  is_branch_id :: "uuid option"
  is_source_document_type :: "string option"
  is_source_document_id :: "uuid option"
  is_created_by :: "uuid option"
  is_as_of :: "date option"

definition issue_movement :: "issue_args \<Rightarrow> allocation \<Rightarrow> movement_args" where
  "issue_movement a alloc =
     (required_args (is_organization_id a) (is_warehouse_id a) (is_product_id a) (is_movement_type a)
        (al_quantity alloc))
     \<lparr>ma_batch_id := al_batch_id alloc, ma_branch_id := is_branch_id a,
      ma_source_document_type := is_source_document_type a,
      ma_source_document_id := is_source_document_id a, ma_created_by := is_created_by a\<rparr>"

definition issue_fefo :: "issue_args \<Rightarrow> inventory \<Rightarrow> (posted_movement list \<times> inventory) res" where
  "issue_fefo a s =
     res_bind (catch_insufficient ''insufficient_stock''
       (allocate_fefo (batch_availability (is_warehouse_id a) (is_product_id a) s) (is_base_quantity a)
          (as_of_or_today (is_as_of a) s)))
     (\<lambda>allocations. map_state (\<lambda>alloc. post_movement (issue_movement a alloc)) allocations s)"

section \<open>Corrections\<close>

record adjust_args =
  aj_organization_id :: uuid
  aj_warehouse_id :: uuid
  aj_product_id :: uuid
  aj_signed_quantity :: decimal
  aj_movement_type :: movement_type
  aj_reason :: string
  aj_branch_id :: "uuid option"
  aj_created_by :: "uuid option"
  aj_as_of :: "date option"

definition adjust_movement :: "adjust_args \<Rightarrow> decimal \<Rightarrow> movement_args" where
  "adjust_movement a q =
     (required_args (aj_organization_id a) (aj_warehouse_id a) (aj_product_id a) (aj_movement_type a) q)
     \<lparr>ma_branch_id := aj_branch_id a, ma_reason := Some (aj_reason a), ma_created_by := aj_created_by a\<rparr>"

definition adjust_removal :: "adjust_args \<Rightarrow> allocation \<Rightarrow> movement_args" where
  "adjust_removal a alloc =
     (adjust_movement a (al_quantity alloc))
     \<lparr>ma_batch_id := al_batch_id alloc,
      ma_signed_quantity :=
        (if movement_direction (aj_movement_type a) = 0 then Some (- al_quantity alloc) else None)\<rparr>"

definition adjust :: "adjust_args \<Rightarrow> inventory \<Rightarrow> (posted_movement list \<times> inventory) res" where
  "adjust a s =
     (if aj_signed_quantity a = 0 then Inl business_rule
      else let direction = movement_direction (aj_movement_type a);
               magnitude = \<bar>aj_signed_quantity a\<bar>
      in if 0 < aj_signed_quantity a
         then (if direction < 0 then Inl (business ''movement_direction_mismatch'')
               else res_bind (post_movement ((adjust_movement a magnitude)
                      \<lparr>ma_signed_quantity := (if direction = 0 then Some magnitude else None)\<rparr>) s)
                    (\<lambda>(p, s'). Inr ([p], s')))
         else res_bind (catch_insufficient ''insufficient_stock''
                (allocate_fefo (batch_availability (aj_warehouse_id a) (aj_product_id a) s) magnitude
                   (as_of_or_today (aj_as_of a) s)))
              (\<lambda>allocations. map_state (\<lambda>alloc. post_movement (adjust_removal a alloc)) allocations s))"

section \<open>Reservations\<close>

record reserve_args =
  rv_warehouse_id :: uuid
  rv_product_id :: uuid
  rv_base_quantity :: decimal
  rv_as_of :: "date option"

definition reserve :: "reserve_args \<Rightarrow> inventory \<Rightarrow> (unit \<times> inventory) res" where
  "reserve a s =
     (if rv_base_quantity a \<le> 0 then Inl business_rule
      else res_bind (catch_insufficient ''insufficient_stock_to_reserve''
             (allocate_fefo (batch_availability (rv_warehouse_id a) (rv_product_id a) s)
                (rv_base_quantity a) (as_of_or_today (rv_as_of a) s)))
           (\<lambda>allocations. res_bind
             (fold_res (\<lambda>alloc. adjust_reserved (rv_warehouse_id a) (rv_product_id a)
                          (al_batch_id alloc) (al_quantity alloc)) allocations s)
             (\<lambda>t. Inr ((), t))))"

definition release_sort_key :: "availability_row \<Rightarrow> bool \<times> date" where
  "release_sort_key b =
     (ba_expiry_date b = None, (case ba_expiry_date b of None \<Rightarrow> date_max | Some d \<Rightarrow> d))"

fun release_loop ::
  "uuid \<Rightarrow> uuid \<Rightarrow> decimal \<Rightarrow> availability_row list \<Rightarrow> inventory \<Rightarrow> (decimal \<times> inventory) res" where
  "release_loop w p remaining [] s = Inr (remaining, s)"
| "release_loop w p remaining (bal # rest) s =
     (if remaining \<le> 0 then Inr (remaining, s)
      else let take_qty = min (ba_available bal) remaining
           in res_bind (adjust_reserved w p (ba_batch_id bal) (- take_qty) s) (\<lambda>s'.
              release_loop w p (remaining - take_qty) rest s'))"

definition release_reservation :: "uuid \<Rightarrow> uuid \<Rightarrow> decimal \<Rightarrow> inventory \<Rightarrow> (unit \<times> inventory) res" where
  "release_reservation warehouse_id product_id base_quantity s =
     (if base_quantity \<le> 0 then Inl business_rule
      else res_bind (release_loop warehouse_id product_id base_quantity
             (sort_key release_sort_key (reserved_balances warehouse_id product_id s)) s)
           (\<lambda>(remaining, s'). if 0 < remaining then Inl (business ''over_release'') else Inr ((), s')))"

section \<open>Transfers\<close>

record transfer_args =
  tf_organization_id :: uuid
  tf_from_warehouse_id :: uuid
  tf_to_warehouse_id :: uuid
  tf_product_id :: uuid
  tf_base_quantity :: decimal
  tf_batch_id :: "uuid option"
  tf_created_by :: "uuid option"

definition transfer_leg :: "transfer_args \<Rightarrow> uuid \<Rightarrow> movement_type \<Rightarrow> movement_args" where
  "transfer_leg a w mt =
     (required_args (tf_organization_id a) w (tf_product_id a) mt (tf_base_quantity a))
     \<lparr>ma_batch_id := tf_batch_id a, ma_created_by := tf_created_by a\<rparr>"

definition transfer :: "transfer_args \<Rightarrow> inventory \<Rightarrow> (unit \<times> inventory) res" where
  "transfer a s =
     res_bind (post_movement (transfer_leg a (tf_from_warehouse_id a) TRANSFER_OUT) s) (\<lambda>(_, s1).
     res_bind (post_movement (transfer_leg a (tf_to_warehouse_id a) TRANSFER_IN) s1) (\<lambda>(_, s2).
     Inr ((), s2)))"

section \<open>The endpoints\<close>

record adjustment_request =
  aq_warehouse_id :: uuid
  aq_product_id :: uuid
  aq_signed_quantity :: decimal
  aq_reason :: string
  aq_movement_type :: movement_type

definition ADJUSTMENT_TYPES :: "movement_type set" where
  "ADJUSTMENT_TYPES = {ADJUSTMENT, RECONCILIATION, DAMAGE, EXPIRY}"

text \<open>The length bounds of \<open>reason\<close> are checked before the handler runs.\<close>

definition create_adjustment ::
  "current_user \<Rightarrow> adjustment_request \<Rightarrow> inventory \<Rightarrow> ((uuid \<times> decimal) \<times> inventory) res" where
  "create_adjustment user payload s =
     res_bind (require_permission ''inventory.adjust'' user) (\<lambda>user.
     if aq_movement_type payload \<notin> ADJUSTMENT_TYPES then Inl (business ''unsupported_movement_type'')
     else let signed = (if aq_movement_type payload \<in> {DAMAGE, EXPIRY} \<and> 0 < aq_signed_quantity payload
                        then - aq_signed_quantity payload else aq_signed_quantity payload)
     in res_bind (adjust
          \<lparr>aj_organization_id = cu_organization_id user, aj_warehouse_id = aq_warehouse_id payload,
           aj_product_id = aq_product_id payload, aj_signed_quantity = signed,
           aj_movement_type = aq_movement_type payload, aj_reason = aq_reason payload,
           aj_branch_id = default_branch_id user, aj_created_by = Some (cu_user_id user), aj_as_of = None\<rparr> s)
        (\<lambda>(posted, s'). Inr ((pm_movement_id (hd posted), \<Sum>p\<leftarrow>posted. pm_base_quantity p), s')))"

record transfer_request =
  tq_from_warehouse_id :: uuid
  tq_to_warehouse_id :: uuid
  tq_product_id :: uuid
  tq_base_quantity :: decimal

definition create_transfer ::
  "current_user \<Rightarrow> transfer_request \<Rightarrow> inventory \<Rightarrow> (decimal \<times> inventory) res" where
  "create_transfer user payload s =
     res_bind (require_permission ''stock.transfer'' user) (\<lambda>user.
     if tq_from_warehouse_id payload = tq_to_warehouse_id payload then Inl business_rule
     else res_bind (transfer
          \<lparr>tf_organization_id = cu_organization_id user, tf_from_warehouse_id = tq_from_warehouse_id payload,
           tf_to_warehouse_id = tq_to_warehouse_id payload, tf_product_id = tq_product_id payload,
           tf_base_quantity = tq_base_quantity payload, tf_batch_id = None,
           tf_created_by = Some (cu_user_id user)\<rparr> s)
        (\<lambda>(_, s'). Inr (tq_base_quantity payload, s')))"

section \<open>A run of outbound movements\<close>

text \<open>
  The allocations that a loop is about to post: pairwise different batches, each movement takes the
  allocated quantity from its row, and the row has it free.
\<close>

definition covered ::
  "(allocation \<Rightarrow> movement_args) \<Rightarrow> uuid \<Rightarrow> uuid \<Rightarrow> allocation list \<Rightarrow> inventory \<Rightarrow> bool" where
  "covered f w p als s \<longleftrightarrow>
     distinct (map al_batch_id als) \<and>
     (\<forall>al \<in> set als. ma_key (f al) = (w, p, al_batch_id al) \<and> movement_delta (f al) = Inr (- al_quantity al) \<and>
        al_quantity al \<le> on_hand_of s (w, p, al_batch_id al) - reserved_of s (w, p, al_batch_id al))"

lemma covered_tail:
  assumes "covered f w p (al # als) s" "post_movement (f al) s = Inr (x, t)"
  shows "covered f w p als t"
proof -
  have "al_batch_id x \<noteq> al_batch_id al" if "x \<in> set als" for x
  proof -
    have "al_batch_id x \<in> set (map al_batch_id als)" using that by simp
    moreover have "al_batch_id al \<notin> set (map al_batch_id als)" using assms(1) by (simp add: covered_def)
    ultimately show ?thesis by metis
  qed
  then show ?thesis using assms post_movement_on_hand(1,2) [OF assms(2)] by (auto simp: covered_def)
qed

lemma post_movement_delta: "post_movement a s = Inr (x, t) \<Longrightarrow> movement_delta a = Inr d \<Longrightarrow> pm_base_quantity x = d"
  by (erule post_movement_effect) simp

lemma post_run_keeps:
  assumes "map_state (\<lambda>al. post_movement (f al)) als s = Inr (ps, t)" "covered f w p als s"
    and "ledger_ok s"
  shows "ledger_ok t \<and> (reserved_ok s \<longrightarrow> reserved_ok t)
    \<and> stock_of t w' p' = stock_of s w' p' - (if w' = w \<and> p' = p then (\<Sum>a\<leftarrow>als. al_quantity a) else 0)
    \<and> reservations_of t w' p' = reservations_of s w' p'
    \<and> map pm_batch_id ps = map al_batch_id als \<and> map pm_base_quantity ps = map (\<lambda>a. - al_quantity a) als"
  using assms
proof (induction als arbitrary: s ps)
  case Nil
  then show ?case by simp
next
  case (Cons al als)
  obtain x m ps' where m: "post_movement (f al) s = Inr (x, m)"
      "map_state (\<lambda>al. post_movement (f al)) als m = Inr (ps', t)" "ps = x # ps'"
    using Cons.prems(1) by (auto simp only: map_state_Cons_ok)
  have al: "ma_key (f al) = (w, p, al_batch_id al)" "movement_delta (f al) = Inr (- al_quantity al)"
      "al_quantity al \<le> on_hand_of s (w, p, al_batch_id al) - reserved_of s (w, p, al_batch_id al)"
    using Cons.prems(2) by (auto simp: covered_def)
  have d: "pm_base_quantity x = - al_quantity al" by (rule post_movement_delta [OF m(1) al(2)])
  have b: "pm_batch_id x = al_batch_id al"
    using m(1) al(1) by (elim post_movement_effect) (simp add: ma_key_def)
  have r: "reserved_ok s \<longrightarrow> reserved_ok m"
    using post_movement_reserved_ok [OF m(1) _ ledger_ok_unique [OF Cons.prems(3)]] al by (simp add: d)
  note IH = Cons.IH [OF m(2) covered_tail [OF Cons.prems(2) m(1)] post_movement_ledger_ok [OF m(1) Cons.prems(3)]]
  have "stock_of m w' p' = stock_of s w' p' - (if w' = w \<and> p' = p then al_quantity al else 0)"
    using post_movement_on_hand(3) [OF m(1), of w' p'] al(1) by (auto simp: d ma_key_def)
  then show ?case
    using IH r post_movement_on_hand(4) [OF m(1), of w' p'] by (auto simp: m(3) d b)
qed

lemma post_run_succeeds:
  assumes "covered f w p als s" "ledger_ok s" "reserved_ok s"
  shows "is_ok (map_state (\<lambda>al. post_movement (f al)) als s)"
  using assms
proof (induction als arbitrary: s)
  case Nil
  then show ?case by simp
next
  case (Cons al als)
  have al: "ma_key (f al) = (w, p, al_batch_id al)" "movement_delta (f al) = Inr (- al_quantity al)"
      "al_quantity al \<le> on_hand_of s (w, p, al_batch_id al) - reserved_of s (w, p, al_batch_id al)"
    using Cons.prems(1) by (auto simp: covered_def)
  have "0 \<le> reserved_of s (w, p, al_batch_id al)"
    using Cons.prems(3) by (auto simp: reserved_of_def reserved_ok_def intro!: sum_rows_nonneg)
  then have "is_ok (post_movement (f al) s)"
    using al by (simp add: post_movement_succeeds_iff [OF ledger_ok_unique [OF Cons.prems(2)] ledger_ok_nonneg [OF Cons.prems(2)]])
  then obtain x m where m: "post_movement (f al) s = Inr (x, m)" by (auto simp: is_ok_iff)
  have d: "pm_base_quantity x = - al_quantity al" by (rule post_movement_delta [OF m al(2)])
  have "reserved_ok m"
    using post_movement_reserved_ok [OF m Cons.prems(3) ledger_ok_unique [OF Cons.prems(2)]] al by (simp add: d)
  then have "is_ok (map_state (\<lambda>al. post_movement (f al)) als m)"
    using Cons.IH [OF covered_tail [OF Cons.prems(1) m] post_movement_ledger_ok [OF m Cons.prems(2)]] by simp
  then show ?case by (auto simp: is_ok_iff m)
qed

lemma batch_availability_distinct:
  assumes "keys_unique s"
  shows "distinct (map ba_batch_id (batch_availability w p s))"
proof -
  let ?f = "filter (\<lambda>b. sb_warehouse_id b = w \<and> sb_product_id b = p \<and> sb_reserved b < sb_on_hand b) (iv_balances s)"
  have "distinct (map sb_key ?f)" using assms by (simp add: keys_unique_def distinct_map_filter)
  then have "distinct (map sb_batch_id ?f)"
    by (auto simp: distinct_map sb_key_def inj_on_def)
  then show ?thesis by (simp add: batch_availability_def comp_def)
qed

lemma batch_availability_row:
  assumes "keys_unique s" "b \<in> set (batch_availability w p s)"
  shows "ba_available b = on_hand_of s (w, p, ba_batch_id b) - reserved_of s (w, p, ba_batch_id b)"
    "ba_expiry_date b = batch_expiry s (ba_batch_id b)"
proof -
  obtain r where r: "r \<in> set (iv_balances s)" "sb_key r = (w, p, sb_batch_id r)"
      "b = \<lparr>ba_batch_id = sb_batch_id r, ba_expiry_date = batch_expiry s (sb_batch_id r),
            ba_available = sb_on_hand r - sb_reserved r\<rparr>"
    using assms(2) by (auto simp: batch_availability_def sb_key_def)
  show "ba_available b = on_hand_of s (w, p, ba_batch_id b) - reserved_of s (w, p, ba_batch_id b)"
    using on_hand_of_row [OF assms(1) r(1)] reserved_of_row [OF assms(1) r(1)] by (simp add: r(2,3))
  show "ba_expiry_date b = batch_expiry s (ba_batch_id b)" by (simp add: r(3))
qed

text \<open>An allocation over the available batches is covered.\<close>

lemma fefo_covered:
  assumes "allocate_fefo (batch_availability w p s) q as_of = Inr als" "keys_unique s"
    and "\<And>al. ma_key (f al) = (w, p, al_batch_id al)"
    and "\<And>al. 0 < al_quantity al \<Longrightarrow> movement_delta (f al) = Inr (- al_quantity al)"
  shows "covered f w p als s"
proof -
  have "al_quantity al \<le> on_hand_of s (w, p, al_batch_id al) - reserved_of s (w, p, al_batch_id al)"
    if "al \<in> set als" for al
    using allocate_fefo_in [OF assms(1) that] batch_availability_row [OF assms(2)] by metis
  then show ?thesis
    using allocate_fefo_distinct [OF assms(1) batch_availability_distinct [OF assms(2)]]
      assms(3,4) allocate_fefo_pos [OF assms(1)]
    by (auto simp: covered_def)
qed

lemma catch_insufficient_ok [simp]: "catch_insufficient code r = Inr x \<longleftrightarrow> r = Inr x"
  by (auto simp: catch_insufficient_def split: sum.splits exn.splits)

lemma issue_movement_key: "ma_key (issue_movement a al) = (is_warehouse_id a, is_product_id a, al_batch_id al)"
  by (simp add: issue_movement_def required_args_def ma_key_def)

lemma issue_movement_delta:
  "movement_direction (is_movement_type a) = - 1 \<Longrightarrow> 0 < al_quantity al \<Longrightarrow>
   movement_delta (issue_movement a al) = Inr (- al_quantity al)"
  by (simp add: issue_movement_def required_args_def movement_delta_def)

lemma allocate_fefo_available:
  "is_ok (allocate_fefo (batch_availability w p s) q (as_of_or_today as_of s)) \<longleftrightarrow>
   0 < q \<and> q \<le> available w p as_of s"
  by (auto simp: is_ok_iff allocate_fefo_ok available_def total_available_def)

lemma issue_fefo_ok:
  "issue_fefo a s = Inr (ps, t) \<longleftrightarrow>
   (\<exists>als. allocate_fefo (batch_availability (is_warehouse_id a) (is_product_id a) s) (is_base_quantity a)
       (as_of_or_today (is_as_of a) s) = Inr als \<and>
     map_state (\<lambda>al. post_movement (issue_movement a al)) als s = Inr (ps, t))"
  by (auto simp: issue_fefo_def)

lemma issue_run:
  assumes "issue_fefo a s = Inr (ps, t)" "ledger_ok s" "movement_direction (is_movement_type a) = - 1"
  obtains als where "allocate_fefo (batch_availability (is_warehouse_id a) (is_product_id a) s) (is_base_quantity a)
      (as_of_or_today (is_as_of a) s) = Inr als"
    "map_state (\<lambda>al. post_movement (issue_movement a al)) als s = Inr (ps, t)"
    "covered (issue_movement a) (is_warehouse_id a) (is_product_id a) als s"
  using assms fefo_covered [OF _ ledger_ok_unique [OF assms(2)]] issue_movement_delta [OF assms(3)]
  unfolding issue_fefo_ok by (auto simp: issue_movement_key)

lemma issue_keeps:
  assumes "issue_fefo a s = Inr (ps, t)" "ledger_ok s" "movement_direction (is_movement_type a) = - 1"
  shows "ledger_ok t" "reserved_ok s \<Longrightarrow> reserved_ok t"
    "stock_of t w p = stock_of s w p - (if w = is_warehouse_id a \<and> p = is_product_id a then is_base_quantity a else 0)"
    "reservations_of t w p = reservations_of s w p"
proof -
  obtain als where als: "allocate_fefo (batch_availability (is_warehouse_id a) (is_product_id a) s) (is_base_quantity a)
      (as_of_or_today (is_as_of a) s) = Inr als"
    and run: "map_state (\<lambda>al. post_movement (issue_movement a al)) als s = Inr (ps, t)"
    and cov: "covered (issue_movement a) (is_warehouse_id a) (is_product_id a) als s"
    by (rule issue_run [OF assms])
  note k = post_run_keeps [OF run cov assms(2), of w p]
  show "ledger_ok t" "reserved_ok s \<Longrightarrow> reserved_ok t"
    "stock_of t w p = stock_of s w p - (if w = is_warehouse_id a \<and> p = is_product_id a then is_base_quantity a else 0)"
    "reservations_of t w p = reservations_of s w p"
    using k allocate_fefo_sum [OF als] by simp_all
qed


lemma issue_succeeds:
  assumes "ledger_ok s" "reserved_ok s" "movement_direction (is_movement_type a) = - 1"
    and "0 < is_base_quantity a" "is_base_quantity a \<le> available (is_warehouse_id a) (is_product_id a) (is_as_of a) s"
  shows "is_ok (issue_fefo a s)"
proof -
  obtain als where als: "allocate_fefo (batch_availability (is_warehouse_id a) (is_product_id a) s) (is_base_quantity a)
      (as_of_or_today (is_as_of a) s) = Inr als"
    using allocate_fefo_available assms(4,5) by (metis is_ok_iff)
  have "covered (issue_movement a) (is_warehouse_id a) (is_product_id a) als s"
    using fefo_covered [OF als ledger_ok_unique [OF assms(1)]] issue_movement_delta [OF assms(3)]
    by (simp add: issue_movement_key)
  from post_run_succeeds [OF this assms(1,2)] show ?thesis by (auto simp: is_ok_iff issue_fefo_ok als)
qed


section \<open>Corrections\<close>

lemma adjust_removal_key: "ma_key (adjust_removal a al) = (aj_warehouse_id a, aj_product_id a, al_batch_id al)"
  by (simp add: adjust_removal_def adjust_movement_def required_args_def ma_key_def)

lemma adjust_removal_delta:
  "movement_direction (aj_movement_type a) \<le> 0 \<Longrightarrow> 0 < al_quantity al \<Longrightarrow>
   movement_delta (adjust_removal a al) = Inr (- al_quantity al)"
  using movement_direction_cases [of "aj_movement_type a"]
  by (auto simp: adjust_removal_def adjust_movement_def required_args_def movement_delta_def)

lemma adjust_addition_delta:
  "0 \<le> movement_direction (aj_movement_type a) \<Longrightarrow> 0 < q \<Longrightarrow>
   movement_delta ((adjust_movement a q)
     \<lparr>ma_signed_quantity := (if movement_direction (aj_movement_type a) = 0 then Some q else None)\<rparr>) = Inr q"
  using movement_direction_cases [of "aj_movement_type a"]
  by (auto simp: adjust_movement_def required_args_def movement_delta_def)

lemma adjust_removal_cases:
  assumes "adjust a s = Inr (ps, t)" "aj_signed_quantity a < 0"
  obtains als where "allocate_fefo (batch_availability (aj_warehouse_id a) (aj_product_id a) s)
      (- aj_signed_quantity a) (as_of_or_today (aj_as_of a) s) = Inr als"
    "map_state (\<lambda>al. post_movement (adjust_removal a al)) als s = Inr (ps, t)"
  using assms by (auto simp: adjust_def Let_def)

lemma adjust_addition_cases:
  assumes "adjust a s = Inr (ps, t)" "0 < aj_signed_quantity a"
  obtains x where "post_movement ((adjust_movement a (aj_signed_quantity a))
      \<lparr>ma_signed_quantity := (if movement_direction (aj_movement_type a) = 0 then Some (aj_signed_quantity a) else None)\<rparr>) s
      = Inr (x, t)" "ps = [x]" "0 \<le> movement_direction (aj_movement_type a)"
  using assms by (auto simp: adjust_def Let_def split: if_splits)

lemma adjust_nonzero: "adjust a s = Inr r \<Longrightarrow> aj_signed_quantity a \<noteq> 0"
  by (auto simp: adjust_def)

lemma adjust_effect:
  assumes "adjust a s = Inr (ps, t)" "ledger_ok s"
    and "aj_signed_quantity a < 0 \<longrightarrow> movement_direction (aj_movement_type a) \<le> 0"
  shows "ledger_ok t \<and> (reserved_ok s \<longrightarrow> reserved_ok t) \<and> reservations_of t w p = reservations_of s w p
    \<and> stock_of t w p = stock_of s w p +
        (if w = aj_warehouse_id a \<and> p = aj_product_id a then aj_signed_quantity a else 0)
    \<and> (\<Sum>x\<leftarrow>ps. pm_base_quantity x) = aj_signed_quantity a"
proof (cases "aj_signed_quantity a < 0")
  case True
  obtain als where als: "allocate_fefo (batch_availability (aj_warehouse_id a) (aj_product_id a) s)
      (- aj_signed_quantity a) (as_of_or_today (aj_as_of a) s) = Inr als"
    and run: "map_state (\<lambda>al. post_movement (adjust_removal a al)) als s = Inr (ps, t)"
    using adjust_removal_cases [OF assms(1) True] by metis
  have cov: "covered (adjust_removal a) (aj_warehouse_id a) (aj_product_id a) als s"
    using fefo_covered [OF als ledger_ok_unique [OF assms(2)]] adjust_removal_delta assms(3) True
    by (simp add: adjust_removal_key)
  note k = post_run_keeps [OF run cov assms(2), of w p]
  have "(\<Sum>x\<leftarrow>ps. pm_base_quantity x) = aj_signed_quantity a"
    using k allocate_fefo_sum [OF als] by (simp add: sum_list_minus)
  then show ?thesis using k allocate_fefo_sum [OF als] by simp
next
  case False
  with adjust_nonzero [OF assms(1)] have pos: "0 < aj_signed_quantity a" by simp
  let ?m = "(adjust_movement a (aj_signed_quantity a))
      \<lparr>ma_signed_quantity := (if movement_direction (aj_movement_type a) = 0 then Some (aj_signed_quantity a) else None)\<rparr>"
  obtain x where x: "post_movement ?m s = Inr (x, t)" "ps = [x]" "0 \<le> movement_direction (aj_movement_type a)"
    using adjust_addition_cases [OF assms(1) pos] by metis
  have d: "pm_base_quantity x = aj_signed_quantity a"
    by (rule post_movement_delta [OF x(1) adjust_addition_delta [OF x(3) pos]])
  show ?thesis
    using post_movement_ledger_ok [OF x(1) assms(2)] post_movement_on_hand(3,4) [OF x(1), of w p] pos
      post_movement_reserved_ok [OF x(1) _ ledger_ok_unique [OF assms(2)]]
    by (simp add: d x(2) adjust_movement_def required_args_def)
qed

lemma create_adjustment_ok:
  assumes "create_adjustment user q s = Inr ((mid, applied), t)"
  obtains a ps where "adjust a s = Inr (ps, t)" "applied = (\<Sum>x\<leftarrow>ps. pm_base_quantity x)"
    "has_permission user ''inventory.adjust''" "aq_movement_type q \<in> ADJUSTMENT_TYPES"
    "aj_movement_type a = aq_movement_type q" "aj_warehouse_id a = aq_warehouse_id q"
    "aj_product_id a = aq_product_id q" "aj_as_of a = None"
    "aj_signed_quantity a = (if aq_movement_type q \<in> {DAMAGE, EXPIRY} then - \<bar>aq_signed_quantity q\<bar>
       else aq_signed_quantity q)"
  using assms by (auto simp: create_adjustment_def Let_def abs_if split: if_splits)

lemma adjustment_direction: "mt \<in> ADJUSTMENT_TYPES \<Longrightarrow> movement_direction mt \<le> 0"
  by (auto simp: ADJUSTMENT_TYPES_def movement_direction_def INBOUND_TYPES_def)

text \<open>
  A correction moves stock by what was asked. When the endpoint accepts a correction, the
  product's stock in the warehouse changes by the signed quantity (damage and expiry always
  remove), no other stock and no reservation changes, the reported quantity is the change made,
  and ledger and reservations stay consistent.
\<close>

theorem create_adjustment_correct:
  assumes "create_adjustment user q s = Inr ((mid, applied), t)" "ledger_ok s"
  shows "ledger_ok t \<and> (reserved_ok s \<longrightarrow> reserved_ok t)
    \<and> applied = (if aq_movement_type q \<in> {DAMAGE, EXPIRY} then - \<bar>aq_signed_quantity q\<bar> else aq_signed_quantity q)
    \<and> stock_of t w p = stock_of s w p +
        (if w = aq_warehouse_id q \<and> p = aq_product_id q then applied else 0)
    \<and> reservations_of t w p = reservations_of s w p
    \<and> has_permission user ''inventory.adjust''"
proof -
  obtain a ps where a: "adjust a s = Inr (ps, t)" "applied = (\<Sum>x\<leftarrow>ps. pm_base_quantity x)"
      "has_permission user ''inventory.adjust''" "aq_movement_type q \<in> ADJUSTMENT_TYPES"
      "aj_movement_type a = aq_movement_type q" "aj_warehouse_id a = aq_warehouse_id q"
      "aj_product_id a = aq_product_id q"
      "aj_signed_quantity a = (if aq_movement_type q \<in> {DAMAGE, EXPIRY} then - \<bar>aq_signed_quantity q\<bar>
         else aq_signed_quantity q)"
    using create_adjustment_ok [OF assms(1)] by metis
  have "aj_signed_quantity a < 0 \<longrightarrow> movement_direction (aj_movement_type a) \<le> 0"
    using adjustment_direction [OF a(4)] by (simp add: a(5))
  from adjust_effect [OF a(1) assms(2) this, of w p] show ?thesis
    using a by (simp only: a(2,5-8) simp_thms) auto
qed

text \<open>
  Expired stock cannot be written off. An \<open>EXPIRY\<close> correction takes its quantity from batches
  that have not expired (or have no expiry date): every movement it posts is on a batch usable on
  the day of the request, so it never touches the expired stock it is meant for.
\<close>

theorem expiry_write_off_misses_expired:
  assumes "aj_movement_type a = EXPIRY" "adjust a s = Inr (ps, t)" "ledger_ok s" "x \<in> set ps"
  shows "\<exists>b \<in> set (batch_availability (aj_warehouse_id a) (aj_product_id a) s).
    pm_batch_id x = ba_batch_id b \<and> pm_base_quantity x < 0 \<and>
    (case batch_expiry s (pm_batch_id x) of None \<Rightarrow> True | Some d \<Rightarrow> as_of_or_today (aj_as_of a) s < d)"
proof -
  let ?bs = "batch_availability (aj_warehouse_id a) (aj_product_id a) s"
  have dir: "movement_direction (aj_movement_type a) = - 1"
    by (simp add: assms(1) movement_direction_def INBOUND_TYPES_def OUTBOUND_TYPES_def)
  have neg: "aj_signed_quantity a < 0"
    using adjust_nonzero [OF assms(2)] assms(2) dir by (force simp: adjust_def Let_def split: if_splits)
  obtain als where als: "allocate_fefo ?bs (- aj_signed_quantity a) (as_of_or_today (aj_as_of a) s) = Inr als"
    and run: "map_state (\<lambda>al. post_movement (adjust_removal a al)) als s = Inr (ps, t)"
    using adjust_removal_cases [OF assms(2) neg] by metis
  have cov: "covered (adjust_removal a) (aj_warehouse_id a) (aj_product_id a) als s"
    using fefo_covered [OF als ledger_ok_unique [OF assms(3)]] adjust_removal_delta dir
    by (simp add: adjust_removal_key)
  from assms(4) obtain i where i: "i < length ps" "x = ps ! i" by (auto simp: in_set_conv_nth)
  have v: "map pm_batch_id ps = map al_batch_id als" "map pm_base_quantity ps = map (\<lambda>a. - al_quantity a) als"
    using post_run_keeps [OF run cov assms(3)] by simp_all
  have xi: "i < length als" "pm_batch_id x = al_batch_id (als ! i)" "pm_base_quantity x = - al_quantity (als ! i)"
    using v i by (metis length_map nth_map)+
  obtain b where b: "b \<in> set ?bs" "usable (as_of_or_today (aj_as_of a) s) b"
      "al_batch_id (als ! i) = ba_batch_id b" "0 < al_quantity (als ! i)"
    using allocate_fefo_in [OF als, of "als ! i"] xi(1) by auto
  have "ba_expiry_date b = batch_expiry s (pm_batch_id x)"
    using batch_availability_row(2) [OF ledger_ok_unique [OF assms(3)] b(1)] b(3) xi(2) by simp
  then show ?thesis using b xi by (intro bexI [of _ b]) (auto simp: usable_def)
qed

section \<open>Reservations\<close>

lemma reserve_run_keeps:
  assumes "fold_res (\<lambda>al. adjust_reserved w p (al_batch_id al) (g al)) als s = Inr t" "ledger_ok s"
  shows "ledger_ok t \<and> iv_movements t = iv_movements s \<and> on_hand_of t k = on_hand_of s k
    \<and> stock_of t w' p' = stock_of s w' p'
    \<and> reservations_of t w' p' = reservations_of s w' p' + (if w' = w \<and> p' = p then (\<Sum>a\<leftarrow>als. g a) else 0)"
  using assms
proof (induction als arbitrary: s)
  case Nil
  then show ?case by simp
next
  case (Cons al als)
  obtain m where m: "adjust_reserved w p (al_batch_id al) (g al) s = Inr m"
      "fold_res (\<lambda>al. adjust_reserved w p (al_batch_id al) (g al)) als m = Inr t"
    using Cons.prems(1) by auto
  note IH = Cons.IH [OF m(2) adjust_reserved_ledger_ok [OF m(1) Cons.prems(2)]]
  note h = adjust_reserved_on_hand [OF m(1)] and r = adjust_reserved_reserved [OF m(1)]
  have "on_hand_of m k = on_hand_of s k" using h [of "\<lambda>x. x = k"] by (simp add: on_hand_of_def)
  moreover have "stock_of m w' p' = stock_of s w' p'"
    using h [of "\<lambda>x. fst x = w' \<and> fst (snd x) = p'"] by (simp add: stock_of_def sb_key_def)
  moreover have "reservations_of m w' p' = reservations_of s w' p' + (if w' = w \<and> p' = p then g al else 0)"
    using r [of "\<lambda>x. fst x = w' \<and> fst (snd x) = p'"] by (simp add: reservations_of_def sb_key_def)
  ultimately show ?case using IH adjust_reserved_frame [OF m(1)] by auto
qed

text \<open>Deltas on pairwise different rows that each leave the row's reservation between 0 and its stock.\<close>

definition reservable ::
  "(allocation \<Rightarrow> decimal) \<Rightarrow> uuid \<Rightarrow> uuid \<Rightarrow> allocation list \<Rightarrow> inventory \<Rightarrow> bool" where
  "reservable g w p als s \<longleftrightarrow>
     distinct (map al_batch_id als) \<and>
     (\<forall>al \<in> set als. \<exists>b \<in> set (iv_balances s). sb_key b = (w, p, al_batch_id al) \<and>
        0 \<le> sb_reserved b + g al \<and> sb_reserved b + g al \<le> sb_on_hand b)"

lemma reservable_step:
  assumes "reservable g w p (al # als) s" "keys_unique s" "reserved_ok s"
  obtains m where "adjust_reserved w p (al_batch_id al) (g al) s = Inr m" "reservable g w p als m"
    "keys_unique m" "reserved_ok m"
proof -
  obtain b where b: "b \<in> set (iv_balances s)" "sb_key b = (w, p, al_batch_id al)"
      "0 \<le> sb_reserved b + g al" "sb_reserved b + g al \<le> sb_on_hand b"
    using assms(1) by (auto simp: reservable_def)
  have "first_row (\<lambda>r. sb_key r = sb_key b) (iv_balances s) = Some b"
    using assms(2) b(1) by (simp add: keys_unique_def first_row_unique)
  then have fr: "first_row (\<lambda>r. sb_key r = (w, p, al_batch_id al)) (iv_balances s) = Some b" by (simp add: b(2))
  then obtain m where m: "adjust_reserved w p (al_batch_id al) (g al) s = Inr m"
    by (simp add: adjust_reserved_def get_balance_key)
  have rows: "x \<in> set (iv_balances s) \<or> x = b\<lparr>sb_reserved := sb_reserved b + g al\<rparr>" if "x \<in> set (iv_balances m)" for x
  proof -
    from adjust_reserved_rows [OF m that] show ?thesis
      using assms(2) b(1,2) by (auto simp: keys_unique_def distinct_map inj_on_def)
  qed
  have ku: "keys_unique m" using assms(2) adjust_reserved_frame(5) [OF m] by (simp add: keys_unique_def)
  have rok: "reserved_ok m"
    unfolding reserved_ok_def using rows assms(3) b(3,4) by (fastforce simp: reserved_ok_def)
  obtain xs ys where l: "iv_balances s = xs @ b # ys"
      "iv_balances m = xs @ b\<lparr>sb_reserved := sb_reserved b + g al\<rparr> # ys"
    using m upd_first_eq_list_update [OF fr, of "\<lambda>r. r\<lparr>sb_reserved := sb_reserved r + g al\<rparr>"] fr
    by (elim adjust_reserved_cases) auto
  have "reservable g w p als m"
    unfolding reservable_def
  proof (intro conjI ballI)
    show "distinct (map al_batch_id als)" using assms(1) by (simp add: reservable_def)
    fix a assume a: "a \<in> set als"
    then obtain c where c: "c \<in> set (iv_balances s)" "sb_key c = (w, p, al_batch_id a)"
        "0 \<le> sb_reserved c + g a" "sb_reserved c + g a \<le> sb_on_hand c"
      using assms(1) unfolding reservable_def by (meson list.set_intros(2))
    have "al_batch_id a \<in> set (map al_batch_id als)" using a by simp
    moreover have "al_batch_id al \<notin> set (map al_batch_id als)" using assms(1) by (simp add: reservable_def)
    ultimately have "al_batch_id a \<noteq> al_batch_id al" by metis
    then have "c \<noteq> b" using b(2) c(2) by auto
    then have "c \<in> set (iv_balances m)" using c(1) l by auto
    then show "\<exists>b \<in> set (iv_balances m). sb_key b = (w, p, al_batch_id a) \<and>
        0 \<le> sb_reserved b + g a \<and> sb_reserved b + g a \<le> sb_on_hand b"
      using c by blast
  qed
  with m ku rok show thesis by (intro that)
qed

lemma reserve_run_succeeds:
  assumes "reservable g w p als s" "keys_unique s" "reserved_ok s"
  shows "\<exists>t. fold_res (\<lambda>al. adjust_reserved w p (al_batch_id al) (g al)) als s = Inr t \<and> reserved_ok t"
  using assms
proof (induction als arbitrary: s)
  case Nil
  then show ?case by simp
next
  case (Cons al als)
  from reservable_step [OF Cons.prems] obtain m where
    m: "adjust_reserved w p (al_batch_id al) (g al) s = Inr m" "reservable g w p als m"
      "keys_unique m" "reserved_ok m" .
  show ?case using Cons.IH [OF m(2-4)] by (simp add: m(1))
qed

lemma reserve_ok:
  "reserve a s = Inr (u, t) \<longleftrightarrow> 0 < rv_base_quantity a \<and>
   (\<exists>als. allocate_fefo (batch_availability (rv_warehouse_id a) (rv_product_id a) s) (rv_base_quantity a)
       (as_of_or_today (rv_as_of a) s) = Inr als \<and>
     fold_res (\<lambda>al. adjust_reserved (rv_warehouse_id a) (rv_product_id a) (al_batch_id al) (al_quantity al)) als s = Inr t)"
  by (auto simp: reserve_def)

lemma fefo_reservable:
  assumes "allocate_fefo (batch_availability w p s) q as_of = Inr als" "keys_unique s" "reserved_ok s"
  shows "reservable al_quantity w p als s"
  unfolding reservable_def
proof (intro conjI ballI)
  show "distinct (map al_batch_id als)"
    by (rule allocate_fefo_distinct [OF assms(1) batch_availability_distinct [OF assms(2)]])
  fix al assume "al \<in> set als"
  then obtain x where x: "x \<in> set (batch_availability w p s)" "al_batch_id al = ba_batch_id x"
      "0 < al_quantity al" "al_quantity al \<le> ba_available x"
    using allocate_fefo_in [OF assms(1)] by blast
  then obtain b where b: "b \<in> set (iv_balances s)" "sb_key b = (w, p, al_batch_id al)"
      "ba_available x = sb_on_hand b - sb_reserved b"
    by (auto simp: batch_availability_def sb_key_def)
  moreover have "0 \<le> sb_reserved b" using assms(3) b(1) by (simp add: reserved_ok_def)
  ultimately show "\<exists>b \<in> set (iv_balances s). sb_key b = (w, p, al_batch_id al) \<and>
      0 \<le> sb_reserved b + al_quantity al \<and> sb_reserved b + al_quantity al \<le> sb_on_hand b"
    using x(3,4) by (intro bexI [of _ b]) auto
qed

text \<open>The release loop is the greedy loop over the reserved balances, taken off one by one.\<close>

lemma release_loop_eq:
  "release_loop w p r bs s =
   res_bind (fold_res (\<lambda>al. adjust_reserved w p (al_batch_id al) (- al_quantity al)) (fefo_loop r bs) s)
     (\<lambda>t. Inr (r - (\<Sum>al\<leftarrow>fefo_loop r bs. al_quantity al), t))"
proof (induction bs arbitrary: r s)
  case (Cons b bs)
  show ?case
  proof (cases "r \<le> 0")
    case False
    then show ?thesis
      by (auto simp: Let_def Cons.IH res_bind_def algebra_simps split: sum.split)
  qed simp
qed simp

lemma stocked_reserved: "fefo.stocked (sort_key k (reserved_balances w p s))"
  by (auto simp: fefo.stocked_def reserved_balances_def)

lemma reserved_balances_sum:
  assumes "reserved_ok s"
  shows "(\<Sum>b\<leftarrow>reserved_balances w p s. ba_available b) = reservations_of s w p"
proof -
  have "(\<Sum>b\<leftarrow>filter (\<lambda>b. sb_warehouse_id b = w \<and> sb_product_id b = p \<and> 0 < sb_reserved b) bs. sb_reserved b)
      = (\<Sum>b\<leftarrow>filter (\<lambda>b. sb_warehouse_id b = w \<and> sb_product_id b = p) bs. sb_reserved b)"
    if "\<forall>b \<in> set bs. 0 \<le> sb_reserved b" for bs
    using that by (induction bs) auto
  from this [of "iv_balances s"] show ?thesis
    using assms by (simp add: reserved_balances_def reservations_of_def sum_rows_def reserved_ok_def comp_def)
qed

lemma release_draw_sum:
  assumes "reserved_ok s" "0 < q"
  shows "(\<Sum>al\<leftarrow>fefo_loop q (sort_key release_sort_key (reserved_balances w p s)). al_quantity al)
    = min q (reservations_of s w p)"
  using fefo.draw_sum [OF stocked_reserved [of release_sort_key w p s], where r = q] assms
  by (simp add: sum_list_sort_key reserved_balances_sum)

lemma release_reservable:
  assumes "keys_unique s" "reserved_ok s"
  shows "reservable (\<lambda>al. - al_quantity al) w p
    (fefo_loop q (sort_key release_sort_key (reserved_balances w p s))) s"
proof -
  let ?bs = "sort_key release_sort_key (reserved_balances w p s)"
  let ?f = "filter (\<lambda>b. sb_warehouse_id b = w \<and> sb_product_id b = p \<and> 0 < sb_reserved b) (iv_balances s)"
  have "distinct (map sb_key ?f)" using assms(1) by (simp add: keys_unique_def distinct_map_filter)
  then have "distinct (map sb_batch_id ?f)" by (auto simp: distinct_map sb_key_def inj_on_def)
  then have "distinct (map ba_batch_id (reserved_balances w p s))" by (simp add: reserved_balances_def comp_def)
  then have d: "distinct (map ba_batch_id ?bs)" by (metis distinct_map distinct_sort set_sort)
  have "map al_batch_id (fefo_loop q ?bs) = map ba_batch_id (take (length (fefo_loop q ?bs)) ?bs)"
    using fefo.draw_map [OF stocked_reserved, where r = q and f = al_batch_id and g = ba_batch_id] by simp
  then have "distinct (map al_batch_id (fefo_loop q ?bs))" using d by (simp add: distinct_take flip: take_map)
  moreover have "\<exists>b \<in> set (iv_balances s). sb_key b = (w, p, al_batch_id al) \<and>
      0 \<le> sb_reserved b + - al_quantity al \<and> sb_reserved b + - al_quantity al \<le> sb_on_hand b"
    if al: "al \<in> set (fefo_loop q ?bs)" for al
  proof -
    obtain x where x: "x \<in> set (reserved_balances w p s)" "al_batch_id al = ba_batch_id x"
        "0 < al_quantity al" "al_quantity al \<le> ba_available x"
      using fefo.draw_in [OF stocked_reserved [of release_sort_key w p s], where r = q and c = al] al by auto
    then obtain b where b: "b \<in> set (iv_balances s)" "sb_key b = (w, p, al_batch_id al)" "ba_available x = sb_reserved b"
      by (auto simp: reserved_balances_def sb_key_def)
    moreover have "sb_reserved b \<le> sb_on_hand b" using assms(2) b(1) by (simp add: reserved_ok_def)
    ultimately show ?thesis using x(3,4) by (intro bexI [of _ b]) auto
  qed
  ultimately show ?thesis by (simp add: reservable_def)
qed

lemma reserve_succeeds_iff:
  assumes "ledger_ok s" "reserved_ok s"
  shows "is_ok (reserve a s) \<longleftrightarrow> 0 < rv_base_quantity a \<and>
    rv_base_quantity a \<le> available (rv_warehouse_id a) (rv_product_id a) (rv_as_of a) s"
proof -
  let ?w = "rv_warehouse_id a" and ?p = "rv_product_id a"
  have run: "\<exists>t. fold_res (\<lambda>al. adjust_reserved ?w ?p (al_batch_id al) (al_quantity al)) als s = Inr t \<and> reserved_ok t"
    if "allocate_fefo (batch_availability ?w ?p s) (rv_base_quantity a) (as_of_or_today (rv_as_of a) s) = Inr als" for als
    by (rule reserve_run_succeeds [OF fefo_reservable [OF that ledger_ok_unique [OF assms(1)] assms(2)]
          ledger_ok_unique [OF assms(1)] assms(2)])
  have "is_ok (reserve a s) \<longleftrightarrow> is_ok (allocate_fefo (batch_availability ?w ?p s) (rv_base_quantity a)
      (as_of_or_today (rv_as_of a) s))"
    using run by (fastforce simp: is_ok_iff reserve_ok allocate_fefo_ok)
  then show ?thesis by (simp add: allocate_fefo_available)
qed

lemma reserve_keeps:
  fixes a :: reserve_args
  assumes "reserve a s = Inr (u, t)" "ledger_ok s" "reserved_ok s"
  shows "ledger_ok t" "reserved_ok t" "iv_movements t = iv_movements s" "stock_of t w p = stock_of s w p"
    "reservations_of t w p = reservations_of s w p +
       (if w = rv_warehouse_id a \<and> p = rv_product_id a then rv_base_quantity a else 0)"
proof -
  obtain als where als: "allocate_fefo (batch_availability (rv_warehouse_id a) (rv_product_id a) s) (rv_base_quantity a)
        (as_of_or_today (rv_as_of a) s) = Inr als"
      and t: "fold_res (\<lambda>al. adjust_reserved (rv_warehouse_id a) (rv_product_id a) (al_batch_id al) (al_quantity al)) als s = Inr t"
    using assms(1) unfolding reserve_ok by blast
  note k = reserve_run_keeps [OF t assms(2)]
  show "ledger_ok t" "iv_movements t = iv_movements s" "stock_of t w p = stock_of s w p" using k by simp_all
  show "reservations_of t w p = reservations_of s w p +
      (if w = rv_warehouse_id a \<and> p = rv_product_id a then rv_base_quantity a else 0)"
    using reserve_run_keeps [OF t assms(2), of undefined w p] allocate_fefo_sum [OF als] by simp
  show "reserved_ok t"
    using reserve_run_succeeds [OF fefo_reservable [OF als ledger_ok_unique [OF assms(2)] assms(3)]
          ledger_ok_unique [OF assms(2)] assms(3)] t by simp
qed

text \<open>
  Reserving. A reservation is accepted exactly for a positive quantity of at most what is
  available; it raises the product's reservations by that quantity and moves no stock, and every
  row's reservation stays between zero and its stock.
\<close>

theorem reserve_correct:
  fixes a :: reserve_args
  assumes "ledger_ok s" "reserved_ok s"
  defines "w \<equiv> rv_warehouse_id a" and "p \<equiv> rv_product_id a"
  shows "(is_ok (reserve a s) \<longleftrightarrow> 0 < rv_base_quantity a \<and> rv_base_quantity a \<le> available w p (rv_as_of a) s)
    \<and> (\<forall>u t. reserve a s = Inr (u, t) \<longrightarrow>
         ledger_ok t \<and> reserved_ok t \<and> iv_movements t = iv_movements s \<and> stock_of t w' p' = stock_of s w' p'
         \<and> reservations_of t w' p' = reservations_of s w' p' +
             (if w' = w \<and> p' = p then rv_base_quantity a else 0))"
  using reserve_succeeds_iff [OF assms(1,2)] reserve_keeps [OF _ assms(1,2)] by (auto simp: w_def p_def)

lemma release_result:
  assumes "ledger_ok s" "reserved_ok s" "0 < q"
  shows "\<exists>m. ledger_ok m \<and> reserved_ok m \<and> iv_movements m = iv_movements s
    \<and> (\<forall>w' p'. stock_of m w' p' = stock_of s w' p')
    \<and> release_reservation w p q s =
      (if reservations_of s w p < q then Inl (business ''over_release'') else Inr ((), m))
    \<and> (q \<le> reservations_of s w p \<longrightarrow> (\<forall>w' p'.
        reservations_of m w' p' = reservations_of s w' p' - (if w' = w \<and> p' = p then q else 0)))"
proof -
  let ?als = "fefo_loop q (sort_key release_sort_key (reserved_balances w p s))"
  obtain m where m: "fold_res (\<lambda>al. adjust_reserved w p (al_batch_id al) (- al_quantity al)) ?als s = Inr m" "reserved_ok m"
    using reserve_run_succeeds [OF release_reservable [OF ledger_ok_unique [OF assms(1)] assms(2)]
        ledger_ok_unique [OF assms(1)] assms(2)] by blast
  note sum = release_draw_sum [OF assms(2,3), of w p]
  have "release_reservation w p q s =
      (if reservations_of s w p < q then Inl (business ''over_release'') else Inr ((), m))"
    using assms(3) by (simp add: release_reservation_def release_loop_eq m(1) sum min_def)
  moreover have "reservations_of m w' p' = reservations_of s w' p' - (if w' = w \<and> p' = p then q else 0)"
    if "q \<le> reservations_of s w p" for w' p'
    using reserve_run_keeps [OF m(1) assms(1), of undefined w' p'] that sum by (simp add: sum_list_minus)
  ultimately show ?thesis using m(2) reserve_run_keeps [OF m(1) assms(1)] by blast
qed

lemma release_keeps:
  assumes "release_reservation w' p' q s = Inr (u, t)" "ledger_ok s" "reserved_ok s"
  shows "ledger_ok t" "reserved_ok t" "iv_movements t = iv_movements s" "stock_of t w p = stock_of s w p"
    "reservations_of t w p = reservations_of s w p - (if w = w' \<and> p = p' then q else 0)"
    "0 < q \<and> q \<le> reservations_of s w' p'"
proof -
  have q: "0 < q" using assms(1) by (auto simp: release_reservation_def split: if_splits)
  obtain m where m: "ledger_ok m" "reserved_ok m" "iv_movements m = iv_movements s"
    and st: "\<forall>w p. stock_of m w p = stock_of s w p"
    and rel: "release_reservation w' p' q s =
      (if reservations_of s w' p' < q then Inl (business ''over_release'') else Inr ((), m))"
    and res: "q \<le> reservations_of s w' p' \<longrightarrow> (\<forall>w p.
      reservations_of m w p = reservations_of s w p - (if w = w' \<and> p = p' then q else 0))"
    using release_result [OF assms(2,3) q, of w' p'] by (elim exE conjE)
  have le: "q \<le> reservations_of s w' p'" using assms(1) rel by (cases "reservations_of s w' p' < q") auto
  then have t: "t = m" using assms(1) rel by simp
  show "0 < q \<and> q \<le> reservations_of s w' p'" using q le by simp
  show "ledger_ok t" "reserved_ok t" "iv_movements t = iv_movements s" unfolding t by (rule m)+
  show "stock_of t w p = stock_of s w p" using st by (simp add: t)
  show "reservations_of t w p = reservations_of s w p - (if w = w' \<and> p = p' then q else 0)" using res le by (simp add: t)
qed

lemma release_succeeds_iff:
  assumes "ledger_ok s" "reserved_ok s"
  shows "is_ok (release_reservation w p q s) \<longleftrightarrow> 0 < q \<and> q \<le> reservations_of s w p"
proof (cases "0 < q")
  case True
  obtain m where "release_reservation w p q s =
      (if reservations_of s w p < q then Inl (business ''over_release'') else Inr ((), m))"
    using release_result [OF assms True, of w p] by (elim exE conjE)
  then show ?thesis using True by (simp add: not_less)
qed (simp add: release_reservation_def)

text \<open>
  Releasing. A release is accepted exactly for a positive quantity of at most the product's
  reservations in the warehouse; it lowers them by that quantity, moves no stock and keeps every
  row's reservation between zero and its stock.
\<close>

theorem release_correct:
  assumes "ledger_ok s" "reserved_ok s"
  shows "(is_ok (release_reservation w p q s) \<longleftrightarrow> 0 < q \<and> q \<le> reservations_of s w p)
    \<and> (\<forall>u t. release_reservation w p q s = Inr (u, t) \<longrightarrow>
         ledger_ok t \<and> reserved_ok t \<and> iv_movements t = iv_movements s \<and> stock_of t w' p' = stock_of s w' p'
         \<and> reservations_of t w' p' = reservations_of s w' p' - (if w' = w \<and> p' = p then q else 0))"
  using release_succeeds_iff [OF assms] release_keeps [OF _ assms] by auto

section \<open>Transfers\<close>

lemma transfer_leg_key: "ma_key (transfer_leg a w mt) = (w, tf_product_id a, tf_batch_id a)"
  by (simp add: transfer_leg_def required_args_def ma_key_def)

lemma transfer_leg_delta:
  "movement_delta (transfer_leg a w TRANSFER_OUT) =
     (if tf_base_quantity a \<le> 0 then Inl business_rule else Inr (- tf_base_quantity a))"
  "movement_delta (transfer_leg a w TRANSFER_IN) =
     (if tf_base_quantity a \<le> 0 then Inl business_rule else Inr (tf_base_quantity a))"
  by (simp_all add: transfer_leg_def required_args_def movement_delta_def movement_direction_def
      INBOUND_TYPES_def OUTBOUND_TYPES_def)

lemma transfer_cases:
  assumes "transfer a s = Inr (u, t)"
  obtains x m y where "post_movement (transfer_leg a (tf_from_warehouse_id a) TRANSFER_OUT) s = Inr (x, m)"
    "post_movement (transfer_leg a (tf_to_warehouse_id a) TRANSFER_IN) m = Inr (y, t)"
    "pm_base_quantity x = - tf_base_quantity a" "pm_base_quantity y = tf_base_quantity a" "0 < tf_base_quantity a"
proof -
  obtain x m y where l: "post_movement (transfer_leg a (tf_from_warehouse_id a) TRANSFER_OUT) s = Inr (x, m)"
    "post_movement (transfer_leg a (tf_to_warehouse_id a) TRANSFER_IN) m = Inr (y, t)"
    using assms by (auto simp: transfer_def)
  have q: "0 < tf_base_quantity a"
    using l(1) by (auto simp: post_movement_def transfer_leg_delta split: if_splits)
  show thesis
    using post_movement_delta [OF l(1), of "- tf_base_quantity a"] post_movement_delta [OF l(2), of "tf_base_quantity a"] q l
    by (intro that [of x m y]) (simp_all add: transfer_leg_delta)
qed

text \<open>
  Transfers conserve stock. A transfer is accepted exactly for a positive quantity of at most
  what the source row has on hand; it moves that quantity from the source to the destination, so
  the product's stock over both warehouses is unchanged, and keeps the ledger consistent.
\<close>

theorem transfer_conserves:
  assumes "ledger_ok s" "tf_from_warehouse_id a \<noteq> tf_to_warehouse_id a"
  shows "(is_ok (transfer a s) \<longleftrightarrow> 0 < tf_base_quantity a \<and>
            tf_base_quantity a \<le> on_hand_of s (tf_from_warehouse_id a, tf_product_id a, tf_batch_id a))
    \<and> (\<forall>u t. transfer a s = Inr (u, t) \<longrightarrow>
         ledger_ok t
         \<and> stock_of t (tf_from_warehouse_id a) (tf_product_id a)
             = stock_of s (tf_from_warehouse_id a) (tf_product_id a) - tf_base_quantity a
         \<and> stock_of t (tf_to_warehouse_id a) (tf_product_id a)
             = stock_of s (tf_to_warehouse_id a) (tf_product_id a) + tf_base_quantity a
         \<and> (\<forall>w p. p \<noteq> tf_product_id a \<or> w \<noteq> tf_from_warehouse_id a \<and> w \<noteq> tf_to_warehouse_id a \<longrightarrow>
             stock_of t w p = stock_of s w p)
         \<and> (\<forall>w p. reservations_of t w p = reservations_of s w p))"
proof (intro conjI allI impI)
  let ?out = "transfer_leg a (tf_from_warehouse_id a) TRANSFER_OUT"
  let ?in = "transfer_leg a (tf_to_warehouse_id a) TRANSFER_IN"
  have o: "is_ok (post_movement ?out s) \<longleftrightarrow> 0 < tf_base_quantity a \<and>
      tf_base_quantity a \<le> on_hand_of s (tf_from_warehouse_id a, tf_product_id a, tf_batch_id a)"
    by (auto simp: post_movement_succeeds_iff [OF ledger_ok_unique [OF assms(1)] ledger_ok_nonneg [OF assms(1)]]
        transfer_leg_delta transfer_leg_key)
  have i: "is_ok (post_movement ?in m)" if "post_movement ?out s = Inr (x, m)" "0 < tf_base_quantity a" for x m
  proof -
    have "ledger_ok m" by (rule post_movement_ledger_ok [OF that(1) assms(1)])
    then show ?thesis
      using on_hand_of_nonneg [OF ledger_ok_nonneg, of m] that(2)
      by (subst post_movement_succeeds_iff [OF ledger_ok_unique ledger_ok_nonneg]) (simp_all add: transfer_leg_delta)
  qed
  show "is_ok (transfer a s) \<longleftrightarrow> 0 < tf_base_quantity a \<and>
      tf_base_quantity a \<le> on_hand_of s (tf_from_warehouse_id a, tf_product_id a, tf_batch_id a)"
    unfolding o [symmetric] using i o by (fastforce simp: is_ok_iff transfer_def)
next
  fix u t assume "transfer a s = Inr (u, t)"
  then obtain x m y where l: "post_movement (transfer_leg a (tf_from_warehouse_id a) TRANSFER_OUT) s = Inr (x, m)"
    "post_movement (transfer_leg a (tf_to_warehouse_id a) TRANSFER_IN) m = Inr (y, t)"
    and d: "pm_base_quantity x = - tf_base_quantity a" "pm_base_quantity y = tf_base_quantity a"
    by (rule transfer_cases)
  show "ledger_ok t" by (rule post_movement_ledger_ok [OF l(2) post_movement_ledger_ok [OF l(1) assms(1)]])
  have st: "stock_of t w p = stock_of s w p
      + (if w = tf_from_warehouse_id a \<and> p = tf_product_id a then - tf_base_quantity a else 0)
      + (if w = tf_to_warehouse_id a \<and> p = tf_product_id a then tf_base_quantity a else 0)" for w p
    using post_movement_on_hand(3) [OF l(1), of w p] post_movement_on_hand(3) [OF l(2), of w p] d
    by (simp add: transfer_leg_def required_args_def)
  show "stock_of t (tf_from_warehouse_id a) (tf_product_id a)
      = stock_of s (tf_from_warehouse_id a) (tf_product_id a) - tf_base_quantity a"
    using st [of "tf_from_warehouse_id a" "tf_product_id a"] assms(2) by simp
  show "stock_of t (tf_to_warehouse_id a) (tf_product_id a)
      = stock_of s (tf_to_warehouse_id a) (tf_product_id a) + tf_base_quantity a"
    using st [of "tf_to_warehouse_id a" "tf_product_id a"] assms(2) by simp
  show "stock_of t w p = stock_of s w p"
    if "p \<noteq> tf_product_id a \<or> w \<noteq> tf_from_warehouse_id a \<and> w \<noteq> tf_to_warehouse_id a" for w p
    using st [of w p] that by auto
  show "reservations_of t w p = reservations_of s w p" for w p
    using post_movement_on_hand(4) [OF l(1), of w p] post_movement_on_hand(4) [OF l(2), of w p] by simp
qed

section \<open>Histories of the component\<close>

text \<open>Every way in which the program's other parts and its clients change stock.\<close>

datatype inventory_command =
    Receive movement_args
  | Issue issue_args
  | Adjust current_user adjustment_request
  | Reserve reserve_args
  | Release uuid uuid decimal
  | Transfer current_user transfer_request

fun run_inventory :: "inventory_command \<Rightarrow> inventory \<Rightarrow> (unit \<times> inventory) res" where
  "run_inventory (Receive a) s = res_bind (receive a s) (\<lambda>(_, t). Inr ((), t))"
| "run_inventory (Issue a) s = res_bind (issue_fefo a s) (\<lambda>(_, t). Inr ((), t))"
| "run_inventory (Adjust u q) s = res_bind (create_adjustment u q s) (\<lambda>(_, t). Inr ((), t))"
| "run_inventory (Reserve a) s = reserve a s"
| "run_inventory (Release w p q) s = release_reservation w p q s"
| "run_inventory (Transfer u q) s = res_bind (create_transfer u q s) (\<lambda>(_, t). Inr ((), t))"

lemma map_state_post_ledger_ok:
  "map_state (\<lambda>al. post_movement (f al)) als s = Inr (ps, t) \<Longrightarrow> ledger_ok s \<Longrightarrow> ledger_ok t"
  by (rule map_state_invariant [where I = ledger_ok]) (auto intro: post_movement_ledger_ok)

lemma adjust_ledger_ok: "adjust a s = Inr (ps, t) \<Longrightarrow> ledger_ok s \<Longrightarrow> ledger_ok t"
  by (cases "aj_signed_quantity a < 0")
    (auto simp: adjust_def Let_def split: if_splits
      intro: post_movement_ledger_ok map_state_post_ledger_ok)

lemma release_loop_ledger_ok: "release_loop w p r bs s = Inr (r', t) \<Longrightarrow> ledger_ok s \<Longrightarrow> ledger_ok t"
  by (auto simp: release_loop_eq dest!: reserve_run_keeps)

lemma run_inventory_ledger_ok: "ledger_ok s \<Longrightarrow> run_inventory c s = Inr (u, t) \<Longrightarrow> ledger_ok t"
proof (cases c)
  case (Issue a)
  assume "ledger_ok s" "run_inventory c s = Inr (u, t)"
  then show ?thesis by (auto simp: Issue issue_fefo_ok intro: map_state_post_ledger_ok)
next
  case (Adjust us q)
  assume l: "ledger_ok s" and "run_inventory c s = Inr (u, t)"
  then obtain mid applied where "create_adjustment us q s = Inr ((mid, applied), t)" by (auto simp: Adjust)
  then obtain a ps where "adjust a s = Inr (ps, t)" by (rule create_adjustment_ok)
  then show ?thesis using l by (rule adjust_ledger_ok)
qed (auto simp: receive_def reserve_ok release_reservation_def create_transfer_def
      intro: post_movement_ledger_ok dest!: reserve_run_keeps release_loop_ledger_ok
      split: if_splits elim!: transfer_cases)

interpretation stock: handler_contract ledger_ok "\<lambda>_. True" run_inventory
  by unfold_locales (rule run_inventory_ledger_ok)

lemma issue_ledger_ok: "issue_fefo i s = Inr (ps, t) \<Longrightarrow> ledger_ok s \<Longrightarrow> ledger_ok t"
  by (rule run_inventory_ledger_ok [where c = "Issue i"]) auto

lemma reserve_ledger_ok: "reserve r s = Inr (u, t) \<Longrightarrow> ledger_ok s \<Longrightarrow> ledger_ok t"
  by (rule run_inventory_ledger_ok [where c = "Reserve r"]) simp_all

lemma release_ledger_ok: "release_reservation w p q s = Inr (u, t) \<Longrightarrow> ledger_ok s \<Longrightarrow> ledger_ok t"
  by (rule run_inventory_ledger_ok [where c = "Release w p q"]) simp_all

lemmas operations_ledger_ok = issue_ledger_ok reserve_ledger_ok release_ledger_ok

text \<open>
  The ledger is the truth. After any sequence of stock requests, accepted or refused, of any
  kind and in any order, every balance equals the sum of the ledger movements of its product,
  warehouse and batch, no balance is negative, each key has one balance row and no movement is
  empty.
\<close>

theorem ledger_always_reconciles:
  "ledger_ok (serve run_inventory commands (empty_inventory now))"
  using empty_inventory_ok by (intro stock.serve_keeps) simp_all

definition stranding_history :: "inventory_command list" where
  "stranding_history =
     [Receive (required_args 1 10 7 PURCHASE_RECEIPT 5),
      Reserve \<lparr>rv_warehouse_id = 10, rv_product_id = 7, rv_base_quantity = 5, rv_as_of = None\<rparr>,
      Transfer \<lparr>cu_user_id = 3, cu_organization_id = 1, cu_session_id = 0, cu_is_owner = True,
                cu_branch_ids = [], cu_permissions = []\<rparr>
        \<lparr>tq_from_warehouse_id = 10, tq_to_warehouse_id = 11, tq_product_id = 7, tq_base_quantity = 5\<rparr>]"

text \<open>
  Transfers ignore reservations. There is a reachable history in which a transfer takes stock
  that an order has reserved: the source row is left with a reservation its stock does not cover.
\<close>

theorem transfer_strands_reservation:
  "reserved_ok (serve run_inventory (butlast stranding_history) (empty_inventory 0)) \<and>
   \<not> reserved_ok (serve run_inventory stranding_history (empty_inventory 0))"
  by code_simp

section \<open>A worked history\<close>

text \<open>Three batches of one product: one expired on the day of the requests, two not.\<close>

definition sample_batch_rows :: "batch list" where
  "sample_batch_rows =
     map (\<lambda>(i, e). \<lparr>bt_id = i, bt_organization_id = 1, bt_product_id = 7, bt_batch_number = ''B'',
            bt_manufacture_date = None, bt_expiry_date = Some e, bt_mrp = None\<rparr>)
       [(1, 900), (2, 700), (3, 500)]"

definition sample_receipt :: "uuid \<Rightarrow> decimal \<Rightarrow> inventory_command" where
  "sample_receipt b q = Receive ((required_args 1 10 7 PURCHASE_RECEIPT q)\<lparr>ma_batch_id := Some b\<rparr>)"

definition sample_stock :: inventory where
  "sample_stock = serve run_inventory [sample_receipt 1 4, sample_receipt 2 3, sample_receipt 3 9,
      Reserve \<lparr>rv_warehouse_id = 10, rv_product_id = 7, rv_base_quantity = 2, rv_as_of = None\<rparr>]
      ((empty_inventory (600 * 86400))\<lparr>iv_batches := sample_batch_rows\<rparr>)"

lemma sample_stock_ledger_ok: "ledger_ok sample_stock"
  unfolding sample_stock_def using empty_inventory_ok
  by (intro stock.serve_keeps) (simp_all add: ledger_ok_def keys_unique_def on_hand_of_def ledger_of_def)

lemma sample_stock_reserved_ok: "reserved_ok sample_stock"
  by code_simp

definition sample_issue :: "decimal \<Rightarrow> issue_args" where
  "sample_issue q =
     \<lparr>is_organization_id = 1, is_warehouse_id = 10, is_product_id = 7, is_base_quantity = q,
      is_movement_type = RETAIL_SALE, is_branch_id = None, is_source_document_type = None,
      is_source_document_id = None, is_created_by = None, is_as_of = None\<rparr>"

lemma sample_issue_simps:
  "is_warehouse_id (sample_issue q) = 10" "is_product_id (sample_issue q) = 7"
  "is_base_quantity (sample_issue q) = q" "is_as_of (sample_issue q) = None"
  "movement_direction (is_movement_type (sample_issue q)) = - 1"
  by (simp_all add: sample_issue_def movement_direction_def INBOUND_TYPES_def OUTBOUND_TYPES_def)

definition sample_manager :: current_user where
  "sample_manager = \<lparr>cu_user_id = 3, cu_organization_id = 1, cu_session_id = 0, cu_is_owner = False,
     cu_branch_ids = [20], cu_permissions = [''inventory.adjust'', ''stock.transfer'']\<rparr>"



definition sample_damage :: adjustment_request where
  "sample_damage = \<lparr>aq_warehouse_id = 10, aq_product_id = 7, aq_signed_quantity = 2,
     aq_reason = ''torn bag'', aq_movement_type = DAMAGE\<rparr>"

theorem create_adjustment_correct_witness:
  "\<exists>mid applied t. create_adjustment sample_manager sample_damage sample_stock = Inr ((mid, applied), t) \<and>
     applied = - 2 \<and> stock_of t 10 7 = stock_of sample_stock 10 7 - 2"
proof -
  have "is_ok (create_adjustment sample_manager sample_damage sample_stock)" by code_simp
  then obtain mid applied t where c: "create_adjustment sample_manager sample_damage sample_stock = Inr ((mid, applied), t)"
    by (auto simp: is_ok_iff)
  with create_adjustment_correct [OF c sample_stock_ledger_ok, of 10 7] show ?thesis
    by (auto simp: sample_damage_def)
qed

definition sample_expiry :: adjust_args where
  "sample_expiry = \<lparr>aj_organization_id = 1, aj_warehouse_id = 10, aj_product_id = 7, aj_signed_quantity = - 3,
     aj_movement_type = EXPIRY, aj_reason = ''expired'', aj_branch_id = None, aj_created_by = None, aj_as_of = None\<rparr>"

theorem expiry_write_off_misses_expired_witness:
  "\<exists>x ps t. adjust sample_expiry sample_stock = Inr (ps, t) \<and> x \<in> set ps \<and> pm_base_quantity x < 0 \<and>
     batch_expiry sample_stock (pm_batch_id x) = Some 700 \<and> 600 < (700 :: date)"
proof -
  have "res_bind (adjust sample_expiry sample_stock) (\<lambda>(ps, t). Inr (map pm_batch_id ps)) = Inr [Some 2, Some 1]"
    by code_simp
  then obtain ps t where a: "adjust sample_expiry sample_stock = Inr (ps, t)" "map pm_batch_id ps = [Some 2, Some 1]"
    by (rule res_bind_pairE)
  then have x: "hd ps \<in> set ps" "pm_batch_id (hd ps) = Some 2" by (cases ps; simp)+
  have e: "batch_expiry sample_stock (Some 2) = Some 700" by code_simp
  have t: "aj_movement_type sample_expiry = EXPIRY" by (simp add: sample_expiry_def)
  from expiry_write_off_misses_expired [OF t a(1) sample_stock_ledger_ok x(1)]
  show ?thesis using a(1) x e by (intro exI [of _ "hd ps"] exI [of _ ps] exI [of _ t]) auto
qed

theorem reserve_correct_witness:
  "\<exists>t. reserve \<lparr>rv_warehouse_id = 10, rv_product_id = 7, rv_base_quantity = 5, rv_as_of = None\<rparr> sample_stock = Inr ((), t)
     \<and> reservations_of t 10 7 = reservations_of sample_stock 10 7 + 5 \<and> reserved_ok t"
proof -
  let ?a = "\<lparr>rv_warehouse_id = 10, rv_product_id = 7, rv_base_quantity = 5, rv_as_of = None\<rparr>"
  note r = reserve_correct [OF sample_stock_ledger_ok sample_stock_reserved_ok, of ?a 10 7]
  have "available 10 7 None sample_stock = 5" by code_simp
  then have "is_ok (reserve ?a sample_stock)" using r by simp
  then obtain t where "reserve ?a sample_stock = Inr ((), t)" by (auto simp: is_ok_iff)
  then show ?thesis using r by auto
qed

theorem release_correct_witness:
  "is_ok (release_reservation 10 7 2 sample_stock) \<and> \<not> is_ok (release_reservation 10 7 3 sample_stock)"
proof -
  have "reservations_of sample_stock 10 7 = 2" by code_simp
  then show ?thesis
    using release_correct [OF sample_stock_ledger_ok sample_stock_reserved_ok, of 10 7] by simp
qed

theorem transfer_conserves_witness:
  "\<exists>t. transfer \<lparr>tf_organization_id = 1, tf_from_warehouse_id = 10, tf_to_warehouse_id = 11, tf_product_id = 7,
       tf_base_quantity = 3, tf_batch_id = Some 1, tf_created_by = None\<rparr> sample_stock = Inr ((), t) \<and>
     stock_of t 11 7 = 3 \<and> stock_of t 10 7 = 13 \<and> ledger_ok t"
proof -
  let ?a = "\<lparr>tf_organization_id = 1, tf_from_warehouse_id = 10, tf_to_warehouse_id = 11, tf_product_id = 7,
       tf_base_quantity = 3, tf_batch_id = Some 1, tf_created_by = None\<rparr>"
  have ne: "tf_from_warehouse_id ?a \<noteq> tf_to_warehouse_id ?a" by simp
  note c = transfer_conserves [OF sample_stock_ledger_ok ne]
  have "on_hand_of sample_stock (10, 7, Some 1) = 4" "stock_of sample_stock 10 7 = 16" "stock_of sample_stock 11 7 = 0"
    by code_simp+
  moreover from this have "is_ok (transfer ?a sample_stock)" using c by simp
  then obtain t where "transfer ?a sample_stock = Inr ((), t)" by (auto simp: is_ok_iff)
  ultimately show ?thesis using c by (intro exI [of _ t]) auto
qed

end
