(* ===== verification/Tables.thy ===== *)
theory Tables
  imports Pricing
begin

text \<open>
  The rows of the tables that the documents share, after the \<open>models.py\<close> files of
  \<open>app/modules/organizations\<close>, \<open>catalogue\<close>, \<open>customers\<close>, \<open>suppliers\<close>, \<open>sales\<close>, \<open>payments\<close>,
  \<open>purchases\<close>, \<open>service_jobs\<close> and \<open>warranties\<close>. The rows of stock, numbering, idempotency and
  accounting are with their components.
\<close>

section \<open>Organizations\<close>

record organization =
  og_id :: uuid
  og_name :: string
  og_legal_name :: "string option"
  og_gstin :: "string option"
  og_address :: "string option"
  og_currency :: string
  og_is_active :: bool

datatype warehouse_type = SHOP | GODOWN

record warehouse =
  wh_id :: uuid
  wh_organization_id :: uuid
  wh_branch_id :: "uuid option"
  wh_name :: string
  wh_code :: string
  wh_type :: warehouse_type
  wh_is_active :: bool

section \<open>Catalogue\<close>

datatype product_category_kind =
  SEED | FERTILIZER | PESTICIDE | INSECTICIDE | HERBICIDE | FUNGICIDE | MACHINE | SPARE_PART | TOOL | ACCESSORY

record category =
  cg_id :: uuid
  cg_organization_id :: uuid
  cg_name :: string
  cg_code :: string
  cg_kind :: product_category_kind
  cg_parent_id :: "uuid option"

record measure_unit =
  un_id :: uuid
  un_organization_id :: uuid
  un_code :: string
  un_name :: string

record product =
  pd_id :: uuid
  pd_organization_id :: uuid
  pd_category_id :: uuid
  pd_brand_id :: "uuid option"
  pd_base_unit_id :: uuid
  pd_name :: string
  pd_sku :: string
  pd_barcode :: "string option"
  pd_hsn_code :: "string option"
  pd_gst_rate :: decimal
  pd_mrp :: decimal
  pd_retail_price :: decimal
  pd_wholesale_price :: decimal
  pd_tracks_batches :: bool
  pd_tracks_serials :: bool
  pd_tracks_expiry :: bool
  pd_min_stock :: decimal
  pd_is_active :: bool

section \<open>Customers and suppliers\<close>

datatype customer_type = WALK_IN | FARMER | RETAIL_CUSTOMER | RETAILER | DEALER | DISTRIBUTOR | INSTITUTION

record customer =
  cs_id :: uuid
  cs_organization_id :: uuid
  cs_code :: string
  cs_name :: string
  cs_customer_type :: customer_type
  cs_phone :: "string option"
  cs_gstin :: "string option"
  cs_address :: "string option"
  cs_village :: "string option"
  cs_credit_limit :: decimal
  cs_credit_period_days :: int
  cs_opening_balance :: decimal
  cs_is_active :: bool

record supplier =
  su_id :: uuid
  su_organization_id :: uuid
  su_code :: string
  su_name :: string
  su_business_name :: "string option"
  su_gstin :: "string option"
  su_phone :: "string option"
  su_email :: "string option"
  su_address :: "string option"
  su_credit_period_days :: int
  su_opening_balance :: decimal
  su_is_active :: bool

section \<open>Sales and payments\<close>

datatype sale_channel = RETAIL_CHANNEL | WHOLESALE_CHANNEL

datatype payment_status = PAID | PARTIAL | CREDIT

record sales_invoice =
  si_id :: uuid
  si_organization_id :: uuid
  si_branch_id :: "uuid option"
  si_warehouse_id :: uuid
  si_customer_id :: "uuid option"
  si_invoice_number :: string
  si_invoice_date :: date
  si_channel :: sale_channel
  si_subtotal :: decimal
  si_discount_total :: decimal
  si_tax_total :: decimal
  si_grand_total :: decimal
  si_paid_amount :: decimal
  si_payment_status :: payment_status
  si_created_by :: "uuid option"
  si_created_at :: timestamp

record sales_invoice_item =
  ii_sales_invoice_id :: uuid
  ii_product_id :: uuid
  ii_base_quantity :: decimal
  ii_unit_price :: decimal
  ii_price_source :: price_source
  ii_discount_percent :: decimal
  ii_discount_amount :: decimal
  ii_taxable_value :: decimal
  ii_gst_rate :: decimal
  ii_tax_amount :: decimal
  ii_line_total :: decimal

datatype payment_method = CASH | UPI | CARD | BANK_TRANSFER | CHEQUE | ON_CREDIT | ADVANCE

datatype payment_direction = INBOUND | OUTBOUND

record payment =
  py_id :: uuid
  py_organization_id :: uuid
  py_branch_id :: "uuid option"
  py_customer_id :: "uuid option"
  py_direction :: payment_direction
  py_method :: payment_method
  py_amount :: decimal
  py_reference :: "string option"
  py_received_at :: timestamp
  py_created_by :: "uuid option"

record payment_allocation =
  pl_payment_id :: uuid
  pl_sales_invoice_id :: "uuid option"
  pl_amount :: decimal

datatype sales_order_status = QUOTATION | CONFIRMED | PARTIALLY_DISPATCHED | DISPATCHED | INVOICED | CANCELLED

record sales_order =
  so_id :: uuid
  so_organization_id :: uuid
  so_branch_id :: "uuid option"
  so_warehouse_id :: uuid
  so_customer_id :: uuid
  so_salesperson_id :: "uuid option"
  so_order_number :: string
  so_status :: sales_order_status
  so_order_date :: date
  so_subtotal :: decimal
  so_tax_total :: decimal
  so_grand_total :: decimal
  so_credit_override_approved :: bool
  so_sales_invoice_id :: "uuid option"

record sales_order_item =
  ot_sales_order_id :: uuid
  ot_product_id :: uuid
  ot_base_quantity :: decimal
  ot_reserved_quantity :: decimal
  ot_dispatched_quantity :: decimal
  ot_unit_price :: decimal
  ot_price_source :: price_source
  ot_discount_percent :: decimal
  ot_taxable_value :: decimal
  ot_gst_rate :: decimal
  ot_tax_amount :: decimal
  ot_line_total :: decimal

section \<open>Purchases\<close>

datatype purchase_order_status = PO_DRAFT | PO_CONFIRMED | PARTIALLY_RECEIVED | PO_RECEIVED | PO_CANCELLED

record purchase_order =
  po_id :: uuid
  po_organization_id :: uuid
  po_branch_id :: "uuid option"
  po_supplier_id :: uuid
  po_po_number :: string
  po_status :: purchase_order_status
  po_order_date :: date
  po_expected_date :: "date option"
  po_freight :: decimal
  po_loading :: decimal
  po_other_charges :: decimal

record purchase_order_item =
  pt_id :: uuid
  pt_purchase_order_id :: uuid
  pt_product_id :: uuid
  pt_ordered_base_quantity :: decimal
  pt_received_base_quantity :: decimal
  pt_unit_rate :: decimal
  pt_trade_discount_percent :: decimal
  pt_gst_rate :: decimal

record goods_receipt =
  gr_id :: uuid
  gr_organization_id :: uuid
  gr_branch_id :: "uuid option"
  gr_warehouse_id :: uuid
  gr_supplier_id :: uuid
  gr_purchase_order_id :: "uuid option"
  gr_grn_number :: string
  gr_receipt_date :: date

record goods_receipt_item =
  gi_goods_receipt_id :: uuid
  gi_product_id :: uuid
  gi_batch_id :: "uuid option"
  gi_stock_movement_id :: "uuid option"
  gi_received_base_quantity :: decimal
  gi_free_base_quantity :: decimal
  gi_unit_rate :: decimal
  gi_landed_unit_cost :: decimal

record purchase_invoice =
  pv_id :: uuid
  pv_organization_id :: uuid
  pv_supplier_id :: uuid
  pv_goods_receipt_id :: "uuid option"
  pv_supplier_invoice_number :: string
  pv_invoice_date :: date
  pv_goods_value :: decimal
  pv_tax_amount :: decimal
  pv_total_amount :: decimal

section \<open>Repairs and warranties\<close>

datatype repair_status =
  RECEIVED | UNDER_INSPECTION | ESTIMATE_PREPARED | AWAITING_APPROVAL | APPROVED | IN_PROGRESS
  | WAITING_FOR_PART | QUALITY_CHECK | READY | DELIVERED | JOB_CANCELLED

record repair_job =
  rj_id :: uuid
  rj_organization_id :: uuid
  rj_branch_id :: "uuid option"
  rj_warehouse_id :: uuid
  rj_job_number :: string
  rj_customer_id :: "uuid option"
  rj_product_id :: "uuid option"
  rj_serial_id :: "uuid option"
  rj_warranty_id :: "uuid option"
  rj_technician_id :: "uuid option"
  rj_complaint :: "string option"
  rj_status :: repair_status
  rj_is_warranty_covered :: bool
  rj_labour_charges :: decimal
  rj_parts_total :: decimal
  rj_customer_payable :: decimal
  rj_received_date :: date
  rj_completed_date :: "date option"

record repair_job_part =
  rt_id :: uuid
  rt_repair_job_id :: uuid
  rt_product_id :: uuid
  rt_base_quantity :: decimal
  rt_unit_price :: decimal
  rt_consumption_movement_id :: "uuid option"
  rt_return_movement_id :: "uuid option"
  rt_is_returned :: bool

record warranty =
  wa_id :: uuid
  wa_organization_id :: uuid
  wa_product_id :: uuid
  wa_serial_id :: "uuid option"
  wa_customer_id :: "uuid option"
  wa_sales_invoice_id :: "uuid option"
  wa_start_date :: date
  wa_end_date :: date

end
