(* ===== verification/Identity.thy ===== *)
theory Identity
  imports Access "HOL-Library.List_Lexorder" "HOL-Library.Char_ord"
begin

text \<open>
  Users and sessions: the rows of \<open>app/modules/users/models.py\<close>, \<open>auth/models.py\<close> and
  \<open>audit/models.py\<close>, the data access of \<open>auth/repository.py\<close> and the authentication service of
  \<open>auth/service.py\<close>. Argon2, SHA-256, the random token source and the signing of access tokens are
  third-party code: they are the fields of \<open>crypto\<close>, an argument of the operations.
\<close>

section \<open>The tables\<close>

record user =
  us_id :: uuid
  us_organization_id :: uuid
  us_email :: string
  us_full_name :: string
  us_hashed_password :: string
  us_is_active :: bool
  us_is_owner :: bool
  us_failed_login_count :: int
  us_locked_until :: "timestamp option"
  us_last_login_at :: "timestamp option"

record role =
  ro_id :: uuid
  ro_organization_id :: uuid
  ro_name :: string
  ro_code :: string
  ro_description :: "string option"
  ro_is_system :: bool

record permission =
  pe_id :: uuid
  pe_code :: string
  pe_category :: string

record user_role =
  ur_user_id :: uuid
  ur_role_id :: uuid
  ur_branch_id :: "uuid option"

record role_permission =
  rq_role_id :: uuid
  rq_permission_id :: uuid

record user_branch =
  ub_user_id :: uuid
  ub_branch_id :: uuid

record auth_session =
  ss_id :: uuid
  ss_user_id :: uuid
  ss_organization_id :: uuid
  ss_user_agent :: "string option"
  ss_ip_address :: "string option"
  ss_created_at :: timestamp
  ss_last_seen_at :: timestamp
  ss_revoked_at :: "timestamp option"

record refresh_token =
  tk_id :: uuid
  tk_session_id :: uuid
  tk_user_id :: uuid
  tk_token_hash :: string
  tk_created_at :: timestamp
  tk_expires_at :: timestamp
  tk_used_at :: "timestamp option"
  tk_revoked_at :: "timestamp option"
  tk_replaced_by_id :: "uuid option"

record audit_log =
  au_action :: string
  au_organization_id :: "uuid option"
  au_actor_user_id :: "uuid option"
  au_ip_address :: "string option"
  au_user_agent :: "string option"
  au_correlation_id :: "string option"

record identity =
  id_users :: "user list"
  id_roles :: "role list"
  id_permissions :: "permission list"
  id_user_roles :: "user_role list"
  id_role_permissions :: "role_permission list"
  id_user_branches :: "user_branch list"
  id_sessions :: "auth_session list"
  id_tokens :: "refresh_token list"
  id_audit :: "audit_log list"
  id_next :: uuid

section \<open>Third-party primitives and settings\<close>

text \<open>
  What \<open>PasswordHasher.verify\<close> does; the verdicts that are exceptions in the package are values here.
\<close>

datatype argon2_verdict = Verified | VerifyMismatch | InvalidHash | OtherArgon2Error

text \<open>
  The salt of a hash and the bytes of a random token come from a source of entropy, numbered by the
  supply of the identity tables. \<open>jwt_encode\<close> gets the payload, its issue and expiry times and its id.
\<close>

record crypto =
  cy_argon2_hash :: "nat \<Rightarrow> string \<Rightarrow> string"
  cy_argon2_verify :: "string \<Rightarrow> string \<Rightarrow> argon2_verdict"
  cy_check_needs_rehash :: "string \<Rightarrow> bool"
  cy_token_urlsafe :: "nat \<Rightarrow> string"
  cy_sha256 :: "string \<Rightarrow> string"
  cy_jwt_encode :: "jwt_payload \<Rightarrow> timestamp \<Rightarrow> timestamp \<Rightarrow> nat \<Rightarrow> string"

record auth_settings =
  st_access_token_ttl_seconds :: int
  st_refresh_token_ttl_seconds :: int
  st_login_rate_limit :: int
  st_login_rate_window_seconds :: int

text \<open>\<open>verify_password\<close> turns two of the exceptions into a refusal; any other would escape.\<close>

definition verify_password :: "crypto \<Rightarrow> string \<Rightarrow> string \<Rightarrow> bool res" where
  "verify_password c plain hashed =
     (case cy_argon2_verify c hashed plain of
        Verified \<Rightarrow> Inr True
      | VerifyMismatch \<Rightarrow> Inr False
      | InvalidHash \<Rightarrow> Inr False
      | OtherArgon2Error \<Rightarrow> Inl VerificationError)"

definition access_payload :: "uuid \<Rightarrow> uuid \<Rightarrow> uuid list \<Rightarrow> string list \<Rightarrow> uuid \<Rightarrow> bool \<Rightarrow> jwt_payload" where
  "access_payload user_id organization_id branch_ids permissions session_id is_owner =
     \<lparr>jp_type = Some ACCESS_TOKEN_TYPE, jp_sub = Claim user_id, jp_org = Claim organization_id,
      jp_sid = Claim session_id, jp_owner = Some is_owner, jp_branches = Some (map Claim branch_ids),
      jp_perms = Some permissions\<rparr>"

definition create_access_token ::
  "crypto \<Rightarrow> auth_settings \<Rightarrow> timestamp \<Rightarrow> nat \<Rightarrow> jwt_payload \<Rightarrow> string" where
  "create_access_token c settings issued jti payload =
     cy_jwt_encode c payload issued (issued + st_access_token_ttl_seconds settings) jti"

section \<open>The repository\<close>

definition get_user_by_email :: "uuid option \<Rightarrow> string \<Rightarrow> identity \<Rightarrow> user option" where
  "get_user_by_email organization_id email s =
     first_row (\<lambda>u. us_email u = email \<and> (case organization_id of None \<Rightarrow> True | Some i \<Rightarrow> us_organization_id u = i))
       (id_users s)"

definition get_user :: "uuid \<Rightarrow> identity \<Rightarrow> user option" where
  "get_user i s = first_row (\<lambda>u. us_id u = i) (id_users s)"

definition get_session :: "uuid \<Rightarrow> identity \<Rightarrow> auth_session option" where
  "get_session i s = first_row (\<lambda>v. ss_id v = i) (id_sessions s)"

definition get_refresh_by_hash :: "string \<Rightarrow> identity \<Rightarrow> refresh_token option" where
  "get_refresh_by_hash h s = first_row (\<lambda>t. tk_token_hash t = h) (id_tokens s)"

definition get_user_permissions :: "uuid \<Rightarrow> identity \<Rightarrow> string list" where
  "get_user_permissions user_id s =
     sort (remdups [pe_code p. ur \<leftarrow> id_user_roles s, ur_user_id ur = user_id,
       ro \<leftarrow> id_roles s, ro_id ro = ur_role_id ur,
       rp \<leftarrow> id_role_permissions s, rq_role_id rp = ro_id ro,
       p \<leftarrow> id_permissions s, pe_id p = rq_permission_id rp])"

definition get_user_branch_ids :: "uuid \<Rightarrow> identity \<Rightarrow> uuid list" where
  "get_user_branch_ids user_id s =
     map ub_branch_id (filter (\<lambda>b. ub_user_id b = user_id) (id_user_branches s))"

text \<open>The identity of the new row comes from the supply.\<close>

definition create_session :: "auth_session \<Rightarrow> identity \<Rightarrow> uuid \<times> identity" where
  "create_session v s =
     (id_next s, s\<lparr>id_sessions := id_sessions s @ [v\<lparr>ss_id := id_next s\<rparr>], id_next := Suc (id_next s)\<rparr>)"

text \<open>The \<open>INSERT\<close> fails when the hash is in the table already: the column is unique.\<close>

definition add_refresh_token :: "refresh_token \<Rightarrow> identity \<Rightarrow> (uuid \<times> identity) res" where
  "add_refresh_token t s =
     (if \<exists>r \<in> set (id_tokens s). tk_token_hash r = tk_token_hash t then Inl IntegrityError
      else Inr (id_next s,
        s\<lparr>id_tokens := id_tokens s @ [t\<lparr>tk_id := id_next s\<rparr>], id_next := Suc (id_next s)\<rparr>))"

definition revoke_session_tokens :: "uuid \<Rightarrow> timestamp \<Rightarrow> identity \<Rightarrow> identity" where
  "revoke_session_tokens session_id now s =
     s\<lparr>id_tokens := upd_rows (\<lambda>t. tk_session_id t = session_id \<and> tk_revoked_at t = None)
         (\<lambda>t. t\<lparr>tk_revoked_at := Some now\<rparr>) (id_tokens s)\<rparr>"

definition revoke_session :: "uuid \<Rightarrow> timestamp \<Rightarrow> identity \<Rightarrow> identity" where
  "revoke_session session_id now s =
     s\<lparr>id_sessions := upd_first (\<lambda>v. ss_id v = session_id) (\<lambda>v. v\<lparr>ss_revoked_at := Some now\<rparr>) (id_sessions s)\<rparr>"

definition record_audit :: "audit_log \<Rightarrow> identity \<Rightarrow> identity" where
  "record_audit a s = s\<lparr>id_audit := id_audit s @ [a]\<rparr>"

definition update_user :: "uuid \<Rightarrow> (user \<Rightarrow> user) \<Rightarrow> identity \<Rightarrow> identity" where
  "update_user i f s = s\<lparr>id_users := upd_first (\<lambda>u. us_id u = i) f (id_users s)\<rparr>"

section \<open>Signing in\<close>

definition MAX_FAILED_LOGINS :: int where
  "MAX_FAILED_LOGINS = 5"

definition LOCKOUT_MINUTES :: int where
  "LOCKOUT_MINUTES = 15"

record client_info =
  ci_ip_address :: "string option"
  ci_user_agent :: "string option"
  ci_correlation_id :: "string option"

record issued_tokens =
  it_access_token :: string
  it_refresh_token :: string
  it_access_expires_in :: int
  it_user_id :: uuid
  it_organization_id :: uuid
  it_is_owner :: bool
  it_permissions :: "string list"
  it_branch_ids :: "uuid list"
  it_full_name :: string
  it_email :: string

definition audit_of :: "string \<Rightarrow> uuid option \<Rightarrow> uuid option \<Rightarrow> client_info \<Rightarrow> audit_log" where
  "audit_of action organization_id actor client =
     \<lparr>au_action = action, au_organization_id = organization_id, au_actor_user_id = actor,
      au_ip_address = ci_ip_address client, au_user_agent = None,
      au_correlation_id = ci_correlation_id client\<rparr>"

definition new_token :: "crypto \<Rightarrow> auth_settings \<Rightarrow> timestamp \<Rightarrow> uuid \<Rightarrow> uuid \<Rightarrow> string \<Rightarrow> refresh_token" where
  "new_token c settings now session_id user_id raw =
     \<lparr>tk_id = 0, tk_session_id = session_id, tk_user_id = user_id, tk_token_hash = cy_sha256 c raw,
      tk_created_at = now, tk_expires_at = now + st_refresh_token_ttl_seconds settings, tk_used_at = None,
      tk_revoked_at = None, tk_replaced_by_id = None\<rparr>"

definition tokens_for ::
  "crypto \<Rightarrow> auth_settings \<Rightarrow> timestamp \<Rightarrow> user \<Rightarrow> uuid \<Rightarrow> string \<Rightarrow> identity \<Rightarrow> issued_tokens" where
  "tokens_for c settings now u session_id raw s =
     (let permissions = get_user_permissions (us_id u) s; branch_ids = get_user_branch_ids (us_id u) s
      in \<lparr>it_access_token = create_access_token c settings now (id_next s)
            (access_payload (us_id u) (us_organization_id u) branch_ids permissions session_id (us_is_owner u)),
          it_refresh_token = raw, it_access_expires_in = st_access_token_ttl_seconds settings,
          it_user_id = us_id u, it_organization_id = us_organization_id u, it_is_owner = us_is_owner u,
          it_permissions = permissions, it_branch_ids = branch_ids, it_full_name = us_full_name u,
          it_email = us_email u\<rparr>)"

definition issue_session ::
  "crypto \<Rightarrow> auth_settings \<Rightarrow> timestamp \<Rightarrow> user \<Rightarrow> client_info \<Rightarrow> identity \<Rightarrow> (issued_tokens \<times> identity) res" where
  "issue_session c settings now u client s =
     (let (session_id, s1) = create_session
            \<lparr>ss_id = 0, ss_user_id = us_id u, ss_organization_id = us_organization_id u,
             ss_user_agent = ci_user_agent client, ss_ip_address = ci_ip_address client,
             ss_created_at = now, ss_last_seen_at = now, ss_revoked_at = None\<rparr> s;
          raw = cy_token_urlsafe c (id_next s1)
      in res_bind (add_refresh_token (new_token c settings now session_id (us_id u) raw) s1) (\<lambda>(_, s2).
         Inr (tokens_for c settings now u session_id raw s2, s2)))"

text \<open>
  The service commits the audit record and the counter before it raises, so an outcome has the
  database that stays beside the result.
\<close>

type_synonym 'a outcome = "'a res \<times> identity"

definition outcome_of :: "identity \<Rightarrow> ('a \<times> identity) res \<Rightarrow> 'a outcome" where
  "outcome_of s r = (case r of Inl e \<Rightarrow> (Inl e, s) | Inr (a, t) \<Rightarrow> (Inr a, t))"

definition auth_error :: "string \<Rightarrow> exn" where
  "auth_error code = App AuthenticationError code"

text \<open>One more failed login, with the lockout when the limit is reached.\<close>

definition failed_login :: "timestamp \<Rightarrow> user \<Rightarrow> user" where
  "failed_login now u =
     (let n = us_failed_login_count u + 1
      in if MAX_FAILED_LOGINS \<le> n
         then u\<lparr>us_failed_login_count := 0, us_locked_until := Some (now + 60 * LOCKOUT_MINUTES)\<rparr>
         else u\<lparr>us_failed_login_count := n\<rparr>)"

definition signed_in :: "crypto \<Rightarrow> timestamp \<Rightarrow> nat \<Rightarrow> string \<Rightarrow> user \<Rightarrow> user" where
  "signed_in c now salt password u =
     u\<lparr>us_hashed_password := (if cy_check_needs_rehash c (us_hashed_password u) then cy_argon2_hash c salt password
                             else us_hashed_password u),
       us_failed_login_count := 0, us_locked_until := None, us_last_login_at := Some now\<rparr>"

definition authenticate ::
  "crypto \<Rightarrow> auth_settings \<Rightarrow> timestamp \<Rightarrow> string \<Rightarrow> string \<Rightarrow> client_info \<Rightarrow> identity \<Rightarrow> issued_tokens outcome" where
  "authenticate c settings now email password client s =
     (case get_user_by_email None email s of
        None \<Rightarrow> (Inl (auth_error ''authentication_error''), s)
      | Some u \<Rightarrow>
     if (case us_locked_until u of None \<Rightarrow> False | Some until \<Rightarrow> now < until)
     then (Inl (auth_error ''account_locked''),
           record_audit (audit_of ''login.locked'' (Some (us_organization_id u)) (Some (us_id u)) client) s)
     else case (if us_is_active u then verify_password c password (us_hashed_password u) else Inr False) of
       Inl e \<Rightarrow> (Inl e, s)
     | Inr False \<Rightarrow> (Inl (auth_error ''authentication_error''),
         record_audit (audit_of ''login.failed'' (Some (us_organization_id u)) (Some (us_id u)) client)
           (update_user (us_id u) (failed_login now) s))
     | Inr True \<Rightarrow> outcome_of s
         (let u' = signed_in c now (id_next s) password u;
              s1 = update_user (us_id u) (\<lambda>_. u') (s\<lparr>id_next := Suc (id_next s)\<rparr>)
          in res_bind (issue_session c settings now u' client s1) (\<lambda>(tokens, s2).
             Inr (tokens, record_audit ((audit_of ''login.success'' (Some (us_organization_id u)) (Some (us_id u)) client)
                            \<lparr>au_user_agent := ci_user_agent client\<rparr>) s2))))"

section \<open>Refreshing and signing out\<close>

text \<open>\<open>logout\<close>, and what both it and the detection of a reused token do to the session.\<close>

definition kill_session :: "uuid \<Rightarrow> timestamp \<Rightarrow> identity \<Rightarrow> identity" where
  "kill_session session_id now s = revoke_session session_id now (revoke_session_tokens session_id now s)"

definition update_token :: "uuid \<Rightarrow> (refresh_token \<Rightarrow> refresh_token) \<Rightarrow> identity \<Rightarrow> identity" where
  "update_token i f s = s\<lparr>id_tokens := upd_first (\<lambda>t. tk_id t = i) f (id_tokens s)\<rparr>"

definition rotate ::
  "crypto \<Rightarrow> auth_settings \<Rightarrow> timestamp \<Rightarrow> refresh_token \<Rightarrow> user \<Rightarrow> identity \<Rightarrow> (issued_tokens \<times> identity) res" where
  "rotate c settings now stored u s =
     (let s1 = update_token (tk_id stored) (\<lambda>t. t\<lparr>tk_used_at := Some now\<rparr>) s;
          raw = cy_token_urlsafe c (id_next s1)
      in res_bind (add_refresh_token (new_token c settings now (tk_session_id stored) (us_id u) raw) s1)
           (\<lambda>(token_id, s2).
         let s3 = update_token (tk_id stored) (\<lambda>t. t\<lparr>tk_replaced_by_id := Some token_id\<rparr>) s2;
             s4 = s3\<lparr>id_sessions := upd_first (\<lambda>v. ss_id v = tk_session_id stored)
                      (\<lambda>v. v\<lparr>ss_last_seen_at := now\<rparr>) (id_sessions s3)\<rparr>
         in Inr (tokens_for c settings now u (tk_session_id stored) raw s4, s4)))"

definition refresh ::
  "crypto \<Rightarrow> auth_settings \<Rightarrow> timestamp \<Rightarrow> string \<Rightarrow> client_info \<Rightarrow> identity \<Rightarrow> issued_tokens outcome" where
  "refresh c settings now raw_refresh_token client s =
     (case get_refresh_by_hash (cy_sha256 c raw_refresh_token) s of
        None \<Rightarrow> (Inl (auth_error ''authentication_error''), s)
      | Some stored \<Rightarrow>
     if tk_used_at stored \<noteq> None \<or> tk_revoked_at stored \<noteq> None
     then (Inl (auth_error ''token_reuse''),
           record_audit (audit_of ''token.reuse_detected''
               (map_option ss_organization_id (get_session (tk_session_id stored) s)) (Some (tk_user_id stored)) client)
             (kill_session (tk_session_id stored) now s))
     else if tk_expires_at stored \<le> now then (Inl (auth_error ''token_expired''), s)
     else case get_session (tk_session_id stored) s of
       None \<Rightarrow> (Inl (auth_error ''authentication_error''), s)
     | Some v \<Rightarrow>
     if ss_revoked_at v \<noteq> None then (Inl (auth_error ''authentication_error''), s)
     else case get_user (tk_user_id stored) s of
       None \<Rightarrow> (Inl (auth_error ''authentication_error''), s)
     | Some u \<Rightarrow>
     if \<not> us_is_active u then (Inl (auth_error ''authentication_error''), s)
     else outcome_of s (rotate c settings now stored u s))"

definition logout :: "crypto \<Rightarrow> timestamp \<Rightarrow> string option \<Rightarrow> identity \<Rightarrow> identity" where
  "logout c now raw_refresh_token s =
     (case raw_refresh_token of
        None \<Rightarrow> s
      | Some raw \<Rightarrow>
     if raw = [] then s
     else case get_refresh_by_hash (cy_sha256 c raw) s of
       None \<Rightarrow> s
     | Some stored \<Rightarrow> kill_session (tk_session_id stored) now s)"

section \<open>The endpoints\<close>

record user_profile =
  up_id :: uuid
  up_email :: string
  up_full_name :: string
  up_organization_id :: uuid
  up_is_owner :: bool
  up_permissions :: "string list"
  up_branch_ids :: "uuid list"

definition profile :: "issued_tokens \<Rightarrow> user_profile" where
  "profile t =
     \<lparr>up_id = it_user_id t, up_email = it_email t, up_full_name = it_full_name t,
      up_organization_id = it_organization_id t, up_is_owner = it_is_owner t,
      up_permissions = it_permissions t, up_branch_ids = it_branch_ids t\<rparr>"

text \<open>
  The rate limiter's buckets are memory of the process: they stay as they are when the request fails
  later. A successful reply carries the two cookies beside the profile.
\<close>

definition login ::
  "crypto \<Rightarrow> auth_settings \<Rightarrow> timestamp \<Rightarrow> string \<Rightarrow> string \<Rightarrow> client_info \<Rightarrow> buckets \<times> identity
     \<Rightarrow> (user_profile \<times> issued_tokens) res \<times> buckets \<times> identity" where
  "login c settings now email password client s =
     (let key = ''login:'' @ (case ci_ip_address client of None \<Rightarrow> ''unknown'' | Some ip \<Rightarrow> ip)
      in case rate_check now key (st_login_rate_limit settings) (st_login_rate_window_seconds settings) (fst s) of
           Inl e \<Rightarrow> (Inl e, s)
         | Inr b \<Rightarrow> (let (r, t) = authenticate c settings now email password client (snd s)
                    in (res_bind r (\<lambda>tokens. Inr (profile tokens, tokens)), b, t)))"

definition refresh_endpoint ::
  "crypto \<Rightarrow> auth_settings \<Rightarrow> timestamp \<Rightarrow> string option \<Rightarrow> client_info \<Rightarrow> identity
     \<Rightarrow> (user_profile \<times> issued_tokens) outcome" where
  "refresh_endpoint c settings now cookie client s =
     (case cookie of
        None \<Rightarrow> (Inl (auth_error ''authentication_error''), s)
      | Some raw \<Rightarrow>
     if raw = [] then (Inl (auth_error ''authentication_error''), s)
     else let (r, t) = refresh c settings now raw client s
          in (res_bind r (\<lambda>tokens. Inr (profile tokens, tokens)), t))"

definition me :: "current_user \<Rightarrow> identity \<Rightarrow> user_profile res" where
  "me cu s =
     (case get_user (cu_user_id cu) s of
        None \<Rightarrow> Inl (auth_error ''authentication_error'')
      | Some u \<Rightarrow>
     if \<not> us_is_active u then Inl (auth_error ''authentication_error'')
     else Inr \<lparr>up_id = cu_user_id cu, up_email = us_email u, up_full_name = us_full_name u,
               up_organization_id = cu_organization_id cu, up_is_owner = cu_is_owner cu,
               up_permissions = sort (remdups (cu_permissions cu)), up_branch_ids = cu_branch_ids cu\<rparr>)"

end
