(* ===== verification/Numbering.thy ===== *)
theory Numbering
  imports Exceptions
begin

text \<open>
  Document numbers, \<open>app/modules/numbering\<close>: one sequence per organization, branch and document
  type, and the prefix that is to keep the numbers of an organization apart. The branch table of
  \<open>app/modules/organizations/models.py\<close> is here, because the prefix reads it. The advisory lock
  serialises the calls, so a call is one step.
\<close>

section \<open>The tables\<close>

record branch =
  br_id :: uuid
  br_organization_id :: uuid
  br_name :: string
  br_code :: string
  br_address :: "string option"
  br_is_active :: bool

record number_sequence =
  ns_organization_id :: uuid
  ns_branch_id :: "uuid option"
  ns_document_type :: string
  ns_prefix :: string
  ns_next_value :: nat
  ns_padding :: nat

type_synonym numbering = "number_sequence list"

section \<open>Formatting\<close>

text \<open>\<open>upper\<close> on the characters that document types are made of.\<close>

definition upper_char :: "char \<Rightarrow> char" where
  "upper_char c = (let n = of_char c :: nat in if 97 \<le> n \<and> n \<le> 122 then char_of (n - 32) else c)"

definition DEFAULT_PREFIXES :: "(string \<times> string) list" where
  "DEFAULT_PREFIXES =
     [(''purchase_order'', ''PO''), (''goods_receipt'', ''GRN''), (''purchase_invoice'', ''PINV''),
      (''sales_invoice'', ''INV''), (''sales_order'', ''SO''), (''quotation'', ''QTN''),
      (''payment'', ''PAY''), (''repair_job'', ''JOB'')]"

definition base_prefix :: "string \<Rightarrow> string" where
  "base_prefix document_type =
     (case map_of DEFAULT_PREFIXES document_type of
        Some p \<Rightarrow> p | None \<Rightarrow> take 6 (map upper_char document_type))"

definition prefix_for :: "branch list \<Rightarrow> string \<Rightarrow> uuid option \<Rightarrow> string" where
  "prefix_for branches document_type branch_id =
     (let base = base_prefix document_type
      in case branch_id of
           None \<Rightarrow> base
         | Some i \<Rightarrow> (case first_row (\<lambda>b. br_id b = i) branches of
             None \<Rightarrow> base
           | Some b \<Rightarrow> take 11 (br_code b) @ ''-'' @ base))"

definition digit_char :: "nat \<Rightarrow> char" where
  "digit_char d = char_of (48 + d)"

fun digits :: "nat \<Rightarrow> string" where
  "digits n = (if n < 10 then [digit_char n] else digits (n div 10) @ [digit_char (n mod 10)])"

declare digits.simps [simp del]

text \<open>The format \<open>0{padding}d\<close>.\<close>

definition zero_padded :: "nat \<Rightarrow> nat \<Rightarrow> string" where
  "zero_padded padding n = replicate (padding - length (digits n)) (CHR ''0'') @ digits n"

definition formatted :: "string \<Rightarrow> nat \<Rightarrow> nat \<Rightarrow> string" where
  "formatted prefix padding n = prefix @ ''-'' @ zero_padded padding n"

section \<open>The next number\<close>

definition in_scope :: "uuid \<Rightarrow> uuid option \<Rightarrow> string \<Rightarrow> number_sequence \<Rightarrow> bool" where
  "in_scope organization_id branch_id document_type q \<longleftrightarrow>
     ns_organization_id q = organization_id \<and> ns_document_type q = document_type \<and> ns_branch_id q = branch_id"

definition next_number ::
  "branch list \<Rightarrow> uuid \<Rightarrow> string \<Rightarrow> uuid option \<Rightarrow> numbering \<Rightarrow> string \<times> numbering" where
  "next_number branches organization_id document_type branch_id s =
     (let s1 = (case first_row (in_scope organization_id branch_id document_type) s of
                  Some _ \<Rightarrow> s
                | None \<Rightarrow> s @ [\<lparr>ns_organization_id = organization_id, ns_branch_id = branch_id,
                    ns_document_type = document_type, ns_prefix = prefix_for branches document_type branch_id,
                    ns_next_value = 1, ns_padding = 5\<rparr>])
      in case first_row (in_scope organization_id branch_id document_type) s1 of
           None \<Rightarrow> ('''', s1)
         | Some q \<Rightarrow> (formatted (ns_prefix q) (ns_padding q) (ns_next_value q),
             upd_first (in_scope organization_id branch_id document_type)
               (\<lambda>q. q\<lparr>ns_next_value := ns_next_value q + 1\<rparr>) s1))"

section \<open>The format keeps numbers apart\<close>

lemma digits_ne [simp]: "digits n \<noteq> []"
  by (subst digits.simps) simp

lemma digit_char_value: "d < 10 \<Longrightarrow> of_char (digit_char d) = (48 + d :: nat)"
  by (simp add: digit_char_def)

lemma digit_char_inj: "d < 10 \<Longrightarrow> e < 10 \<Longrightarrow> digit_char d = digit_char e \<Longrightarrow> d = e"
  using digit_char_value by (metis add_left_cancel)

lemma digits_chars: "c \<in> set (digits n) \<Longrightarrow> \<exists>d < 10. c = digit_char d"
proof (induction n rule: digits.induct)
  case (1 n)
  show ?case
  proof (cases "n < 10")
    case True
    then show ?thesis using "1.prems" by (subst (asm) digits.simps) auto
  next
    case False
    have "digits n = digits (n div 10) @ [digit_char (n mod 10)]" using False by (subst digits.simps) simp
    then have "c \<in> set (digits (n div 10)) \<or> c = digit_char (n mod 10)" using "1.prems" by auto
    moreover have "n mod 10 < 10" by simp
    ultimately show ?thesis using "1.IH" [OF False] by blast
  qed
qed

lemma digit_char_not_dash: "d < 10 \<Longrightarrow> digit_char d \<noteq> CHR ''-''"
proof
  assume d: "d < 10" "digit_char d = CHR ''-''"
  then have "48 + d = of_char (CHR ''-'')" using digit_char_value by metis
  then show False by simp
qed

text \<open>The value a digit string stands for: leading zeros do not change it.\<close>

definition value_of :: "string \<Rightarrow> nat" where
  "value_of cs = foldl (\<lambda>v c. 10 * v + (of_char c - 48)) 0 cs"

lemma value_of_snoc: "value_of (cs @ [c]) = 10 * value_of cs + (of_char c - 48)"
  by (simp add: value_of_def)

lemma value_of_digits: "value_of (digits n) = n"
proof (induction n rule: digits.induct)
  case (1 n)
  show ?case
  proof (cases "n < 10")
    case True
    then show ?thesis by (subst digits.simps) (simp add: value_of_def digit_char_value)
  next
    case False
    then show ?thesis using "1.IH" by (subst digits.simps) (simp add: value_of_snoc digit_char_value)
  qed
qed

lemma value_of_zeros: "value_of (replicate k (CHR ''0'') @ cs) = value_of cs"
proof (induction k)
  case (Suc k)
  have "value_of (CHR ''0'' # cs) = value_of cs" for cs by (simp add: value_of_def)
  then show ?case using Suc by simp
qed simp

lemma zero_padded_value: "value_of (zero_padded p n) = n"
  by (simp add: zero_padded_def value_of_zeros value_of_digits)

lemma zero_padded_no_dash: "CHR ''-'' \<notin> set (zero_padded p n)"
  using digits_chars digit_char_not_dash by (force simp: zero_padded_def)

lemma append_sep_inj:
  "c \<notin> set v \<Longrightarrow> c \<notin> set v' \<Longrightarrow> p @ c # v = p' @ c # v' \<Longrightarrow> p = p' \<and> v = v'"
proof (induction p arbitrary: p')
  case Nil
  then show ?case by (cases p') auto
next
  case (Cons x p)
  then show ?case by (cases p') auto
qed

lemma formatted_inj: "formatted p k n = formatted p' k' n' \<Longrightarrow> p = p' \<and> n = n'"
  using append_sep_inj [of "CHR ''-''" "zero_padded k n" "zero_padded k' n'" p p'] zero_padded_no_dash
    zero_padded_value by (metis append_Cons append_Nil formatted_def)

section \<open>The numbers of a history\<close>

record number_call =
  nc_organization_id :: uuid
  nc_document_type :: string
  nc_branch_id :: "uuid option"

fun issue_numbers :: "branch list \<Rightarrow> number_call list \<Rightarrow> numbering \<Rightarrow> string list" where
  "issue_numbers branches [] s = []"
| "issue_numbers branches (c # cs) s =
     (let (number, s') = next_number branches (nc_organization_id c) (nc_document_type c) (nc_branch_id c) s
      in number # issue_numbers branches cs s')"

definition scope_of :: "number_call \<Rightarrow> number_sequence \<Rightarrow> bool" where
  "scope_of c = in_scope (nc_organization_id c) (nc_branch_id c) (nc_document_type c)"

text \<open>The value the next call in a scope gets: the sequence's, or 1 when there is none yet.\<close>

definition upcoming :: "number_call \<Rightarrow> numbering \<Rightarrow> nat" where
  "upcoming c s = (case first_row (scope_of c) s of None \<Rightarrow> 1 | Some q \<Rightarrow> ns_next_value q)"

text \<open>Every sequence has the prefix of its scope and the default padding.\<close>

definition sequences_ok :: "branch list \<Rightarrow> numbering \<Rightarrow> bool" where
  "sequences_ok branches s \<longleftrightarrow>
     (\<forall>q \<in> set s. ns_prefix q = prefix_for branches (ns_document_type q) (ns_branch_id q) \<and> ns_padding q = 5)"

definition call_prefix :: "branch list \<Rightarrow> number_call \<Rightarrow> string" where
  "call_prefix branches c = prefix_for branches (nc_document_type c) (nc_branch_id c)"

lemma scope_unique: "scope_of c q \<Longrightarrow> scope_of d q \<Longrightarrow> c = d"
  by (cases c; cases d) (auto simp: scope_of_def in_scope_def)

lemma next_number_step:
  assumes "sequences_ok branches s"
    and "next_number branches (nc_organization_id c) (nc_document_type c) (nc_branch_id c) s = (number, t)"
  shows "number = formatted (call_prefix branches c) 5 (upcoming c s)" "sequences_ok branches t"
    "upcoming d t = (if d = c then Suc (upcoming c s) else upcoming d s)"
proof -
  let ?p = "scope_of c" and ?f = "\<lambda>q. q\<lparr>ns_next_value := ns_next_value q + 1\<rparr>"
  define new where "new = \<lparr>ns_organization_id = nc_organization_id c, ns_branch_id = nc_branch_id c,
    ns_document_type = nc_document_type c, ns_prefix = call_prefix branches c, ns_next_value = 1, ns_padding = 5\<rparr>"
  define s1 where "s1 = (case first_row ?p s of Some _ \<Rightarrow> s | None \<Rightarrow> s @ [new])"
  have new: "?p new" by (simp add: scope_of_def in_scope_def new_def)
  obtain q where q: "first_row ?p s1 = Some q"
    using new by (cases "first_row ?p s") (auto simp: s1_def first_row_append)
  have ok1: "sequences_ok branches s1"
    using assms(1) by (auto simp: s1_def sequences_ok_def new_def call_prefix_def split: option.split)
  have q_scope: "?p q" "q \<in> set s1" using first_row_Some [OF q] by simp_all
  have qv: "ns_prefix q = call_prefix branches c" "ns_padding q = 5"
    using ok1 q_scope by (auto simp: sequences_ok_def call_prefix_def scope_of_def in_scope_def)
  have up1: "upcoming d s1 = upcoming d s" for d
    using scope_unique [of d new c] new
    by (auto simp: upcoming_def s1_def first_row_append new_def split: option.split)
  have r: "number = formatted (ns_prefix q) (ns_padding q) (ns_next_value q)" "t = upd_first ?p ?f s1"
    using assms(2) q unfolding next_number_def Let_def s1_def new_def call_prefix_def scope_of_def
    by (simp_all add: scope_of_def)
  have "ns_next_value q = upcoming c s" using q up1 [of c] by (simp add: upcoming_def)
  then show "number = formatted (call_prefix branches c) 5 (upcoming c s)" using r qv by simp
  show "sequences_ok branches t"
    using ok1 set_upd_first [of _ ?p ?f s1] unfolding r(2) sequences_ok_def by fastforce
  have upd: "?p (?f x) = ?p x" for x by (simp add: scope_of_def in_scope_def)
  show "upcoming d t = (if d = c then Suc (upcoming c s) else upcoming d s)"
  proof (cases "d = c")
    case True
    then show ?thesis
      using first_row_upd_first_same [OF q, of ?f, OF upd] q up1 [of c] by (simp add: upcoming_def r(2))
  next
    case False
    have "first_row (scope_of d) (upd_first ?p ?f s1) = first_row (scope_of d) s1"
      using False scope_unique [of c _ d] by (intro first_row_upd_first_other) (auto simp: scope_of_def in_scope_def)
    then show ?thesis using False up1 [of d] by (simp add: upcoming_def r(2))
  qed
qed

text \<open>The k-th call of a history gets the number of earlier calls in its scope on top of the start.\<close>

lemma issue_numbers_nth:
  assumes "sequences_ok branches s" "k < length cs"
  shows "issue_numbers branches cs s ! k =
    formatted (call_prefix branches (cs ! k)) 5
      (upcoming (cs ! k) s + length (filter (\<lambda>c. c = cs ! k) (take k cs)))"
  using assms
proof (induction cs arbitrary: s k)
  case (Cons c cs)
  obtain number t where n: "next_number branches (nc_organization_id c) (nc_document_type c) (nc_branch_id c) s = (number, t)"
    by fastforce
  note st = next_number_step [OF Cons.prems(1) n]
  show ?case
  proof (cases k)
    case 0
    then show ?thesis by (simp add: n st(1))
  next
    case (Suc j)
    then have "j < length cs" using Cons.prems(2) by simp
    from Cons.IH [OF st(2) this] show ?thesis by (auto simp: Suc n st(3))
  qed
qed simp

lemma length_issue_numbers [simp]: "length (issue_numbers branches cs s) = length cs"
  by (induction cs arbitrary: s) (simp_all add: Let_def case_prod_beta)

text \<open>
  Consecutive document numbers. In any history of calls from an empty table, the k-th number
  issued for an organization, branch and document type is the scope's prefix with the value k,
  counting from 1.
\<close>

theorem numbers_are_consecutive:
  assumes "k < length calls"
  shows "issue_numbers branches calls [] ! k =
    formatted (prefix_for branches (nc_document_type (calls ! k)) (nc_branch_id (calls ! k))) 5
      (Suc (length (filter (\<lambda>c. c = calls ! k) (take k calls))))"
  using issue_numbers_nth [of branches "[]" k calls] assms
  by (simp add: sequences_ok_def upcoming_def call_prefix_def)

text \<open>
  C30: No two documents share a number. In any history, two different calls return different
  numbers, provided that calls for different branches have different prefixes; the numbers of one
  scope never repeat.
\<close>

theorem numbers_are_unique:
  assumes "i < j" "j < length calls"
    and "calls ! i \<noteq> calls ! j \<longrightarrow>
      prefix_for branches (nc_document_type (calls ! i)) (nc_branch_id (calls ! i))
      \<noteq> prefix_for branches (nc_document_type (calls ! j)) (nc_branch_id (calls ! j))"
  shows "issue_numbers branches calls [] ! i \<noteq> issue_numbers branches calls [] ! j"
proof
  let ?cnt = "\<lambda>k. length (filter (\<lambda>c. c = calls ! k) (take k calls))"
  assume eq: "issue_numbers branches calls [] ! i = issue_numbers branches calls [] ! j"
  have ok: "sequences_ok branches []" by (simp add: sequences_ok_def)
  have "formatted (call_prefix branches (calls ! i)) 5 (upcoming (calls ! i) [] + ?cnt i)
      = formatted (call_prefix branches (calls ! j)) 5 (upcoming (calls ! j) [] + ?cnt j)"
    using eq issue_numbers_nth [OF ok, of _ calls] assms(1,2) by simp
  from formatted_inj [OF this]
  have f: "call_prefix branches (calls ! i) = call_prefix branches (calls ! j)" "?cnt i = ?cnt j"
    by (simp_all add: upcoming_def)
  then have c: "calls ! i = calls ! j" using assms(3) by (auto simp: call_prefix_def)
  have "take j calls = take i calls @ calls ! i # take (j - Suc i) (drop (Suc i) calls)"
    using assms(1,2) id_take_nth_drop [of i "take j calls"] by (simp add: drop_take min_def)
  then have "?cnt i < ?cnt j" by (simp add: c)
  then show False using f(2) by simp
qed

definition sample_branches :: "branch list" where
  "sample_branches =
     [\<lparr>br_id = 1, br_organization_id = 1, br_name = ''Main'', br_code = ''MAIN'', br_address = None, br_is_active = True\<rparr>,
      \<lparr>br_id = 2, br_organization_id = 1, br_name = ''Centre 1'', br_code = ''AGRO-CENTRE-1'', br_address = None, br_is_active = True\<rparr>,
      \<lparr>br_id = 3, br_organization_id = 1, br_name = ''Centre 2'', br_code = ''AGRO-CENTRE-2'', br_address = None, br_is_active = True\<rparr>]"

definition invoice_call :: "uuid \<Rightarrow> number_call" where
  "invoice_call b = \<lparr>nc_organization_id = 1, nc_document_type = ''sales_invoice'', nc_branch_id = Some b\<rparr>"

theorem numbers_are_consecutive_witness:
  "issue_numbers sample_branches [invoice_call 1, invoice_call 2, invoice_call 1] [] ! 2 = ''MAIN-INV-00002''"
  using numbers_are_consecutive [of 2 "[invoice_call 1, invoice_call 2, invoice_call 1]" sample_branches]
  by (simp add: invoice_call_def) code_simp

theorem numbers_are_unique_witness:
  "issue_numbers sample_branches [invoice_call 1, invoice_call 2] [] = [''MAIN-INV-00001'', ''AGRO-CENTRE-INV-00001''] \<and>
   issue_numbers sample_branches [invoice_call 1, invoice_call 2] [] ! 0
   \<noteq> issue_numbers sample_branches [invoice_call 1, invoice_call 2] [] ! 1"
proof -
  have "prefix_for sample_branches ''sales_invoice'' (Some 1) \<noteq> prefix_for sample_branches ''sales_invoice'' (Some 2)"
    by code_simp
  then have "issue_numbers sample_branches [invoice_call 1, invoice_call 2] [] ! 0
      \<noteq> issue_numbers sample_branches [invoice_call 1, invoice_call 2] [] ! 1"
    using numbers_are_unique [of 0 1 "[invoice_call 1, invoice_call 2]" sample_branches]
    by (simp add: invoice_call_def)
  moreover have "issue_numbers sample_branches [invoice_call 1, invoice_call 2] []
      = [''MAIN-INV-00001'', ''AGRO-CENTRE-INV-00001'']" by code_simp
  ultimately show ?thesis by blast
qed

text \<open>
  Two branches can share a number. The prefix keeps eleven characters of the branch code, so
  two branches of one organization whose codes differ only later get the same invoice number.
\<close>

theorem truncated_codes_collide:
  "map br_code (tl sample_branches) = [''AGRO-CENTRE-1'', ''AGRO-CENTRE-2''] \<and>
   issue_numbers sample_branches [invoice_call 2, invoice_call 3] []
   = [''AGRO-CENTRE-INV-00001'', ''AGRO-CENTRE-INV-00001'']"
  by code_simp

end
