(* ===== verification/Idempotency.thy ===== *)
theory Idempotency
  imports Exceptions
begin

text \<open>
  Replay protection, \<open>app/modules/idempotency\<close>: a key names the document that the first request
  with it created. The theory states the contract its clients rely on as a locale and discharges it
  for the table.
\<close>

record idempotency_key =
  ik_organization_id :: uuid
  ik_key :: string
  ik_endpoint :: string
  ik_entity_type :: string
  ik_entity_id :: uuid

type_synonym idempotency = "idempotency_key list"

definition idem_find :: "uuid \<Rightarrow> string \<Rightarrow> idempotency \<Rightarrow> idempotency_key option" where
  "idem_find organization_id key s =
     first_row (\<lambda>r. ik_organization_id r = organization_id \<and> ik_key r = key) s"

text \<open>The \<open>INSERT\<close> fails on \<open>uq_idempotency_key\<close> when the organization has the key already.\<close>

definition idem_record ::
  "uuid \<Rightarrow> string \<Rightarrow> string \<Rightarrow> string \<Rightarrow> uuid \<Rightarrow> idempotency \<Rightarrow> idempotency res" where
  "idem_record organization_id key endpoint entity_type entity_id s =
     (if \<exists>r \<in> set s. ik_organization_id r = organization_id \<and> ik_key r = key then Inl IntegrityError
      else Inr (s @ [\<lparr>ik_organization_id = organization_id, ik_key = key, ik_endpoint = endpoint,
                      ik_entity_type = entity_type, ik_entity_id = entity_id\<rparr>]))"

section \<open>The contract\<close>

locale replay_table =
  fixes find :: "uuid \<Rightarrow> string \<Rightarrow> 's \<Rightarrow> uuid option"
    and store :: "uuid \<Rightarrow> string \<Rightarrow> uuid \<Rightarrow> 's \<Rightarrow> 's res"
  assumes find_store: "store org k e s = Inr t \<Longrightarrow>
      find org' k' t = (if org' = org \<and> k' = k then Some e else find org' k' s)"
    and store_fresh: "is_ok (store org k e s) \<longleftrightarrow> find org k s = None"
begin

text \<open>Once stored, a key answers with its first document for ever.\<close>

lemma find_stable: "store org k e s = Inr t \<Longrightarrow> find org' k' s = Some d \<Longrightarrow> find org' k' t = Some d"
  using find_store store_fresh by (metis is_ok_Inr option.distinct(1))

lemma store_twice: "store org k e s = Inr t \<Longrightarrow> \<not> is_ok (store org k e' t)"
  using find_store store_fresh by simp

end

definition idem_lookup :: "uuid \<Rightarrow> string \<Rightarrow> idempotency \<Rightarrow> uuid option" where
  "idem_lookup organization_id key s = map_option ik_entity_id (idem_find organization_id key s)"

lemma idem_find_record:
  assumes "idem_record org k ep ty e s = Inr t"
  shows "idem_lookup org' k' t = (if org' = org \<and> k' = k then Some e else idem_lookup org' k' s)"
proof -
  have "first_row (\<lambda>r. ik_organization_id r = org \<and> ik_key r = k) s = None"
    using assms by (auto simp: idem_record_def first_row_None split: if_splits)
  then show ?thesis
    using assms by (auto simp: idem_record_def idem_lookup_def idem_find_def first_row_append
        split: if_splits option.splits)
qed

lemma idem_record_fresh: "is_ok (idem_record org k ep ty e s) \<longleftrightarrow> idem_lookup org k s = None"
  by (auto simp: idem_record_def idem_lookup_def idem_find_def first_row_None)

interpretation idem: replay_table idem_lookup "\<lambda>org k e. idem_record org k ep ty e" for ep ty
  by unfold_locales (auto simp: idem_find_record idem_record_fresh)

end
