(* ===== verification/Accounting.thy ===== *)
theory Accounting
  imports Money Access
begin

text \<open>
  Double-entry bookkeeping, \<open>app/modules/accounting/models.py\<close> and \<open>service.py\<close>, and the trial
  balance of \<open>api.py\<close>: the standard chart of accounts, posting a journal entry, and the report that
  adds the lines up. The invariant of the books is at the end: every entry balances, so the trial
  balance of any period does.
\<close>

section \<open>The tables\<close>

datatype account_type = ASSET | LIABILITY | INCOME | EXPENSE | EQUITY

record account =
  ac_id :: uuid
  ac_organization_id :: uuid
  ac_code :: string
  ac_name :: string
  ac_type :: account_type

record journal_entry =
  je_id :: uuid
  je_organization_id :: uuid
  je_branch_id :: "uuid option"
  je_entry_date :: date
  je_source_document_type :: "string option"
  je_source_document_id :: "uuid option"
  je_created_by :: "uuid option"

record journal_entry_line =
  jl_entry_id :: uuid
  jl_account_id :: uuid
  jl_debit :: decimal
  jl_credit :: decimal

record books =
  bk_accounts :: "account list"
  bk_entries :: "journal_entry list"
  bk_lines :: "journal_entry_line list"
  bk_next :: uuid

definition STANDARD_ACCOUNTS :: "(string \<times> string \<times> account_type) list" where
  "STANDARD_ACCOUNTS =
     [(''CASH'', ''Cash'', ASSET), (''BANK'', ''Bank'', ASSET), (''UPI'', ''UPI Clearing'', ASSET),
      (''CARD'', ''Card Clearing'', ASSET), (''AR'', ''Accounts Receivable'', ASSET),
      (''AP'', ''Accounts Payable'', LIABILITY), (''SALES'', ''Sales'', INCOME),
      (''GST_OUTPUT'', ''GST Output (payable)'', LIABILITY),
      (''GST_INPUT'', ''GST Input (credit)'', ASSET), (''PURCHASES'', ''Purchases'', EXPENSE)]"

section \<open>The chart of accounts\<close>

definition find_account :: "uuid \<Rightarrow> string \<Rightarrow> books \<Rightarrow> account option" where
  "find_account organization_id code s =
     first_row (\<lambda>a. ac_organization_id a = organization_id \<and> ac_code a = code) (bk_accounts s)"

definition ensure_account :: "uuid \<Rightarrow> string \<times> string \<times> account_type \<Rightarrow> books \<Rightarrow> books" where
  "ensure_account organization_id std s =
     (case std of (code, name, ty) \<Rightarrow>
       if find_account organization_id code s \<noteq> None then s
       else s\<lparr>bk_accounts := bk_accounts s @ [\<lparr>ac_id = bk_next s, ac_organization_id = organization_id,
                ac_code = code, ac_name = name, ac_type = ty\<rparr>], bk_next := Suc (bk_next s)\<rparr>)"

definition ensure_accounts :: "uuid \<Rightarrow> books \<Rightarrow> books" where
  "ensure_accounts organization_id s = fold (ensure_account organization_id) STANDARD_ACCOUNTS s"

text \<open>An equation for evaluation, which waits for the books to be known.\<close>

lemma ensure_accounts_code [code]:
  "ensure_accounts organization_id \<lparr>bk_accounts = as, bk_entries = es, bk_lines = ls, bk_next = n\<rparr>
   = fold (ensure_account organization_id) STANDARD_ACCOUNTS
       \<lparr>bk_accounts = as, bk_entries = es, bk_lines = ls, bk_next = n\<rparr>"
  by (simp add: ensure_accounts_def)

section \<open>Posting\<close>

record journal_line =
  ln_account_code :: string
  ln_debit :: decimal
  ln_credit :: decimal

text \<open>\<open>JournalLine(account_code, debit=...)\<close> and \<open>JournalLine(account_code, credit=...)\<close>.\<close>

definition debit_line :: "string \<Rightarrow> decimal \<Rightarrow> journal_line" where
  "debit_line code amount = \<lparr>ln_account_code = code, ln_debit = amount, ln_credit = 0\<rparr>"

definition credit_line :: "string \<Rightarrow> decimal \<Rightarrow> journal_line" where
  "credit_line code amount = \<lparr>ln_account_code = code, ln_debit = 0, ln_credit = amount\<rparr>"

record post_args =
  pa_organization_id :: uuid
  pa_entry_date :: date
  pa_lines :: "journal_line list"
  pa_branch_id :: "uuid option"
  pa_source_document_type :: "string option"
  pa_source_document_id :: "uuid option"
  pa_created_by :: "uuid option"

text \<open>The rows for the lines, in order; an unknown account code stops the loop.\<close>

fun entry_lines :: "uuid \<Rightarrow> uuid \<Rightarrow> books \<Rightarrow> journal_line list \<Rightarrow> journal_entry_line list res" where
  "entry_lines organization_id entry_id s [] = Inr []"
| "entry_lines organization_id entry_id s (l # ls) =
     (case find_account organization_id (ln_account_code l) s of
        None \<Rightarrow> Inl business_rule
      | Some a \<Rightarrow> res_bind (entry_lines organization_id entry_id s ls) (\<lambda>rows.
          Inr (\<lparr>jl_entry_id = entry_id, jl_account_id = ac_id a, jl_debit = Money (ln_debit l),
                jl_credit = Money (ln_credit l)\<rparr> # rows)))"

text \<open>\<open>ck_jline_non_negative\<close> and \<open>ck_jline_one_side_only\<close>.\<close>

definition line_row_ok :: "journal_entry_line \<Rightarrow> bool" where
  "line_row_ok r \<longleftrightarrow> 0 \<le> jl_debit r \<and> 0 \<le> jl_credit r \<and> (jl_debit r = 0) \<noteq> (jl_credit r = 0)"

definition entry_row :: "post_args \<Rightarrow> uuid \<Rightarrow> journal_entry" where
  "entry_row a entry_id =
     \<lparr>je_id = entry_id, je_organization_id = pa_organization_id a, je_branch_id = pa_branch_id a,
      je_entry_date = pa_entry_date a, je_source_document_type = pa_source_document_type a,
      je_source_document_id = pa_source_document_id a, je_created_by = pa_created_by a\<rparr>"

definition post_journal :: "post_args \<Rightarrow> books \<Rightarrow> (uuid \<times> books) res" where
  "post_journal a s =
     (if length (pa_lines a) < 2 then Inl business_rule
      else let total_debit = Money (\<Sum>l\<leftarrow>pa_lines a. ln_debit l);
               total_credit = Money (\<Sum>l\<leftarrow>pa_lines a. ln_credit l)
      in if total_debit \<noteq> total_credit then Inl (business ''unbalanced_journal'')
         else if total_debit = 0 then Inl business_rule
         else let s1 = ensure_accounts (pa_organization_id a) s; entry_id = bk_next s1
         in res_bind (entry_lines (pa_organization_id a) entry_id s1 (pa_lines a)) (\<lambda>rows.
            if \<forall>r \<in> set rows. line_row_ok r
            then Inr (entry_id, s1\<lparr>bk_entries := bk_entries s1 @ [entry_row a entry_id],
                                   bk_lines := bk_lines s1 @ rows, bk_next := Suc entry_id\<rparr>)
            else Inl IntegrityError))"

section \<open>The trial balance\<close>

record trial_balance_row =
  tr_account_code :: string
  tr_account_name :: string
  tr_account_type :: account_type
  tr_debit :: decimal
  tr_credit :: decimal
  tr_balance :: decimal

record trial_report =
  tb_rows :: "trial_balance_row list"
  tb_total_debit :: decimal
  tb_total_credit :: decimal
  tb_is_balanced :: bool

definition in_period :: "date option \<Rightarrow> date option \<Rightarrow> date \<Rightarrow> bool" where
  "in_period date_from date_to d \<longleftrightarrow>
     (case date_from of None \<Rightarrow> True | Some f \<Rightarrow> f \<le> d) \<and> (case date_to of None \<Rightarrow> True | Some t \<Rightarrow> d \<le> t)"

text \<open>The lines of an account that join an entry of the period.\<close>

definition account_lines :: "date option \<Rightarrow> date option \<Rightarrow> books \<Rightarrow> account \<Rightarrow> journal_entry_line list" where
  "account_lines date_from date_to s a =
     filter (\<lambda>l. jl_account_id l = ac_id a \<and>
       (\<exists>e \<in> set (bk_entries s). je_id e = jl_entry_id l \<and> in_period date_from date_to (je_entry_date e)))
     (bk_lines s)"

text \<open>
  The grouped query: the accounts of the organization that have such lines, by code. The codes of
  an organization are unique, so a group is one account. The \<open>order_by\<close> does not affect the totals
  and is left out.
\<close>

definition trial_groups ::
  "uuid \<Rightarrow> date option \<Rightarrow> date option \<Rightarrow> books \<Rightarrow> (account \<times> journal_entry_line list) list" where
  "trial_groups organization_id date_from date_to s =
     filter (\<lambda>(a, ls). ls \<noteq> [])
       (map (\<lambda>a. (a, account_lines date_from date_to s a))
         (filter (\<lambda>a. ac_organization_id a = organization_id) (bk_accounts s)))"

definition trial_row :: "account \<times> journal_entry_line list \<Rightarrow> trial_balance_row" where
  "trial_row g =
     (case g of (a, ls) \<Rightarrow>
       let debit_dec = Money (\<Sum>l\<leftarrow>ls. jl_debit l); credit_dec = Money (\<Sum>l\<leftarrow>ls. jl_credit l)
       in \<lparr>tr_account_code = ac_code a, tr_account_name = ac_name a, tr_account_type = ac_type a,
           tr_debit = debit_dec, tr_credit = credit_dec, tr_balance = Money (debit_dec - credit_dec)\<rparr>)"

definition trial_balance ::
  "current_user \<Rightarrow> date option \<Rightarrow> date option \<Rightarrow> books \<Rightarrow> trial_report res" where
  "trial_balance user date_from date_to s =
     res_bind (require_permission ''report.view_profit'' user) (\<lambda>user.
     let rows = map trial_row (trial_groups (cu_organization_id user) date_from date_to s);
         total_debit = foldl (\<lambda>t r. Money (t + tr_debit r)) 0 rows;
         total_credit = foldl (\<lambda>t r. Money (t + tr_credit r)) 0 rows
     in Inr \<lparr>tb_rows = rows, tb_total_debit = total_debit, tb_total_credit = total_credit,
             tb_is_balanced = (total_debit = total_credit)\<rparr>)"

section \<open>The invariant of the books\<close>

text \<open>What the lines of one entry add up to.\<close>

definition entry_sum :: "(journal_entry_line \<Rightarrow> decimal) \<Rightarrow> books \<Rightarrow> uuid \<Rightarrow> decimal" where
  "entry_sum f s i = sum_rows (\<lambda>l. jl_entry_id l = i) f (bk_lines s)"

definition chart_ok :: "books \<Rightarrow> bool" where
  "chart_ok s \<longleftrightarrow>
     distinct (map ac_id (bk_accounts s)) \<and>
     distinct (map (\<lambda>a. (ac_organization_id a, ac_code a)) (bk_accounts s)) \<and>
     (\<forall>a \<in> set (bk_accounts s). ac_id a < bk_next s)"

definition books_ok :: "books \<Rightarrow> bool" where
  "books_ok s \<longleftrightarrow>
     chart_ok s
     \<and> distinct (map je_id (bk_entries s)) \<and> (\<forall>e \<in> set (bk_entries s). je_id e < bk_next s)
     \<and> (\<forall>l \<in> set (bk_lines s). line_row_ok l \<and> paisa_grid (jl_debit l) \<and> paisa_grid (jl_credit l)
          \<and> (\<exists>e \<in> set (bk_entries s). je_id e = jl_entry_id l
              \<and> (\<exists>a \<in> set (bk_accounts s). ac_id a = jl_account_id l \<and> ac_organization_id a = je_organization_id e)))
     \<and> (\<forall>e \<in> set (bk_entries s). entry_sum jl_debit s (je_id e) = entry_sum jl_credit s (je_id e)
          \<and> 0 < entry_sum jl_debit s (je_id e))"

definition empty_books :: books where
  "empty_books = \<lparr>bk_accounts = [], bk_entries = [], bk_lines = [], bk_next = 0\<rparr>"

lemma empty_books_ok: "books_ok empty_books"
  by (simp add: empty_books_def books_ok_def chart_ok_def)

lemma find_account_Some:
  "find_account org code s = Some a \<Longrightarrow> a \<in> set (bk_accounts s) \<and> ac_organization_id a = org \<and> ac_code a = code"
  by (auto simp: find_account_def dest: first_row_Some)

lemma ensure_account_frame:
  "bk_entries (ensure_account org std s) = bk_entries s" "bk_lines (ensure_account org std s) = bk_lines s"
  "set (bk_accounts s) \<subseteq> set (bk_accounts (ensure_account org std s))" "bk_next s \<le> bk_next (ensure_account org std s)"
  by (auto simp: ensure_account_def split: prod.splits)

lemma ensure_account_chart_ok: "chart_ok s \<Longrightarrow> chart_ok (ensure_account org std s)"
  by (fastforce simp: ensure_account_def chart_ok_def find_account_def first_row_None split: prod.splits)

lemma ensure_account_finds: "find_account org code (ensure_account org (code, name, ty) s) \<noteq> None"
  by (auto simp: ensure_account_def find_account_def first_row_append)

lemma ensure_account_keeps: "find_account org' c s \<noteq> None \<Longrightarrow> find_account org' c (ensure_account org std s) \<noteq> None"
  by (auto simp: ensure_account_def find_account_def first_row_append split: prod.splits)

lemma fold_ensure_frame:
  "bk_entries (fold (ensure_account org) xs s) = bk_entries s \<and> bk_lines (fold (ensure_account org) xs s) = bk_lines s
   \<and> set (bk_accounts s) \<subseteq> set (bk_accounts (fold (ensure_account org) xs s))
   \<and> bk_next s \<le> bk_next (fold (ensure_account org) xs s)"
proof (induction xs arbitrary: s)
  case (Cons x xs)
  then show ?case using ensure_account_frame [where org = org and std = x and s = s] by (force intro: order_trans)
qed simp

lemma ensure_accounts_frame:
  "bk_entries (ensure_accounts org s) = bk_entries s" "bk_lines (ensure_accounts org s) = bk_lines s"
  "set (bk_accounts s) \<subseteq> set (bk_accounts (ensure_accounts org s))" "bk_next s \<le> bk_next (ensure_accounts org s)"
  using fold_ensure_frame by (simp_all add: ensure_accounts_def)

lemma ensure_accounts_chart_ok: "chart_ok s \<Longrightarrow> chart_ok (ensure_accounts org s)"
  unfolding ensure_accounts_def
  by (rule fold_invariant [where Q = "\<lambda>_. True"]) (auto intro: ensure_account_chart_ok)

lemma fold_ensure_finds:
  "code \<in> fst ` set xs \<or> find_account org code s \<noteq> None \<Longrightarrow> find_account org code (fold (ensure_account org) xs s) \<noteq> None"
proof (induction xs arbitrary: s)
  case (Cons x xs)
  have "code \<in> fst ` set xs \<or> find_account org code (ensure_account org x s) \<noteq> None"
    using Cons.prems ensure_account_finds [of org "fst x" "fst (snd x)" "snd (snd x)" s]
      ensure_account_keeps [of org code s org x] by auto
  then show ?case using Cons.IH by simp
qed simp

text \<open>After \<open>ensure_accounts\<close>, every standard code has an account.\<close>

lemma ensure_accounts_finds:
  "code \<in> fst ` set STANDARD_ACCOUNTS \<Longrightarrow> find_account org code (ensure_accounts org s) \<noteq> None"
  unfolding ensure_accounts_def by (rule fold_ensure_finds) simp

section \<open>Posting keeps the books\<close>

lemma entry_lines_ok:
  assumes "entry_lines org i s ls = Inr rows"
  shows "map jl_debit rows = map (\<lambda>l. Money (ln_debit l)) ls" "map jl_credit rows = map (\<lambda>l. Money (ln_credit l)) ls"
    "\<forall>r \<in> set rows. jl_entry_id r = i \<and>
      (\<exists>a \<in> set (bk_accounts s). ac_id a = jl_account_id r \<and> ac_organization_id a = org)"
  using assms
proof (induction ls arbitrary: rows)
  case (Cons l ls)
  {
    case 1
    then show ?case using Cons by (auto split: option.splits)
  next
    case 2
    then show ?case using Cons by (auto split: option.splits)
  next
    case 3
    then show ?case using Cons.IH(3) find_account_Some by (fastforce split: option.splits)
  }
qed simp_all

text \<open>The posted amounts are currency amounts, as all callers give them.\<close>

definition lines_on_grid :: "journal_line list \<Rightarrow> bool" where
  "lines_on_grid ls \<longleftrightarrow> (\<forall>l \<in> set ls. paisa_grid (ln_debit l) \<and> paisa_grid (ln_credit l))"

lemma post_journal_cases:
  assumes "post_journal a s = Inr (i, t)"
  obtains rows where "i = bk_next (ensure_accounts (pa_organization_id a) s)"
    "entry_lines (pa_organization_id a) i (ensure_accounts (pa_organization_id a) s) (pa_lines a) = Inr rows"
    "\<forall>r \<in> set rows. line_row_ok r"
    "Money (\<Sum>l\<leftarrow>pa_lines a. ln_debit l) = Money (\<Sum>l\<leftarrow>pa_lines a. ln_credit l)"
    "Money (\<Sum>l\<leftarrow>pa_lines a. ln_debit l) \<noteq> 0"
    "t = (ensure_accounts (pa_organization_id a) s)
       \<lparr>bk_entries := bk_entries s @ [entry_row a i], bk_lines := bk_lines s @ rows, bk_next := Suc i\<rparr>"
  using assms by (auto simp: post_journal_def Let_def ensure_accounts_frame split: if_splits)

lemma entry_sum_append:
  "entry_sum f (s\<lparr>bk_entries := es, bk_lines := bk_lines u @ rows, bk_next := n\<rparr>) j =
   entry_sum f u j + sum_rows (\<lambda>l. jl_entry_id l = j) f rows"
  by (simp add: entry_sum_def sum_rows_append)

lemma sum_rows_all: "\<forall>r \<in> set rs. q r \<Longrightarrow> sum_rows q f rs = (\<Sum>r\<leftarrow>rs. f r)"
  by (simp add: sum_rows_def)

lemma sum_rows_none: "\<forall>r \<in> set rs. \<not> q r \<Longrightarrow> sum_rows q f rs = 0"
  by (simp add: sum_rows_def filter_empty_conv)

lemma books_ok_line_entry: "books_ok s \<Longrightarrow> l \<in> set (bk_lines s) \<Longrightarrow> jl_entry_id l < bk_next s"
  unfolding books_ok_def by metis

lemma post_journal_books_ok:
  assumes "post_journal a s = Inr (i, t)" "books_ok s" "lines_on_grid (pa_lines a)"
  shows "books_ok t"
proof -
  let ?s = "ensure_accounts (pa_organization_id a) s"
  define entry where "entry = entry_row a i"
  have e: "je_id entry = i" "je_organization_id entry = pa_organization_id a"
    by (simp_all add: entry_def entry_row_def)
  obtain rows where i: "i = bk_next ?s"
    and rows: "entry_lines (pa_organization_id a) i ?s (pa_lines a) = Inr rows"
    and ok: "\<forall>r \<in> set rows. line_row_ok r"
    and bal: "Money (\<Sum>l\<leftarrow>pa_lines a. ln_debit l) = Money (\<Sum>l\<leftarrow>pa_lines a. ln_credit l)"
    and nz: "Money (\<Sum>l\<leftarrow>pa_lines a. ln_debit l) \<noteq> 0"
    and t: "t = ?s\<lparr>bk_entries := bk_entries s @ [entry], bk_lines := bk_lines s @ rows, bk_next := Suc i\<rparr>"
    unfolding entry_def by (rule post_journal_cases [OF assms(1)])
  have g: "\<forall>l \<in> set (pa_lines a). paisa_grid (ln_debit l) \<and> paisa_grid (ln_credit l)"
    using assms(3) by (simp add: lines_on_grid_def)
  have d: "map jl_debit rows = map ln_debit (pa_lines a)" "map jl_credit rows = map ln_credit (pa_lines a)"
    using entry_lines_ok(1,2) [OF rows] g by (simp_all add: Money_id)
  have r: "\<forall>r \<in> set rows. jl_entry_id r = i \<and>
      (\<exists>x \<in> set (bk_accounts ?s). ac_id x = jl_account_id r \<and> ac_organization_id x = pa_organization_id a)"
    by (rule entry_lines_ok(3) [OF rows])
  have grid: "\<forall>r \<in> set rows. paisa_grid (jl_debit r) \<and> paisa_grid (jl_credit r)"
  proof -
    have "\<forall>x \<in> set (map jl_debit rows). paisa_grid x" "\<forall>x \<in> set (map jl_credit rows). paisa_grid x"
      unfolding d using g by auto
    then show ?thesis by simp
  qed
  have sums: "(\<Sum>x\<leftarrow>rows. jl_debit x) = (\<Sum>x\<leftarrow>rows. jl_credit x)" "(\<Sum>x\<leftarrow>rows. jl_debit x) \<noteq> 0"
    using bal nz g unfolding d by (simp_all add: Money_id on_grid_sum_list)
  have pos: "0 < (\<Sum>x\<leftarrow>rows. jl_debit x)"
    using sums(2) ok sum_list_nonneg [of "map jl_debit rows"] by (auto simp: line_row_ok_def less_le)
  have s: "chart_ok s" "\<forall>x \<in> set (bk_entries s). je_id x < bk_next s"
      "\<forall>l \<in> set (bk_lines s). line_row_ok l \<and> paisa_grid (jl_debit l) \<and> paisa_grid (jl_credit l)
          \<and> (\<exists>e \<in> set (bk_entries s). je_id e = jl_entry_id l
              \<and> (\<exists>a \<in> set (bk_accounts s). ac_id a = jl_account_id l \<and> ac_organization_id a = je_organization_id e))"
    and bs: "\<forall>x \<in> set (bk_entries s). entry_sum jl_debit s (je_id x) = entry_sum jl_credit s (je_id x)
          \<and> 0 < entry_sum jl_debit s (je_id x)"
    using assms(2) by (auto simp: books_ok_def)
  have n: "bk_next s \<le> i" by (simp add: i ensure_accounts_frame)
  have old: "jl_entry_id l \<noteq> i" if "l \<in> set (bk_lines s)" for l
    using books_ok_line_entry [OF assms(2) that] n by simp
  have chart: "chart_ok t"
    using ensure_accounts_chart_ok [OF s(1), of "pa_organization_id a"]
    by (auto simp: t chart_ok_def i less_SucI)
  have ents: "distinct (map je_id (bk_entries t)) \<and> (\<forall>x \<in> set (bk_entries t). je_id x < bk_next t)"
    using assms(2) n e(1) by (auto simp: t books_ok_def)
  have acc: "set (bk_accounts s) \<subseteq> set (bk_accounts ?s)" by (rule ensure_accounts_frame)
  have lines: "\<forall>l \<in> set (bk_lines t). line_row_ok l \<and> paisa_grid (jl_debit l) \<and> paisa_grid (jl_credit l)
          \<and> (\<exists>e \<in> set (bk_entries t). je_id e = jl_entry_id l
              \<and> (\<exists>a \<in> set (bk_accounts t). ac_id a = jl_account_id l \<and> ac_organization_id a = je_organization_id e))"
  proof
    fix l assume "l \<in> set (bk_lines t)"
    then consider "l \<in> set (bk_lines s)" | "l \<in> set rows" by (auto simp: t)
    then show "line_row_ok l \<and> paisa_grid (jl_debit l) \<and> paisa_grid (jl_credit l)
          \<and> (\<exists>e \<in> set (bk_entries t). je_id e = jl_entry_id l
              \<and> (\<exists>a \<in> set (bk_accounts t). ac_id a = jl_account_id l \<and> ac_organization_id a = je_organization_id e))"
    proof cases
      case 1
      then show ?thesis using s(3) acc by (fastforce simp: t)
    next
      case 2
      then show ?thesis using ok grid r e by (auto simp: t)
    qed
  qed
  have sum: "entry_sum f t j = (if j = i then (\<Sum>y\<leftarrow>rows. f y) else entry_sum f s j)"
    for f :: "journal_entry_line \<Rightarrow> decimal" and j
  proof (cases "j = i")
    case True
    have "sum_rows (\<lambda>l. jl_entry_id l = i) f (bk_lines s) = 0" by (rule sum_rows_none) (use old in auto)
    then show ?thesis using r True by (simp add: t entry_sum_append sum_rows_all) (simp add: entry_sum_def)
  next
    case False
    have "sum_rows (\<lambda>l. jl_entry_id l = j) f rows = 0" by (rule sum_rows_none) (use r False in auto)
    then show ?thesis using False by (simp add: t entry_sum_append)
  qed
  have "bk_entries t = bk_entries s @ [entry]" by (simp add: t)
  then have "\<forall>x \<in> set (bk_entries t). entry_sum jl_debit t (je_id x) = entry_sum jl_credit t (je_id x)
          \<and> 0 < entry_sum jl_debit t (je_id x)"
    using sums(1) pos bs e(1) by (auto simp: sum)
  with chart ents lines show ?thesis unfolding books_ok_def by blast
qed

section \<open>When posting succeeds\<close>

lemma entry_lines_succeeds_iff:
  "is_ok (entry_lines org i s ls) \<longleftrightarrow> (\<forall>l \<in> set ls. find_account org (ln_account_code l) s \<noteq> None)"
  by (induction ls) (auto simp: is_ok_iff split: option.split)

lemma one_side:
  fixes x y :: decimal
  shows "0 \<le> x \<and> 0 \<le> y \<and> (x = 0) \<noteq> (y = 0) \<longleftrightarrow> 0 < x \<and> y = 0 \<or> x = 0 \<and> 0 < y"
  by (cases "x = 0"; cases "y = 0") auto

lemma post_journal_succeeds_iff:
  assumes "lines_on_grid (pa_lines a)" "\<forall>l \<in> set (pa_lines a). ln_account_code l \<in> fst ` set STANDARD_ACCOUNTS"
  shows "is_ok (post_journal a s) \<longleftrightarrow>
      2 \<le> length (pa_lines a)
      \<and> (\<Sum>l\<leftarrow>pa_lines a. ln_debit l) = (\<Sum>l\<leftarrow>pa_lines a. ln_credit l) \<and> (\<Sum>l\<leftarrow>pa_lines a. ln_debit l) \<noteq> 0
      \<and> (\<forall>l \<in> set (pa_lines a). 0 < ln_debit l \<and> ln_credit l = 0 \<or> ln_debit l = 0 \<and> 0 < ln_credit l)"
proof -
  let ?s = "ensure_accounts (pa_organization_id a) s"
  have g: "\<forall>l \<in> set (pa_lines a). paisa_grid (ln_debit l) \<and> paisa_grid (ln_credit l)"
    using assms(1) by (simp add: lines_on_grid_def)
  then have m: "Money (\<Sum>l\<leftarrow>pa_lines a. ln_debit l) = (\<Sum>l\<leftarrow>pa_lines a. ln_debit l)"
      "Money (\<Sum>l\<leftarrow>pa_lines a. ln_credit l) = (\<Sum>l\<leftarrow>pa_lines a. ln_credit l)"
    by (simp_all add: Money_id on_grid_sum_list)
  have "is_ok (entry_lines (pa_organization_id a) (bk_next ?s) ?s (pa_lines a))"
    using assms(2) ensure_accounts_finds by (simp add: entry_lines_succeeds_iff)
  then obtain rows where rows: "entry_lines (pa_organization_id a) (bk_next ?s) ?s (pa_lines a) = Inr rows"
    by (auto simp: is_ok_iff)
  have d: "map jl_debit rows = map ln_debit (pa_lines a)" "map jl_credit rows = map ln_credit (pa_lines a)"
    using entry_lines_ok(1,2) [OF rows] g by (simp_all add: Money_id)
  have "(\<forall>r \<in> set rows. line_row_ok r) \<longleftrightarrow>
      (\<forall>p \<in> set (zip (map jl_debit rows) (map jl_credit rows)). 0 \<le> fst p \<and> 0 \<le> snd p \<and> (fst p = 0) \<noteq> (snd p = 0))"
    by (simp add: zip_map_map zip_same_conv_map line_row_ok_def)
  also have "\<dots> \<longleftrightarrow> (\<forall>l \<in> set (pa_lines a). 0 < ln_debit l \<and> ln_credit l = 0 \<or> ln_debit l = 0 \<and> 0 < ln_credit l)"
    unfolding d one_side by (simp add: zip_map_map zip_same_conv_map)
  finally have one: "(\<forall>r \<in> set rows. line_row_ok r) \<longleftrightarrow>
      (\<forall>l \<in> set (pa_lines a). 0 < ln_debit l \<and> ln_credit l = 0 \<or> ln_debit l = 0 \<and> 0 < ln_credit l)" .
  show ?thesis
    unfolding one [symmetric] by (auto simp: post_journal_def Let_def m rows)
qed

text \<open>
  C24: What the books accept. An entry over currency amounts and standard accounts is posted exactly
  when it has at least two lines, debits equal credits and are not zero, and every line has one
  positive side; then the two sides of the stored entry add up to the same positive amount, that of
  the lines given.
\<close>

theorem post_journal_correct:
  assumes "books_ok s" "lines_on_grid (pa_lines a)"
    and "\<forall>l \<in> set (pa_lines a). ln_account_code l \<in> fst ` set STANDARD_ACCOUNTS"
  shows "(is_ok (post_journal a s) \<longleftrightarrow>
      2 \<le> length (pa_lines a)
      \<and> (\<Sum>l\<leftarrow>pa_lines a. ln_debit l) = (\<Sum>l\<leftarrow>pa_lines a. ln_credit l) \<and> (\<Sum>l\<leftarrow>pa_lines a. ln_debit l) \<noteq> 0
      \<and> (\<forall>l \<in> set (pa_lines a). 0 < ln_debit l \<and> ln_credit l = 0 \<or> ln_debit l = 0 \<and> 0 < ln_credit l))
    \<and> (\<forall>i t. post_journal a s = Inr (i, t) \<longrightarrow> books_ok t
        \<and> entry_sum jl_debit t i = (\<Sum>l\<leftarrow>pa_lines a. ln_debit l) \<and> entry_sum jl_credit t i = entry_sum jl_debit t i
        \<and> 0 < entry_sum jl_debit t i)"
proof (intro conjI allI impI)
  show "is_ok (post_journal a s) \<longleftrightarrow>
      2 \<le> length (pa_lines a)
      \<and> (\<Sum>l\<leftarrow>pa_lines a. ln_debit l) = (\<Sum>l\<leftarrow>pa_lines a. ln_credit l) \<and> (\<Sum>l\<leftarrow>pa_lines a. ln_debit l) \<noteq> 0
      \<and> (\<forall>l \<in> set (pa_lines a). 0 < ln_debit l \<and> ln_credit l = 0 \<or> ln_debit l = 0 \<and> 0 < ln_credit l)"
    by (rule post_journal_succeeds_iff [OF assms(2,3)])
next
  fix i t assume p: "post_journal a s = Inr (i, t)"
  show b: "books_ok t" by (rule post_journal_books_ok [OF p assms(1,2)])
  obtain rows where i: "i = bk_next (ensure_accounts (pa_organization_id a) s)"
    and rows: "entry_lines (pa_organization_id a) i (ensure_accounts (pa_organization_id a) s) (pa_lines a) = Inr rows"
    and t: "t = (ensure_accounts (pa_organization_id a) s)
       \<lparr>bk_entries := bk_entries s @ [entry_row a i], bk_lines := bk_lines s @ rows, bk_next := Suc i\<rparr>"
    by (rule post_journal_cases [OF p])
  have old: "jl_entry_id l \<noteq> i" if "l \<in> set (bk_lines s)" for l
    using books_ok_line_entry [OF assms(1) that] ensure_accounts_frame(4) [of s "pa_organization_id a"] by (simp add: i)
  have g: "\<forall>l \<in> set (pa_lines a). paisa_grid (ln_debit l) \<and> paisa_grid (ln_credit l)"
    using assms(2) by (simp add: lines_on_grid_def)
  have "sum_rows (\<lambda>l. jl_entry_id l = i) jl_debit (bk_lines s) = 0" by (rule sum_rows_none) (use old in auto)
  moreover have "(\<Sum>r\<leftarrow>rows. jl_debit r) = (\<Sum>l\<leftarrow>pa_lines a. ln_debit l)"
    using entry_lines_ok(1) [OF rows] g by (simp add: Money_id cong: map_cong)
  ultimately show "entry_sum jl_debit t i = (\<Sum>l\<leftarrow>pa_lines a. ln_debit l)"
    using entry_lines_ok(3) [OF rows] by (simp add: t entry_sum_append sum_rows_all) (simp add: entry_sum_def)
  have "entry_row a i \<in> set (bk_entries t)" "je_id (entry_row a i) = i" by (simp_all add: t entry_row_def)
  then show "entry_sum jl_credit t i = entry_sum jl_debit t i" "0 < entry_sum jl_debit t i"
    using b by (force simp: books_ok_def)+
qed

interpretation journal: handler_contract books_ok "\<lambda>a. lines_on_grid (pa_lines a)" post_journal
  by unfold_locales (rule post_journal_books_ok)

section \<open>The balance of one account\<close>

definition posted_to :: "uuid \<Rightarrow> string \<Rightarrow> books \<Rightarrow> journal_entry_line \<Rightarrow> bool" where
  "posted_to org code s l \<longleftrightarrow>
     (\<exists>a \<in> set (bk_accounts s). ac_id a = jl_account_id l \<and> ac_organization_id a = org \<and> ac_code a = code)"

definition account_balance :: "uuid \<Rightarrow> string \<Rightarrow> books \<Rightarrow> decimal" where
  "account_balance org code s = sum_rows (posted_to org code s) (\<lambda>l. jl_debit l - jl_credit l) (bk_lines s)"

lemma account_unique:
  "distinct (map ac_id bs) \<Longrightarrow> a \<in> set bs \<Longrightarrow> a' \<in> set bs \<Longrightarrow> ac_id a = ac_id a' \<Longrightarrow> a = a'"
  by (auto simp: distinct_map inj_on_def)

lemma posted_to_ensure:
  assumes "books_ok s" "l \<in> set (bk_lines s)"
  shows "posted_to org code (ensure_accounts o' s) l \<longleftrightarrow> posted_to org code s l"
proof -
  obtain a where a: "a \<in> set (bk_accounts s)" "ac_id a = jl_account_id l"
    using assms unfolding books_ok_def by metis
  have sub: "set (bk_accounts s) \<subseteq> set (bk_accounts (ensure_accounts o' s))" by (rule ensure_accounts_frame)
  have "chart_ok (ensure_accounts o' s)"
    using assms(1) by (intro ensure_accounts_chart_ok) (simp add: books_ok_def)
  then have u: "b = a" if "b \<in> set (bk_accounts (ensure_accounts o' s))" "ac_id b = jl_account_id l" for b
    using account_unique that a sub unfolding chart_ok_def by (metis subsetD)
  have "posted_to org code s l \<longleftrightarrow> ac_organization_id a = org \<and> ac_code a = code"
    unfolding posted_to_def using u a sub by blast
  moreover have "posted_to org code (ensure_accounts o' s) l \<longleftrightarrow> ac_organization_id a = org \<and> ac_code a = code"
    unfolding posted_to_def using u a sub by blast
  ultimately show ?thesis by simp
qed

lemma posted_to_row:
  assumes "chart_ok s" "find_account o' c s = Some a" "jl_account_id r = ac_id a"
  shows "posted_to org code s r \<longleftrightarrow> org = o' \<and> code = c"
proof -
  have a: "a \<in> set (bk_accounts s)" "ac_organization_id a = o'" "ac_code a = c"
    using find_account_Some [OF assms(2)] by auto
  have "b = a" if "b \<in> set (bk_accounts s)" "ac_id b = ac_id a" for b
    using account_unique assms(1) that a(1) unfolding chart_ok_def by metis
  then show ?thesis using a assms(3) unfolding posted_to_def by metis
qed

definition posted_amount :: "string \<Rightarrow> journal_line list \<Rightarrow> decimal" where
  "posted_amount code ls =
     sum_rows (\<lambda>l. ln_account_code l = code) (\<lambda>l. Money (ln_debit l) - Money (ln_credit l)) ls"

lemma entry_lines_balance:
  assumes "chart_ok s" "entry_lines o' i s ls = Inr rows"
  shows "sum_rows (posted_to org code s) (\<lambda>l. jl_debit l - jl_credit l) rows
    = (if org = o' then posted_amount code ls else 0)"
  using assms(2)
proof (induction ls arbitrary: rows)
  case (Cons l ls)
  obtain a rows' where a: "find_account o' (ln_account_code l) s = Some a" "entry_lines o' i s ls = Inr rows'"
    and rows: "rows = \<lparr>jl_entry_id = i, jl_account_id = ac_id a, jl_debit = Money (ln_debit l),
        jl_credit = Money (ln_credit l)\<rparr> # rows'"
    using Cons.prems by (auto split: option.splits)
  show ?case
    using Cons.IH [OF a(2)] posted_to_row [OF assms(1) a(1), of "hd rows"]
    by (auto simp: rows posted_amount_def sum_rows_Cons)
qed (simp add: posted_amount_def)

lemma post_journal_balance:
  assumes "books_ok s" "post_journal a s = Inr (i, t)"
  shows "account_balance org code t = account_balance org code s
    + (if org = pa_organization_id a then posted_amount code (pa_lines a) else 0)"
proof -
  let ?s = "ensure_accounts (pa_organization_id a) s"
  obtain rows where rows: "entry_lines (pa_organization_id a) i ?s (pa_lines a) = Inr rows"
    and t: "t = ?s\<lparr>bk_entries := bk_entries s @ [entry_row a i], bk_lines := bk_lines s @ rows, bk_next := Suc i\<rparr>"
    by (rule post_journal_cases [OF assms(2)])
  have chart: "chart_ok ?s" using assms(1) by (intro ensure_accounts_chart_ok) (simp add: books_ok_def)
  have p: "posted_to org code t = posted_to org code ?s" by (simp add: t posted_to_def fun_eq_iff)
  have "sum_rows (posted_to org code ?s) (\<lambda>l. jl_debit l - jl_credit l) (bk_lines s) = account_balance org code s"
    unfolding account_balance_def sum_rows_def
    by (rule arg_cong [where f = "\<lambda>xs. sum_list (map _ xs)"], rule filter_cong [OF refl])
      (rule posted_to_ensure [OF assms(1)])
  moreover have "account_balance org code t = sum_rows (posted_to org code ?s) (\<lambda>l. jl_debit l - jl_credit l) (bk_lines s)
      + sum_rows (posted_to org code ?s) (\<lambda>l. jl_debit l - jl_credit l) rows"
    unfolding account_balance_def p by (simp add: t sum_rows_append)
  ultimately show ?thesis by (simp only: entry_lines_balance [OF chart rows])
qed

section \<open>The trial balance always balances\<close>

lemma foldl_Money:
  "\<forall>r \<in> set rs. paisa_grid (f r) \<Longrightarrow> paisa_grid t \<Longrightarrow>
   foldl (\<lambda>t r. Money (t + f r)) t rs = t + (\<Sum>r\<leftarrow>rs. f r)"
  by (induction rs arbitrary: t) (simp_all add: Money_add_grid on_grid_add add.assoc)

text \<open>The lines of the organization's entries of the period.\<close>

definition period_line :: "uuid \<Rightarrow> date option \<Rightarrow> date option \<Rightarrow> books \<Rightarrow> journal_entry_line \<Rightarrow> bool" where
  "period_line org f t s l \<longleftrightarrow>
     (\<exists>e \<in> set (bk_entries s). je_id e = jl_entry_id l \<and> je_organization_id e = org \<and> in_period f t (je_entry_date e))"

lemma entry_unique:
  "distinct (map je_id es) \<Longrightarrow> e \<in> set es \<Longrightarrow> e' \<in> set es \<Longrightarrow> je_id e = je_id e' \<Longrightarrow> e = e'"
  by (auto simp: distinct_map inj_on_def)

lemma books_ok_distinct: "books_ok s \<Longrightarrow> distinct (map je_id (bk_entries s))" "books_ok s \<Longrightarrow> distinct (map ac_id (bk_accounts s))"
  by (simp_all add: books_ok_def chart_ok_def)

lemma period_line_iff:
  assumes "books_ok s" "l \<in> set (bk_lines s)"
  shows "(jl_account_id l \<in> ac_id ` set (filter (\<lambda>a. ac_organization_id a = org) (bk_accounts s)) \<and>
      (\<exists>e \<in> set (bk_entries s). je_id e = jl_entry_id l \<and> in_period f t (je_entry_date e)))
    \<longleftrightarrow> period_line org f t s l"
proof -
  obtain e a where e: "e \<in> set (bk_entries s)" "je_id e = jl_entry_id l"
    and a: "a \<in> set (bk_accounts s)" "ac_id a = jl_account_id l" "ac_organization_id a = je_organization_id e"
    using assms unfolding books_ok_def by metis
  have ue: "e' = e" if "e' \<in> set (bk_entries s)" "je_id e' = jl_entry_id l" for e'
    using entry_unique [OF books_ok_distinct(1) [OF assms(1)]] that e by metis
  have ua: "a' = a" if "a' \<in> set (bk_accounts s)" "ac_id a' = jl_account_id l" for a'
    using account_unique [OF books_ok_distinct(2) [OF assms(1)]] that a by metis
  have "jl_account_id l \<in> ac_id ` set (filter (\<lambda>a. ac_organization_id a = org) (bk_accounts s))
      \<longleftrightarrow> je_organization_id e = org"
  proof -
    have "jl_account_id l \<in> ac_id ` set (filter (\<lambda>a. ac_organization_id a = org) (bk_accounts s))
        \<longleftrightarrow> (\<exists>a' \<in> set (bk_accounts s). ac_organization_id a' = org \<and> ac_id a' = jl_account_id l)"
      by (auto simp: image_iff intro!: bexI)
    then show ?thesis using ua a by metis
  qed
  moreover have "(\<exists>e \<in> set (bk_entries s). je_id e = jl_entry_id l \<and> in_period f t (je_entry_date e))
      \<longleftrightarrow> in_period f t (je_entry_date e)"
    using ue e by metis
  moreover have "period_line org f t s l \<longleftrightarrow> je_organization_id e = org \<and> in_period f t (je_entry_date e)"
    unfolding period_line_def using ue e by metis
  ultimately show ?thesis by simp
qed

lemma sum_list_filter_cong:
  "(\<And>x. x \<in> set xs \<Longrightarrow> P x = Q x) \<Longrightarrow> (\<Sum>x\<leftarrow>filter P xs. f x) = (\<Sum>x\<leftarrow>filter Q xs. f x)"
  by (metis filter_cong)

lemma trial_groups_sum:
  fixes h :: "journal_entry_line \<Rightarrow> decimal"
  assumes "books_ok s"
  shows "(\<Sum>g\<leftarrow>trial_groups org f t s. \<Sum>l\<leftarrow>snd g. h l) = (\<Sum>l\<leftarrow>filter (period_line org f t s) (bk_lines s). h l)"
proof -
  let ?as = "filter (\<lambda>a. ac_organization_id a = org) (bk_accounts s)"
  let ?q = "\<lambda>l. \<exists>e \<in> set (bk_entries s). je_id e = jl_entry_id l \<and> in_period f t (je_entry_date e)"
  have "(\<Sum>g\<leftarrow>trial_groups org f t s. \<Sum>l\<leftarrow>snd g. h l) = (\<Sum>a\<leftarrow>as. \<Sum>l\<leftarrow>account_lines f t s a. h l)"
    if "trial_groups org f t s = filter (\<lambda>(a, ls). ls \<noteq> []) (map (\<lambda>a. (a, account_lines f t s a)) as)" for as
    unfolding that by (induction as) auto
  then have "(\<Sum>g\<leftarrow>trial_groups org f t s. \<Sum>l\<leftarrow>snd g. h l) = (\<Sum>a\<leftarrow>?as. \<Sum>l\<leftarrow>account_lines f t s a. h l)"
    by (simp add: trial_groups_def)
  also have "\<dots> = (\<Sum>l\<leftarrow>filter (\<lambda>l. jl_account_id l \<in> ac_id ` set ?as \<and> ?q l) (bk_lines s). h l)"
    unfolding account_lines_def by (rule sum_list_groups [OF distinct_map_filter [OF books_ok_distinct(2) [OF assms]]])
  also have "\<dots> = (\<Sum>l\<leftarrow>filter (period_line org f t s) (bk_lines s). h l)"
    by (intro sum_list_filter_cong) (rule period_line_iff [OF assms])
  finally show ?thesis .
qed

lemma period_lines_balance:
  assumes "books_ok s"
  shows "(\<Sum>l\<leftarrow>filter (period_line org f t s) (bk_lines s). h l)
    = (\<Sum>e\<leftarrow>filter (\<lambda>e. je_organization_id e = org \<and> in_period f t (je_entry_date e)) (bk_entries s). entry_sum h s (je_id e))"
proof -
  let ?es = "filter (\<lambda>e. je_organization_id e = org \<and> in_period f t (je_entry_date e)) (bk_entries s)"
  have "(\<Sum>e\<leftarrow>?es. \<Sum>l\<leftarrow>filter (\<lambda>l. jl_entry_id l = je_id e \<and> True) (bk_lines s). h l)
      = (\<Sum>l\<leftarrow>filter (\<lambda>l. jl_entry_id l \<in> je_id ` set ?es \<and> True) (bk_lines s). h l)"
    by (rule sum_list_groups [OF distinct_map_filter [OF books_ok_distinct(1) [OF assms]]])
  moreover have "(\<Sum>l\<leftarrow>filter (\<lambda>l. jl_entry_id l \<in> je_id ` set ?es \<and> True) (bk_lines s). h l)
      = (\<Sum>l\<leftarrow>filter (period_line org f t s) (bk_lines s). h l)"
    by (intro sum_list_filter_cong) (auto simp: period_line_def image_iff)
  ultimately show ?thesis by (simp add: entry_sum_def sum_rows_def)
qed

lemma trial_row_amounts:
  assumes "books_ok s" "g \<in> set (trial_groups org f t s)"
  shows "tr_debit (trial_row g) = (\<Sum>l\<leftarrow>snd g. jl_debit l)" "tr_credit (trial_row g) = (\<Sum>l\<leftarrow>snd g. jl_credit l)"
proof -
  have "paisa_grid (jl_debit l) \<and> paisa_grid (jl_credit l)" if "l \<in> set (snd g)" for l
    using assms that by (auto simp: trial_groups_def account_lines_def books_ok_def)
  then have "paisa_grid (\<Sum>l\<leftarrow>snd g. jl_debit l)" "paisa_grid (\<Sum>l\<leftarrow>snd g. jl_credit l)"
    by (auto intro: on_grid_sum_list)
  then show "tr_debit (trial_row g) = (\<Sum>l\<leftarrow>snd g. jl_debit l)" "tr_credit (trial_row g) = (\<Sum>l\<leftarrow>snd g. jl_credit l)"
    by (simp_all add: trial_row_def case_prod_beta Let_def Money_id)
qed

lemma trial_totals:
  assumes "books_ok s" "trial_balance user f t s = Inr tb"
  shows "tb_total_debit tb = (\<Sum>l\<leftarrow>filter (period_line (cu_organization_id user) f t s) (bk_lines s). jl_debit l)"
    "tb_total_credit tb = (\<Sum>l\<leftarrow>filter (period_line (cu_organization_id user) f t s) (bk_lines s). jl_credit l)"
    "tb_is_balanced tb = (tb_total_debit tb = tb_total_credit tb)"
proof -
  let ?gs = "trial_groups (cu_organization_id user) f t s"
  have tb: "tb_total_debit tb = foldl (\<lambda>t r. Money (t + tr_debit r)) 0 (map trial_row ?gs)"
    "tb_total_credit tb = foldl (\<lambda>t r. Money (t + tr_credit r)) 0 (map trial_row ?gs)"
    "tb_is_balanced tb = (tb_total_debit tb = tb_total_credit tb)"
    using assms(2) by (auto simp: trial_balance_def Let_def)
  have g: "paisa_grid (tr_debit (trial_row g))" "paisa_grid (tr_credit (trial_row g))" for g
    by (simp_all add: trial_row_def case_prod_beta Let_def)
  have d: "(\<Sum>g\<leftarrow>?gs. tr_debit (trial_row g)) = (\<Sum>g\<leftarrow>?gs. \<Sum>l\<leftarrow>snd g. jl_debit l)"
    by (rule arg_cong [where f = sum_list], rule map_cong [OF refl]) (rule trial_row_amounts(1) [OF assms(1)])
  have c: "(\<Sum>g\<leftarrow>?gs. tr_credit (trial_row g)) = (\<Sum>g\<leftarrow>?gs. \<Sum>l\<leftarrow>snd g. jl_credit l)"
    by (rule arg_cong [where f = sum_list], rule map_cong [OF refl]) (rule trial_row_amounts(2) [OF assms(1)])
  have "tb_total_debit tb = (\<Sum>r\<leftarrow>map trial_row ?gs. tr_debit r)"
    unfolding tb(1) using foldl_Money [of "map trial_row ?gs" tr_debit 0] g(1) by simp
  then show "tb_total_debit tb = (\<Sum>l\<leftarrow>filter (period_line (cu_organization_id user) f t s) (bk_lines s). jl_debit l)"
    using d trial_groups_sum [OF assms(1), where h = jl_debit] by (simp add: comp_def)
  have "tb_total_credit tb = (\<Sum>r\<leftarrow>map trial_row ?gs. tr_credit r)"
    unfolding tb(2) using foldl_Money [of "map trial_row ?gs" tr_credit 0] g(2) by simp
  then show "tb_total_credit tb = (\<Sum>l\<leftarrow>filter (period_line (cu_organization_id user) f t s) (bk_lines s). jl_credit l)"
    using c trial_groups_sum [OF assms(1), where h = jl_credit] by (simp add: comp_def)
  show "tb_is_balanced tb = (tb_total_debit tb = tb_total_credit tb)" by (rule tb(3))
qed

lemma trial_balance_of_books_ok:
  assumes "books_ok s" "has_permission user ''report.view_profit''"
  shows "\<exists>tb. trial_balance user f t s = Inr tb \<and> tb_is_balanced tb \<and>
    tb_total_debit tb = (\<Sum>e\<leftarrow>filter (\<lambda>e. je_organization_id e = cu_organization_id user \<and>
        in_period f t (je_entry_date e)) (bk_entries s). entry_sum jl_debit s (je_id e))"
proof -
  obtain tb where tb: "trial_balance user f t s = Inr tb"
    using assms(2) by (simp add: trial_balance_def Let_def)
  have "entry_sum jl_credit s (je_id e) = entry_sum jl_debit s (je_id e)" if "e \<in> set (bk_entries s)" for e
    using assms(1) that by (simp add: books_ok_def)
  then have "(\<Sum>e\<leftarrow>filter P (bk_entries s). entry_sum jl_credit s (je_id e))
      = (\<Sum>e\<leftarrow>filter P (bk_entries s). entry_sum jl_debit s (je_id e))" for P
    by (auto intro!: arg_cong [where f = sum_list] map_cong)
  then show ?thesis
    using tb trial_totals [OF assms(1) tb] period_lines_balance [OF assms(1)] by simp
qed

text \<open>
  The trial balance balances. Whatever journal entries over currency amounts have been posted
  or refused, in any order, the trial balance of any period balances, and its total is what the
  entries of the organization and period add up to.
\<close>

theorem trial_balance_balances:
  assumes "\<forall>a \<in> set posts. lines_on_grid (pa_lines a)" "has_permission user ''report.view_profit''"
  defines "s \<equiv> serve post_journal posts empty_books"
  shows "\<exists>tb. trial_balance user f t s = Inr tb \<and> tb_is_balanced tb \<and>
    tb_total_debit tb = (\<Sum>e\<leftarrow>filter (\<lambda>e. je_organization_id e = cu_organization_id user \<and>
        in_period f t (je_entry_date e)) (bk_entries s). entry_sum jl_debit s (je_id e))"
proof -
  have "books_ok s" unfolding s_def by (rule journal.serve_keeps [OF assms(1) empty_books_ok])
  then show ?thesis by (rule trial_balance_of_books_ok [OF _ assms(2)])
qed

definition sample_posts :: "post_args list" where
  "sample_posts =
     [\<lparr>pa_organization_id = 1, pa_entry_date = 7, pa_lines = [debit_line ''CASH'' 118, credit_line ''SALES'' 100,
        credit_line ''GST_OUTPUT'' 18], pa_branch_id = None, pa_source_document_type = None,
       pa_source_document_id = None, pa_created_by = None\<rparr>,
      \<lparr>pa_organization_id = 1, pa_entry_date = 8, pa_lines = [debit_line ''AR'' 50, credit_line ''SALES'' 49],
       pa_branch_id = None, pa_source_document_type = None, pa_source_document_id = None, pa_created_by = None\<rparr>]"

definition sample_owner :: current_user where
  "sample_owner = \<lparr>cu_user_id = 1, cu_organization_id = 1, cu_session_id = 1, cu_is_owner = True,
     cu_branch_ids = [], cu_permissions = []\<rparr>"

lemma sample_posts_grid: "\<forall>a \<in> set sample_posts. lines_on_grid (pa_lines a)"
  by (simp add: sample_posts_def lines_on_grid_def debit_line_def credit_line_def on_grid_def)

theorem trial_balance_balances_witness:
  "\<exists>tb. trial_balance sample_owner None (Some 7) (serve post_journal sample_posts empty_books) = Inr tb \<and>
     tb_is_balanced tb \<and> tb_total_debit tb = 118"
proof -
  obtain tb where "trial_balance sample_owner None (Some 7) (serve post_journal sample_posts empty_books) = Inr tb"
      "tb_is_balanced tb"
    using trial_balance_balances [OF sample_posts_grid, of sample_owner None "Some 7"]
    by (auto simp: has_permission_def sample_owner_def)
  moreover have "foldl (\<lambda>t r. Money (t + tr_debit r)) 0
      (map trial_row (trial_groups 1 None (Some 7) (serve post_journal sample_posts empty_books))) = 118" by code_simp
  moreover have "cu_organization_id sample_owner = 1" by (simp add: sample_owner_def)
  ultimately show ?thesis by (auto simp: trial_balance_def Let_def split: if_splits)
qed

theorem post_journal_correct_witness:
  "\<exists>i t. post_journal (hd sample_posts) empty_books = Inr (i, t) \<and> entry_sum jl_debit t i = 118 \<and>
     \<not> is_ok (post_journal (last sample_posts) empty_books)"
proof -
  have std: "\<forall>a \<in> set sample_posts. \<forall>l \<in> set (pa_lines a). ln_account_code l \<in> fst ` set STANDARD_ACCOUNTS"
    by code_simp
  have g: "lines_on_grid (pa_lines (hd sample_posts))" "lines_on_grid (pa_lines (last sample_posts))"
    using sample_posts_grid by (simp_all add: sample_posts_def)
  have in_posts: "hd sample_posts \<in> set sample_posts" "last sample_posts \<in> set sample_posts"
    by (simp_all add: sample_posts_def)
  note p = post_journal_correct [OF empty_books_ok g(1)] and q = post_journal_correct [OF empty_books_ok g(2)]
  have "is_ok (post_journal (hd sample_posts) empty_books)" by code_simp
  then obtain i t where i: "post_journal (hd sample_posts) empty_books = Inr (i, t)" by (auto simp: is_ok_iff)
  then have "entry_sum jl_debit t i = (\<Sum>l\<leftarrow>pa_lines (hd sample_posts). ln_debit l)"
    using p std in_posts by blast
  moreover have "(\<Sum>l\<leftarrow>pa_lines (hd sample_posts). ln_debit l) = 118"
    by (simp add: sample_posts_def debit_line_def credit_line_def)
  moreover have "\<not> is_ok (post_journal (last sample_posts) empty_books)"
    using q std in_posts by (auto simp: sample_posts_def debit_line_def credit_line_def)
  ultimately show ?thesis using i by simp
qed

end
