(* ===== verification/Store.thy ===== *)
theory Store
  imports Tables Identity Stock Numbering Idempotency Accounting Allocation
begin

text \<open>
  The database that the documents share: the tables of the \<open>Tables\<close> theory beside the component
  states of the stock, numbering, idempotency, accounting and identity theories, and the way a
  document service calls those components. The clock is that of the stock tables.
\<close>

section \<open>The database\<close>

record database =
  db_organizations :: "organization list"
  db_branches :: "branch list"
  db_warehouses :: "warehouse list"
  db_identity :: identity
  db_categories :: "category list"
  db_units :: "measure_unit list"
  db_products :: "product list"
  db_customers :: "customer list"
  db_suppliers :: "supplier list"
  db_inventory :: inventory
  db_numbering :: numbering
  db_idempotency :: idempotency
  db_books :: books
  db_invoices :: "sales_invoice list"
  db_invoice_items :: "sales_invoice_item list"
  db_payments :: "payment list"
  db_payment_allocations :: "payment_allocation list"
  db_orders :: "sales_order list"
  db_order_items :: "sales_order_item list"
  db_purchase_orders :: "purchase_order list"
  db_purchase_order_items :: "purchase_order_item list"
  db_goods_receipts :: "goods_receipt list"
  db_goods_receipt_items :: "goods_receipt_item list"
  db_purchase_invoices :: "purchase_invoice list"
  db_warranties :: "warranty list"
  db_repair_jobs :: "repair_job list"
  db_repair_job_parts :: "repair_job_part list"
  db_next :: uuid

section \<open>Calling the components\<close>

text \<open>
  A service method that works on the stock tables, called from a document service; likewise for the
  books, the number sequences and the idempotency keys.
\<close>

definition on_inventory :: "(inventory \<Rightarrow> ('a \<times> inventory) res) \<Rightarrow> database \<Rightarrow> ('a \<times> database) res" where
  "on_inventory f s = res_bind (f (db_inventory s)) (\<lambda>(a, i). Inr (a, s\<lparr>db_inventory := i\<rparr>))"

definition on_books :: "(books \<Rightarrow> ('a \<times> books) res) \<Rightarrow> database \<Rightarrow> ('a \<times> database) res" where
  "on_books f s = res_bind (f (db_books s)) (\<lambda>(a, b). Inr (a, s\<lparr>db_books := b\<rparr>))"

definition issue_number :: "uuid \<Rightarrow> string \<Rightarrow> uuid option \<Rightarrow> database \<Rightarrow> string \<times> database" where
  "issue_number organization_id document_type branch_id s =
     (let (n, q) = next_number (db_branches s) organization_id document_type branch_id (db_numbering s)
      in (n, s\<lparr>db_numbering := q\<rparr>))"

definition today :: "database \<Rightarrow> date" where
  "today s = utc_date (iv_now (db_inventory s))"

section \<open>Rows\<close>

text \<open>\<open>session.get\<close> and the uniqueness constraints of the document numbers.\<close>

definition get_product :: "uuid \<Rightarrow> product list \<Rightarrow> product option" where
  "get_product i ps = first_row (\<lambda>p. pd_id p = i) ps"

definition get_customer :: "uuid \<Rightarrow> database \<Rightarrow> customer option" where
  "get_customer i s = first_row (\<lambda>c. cs_id c = i) (db_customers s)"

definition get_invoice :: "uuid \<Rightarrow> database \<Rightarrow> sales_invoice option" where
  "get_invoice i s = first_row (\<lambda>v. si_id v = i) (db_invoices s)"

definition get_order :: "uuid \<Rightarrow> database \<Rightarrow> sales_order option" where
  "get_order i s = first_row (\<lambda>v. so_id v = i) (db_orders s)"

definition insert_invoice :: "sales_invoice \<Rightarrow> database \<Rightarrow> database res" where
  "insert_invoice v s =
     (if \<exists>w \<in> set (db_invoices s). si_organization_id w = si_organization_id v
           \<and> si_invoice_number w = si_invoice_number v
      then Inl IntegrityError
      else Inr (s\<lparr>db_invoices := db_invoices s @ [v], db_next := Suc (db_next s)\<rparr>))"

definition insert_order :: "sales_order \<Rightarrow> database \<Rightarrow> database res" where
  "insert_order v s =
     (if \<exists>w \<in> set (db_orders s). so_organization_id w = so_organization_id v
           \<and> so_order_number w = so_order_number v
      then Inl IntegrityError
      else Inr (s\<lparr>db_orders := db_orders s @ [v], db_next := Suc (db_next s)\<rparr>))"

definition update_invoice :: "uuid \<Rightarrow> (sales_invoice \<Rightarrow> sales_invoice) \<Rightarrow> database \<Rightarrow> database" where
  "update_invoice i f s = s\<lparr>db_invoices := upd_first (\<lambda>v. si_id v = i) f (db_invoices s)\<rparr>"

definition update_order :: "uuid \<Rightarrow> (sales_order \<Rightarrow> sales_order) \<Rightarrow> database \<Rightarrow> database" where
  "update_order i f s = s\<lparr>db_orders := upd_first (\<lambda>v. so_id v = i) f (db_orders s)\<rparr>"

text \<open>
  \<open>_load_products\<close>, the same in both sales services: the organization's rows among the ids asked
  for, or \<open>NotFoundError\<close> when one is missing.
\<close>

definition load_products :: "uuid \<Rightarrow> uuid list \<Rightarrow> database \<Rightarrow> product list res" where
  "load_products organization_id product_ids s =
     (let products = filter (\<lambda>p. pd_organization_id p = organization_id \<and> pd_id p \<in> set product_ids) (db_products s)
      in if set product_ids - pd_id ` set products \<noteq> {} then Inl not_found else Inr products)"

text \<open>\<open>WholesaleService.customer_outstanding\<close>, and the query of the retail credit check.\<close>

definition customer_outstanding :: "uuid \<Rightarrow> database \<Rightarrow> decimal" where
  "customer_outstanding customer_id s =
     (\<Sum>v\<leftarrow>filter (\<lambda>v. si_customer_id v = Some customer_id \<and> si_payment_status v \<noteq> PAID) (db_invoices s).
        si_grand_total v - si_paid_amount v)"

definition PAYMENT_METHOD_ACCOUNT :: "(payment_method \<times> string) list" where
  "PAYMENT_METHOD_ACCOUNT =
     [(CASH, ''CASH''), (UPI, ''UPI''), (CARD, ''CARD''), (BANK_TRANSFER, ''BANK''), (CHEQUE, ''BANK'')]"

text \<open>\<open>PAYMENT_METHOD_ACCOUNT.get(method.value, "CASH")\<close>.\<close>

definition method_account :: "payment_method \<Rightarrow> string" where
  "method_account m = (case map_of PAYMENT_METHOD_ACCOUNT m of None \<Rightarrow> ''CASH'' | Some c \<Rightarrow> c)"

section \<open>Frames and lookups\<close>

lemma on_inventory_ok:
  "on_inventory f s = Inr (a, t) \<longleftrightarrow> (\<exists>i. f (db_inventory s) = Inr (a, i) \<and> t = s\<lparr>db_inventory := i\<rparr>)"
  by (auto simp: on_inventory_def)

lemma on_books_ok:
  "on_books f s = Inr (a, t) \<longleftrightarrow> (\<exists>b. f (db_books s) = Inr (a, b) \<and> t = s\<lparr>db_books := b\<rparr>)"
  by (auto simp: on_books_def)

lemma issue_number_ok: "issue_number org ty br s = (n, t) \<Longrightarrow> \<exists>q. t = s\<lparr>db_numbering := q\<rparr>"
  by (auto simp: issue_number_def case_prod_beta Let_def)

lemma insert_invoice_ok:
  "insert_invoice v s = Inr t \<Longrightarrow> t = s\<lparr>db_invoices := db_invoices s @ [v], db_next := Suc (db_next s)\<rparr>"
  by (auto simp: insert_invoice_def split: if_splits)

lemma insert_order_ok:
  "insert_order v s = Inr t \<Longrightarrow> t = s\<lparr>db_orders := db_orders s @ [v], db_next := Suc (db_next s)\<rparr>"
  by (auto simp: insert_order_def split: if_splits)

lemma load_products_ok:
  assumes "load_products org ids s = Inr ps"
  shows "ps = filter (\<lambda>p. pd_organization_id p = org \<and> pd_id p \<in> set ids) (db_products s)"
    "i \<in> set ids \<Longrightarrow> get_product i ps \<noteq> None"
proof -
  show ps: "ps = filter (\<lambda>p. pd_organization_id p = org \<and> pd_id p \<in> set ids) (db_products s)"
    using assms by (auto simp: load_products_def Let_def split: if_splits)
  have "set ids \<subseteq> pd_id ` set ps" unfolding ps using assms by (auto simp: load_products_def Let_def split: if_splits)
  then show "get_product i ps \<noteq> None" if "i \<in> set ids"
    using that by (auto simp: get_product_def first_row_None)
qed

lemma get_product_in: "get_product i ps = Some p \<Longrightarrow> p \<in> set ps \<and> pd_id p = i"
  by (auto simp: get_product_def dest: first_row_Some)

lemma upd_first_append_new:
  "(\<And>r. r \<in> set rs \<Longrightarrow> \<not> p r) \<Longrightarrow> p x \<Longrightarrow> upd_first p f (rs @ [x]) = rs @ [f x]"
  by (induction rs) auto

lemma list_all2_right: "list_all2 R xs ys \<Longrightarrow> (\<And>x y. R x y \<Longrightarrow> Q y) \<Longrightarrow> \<forall>y \<in> set ys. Q y"
  by (induction rule: list_all2_induct) auto

text \<open>The prices of the catalogue are not negative, as its endpoints require.\<close>

definition catalogue_ok :: "product list \<Rightarrow> bool" where
  "catalogue_ok ps \<longleftrightarrow>
     (\<forall>p \<in> set ps. 0 \<le> pd_retail_price p \<and> 0 \<le> pd_mrp p \<and> 0 \<le> pd_wholesale_price p)"

text \<open>The rows of each document table have distinct identities below the supply.\<close>

definition ids_ok :: "database \<Rightarrow> bool" where
  "ids_ok s \<longleftrightarrow>
     (\<forall>v \<in> set (db_invoices s). si_id v < db_next s) \<and> distinct (map si_id (db_invoices s))
     \<and> (\<forall>v \<in> set (db_orders s). so_id v < db_next s) \<and> distinct (map so_id (db_orders s))
     \<and> (\<forall>v \<in> set (db_payments s). py_id v < db_next s) \<and> distinct (map py_id (db_payments s))
     \<and> (\<forall>l \<in> set (db_payment_allocations s). pl_payment_id l < db_next s)
     \<and> (\<forall>i \<in> set (db_order_items s). ot_sales_order_id i < db_next s)"

section \<open>A shop for the examples\<close>

definition empty_identity :: identity where
  "empty_identity =
     \<lparr>id_users = [], id_roles = [], id_permissions = [], id_user_roles = [], id_role_permissions = [],
      id_user_branches = [], id_sessions = [], id_tokens = [], id_audit = [], id_next = 0\<rparr>"

definition empty_database :: "timestamp \<Rightarrow> database" where
  "empty_database now =
     \<lparr>db_organizations = [], db_branches = [], db_warehouses = [], db_identity = empty_identity,
      db_categories = [], db_units = [], db_products = [], db_customers = [], db_suppliers = [],
      db_inventory = empty_inventory now, db_numbering = [], db_idempotency = [], db_books = empty_books,
      db_invoices = [], db_invoice_items = [], db_payments = [], db_payment_allocations = [],
      db_orders = [], db_order_items = [], db_purchase_orders = [], db_purchase_order_items = [],
      db_goods_receipts = [], db_goods_receipt_items = [], db_purchase_invoices = [], db_warranties = [],
      db_repair_jobs = [], db_repair_job_parts = [], db_next = 0\<rparr>"

definition sample_product :: product where
  "sample_product =
     \<lparr>pd_id = 7, pd_organization_id = 1, pd_category_id = 2, pd_brand_id = None, pd_base_unit_id = 3,
      pd_name = ''Urea 45 kg'', pd_sku = ''UREA-45'', pd_barcode = None, pd_hsn_code = None, pd_gst_rate = 5,
      pd_mrp = 110, pd_retail_price = 100, pd_wholesale_price = 80, pd_tracks_batches = True,
      pd_tracks_serials = False, pd_tracks_expiry = True, pd_min_stock = 5, pd_is_active = True\<rparr>"

definition sample_dealer :: customer where
  "sample_dealer =
     \<lparr>cs_id = 5, cs_organization_id = 1, cs_code = ''D-1'', cs_name = ''Kisan Agro'', cs_customer_type = DEALER,
      cs_phone = None, cs_gstin = None, cs_address = None, cs_village = None, cs_credit_limit = 500,
      cs_credit_period_days = 30, cs_opening_balance = 0, cs_is_active = True\<rparr>"

definition sample_supplier :: supplier where
  "sample_supplier =
     \<lparr>su_id = 9, su_organization_id = 1, su_code = ''S-1'', su_name = ''Fertiliser Co'', su_business_name = None,
      su_gstin = None, su_phone = None, su_email = None, su_address = None, su_credit_period_days = 30,
      su_opening_balance = 0, su_is_active = True\<rparr>"

definition sample_warehouse :: warehouse where
  "sample_warehouse =
     \<lparr>wh_id = 4, wh_organization_id = 1, wh_branch_id = Some 1, wh_name = ''Godown'', wh_code = ''G-1'',
      wh_type = GODOWN, wh_is_active = True\<rparr>"

text \<open>The shop on day 600, with nothing in stock.\<close>

definition sample_database :: database where
  "sample_database =
     (empty_database (600 * 86400))\<lparr>db_branches := sample_branches, db_warehouses := [sample_warehouse],
       db_products := [sample_product], db_customers := [sample_dealer], db_suppliers := [sample_supplier]\<rparr>"

definition sample_clerk :: current_user where
  "sample_clerk = \<lparr>cu_user_id = 3, cu_organization_id = 1, cu_session_id = 0, cu_is_owner = True,
     cu_branch_ids = [1], cu_permissions = []\<rparr>"

end
