(* ===== verification/Sales.thy ===== *)
theory Sales
  imports Store
begin

text \<open>
  Counter sales, \<open>app/modules/sales/service.py\<close> and the endpoints of \<open>app/modules/sales/api.py\<close> that
  price a cart and finalize an invoice: replay of a repeated request, pricing, stock, payments,
  credit limit, journal and idempotency record, in the order of the code. The narration text and the
  warnings' wording are left out.
\<close>

section \<open>Inputs and results\<close>

record sale_line_input =
  sl_product_id :: uuid
  sl_base_quantity :: decimal
  sl_discount_percent :: decimal

record payment_input =
  pn_method :: payment_method
  pn_amount :: decimal
  pn_reference :: "string option"

record sale_result =
  sr_invoice_id :: uuid
  sr_invoice_number :: string
  sr_grand_total :: decimal
  sr_paid_amount :: decimal
  sr_payment_status :: payment_status
  sr_replayed :: bool
  sr_warnings :: "price_warning list"

record quote_line =
  ql_product_id :: uuid
  ql_name :: string
  ql_quantity :: decimal
  ql_unit_price :: decimal
  ql_price_source :: price_source
  ql_net_amount :: decimal
  ql_tax_amount :: decimal
  ql_line_total :: decimal
  ql_available_stock :: decimal

record quote_result =
  qr_lines :: "quote_line list"
  qr_subtotal :: decimal
  qr_tax_total :: decimal
  qr_grand_total :: decimal
  qr_warnings :: "price_warning list"

record retail_sale =
  rs_organization_id :: uuid
  rs_warehouse_id :: uuid
  rs_invoice_date :: date
  rs_lines :: "sale_line_input list"
  rs_payments :: "payment_input list"
  rs_customer_id :: "uuid option"
  rs_branch_id :: "uuid option"
  rs_created_by :: "uuid option"
  rs_idempotency_key :: "string option"
  rs_as_of :: "date option"

section \<open>Pricing the lines\<close>

definition retail_price_input :: "product \<Rightarrow> sale_line_input \<Rightarrow> price_input" where
  "retail_price_input product line =
     (PriceInput (sl_base_quantity line) (pd_retail_price product) (pd_mrp product))
     \<lparr>pi_wholesale_price := Some (pd_wholesale_price product), pi_gst_percent := pd_gst_rate product,
      pi_discount_percent := sl_discount_percent line\<rparr>"

text \<open>The body of the loop of \<open>quote\<close>; \<open>products[line.product_id]\<close> raises \<open>KeyError\<close>.\<close>

definition quote_line_of ::
  "uuid \<Rightarrow> date option \<Rightarrow> product list \<Rightarrow> database \<Rightarrow> sale_line_input \<Rightarrow> (price_result \<times> quote_line) res" where
  "quote_line_of warehouse_id as_of products s line =
     (case get_product (sl_product_id line) products of
        None \<Rightarrow> Inl KeyError
      | Some product \<Rightarrow> res_bind (price_line (retail_price_input product line)) (\<lambda>priced.
          Inr (priced,
            \<lparr>ql_product_id = sl_product_id line, ql_name = pd_name product, ql_quantity = sl_base_quantity line,
             ql_unit_price = pr_unit_price priced, ql_price_source = pr_source priced,
             ql_net_amount = pr_net_amount priced, ql_tax_amount = pr_tax_amount priced,
             ql_line_total = pr_total_amount priced,
             ql_available_stock = available warehouse_id (sl_product_id line) as_of (db_inventory s)\<rparr>)))"

definition quote :: "uuid \<Rightarrow> uuid \<Rightarrow> sale_line_input list \<Rightarrow> date option \<Rightarrow> database \<Rightarrow> quote_result res" where
  "quote organization_id warehouse_id lines as_of s =
     res_bind (load_products organization_id (map sl_product_id lines) s) (\<lambda>products.
     res_bind (map_state (\<lambda>line u. res_bind (quote_line_of warehouse_id as_of products s line) (\<lambda>q. Inr (q, u))) lines ())
       (\<lambda>(qs, _). Inr
         \<lparr>qr_lines = map snd qs, qr_subtotal = Money (\<Sum>q\<leftarrow>qs. pr_net_amount (fst q)),
          qr_tax_total = Money (\<Sum>q\<leftarrow>qs. pr_tax_amount (fst q)),
          qr_grand_total = Money (\<Sum>q\<leftarrow>qs. pr_total_amount (fst q)),
          qr_warnings = concat (map (\<lambda>q. pr_warnings (fst q)) qs)\<rparr>))"

section \<open>Finalizing an invoice\<close>

text \<open>Step 1: the result of the invoice that the key created, if it still exists.\<close>

definition replayed_sale :: "retail_sale \<Rightarrow> database \<Rightarrow> sale_result option" where
  "replayed_sale a s =
     (case rs_idempotency_key a of None \<Rightarrow> None | Some key \<Rightarrow>
     (case idem_find (rs_organization_id a) key (db_idempotency s) of None \<Rightarrow> None | Some existing \<Rightarrow>
     (case get_invoice (ik_entity_id existing) s of None \<Rightarrow> None | Some invoice \<Rightarrow>
        Some \<lparr>sr_invoice_id = si_id invoice, sr_invoice_number = si_invoice_number invoice,
              sr_grand_total = si_grand_total invoice, sr_paid_amount = si_paid_amount invoice,
              sr_payment_status = si_payment_status invoice, sr_replayed = True, sr_warnings = []\<rparr>)))"

text \<open>The row that the first flush inserts, with the columns' defaults.\<close>

definition draft_invoice :: "retail_sale \<Rightarrow> string \<Rightarrow> database \<Rightarrow> sales_invoice" where
  "draft_invoice a invoice_number s =
     \<lparr>si_id = db_next s, si_organization_id = rs_organization_id a, si_branch_id = rs_branch_id a,
      si_warehouse_id = rs_warehouse_id a, si_customer_id = rs_customer_id a,
      si_invoice_number = invoice_number, si_invoice_date = rs_invoice_date a, si_channel = RETAIL_CHANNEL,
      si_subtotal = 0, si_discount_total = 0, si_tax_total = 0, si_grand_total = 0, si_paid_amount = 0,
      si_payment_status = CREDIT, si_created_by = rs_created_by a,
      si_created_at = iv_now (db_inventory s)\<rparr>"

definition sale_issue :: "retail_sale \<Rightarrow> uuid \<Rightarrow> sale_line_input \<Rightarrow> issue_args" where
  "sale_issue a invoice_id line =
     \<lparr>is_organization_id = rs_organization_id a, is_warehouse_id = rs_warehouse_id a,
      is_product_id = sl_product_id line, is_base_quantity = sl_base_quantity line,
      is_movement_type = RETAIL_SALE, is_branch_id = rs_branch_id a,
      is_source_document_type = Some ''sales_invoice'', is_source_document_id = Some invoice_id,
      is_created_by = rs_created_by a, is_as_of = rs_as_of a\<rparr>"

definition sale_item :: "uuid \<Rightarrow> product \<Rightarrow> sale_line_input \<Rightarrow> price_result \<Rightarrow> sales_invoice_item" where
  "sale_item invoice_id product line priced =
     \<lparr>ii_sales_invoice_id = invoice_id, ii_product_id = sl_product_id line,
      ii_base_quantity = sl_base_quantity line, ii_unit_price = pr_unit_price priced,
      ii_price_source = pr_source priced, ii_discount_percent = sl_discount_percent line,
      ii_discount_amount = pr_discount_amount priced, ii_taxable_value = pr_net_amount priced,
      ii_gst_rate = pd_gst_rate product, ii_tax_amount = pr_tax_amount priced,
      ii_line_total = pr_total_amount priced\<rparr>"

text \<open>Steps 2 and 3, for one line.\<close>

definition sell_line ::
  "retail_sale \<Rightarrow> uuid \<Rightarrow> product list \<Rightarrow> sale_line_input \<Rightarrow> database \<Rightarrow> (price_result \<times> database) res" where
  "sell_line a invoice_id products line s =
     (if sl_base_quantity line \<le> 0 then Inl business_rule
      else case get_product (sl_product_id line) products of
        None \<Rightarrow> Inl KeyError
      | Some product \<Rightarrow> res_bind (price_line (retail_price_input product line)) (\<lambda>priced.
          res_bind (on_inventory (issue_fefo (sale_issue a invoice_id line)) s) (\<lambda>(_, s1).
          Inr (priced, s1\<lparr>db_invoice_items := db_invoice_items s1 @ [sale_item invoice_id product line priced]\<rparr>))))"

text \<open>\<open>_enforce_credit_limit\<close> of the counter.\<close>

definition enforce_credit_limit :: "uuid \<Rightarrow> decimal \<Rightarrow> database \<Rightarrow> unit res" where
  "enforce_credit_limit customer_id unpaid s =
     (case get_customer customer_id s of
        None \<Rightarrow> Inl not_found
      | Some customer \<Rightarrow>
          if cs_credit_limit customer \<le> 0 then Inr ()
          else if cs_credit_limit customer < customer_outstanding customer_id s + unpaid
          then Inl (business ''credit_limit_exceeded'') else Inr ())"

text \<open>The three guards of step 5.\<close>

definition check_payment :: "uuid option \<Rightarrow> decimal \<Rightarrow> decimal \<Rightarrow> database \<Rightarrow> unit res" where
  "check_payment customer_id paid_amount grand_total s =
     (if grand_total < paid_amount then Inl business_rule
      else case customer_id of
        None \<Rightarrow> if paid_amount < grand_total then Inl (business ''walk_in_credit_not_allowed'') else Inr ()
      | Some c \<Rightarrow> if paid_amount < grand_total then enforce_credit_limit c (grand_total - paid_amount) s else Inr ())"

text \<open>One round of the payment loop: the payment and its allocation to the invoice.\<close>

definition record_payment :: "retail_sale \<Rightarrow> uuid \<Rightarrow> payment_input \<Rightarrow> database \<Rightarrow> database" where
  "record_payment a invoice_id p s =
     s\<lparr>db_payments := db_payments s @ [\<lparr>py_id = db_next s, py_organization_id = rs_organization_id a,
          py_branch_id = rs_branch_id a, py_customer_id = rs_customer_id a, py_direction = INBOUND,
          py_method = pn_method p, py_amount = Money (pn_amount p), py_reference = pn_reference p,
          py_received_at = iv_now (db_inventory s), py_created_by = rs_created_by a\<rparr>],
       db_payment_allocations := db_payment_allocations s @
         [\<lparr>pl_payment_id = db_next s, pl_sales_invoice_id = Some invoice_id, pl_amount = Money (pn_amount p)\<rparr>],
       db_next := Suc (db_next s)\<rparr>"

definition derive_status :: "decimal \<Rightarrow> decimal \<Rightarrow> payment_status" where
  "derive_status paid grand_total =
     (if grand_total \<le> paid \<and> 0 < grand_total then PAID else if 0 < paid then PARTIAL else CREDIT)"

text \<open>The attributes that steps 4 and 5 assign.\<close>

definition finalized :: "price_result list \<Rightarrow> decimal \<Rightarrow> sales_invoice \<Rightarrow> sales_invoice" where
  "finalized priced paid_amount v =
     (let grand_total = Money (\<Sum>r\<leftarrow>priced. pr_total_amount r)
      in v\<lparr>si_subtotal := Money (\<Sum>r\<leftarrow>priced. pr_net_amount r),
           si_discount_total := Money (\<Sum>r\<leftarrow>priced. pr_discount_amount r),
           si_tax_total := Money (\<Sum>r\<leftarrow>priced. pr_tax_amount r),
           si_grand_total := grand_total, si_paid_amount := paid_amount,
           si_payment_status := derive_status paid_amount grand_total\<rparr>)"

text \<open>Step 6: \<open>_post_sale_journal\<close>.\<close>

definition sale_journal_lines :: "sales_invoice \<Rightarrow> payment_input list \<Rightarrow> journal_line list" where
  "sale_journal_lines invoice payments =
     (let on_credit = Money (si_grand_total invoice - si_paid_amount invoice)
      in [credit_line ''SALES'' (Money (si_subtotal invoice))]
         @ (if 0 < si_tax_total invoice then [credit_line ''GST_OUTPUT'' (Money (si_tax_total invoice))] else [])
         @ map (\<lambda>p. debit_line (method_account (pn_method p)) (Money (pn_amount p))) payments
         @ (if 0 < on_credit then [debit_line ''AR'' on_credit] else []))"

definition sale_journal :: "retail_sale \<Rightarrow> sales_invoice \<Rightarrow> post_args" where
  "sale_journal a invoice =
     \<lparr>pa_organization_id = rs_organization_id a, pa_entry_date = si_invoice_date invoice,
      pa_lines = sale_journal_lines invoice (rs_payments a), pa_branch_id = rs_branch_id a,
      pa_source_document_type = Some ''sales_invoice'', pa_source_document_id = Some (si_id invoice),
      pa_created_by = rs_created_by a\<rparr>"

definition post_sale_journal :: "retail_sale \<Rightarrow> sales_invoice \<Rightarrow> database \<Rightarrow> database res" where
  "post_sale_journal a invoice s =
     (if si_grand_total invoice \<le> 0 then Inr s
      else res_bind (on_books (post_journal (sale_journal a invoice)) s) (\<lambda>(_, s'). Inr s'))"

definition record_key :: "retail_sale \<Rightarrow> uuid \<Rightarrow> database \<Rightarrow> database res" where
  "record_key a invoice_id s =
     (case rs_idempotency_key a of
        None \<Rightarrow> Inr s
      | Some key \<Rightarrow> res_bind (idem_record (rs_organization_id a) key ''sales.create_retail_invoice''
          ''sales_invoice'' invoice_id (db_idempotency s)) (\<lambda>t. Inr (s\<lparr>db_idempotency := t\<rparr>)))"

definition create_retail_invoice :: "retail_sale \<Rightarrow> database \<Rightarrow> (sale_result \<times> database) res" where
  "create_retail_invoice a s =
     (if rs_lines a = [] then Inl not_found
      else case replayed_sale a s of
        Some r \<Rightarrow> Inr (r, s)
      | None \<Rightarrow>
     res_bind (load_products (rs_organization_id a) (map sl_product_id (rs_lines a)) s) (\<lambda>products.
     let (invoice_number, s1) = issue_number (rs_organization_id a) ''sales_invoice'' (rs_branch_id a) s;
         draft = draft_invoice a invoice_number s1
     in res_bind (insert_invoice draft s1) (\<lambda>s2.
     res_bind (map_state (sell_line a (si_id draft) products) (rs_lines a) s2) (\<lambda>(priced, s3).
     let paid_amount = Money (\<Sum>p\<leftarrow>rs_payments a. pn_amount p); invoice = finalized priced paid_amount draft
     in res_bind (check_payment (rs_customer_id a) paid_amount (si_grand_total invoice) s3) (\<lambda>_.
     let s4 = fold (record_payment a (si_id draft)) (rs_payments a) s3;
         s5 = update_invoice (si_id draft) (finalized priced paid_amount) s4
     in res_bind (post_sale_journal a invoice s5) (\<lambda>s6.
     res_bind (record_key a (si_id draft) s6) (\<lambda>s7.
     Inr (\<lparr>sr_invoice_id = si_id draft, sr_invoice_number = invoice_number,
           sr_grand_total = si_grand_total invoice, sr_paid_amount = paid_amount,
           sr_payment_status = si_payment_status invoice, sr_replayed = False,
           sr_warnings = concat (map pr_warnings priced)\<rparr>, s7))))))))"

section \<open>The endpoints\<close>

text \<open>
  The request bodies after validation by their schemas; \<open>server_date\<close> is the server's \<open>date.today()\<close>.
\<close>

record create_invoice_request =
  ci_warehouse_id :: uuid
  ci_customer_id :: "uuid option"
  ci_lines :: "sale_line_input list"
  ci_payments :: "payment_input list"

definition valid_line :: "sale_line_input \<Rightarrow> bool" where
  "valid_line l \<longleftrightarrow> 0 < sl_base_quantity l \<and> 0 \<le> sl_discount_percent l \<and> sl_discount_percent l \<le> 100"

definition valid_invoice_request :: "create_invoice_request \<Rightarrow> bool" where
  "valid_invoice_request p \<longleftrightarrow>
     ci_lines p \<noteq> [] \<and> (\<forall>l \<in> set (ci_lines p). valid_line l) \<and> (\<forall>q \<in> set (ci_payments p). 0 < pn_amount q)"

definition create_invoice ::
  "date \<Rightarrow> current_user \<Rightarrow> string option \<Rightarrow> create_invoice_request \<Rightarrow> database \<Rightarrow> (sale_result \<times> database) res" where
  "create_invoice server_date user idempotency_key payload s =
     res_bind (require_permission ''sales.create'' user) (\<lambda>user.
     create_retail_invoice
       \<lparr>rs_organization_id = cu_organization_id user, rs_warehouse_id = ci_warehouse_id payload,
        rs_invoice_date = today s, rs_lines = ci_lines payload, rs_payments = ci_payments payload,
        rs_customer_id = ci_customer_id payload, rs_branch_id = default_branch_id user,
        rs_created_by = Some (cu_user_id user), rs_idempotency_key = idempotency_key,
        rs_as_of = Some server_date\<rparr> s)"

definition quote_cart ::
  "date \<Rightarrow> current_user \<Rightarrow> uuid \<Rightarrow> sale_line_input list \<Rightarrow> database \<Rightarrow> quote_result res" where
  "quote_cart server_date user warehouse_id lines s =
     res_bind (require_permission ''sales.create'' user) (\<lambda>user.
     quote (cu_organization_id user) warehouse_id lines (Some server_date) s)"

section \<open>Selling the lines\<close>

definition priced_as :: "product list \<Rightarrow> sale_line_input \<Rightarrow> price_result \<Rightarrow> bool" where
  "priced_as products l r \<longleftrightarrow>
     (\<exists>p. get_product (sl_product_id l) products = Some p \<and> price_line (retail_price_input p l) = Inr r)"

lemma priced_as_ok: "catalogue_ok products \<Longrightarrow> priced_as products l r \<Longrightarrow> line_amounts_ok r"
  by (auto simp: priced_as_def catalogue_ok_def prices_nonneg_def retail_price_input_def PriceInput_def
      dest: get_product_in intro!: exclusive_line)

lemma sell_line_ok:
  "sell_line a i ps l s = Inr (r, t) \<longleftrightarrow>
   0 < sl_base_quantity l \<and>
   (\<exists>p moves inv. get_product (sl_product_id l) ps = Some p \<and> price_line (retail_price_input p l) = Inr r \<and>
     issue_fefo (sale_issue a i l) (db_inventory s) = Inr (moves, inv) \<and>
     t = s\<lparr>db_inventory := inv, db_invoice_items := db_invoice_items s @ [sale_item i p l r]\<rparr>)"
  by (auto simp: sell_line_def on_inventory_ok not_le split: option.splits)

text \<open>
  The loop over the lines prices every line, issues its stock in turn, and adds one item per line;
  nothing else changes.
\<close>

lemma sell_lines_ok:
  assumes "map_state (sell_line a i ps) ls s = Inr (rs, t)"
  obtains moves items where "list_all2 (priced_as ps) ls rs"
    "map_state (\<lambda>l. issue_fefo (sale_issue a i l)) ls (db_inventory s) = Inr (moves, db_inventory t)"
    "t = s\<lparr>db_inventory := db_inventory t, db_invoice_items := db_invoice_items s @ items\<rparr>"
    "map ii_line_total items = map pr_total_amount rs" "map ii_product_id items = map sl_product_id ls"
    "map ii_base_quantity items = map sl_base_quantity ls" "\<forall>x \<in> set items. ii_sales_invoice_id x = i"
    "map ii_taxable_value items = map pr_net_amount rs" "map ii_tax_amount items = map pr_tax_amount rs"
proof -
  have "\<exists>moves items. list_all2 (priced_as ps) ls rs \<and>
    map_state (\<lambda>l. issue_fefo (sale_issue a i l)) ls (db_inventory s) = Inr (moves, db_inventory t) \<and>
    t = s\<lparr>db_inventory := db_inventory t, db_invoice_items := db_invoice_items s @ items\<rparr> \<and>
    map ii_line_total items = map pr_total_amount rs \<and> map ii_product_id items = map sl_product_id ls \<and>
    map ii_base_quantity items = map sl_base_quantity ls \<and> (\<forall>x \<in> set items. ii_sales_invoice_id x = i) \<and>
    map ii_taxable_value items = map pr_net_amount rs \<and> map ii_tax_amount items = map pr_tax_amount rs"
    using assms
  proof (induction ls arbitrary: s rs)
    case Nil
    then show ?case by auto
  next
    case (Cons l ls)
    obtain r m rs' where m: "sell_line a i ps l s = Inr (r, m)" "map_state (sell_line a i ps) ls m = Inr (rs', t)"
        "rs = r # rs'"
      using Cons.prems by (auto simp only: map_state_Cons_ok)
    obtain p moves inv where p: "get_product (sl_product_id l) ps = Some p" "price_line (retail_price_input p l) = Inr r"
      "issue_fefo (sale_issue a i l) (db_inventory s) = Inr (moves, inv)"
      and mm: "m = s\<lparr>db_inventory := inv, db_invoice_items := db_invoice_items s @ [sale_item i p l r]\<rparr>"
      using m(1) unfolding sell_line_ok by blast
    obtain moves' items where IH: "list_all2 (priced_as ps) ls rs'"
      "map_state (\<lambda>l. issue_fefo (sale_issue a i l)) ls (db_inventory m) = Inr (moves', db_inventory t)"
      "t = m\<lparr>db_inventory := db_inventory t, db_invoice_items := db_invoice_items m @ items\<rparr>"
      "map ii_line_total items = map pr_total_amount rs'" "map ii_product_id items = map sl_product_id ls"
      "map ii_base_quantity items = map sl_base_quantity ls" "\<forall>x \<in> set items. ii_sales_invoice_id x = i"
      "map ii_taxable_value items = map pr_net_amount rs'" "map ii_tax_amount items = map pr_tax_amount rs'"
      using Cons.IH [OF m(2)] by blast
    have "t = s\<lparr>db_inventory := db_inventory t, db_invoice_items := db_invoice_items s @ sale_item i p l r # items\<rparr>"
      by (subst IH(3)) (simp add: mm)
    moreover have "map_state (\<lambda>l. issue_fefo (sale_issue a i l)) (l # ls) (db_inventory s) = Inr (moves # moves', db_inventory t)"
      using p(3) IH(2) by (simp add: mm)
    moreover have "priced_as ps l r" using p(1,2) by (auto simp: priced_as_def)
    ultimately show ?case
      using IH(1,4-9) by (intro exI [of _ "moves # moves'"] exI [of _ "sale_item i p l r # items"])
        (simp add: m(3) sale_item_def)
  qed
  then show ?thesis using that by blast
qed

text \<open>What a run of issues does to the stock.\<close>

lemma issues_keep:
  assumes "map_state (\<lambda>l. issue_fefo (f l)) ls s = Inr (moves, t)" "ledger_ok s"
    and f: "\<And>l. movement_direction (is_movement_type (f l)) = - 1"
  shows "ledger_ok t \<and> (reserved_ok s \<longrightarrow> reserved_ok t)
    \<and> stock_of t w p = stock_of s w p - (\<Sum>l\<leftarrow>filter (\<lambda>l. is_warehouse_id (f l) = w \<and> is_product_id (f l) = p) ls.
        is_base_quantity (f l))
    \<and> reservations_of t w p = reservations_of s w p"
  using assms(1,2)
proof (induction ls arbitrary: s moves)
  case (Cons l ls)
  obtain ps m moves' where m: "issue_fefo (f l) s = Inr (ps, m)"
      "map_state (\<lambda>l. issue_fefo (f l)) ls m = Inr (moves', t)"
    using Cons.prems(1) by (auto simp only: map_state_Cons_ok)
  note one = issue_keeps [OF m(1) Cons.prems(2) f]
  show ?case using Cons.IH [OF m(2) one(1)] one(2-4) by auto
qed simp

section \<open>The payments of a sale\<close>

primrec payment_rows :: "retail_sale \<Rightarrow> timestamp \<Rightarrow> payment_input list \<Rightarrow> uuid \<Rightarrow> payment list" where
  "payment_rows a now [] n = []"
| "payment_rows a now (p # ps) n =
     \<lparr>py_id = n, py_organization_id = rs_organization_id a, py_branch_id = rs_branch_id a,
      py_customer_id = rs_customer_id a, py_direction = INBOUND, py_method = pn_method p,
      py_amount = Money (pn_amount p), py_reference = pn_reference p, py_received_at = now,
      py_created_by = rs_created_by a\<rparr> # payment_rows a now ps (Suc n)"

primrec allocation_rows :: "uuid \<Rightarrow> payment_input list \<Rightarrow> uuid \<Rightarrow> payment_allocation list" where
  "allocation_rows i [] n = []"
| "allocation_rows i (p # ps) n =
     \<lparr>pl_payment_id = n, pl_sales_invoice_id = Some i, pl_amount = Money (pn_amount p)\<rparr> # allocation_rows i ps (Suc n)"

lemma record_payments_rows:
  "fold (record_payment a i) ps s =
   s\<lparr>db_payments := db_payments s @ payment_rows a (iv_now (db_inventory s)) ps (db_next s),
     db_payment_allocations := db_payment_allocations s @ allocation_rows i ps (db_next s),
     db_next := db_next s + length ps\<rparr>"
  by (induction ps arbitrary: s) (simp_all add: record_payment_def)

lemma payment_rows_ids: "map py_id (payment_rows a now ps n) = [n ..< n + length ps]"
  by (induction ps arbitrary: n) (simp_all add: upt_rec)

lemma payment_rows_org: "v \<in> set (payment_rows a now ps n) \<Longrightarrow> py_organization_id v = rs_organization_id a"
  by (induction ps arbitrary: n) auto

lemma allocation_rows_ids: "map pl_payment_id (allocation_rows i ps n) = [n ..< n + length ps]"
  by (induction ps arbitrary: n) (simp_all add: upt_rec)

lemma payment_rows_amounts: "map py_amount (payment_rows a now ps n) = map (\<lambda>p. Money (pn_amount p)) ps"
  by (induction ps arbitrary: n) simp_all

lemma allocation_rows_amounts: "map pl_amount (allocation_rows i ps n) = map (\<lambda>p. Money (pn_amount p)) ps"
  by (induction ps arbitrary: n) simp_all

section \<open>A finalized sale\<close>

lemma check_payment_cong:
  "db_customers s = db_customers s' \<Longrightarrow> db_invoices s = db_invoices s' \<Longrightarrow>
   check_payment c paid grand s = check_payment c paid grand s'"
  by (auto simp: check_payment_def enforce_credit_limit_def get_customer_def customer_outstanding_def
      split: option.split)

text \<open>How the books and the idempotency table move.\<close>

definition sale_booked :: "retail_sale \<Rightarrow> sales_invoice \<Rightarrow> books \<Rightarrow> books \<Rightarrow> bool" where
  "sale_booked a invoice b b' \<longleftrightarrow>
     si_grand_total invoice \<le> 0 \<and> b' = b \<or>
     0 < si_grand_total invoice \<and> (\<exists>e. post_journal (sale_journal a invoice) b = Inr (e, b'))"

definition sale_keyed :: "retail_sale \<Rightarrow> uuid \<Rightarrow> idempotency \<Rightarrow> idempotency \<Rightarrow> bool" where
  "sale_keyed a i k k' \<longleftrightarrow>
     (case rs_idempotency_key a of None \<Rightarrow> k' = k
      | Some key \<Rightarrow> idem_record (rs_organization_id a) key ''sales.create_retail_invoice'' ''sales_invoice'' i k = Inr k')"

lemma post_sale_journal_ok:
  "post_sale_journal a invoice s = Inr t \<longleftrightarrow> (\<exists>b. sale_booked a invoice (db_books s) b \<and> t = s\<lparr>db_books := b\<rparr>)"
  by (auto simp: post_sale_journal_def sale_booked_def on_books_ok)

lemma record_key_ok:
  "record_key a i s = Inr t \<longleftrightarrow> (\<exists>k. sale_keyed a i (db_idempotency s) k \<and> t = s\<lparr>db_idempotency := k\<rparr>)"
  by (auto simp: record_key_def sale_keyed_def split: option.splits)

lemma create_retail_invoice_cases [consumes 2, case_names replayed fresh]:
  assumes "create_retail_invoice a s = Inr (r, t)" "ids_ok s"
  obtains "replayed_sale a s = Some r" "t = s" "rs_lines a \<noteq> []"
  | products number q draft priced moves items paid invoice where "replayed_sale a s = None"
      "load_products (rs_organization_id a) (map sl_product_id (rs_lines a)) s = Inr products"
      "rs_lines a \<noteq> []" "draft = draft_invoice a number s"
      "\<forall>w \<in> set (db_invoices s). \<not> (si_organization_id w = rs_organization_id a \<and> si_invoice_number w = number)"
      "list_all2 (priced_as products) (rs_lines a) priced"
      "map_state (\<lambda>l. issue_fefo (sale_issue a (si_id draft) l)) (rs_lines a) (db_inventory s) = Inr (moves, db_inventory t)"
      "paid = Money (\<Sum>p\<leftarrow>rs_payments a. pn_amount p)" "invoice = finalized priced paid draft"
      "check_payment (rs_customer_id a) paid (si_grand_total invoice) (s\<lparr>db_invoices := db_invoices s @ [draft]\<rparr>) = Inr ()"
      "map ii_line_total items = map pr_total_amount priced" "map ii_product_id items = map sl_product_id (rs_lines a)"
      "map ii_base_quantity items = map sl_base_quantity (rs_lines a)" "\<forall>x \<in> set items. ii_sales_invoice_id x = si_id draft"
      "sale_booked a invoice (db_books s) (db_books t)"
      "sale_keyed a (si_id draft) (db_idempotency s) (db_idempotency t)"
      "t = s\<lparr>db_numbering := q, db_inventory := db_inventory t, db_invoices := db_invoices s @ [invoice],
        db_invoice_items := db_invoice_items s @ items,
        db_payments := db_payments s @ payment_rows a (iv_now (db_inventory t)) (rs_payments a) (Suc (db_next s)),
        db_payment_allocations := db_payment_allocations s @ allocation_rows (db_next s) (rs_payments a) (Suc (db_next s)),
        db_books := db_books t, db_idempotency := db_idempotency t,
        db_next := Suc (db_next s) + length (rs_payments a)\<rparr>"
      "r = \<lparr>sr_invoice_id = db_next s, sr_invoice_number = number, sr_grand_total = si_grand_total invoice,
            sr_paid_amount = paid, sr_payment_status = si_payment_status invoice, sr_replayed = False,
            sr_warnings = concat (map pr_warnings priced)\<rparr>"
      "map ii_taxable_value items = map pr_net_amount priced" "map ii_tax_amount items = map pr_tax_amount priced"
proof (cases "replayed_sale a s")
  case (Some r')
  then show ?thesis using assms(1) that(1) by (simp add: create_retail_invoice_def split: if_splits)
next
  case None
  obtain number s1 where n: "issue_number (rs_organization_id a) ''sales_invoice'' (rs_branch_id a) s = (number, s1)"
    by fastforce
  then obtain q where s1: "s1 = s\<lparr>db_numbering := q\<rparr>" using issue_number_ok by blast
  define draft where "draft = draft_invoice a number s"
  have d: "draft_invoice a number s1 = draft" by (simp add: draft_def draft_invoice_def s1)
  have ne: "rs_lines a \<noteq> []" using assms(1) by (auto simp: create_retail_invoice_def)
  define paid where "paid = Money (\<Sum>p\<leftarrow>rs_payments a. pn_amount p)"
  obtain products s2 priced s3 s6 where
    p: "load_products (rs_organization_id a) (map sl_product_id (rs_lines a)) s = Inr products"
    and i: "insert_invoice draft s1 = Inr s2"
    and l: "map_state (sell_line a (si_id draft) products) (rs_lines a) s2 = Inr (priced, s3)"
    and c: "check_payment (rs_customer_id a) paid (si_grand_total (finalized priced paid draft)) s3 = Inr ()"
    and j: "post_sale_journal a (finalized priced paid draft)
      (update_invoice (si_id draft) (finalized priced paid) (fold (record_payment a (si_id draft)) (rs_payments a) s3)) = Inr s6"
    and k: "record_key a (si_id draft) s6 = Inr t"
    and r: "r = \<lparr>sr_invoice_id = si_id draft, sr_invoice_number = number,
      sr_grand_total = si_grand_total (finalized priced paid draft), sr_paid_amount = paid,
      sr_payment_status = si_payment_status (finalized priced paid draft), sr_replayed = False,
      sr_warnings = concat (map pr_warnings priced)\<rparr>"
    using assms(1) ne None
    by (auto simp: create_retail_invoice_def n d Let_def simp flip: paid_def)
  have s2: "s2 = s1\<lparr>db_invoices := db_invoices s @ [draft], db_next := Suc (db_next s)\<rparr>"
    using insert_invoice_ok [OF i] by (simp add: s1)
  obtain moves items where run: "list_all2 (priced_as products) (rs_lines a) priced"
    "map_state (\<lambda>l. issue_fefo (sale_issue a (si_id draft) l)) (rs_lines a) (db_inventory s2) = Inr (moves, db_inventory s3)"
    and s3: "s3 = s2\<lparr>db_inventory := db_inventory s3, db_invoice_items := db_invoice_items s2 @ items\<rparr>"
    and it: "map ii_line_total items = map pr_total_amount priced" "map ii_product_id items = map sl_product_id (rs_lines a)"
    "map ii_base_quantity items = map sl_base_quantity (rs_lines a)" "\<forall>x \<in> set items. ii_sales_invoice_id x = si_id draft"
    and net: "map ii_taxable_value items = map pr_net_amount priced" "map ii_tax_amount items = map pr_tax_amount priced"
    by (rule sell_lines_ok [OF l])
  have f3: "db_invoices s3 = db_invoices s @ [draft]" "db_customers s3 = db_customers s"
      "db_books s3 = db_books s" "db_idempotency s3 = db_idempotency s" "db_next s3 = Suc (db_next s)"
      "db_payments s3 = db_payments s" "db_payment_allocations s3 = db_payment_allocations s"
    by (subst s3, simp add: s2 s1)+
  have id: "si_id draft = db_next s" by (simp add: draft_def draft_invoice_def)
  have upd: "upd_first (\<lambda>v. si_id v = db_next s) (finalized priced paid) (db_invoices s @ [draft])
      = db_invoices s @ [finalized priced paid draft]"
    by (rule upd_first_append_new) (use assms(2) in \<open>auto simp: ids_ok_def id\<close>)
  obtain b where b: "sale_booked a (finalized priced paid draft) (db_books s) b"
    and s6: "s6 = (update_invoice (si_id draft) (finalized priced paid) (fold (record_payment a (si_id draft)) (rs_payments a) s3))\<lparr>db_books := b\<rparr>"
    using j unfolding post_sale_journal_ok by (auto simp: update_invoice_def record_payments_rows f3)
  obtain ky where ky: "sale_keyed a (si_id draft) (db_idempotency s) ky" and t: "t = s6\<lparr>db_idempotency := ky\<rparr>"
    using k unfolding record_key_ok by (auto simp: s6 update_invoice_def record_payments_rows f3)
  have inv: "db_inventory t = db_inventory s3" "db_books t = b" "db_idempotency t = ky"
    by (simp_all add: t s6 update_invoice_def record_payments_rows)
  have t': "t = s3\<lparr>db_invoices := db_invoices s @ [finalized priced paid draft],
      db_payments := db_payments s @ payment_rows a (iv_now (db_inventory t)) (rs_payments a) (Suc (db_next s)),
      db_payment_allocations := db_payment_allocations s @ allocation_rows (db_next s) (rs_payments a) (Suc (db_next s)),
      db_books := db_books t, db_idempotency := db_idempotency t, db_next := Suc (db_next s) + length (rs_payments a)\<rparr>"
    unfolding inv t s6 update_invoice_def record_payments_rows f3 id using f3(1) by (cases s3) (simp add: upd)
  show ?thesis
  proof (rule that(2) [OF None p ne draft_def _ run(1) _ paid_def refl _ it])
    show "\<forall>w \<in> set (db_invoices s). \<not> (si_organization_id w = rs_organization_id a \<and> si_invoice_number w = number)"
      using i by (auto simp: insert_invoice_def s1 draft_def draft_invoice_def split: if_splits)
    show "map_state (\<lambda>l. issue_fefo (sale_issue a (si_id draft) l)) (rs_lines a) (db_inventory s) = Inr (moves, db_inventory t)"
      using run(2) by (simp add: s2 s1 inv)
    show "check_payment (rs_customer_id a) paid (si_grand_total (finalized priced paid draft))
        (s\<lparr>db_invoices := db_invoices s @ [draft]\<rparr>) = Inr ()"
      unfolding c [symmetric] by (rule check_payment_cong) (simp_all add: f3)
    show "sale_booked a (finalized priced paid draft) (db_books s) (db_books t)"
      "sale_keyed a (si_id draft) (db_idempotency s) (db_idempotency t)"
      using b ky by (simp_all add: inv)
    show "t = s\<lparr>db_numbering := q, db_inventory := db_inventory t, db_invoices := db_invoices s @ [finalized priced paid draft],
        db_invoice_items := db_invoice_items s @ items,
        db_payments := db_payments s @ payment_rows a (iv_now (db_inventory t)) (rs_payments a) (Suc (db_next s)),
        db_payment_allocations := db_payment_allocations s @ allocation_rows (db_next s) (rs_payments a) (Suc (db_next s)),
        db_books := db_books t, db_idempotency := db_idempotency t,
        db_next := Suc (db_next s) + length (rs_payments a)\<rparr>"
      by (subst t', subst s3) (simp add: s2 s1 inv)
    show "r = \<lparr>sr_invoice_id = db_next s, sr_invoice_number = number,
        sr_grand_total = si_grand_total (finalized priced paid draft), sr_paid_amount = paid,
        sr_payment_status = si_payment_status (finalized priced paid draft), sr_replayed = False,
        sr_warnings = concat (map pr_warnings priced)\<rparr>"
      by (simp add: r id)
  qed (rule net)+
qed

section \<open>The invariant of the invoices\<close>

definition open_amount :: "sales_invoice \<Rightarrow> decimal" where
  "open_amount v = si_grand_total v - si_paid_amount v"

text \<open>
  Currency amounts that add up, a paid amount between zero and the total, and the status that the
  two amounts determine.
\<close>

definition invoice_ok :: "sales_invoice \<Rightarrow> bool" where
  "invoice_ok v \<longleftrightarrow>
     paisa_grid (si_subtotal v) \<and> paisa_grid (si_tax_total v) \<and> paisa_grid (si_paid_amount v)
     \<and> si_grand_total v = si_subtotal v + si_tax_total v \<and> 0 \<le> si_subtotal v \<and> 0 \<le> si_tax_total v
     \<and> 0 \<le> si_paid_amount v \<and> si_paid_amount v \<le> si_grand_total v
     \<and> si_payment_status v = derive_status (si_paid_amount v) (si_grand_total v)"

lemma invoice_ok_grid: "invoice_ok v \<Longrightarrow> paisa_grid (si_grand_total v) \<and> paisa_grid (open_amount v)"
  by (auto simp: invoice_ok_def open_amount_def)

lemma invoice_ok_paid: "invoice_ok v \<Longrightarrow> si_payment_status v = PAID \<Longrightarrow> open_amount v = 0"
  by (auto simp: invoice_ok_def open_amount_def derive_status_def split: if_splits)

lemma priced_lines_ok:
  "catalogue_ok ps \<Longrightarrow> list_all2 (priced_as ps) ls rs \<Longrightarrow> \<forall>r \<in> set rs. line_amounts_ok r"
  by (erule list_all2_right) (rule priced_as_ok)

lemma load_products_catalogue:
  "load_products org ids s = Inr ps \<Longrightarrow> catalogue_ok (db_products s) \<Longrightarrow> catalogue_ok ps"
  by (auto simp: catalogue_ok_def dest: load_products_ok(1))

text \<open>The totals of a finalized invoice, for lines and payments in currency amounts.\<close>

definition payments_ok :: "payment_input list \<Rightarrow> bool" where
  "payments_ok ps \<longleftrightarrow> (\<forall>p \<in> set ps. 0 < pn_amount p \<and> paisa_grid (pn_amount p))"

lemma payments_ok_sum:
  assumes "payments_ok ps"
  shows "Money (\<Sum>p\<leftarrow>ps. pn_amount p) = (\<Sum>p\<leftarrow>ps. pn_amount p)" "0 \<le> (\<Sum>p\<leftarrow>ps. pn_amount p)"
  using assms by (auto simp: payments_ok_def less_imp_le intro!: Money_id on_grid_sum_list sum_list_nonneg)

lemma finalized_sel [simp]:
  "si_id (finalized rs paid v) = si_id v" "si_organization_id (finalized rs paid v) = si_organization_id v"
  "si_customer_id (finalized rs paid v) = si_customer_id v" "si_paid_amount (finalized rs paid v) = paid"
  "si_invoice_number (finalized rs paid v) = si_invoice_number v" "si_invoice_date (finalized rs paid v) = si_invoice_date v"
  "si_subtotal (finalized rs paid v) = Money (\<Sum>r\<leftarrow>rs. pr_net_amount r)"
  "si_tax_total (finalized rs paid v) = Money (\<Sum>r\<leftarrow>rs. pr_tax_amount r)"
  "si_grand_total (finalized rs paid v) = Money (\<Sum>r\<leftarrow>rs. pr_total_amount r)"
  "si_payment_status (finalized rs paid v) = derive_status paid (Money (\<Sum>r\<leftarrow>rs. pr_total_amount r))"
  by (simp_all add: finalized_def Let_def)

lemma finalized_ok:
  assumes "\<forall>r \<in> set rs. line_amounts_ok r" "paisa_grid paid" "0 \<le> paid"
    "paid \<le> si_grand_total (finalized rs paid v)"
  shows "invoice_ok (finalized rs paid v)"
proof -
  have "Money (\<Sum>r\<leftarrow>rs. pr_total_amount r) = Money (\<Sum>r\<leftarrow>rs. pr_net_amount r) + Money (\<Sum>r\<leftarrow>rs. pr_tax_amount r)"
    using line_totals [OF assms(1)] by simp
  then show ?thesis
    using assms line_totals(5,6) [OF assms(1)] by (simp add: invoice_ok_def Money_nonneg)
qed

end
