(* ===== verification/Wholesale.thy ===== *)
theory Wholesale
  imports Sales
begin

text \<open>
  Dealer orders, \<open>app/modules/sales/wholesale_service.py\<close> and the two mutating endpoints of
  \<open>app/modules/sales/wholesale_api.py\<close>: a quotation or a confirmed order with its credit check and
  reservations, and the dispatch that releases and issues the stock, raises the invoice and posts
  the receivable.
\<close>

section \<open>Taking an order\<close>

record order_result =
  or_sales_order_id :: uuid
  or_order_number :: string
  or_status :: sales_order_status
  or_grand_total :: decimal
  or_warnings :: "price_warning list"

record dispatch_result =
  dr_sales_order_id :: uuid
  dr_sales_invoice_id :: uuid
  dr_invoice_number :: string
  dr_grand_total :: decimal

record order_args =
  oa_organization_id :: uuid
  oa_warehouse_id :: uuid
  oa_customer_id :: uuid
  oa_order_date :: date
  oa_lines :: "sale_line_input list"
  oa_branch_id :: "uuid option"
  oa_salesperson_id :: "uuid option"
  oa_is_quotation :: bool
  oa_credit_override_approved :: bool
  oa_as_of :: "date option"

definition wholesale_price_input :: "product \<Rightarrow> sale_line_input \<Rightarrow> price_input" where
  "wholesale_price_input product line =
     (PriceInput (sl_base_quantity line) (pd_retail_price product) (pd_mrp product))
     \<lparr>pi_wholesale_price := Some (pd_wholesale_price product), pi_min_wholesale_quantity := Some 1,
      pi_gst_percent := pd_gst_rate product, pi_discount_percent := sl_discount_percent line\<rparr>"

definition draft_order :: "order_args \<Rightarrow> string \<Rightarrow> database \<Rightarrow> sales_order" where
  "draft_order a order_number s =
     \<lparr>so_id = db_next s, so_organization_id = oa_organization_id a, so_branch_id = oa_branch_id a,
      so_warehouse_id = oa_warehouse_id a, so_customer_id = oa_customer_id a,
      so_salesperson_id = oa_salesperson_id a, so_order_number = order_number,
      so_status = (if oa_is_quotation a then QUOTATION else CONFIRMED), so_order_date = oa_order_date a,
      so_subtotal = 0, so_tax_total = 0, so_grand_total = 0,
      so_credit_override_approved = oa_credit_override_approved a, so_sales_invoice_id = None\<rparr>"

definition order_item :: "uuid \<Rightarrow> product \<Rightarrow> sale_line_input \<Rightarrow> price_result \<Rightarrow> sales_order_item" where
  "order_item order_id product line priced =
     \<lparr>ot_sales_order_id = order_id, ot_product_id = sl_product_id line,
      ot_base_quantity = sl_base_quantity line, ot_reserved_quantity = 0, ot_dispatched_quantity = 0,
      ot_unit_price = pr_unit_price priced, ot_price_source = pr_source priced,
      ot_discount_percent = sl_discount_percent line, ot_taxable_value = pr_net_amount priced,
      ot_gst_rate = pd_gst_rate product, ot_tax_amount = pr_tax_amount priced,
      ot_line_total = pr_total_amount priced\<rparr>"

definition order_line ::
  "uuid \<Rightarrow> product list \<Rightarrow> sale_line_input \<Rightarrow> database \<Rightarrow> (price_result \<times> database) res" where
  "order_line order_id products line s =
     (if sl_base_quantity line \<le> 0 then Inl business_rule
      else case get_product (sl_product_id line) products of
        None \<Rightarrow> Inl KeyError
      | Some product \<Rightarrow> res_bind (price_line (wholesale_price_input product line)) (\<lambda>priced.
          Inr (priced, s\<lparr>db_order_items := db_order_items s @ [order_item order_id product line priced]\<rparr>)))"

definition totalled :: "price_result list \<Rightarrow> sales_order \<Rightarrow> sales_order" where
  "totalled priced v =
     v\<lparr>so_subtotal := Money (\<Sum>r\<leftarrow>priced. pr_net_amount r), so_tax_total := Money (\<Sum>r\<leftarrow>priced. pr_tax_amount r),
       so_grand_total := Money (\<Sum>r\<leftarrow>priced. pr_total_amount r)\<rparr>"

definition enforce_order_credit :: "customer \<Rightarrow> decimal \<Rightarrow> bool \<Rightarrow> database \<Rightarrow> unit res" where
  "enforce_order_credit customer order_total override s =
     (if override \<or> cs_credit_limit customer \<le> 0 then Inr ()
      else if cs_credit_limit customer < customer_outstanding (cs_id customer) s + order_total
      then Inl (business ''credit_limit_exceeded'') else Inr ())"

definition reserve_line :: "order_args \<Rightarrow> sale_line_input \<Rightarrow> database \<Rightarrow> database res" where
  "reserve_line a line s =
     res_bind (on_inventory (reserve \<lparr>rv_warehouse_id = oa_warehouse_id a, rv_product_id = sl_product_id line,
         rv_base_quantity = sl_base_quantity line, rv_as_of = oa_as_of a\<rparr>) s) (\<lambda>(_, s'). Inr s')"

definition set_reserved_quantities :: "uuid \<Rightarrow> database \<Rightarrow> database" where
  "set_reserved_quantities order_id s =
     s\<lparr>db_order_items := upd_rows (\<lambda>i. ot_sales_order_id i = order_id)
         (\<lambda>i. i\<lparr>ot_reserved_quantity := ot_base_quantity i\<rparr>) (db_order_items s)\<rparr>"

text \<open>The part of \<open>create_order\<close> for confirmed orders.\<close>

definition confirm_order :: "order_args \<Rightarrow> customer \<Rightarrow> sales_order \<Rightarrow> database \<Rightarrow> database res" where
  "confirm_order a customer order s =
     (if oa_is_quotation a then Inr s
      else res_bind (enforce_order_credit customer (so_grand_total order) (oa_credit_override_approved a) s) (\<lambda>_.
           res_bind (fold_res (reserve_line a) (oa_lines a) s) (\<lambda>s'.
           Inr (set_reserved_quantities (so_id order) s'))))"

definition create_order :: "order_args \<Rightarrow> database \<Rightarrow> (order_result \<times> database) res" where
  "create_order a s =
     (if oa_lines a = [] then Inl not_found
      else case get_customer (oa_customer_id a) s of
        None \<Rightarrow> Inl not_found
      | Some customer \<Rightarrow>
     if cs_organization_id customer \<noteq> oa_organization_id a then Inl not_found
     else res_bind (load_products (oa_organization_id a) (map sl_product_id (oa_lines a)) s) (\<lambda>products.
     let (order_number, s1) = issue_number (oa_organization_id a)
           (if oa_is_quotation a then ''quotation'' else ''sales_order'') (oa_branch_id a) s;
         draft = draft_order a order_number s1
     in res_bind (insert_order draft s1) (\<lambda>s2.
     res_bind (map_state (order_line (so_id draft) products) (oa_lines a) s2) (\<lambda>(priced, s3).
     let order = totalled priced draft; s4 = update_order (so_id draft) (totalled priced) s3
     in res_bind (confirm_order a customer order s4) (\<lambda>s5.
     Inr (\<lparr>or_sales_order_id = so_id order, or_order_number = so_order_number order,
           or_status = so_status order, or_grand_total = so_grand_total order,
           or_warnings = concat (map pr_warnings priced)\<rparr>, s5))))))"

section \<open>Dispatch\<close>

record dispatch_args =
  da_organization_id :: uuid
  da_sales_order_id :: uuid
  da_invoice_date :: date
  da_created_by :: "uuid option"
  da_as_of :: "date option"

definition order_invoice :: "dispatch_args \<Rightarrow> sales_order \<Rightarrow> string \<Rightarrow> database \<Rightarrow> sales_invoice" where
  "order_invoice a order invoice_number s =
     \<lparr>si_id = db_next s, si_organization_id = da_organization_id a, si_branch_id = so_branch_id order,
      si_warehouse_id = so_warehouse_id order, si_customer_id = Some (so_customer_id order),
      si_invoice_number = invoice_number, si_invoice_date = da_invoice_date a,
      si_channel = WHOLESALE_CHANNEL, si_subtotal = so_subtotal order, si_discount_total = 0,
      si_tax_total = so_tax_total order, si_grand_total = so_grand_total order, si_paid_amount = 0,
      si_payment_status = CREDIT, si_created_by = da_created_by a,
      si_created_at = iv_now (db_inventory s)\<rparr>"

definition dispatch_issue :: "dispatch_args \<Rightarrow> sales_order \<Rightarrow> uuid \<Rightarrow> sales_order_item \<Rightarrow> issue_args" where
  "dispatch_issue a order invoice_id item =
     \<lparr>is_organization_id = da_organization_id a, is_warehouse_id = so_warehouse_id order,
      is_product_id = ot_product_id item, is_base_quantity = ot_base_quantity item,
      is_movement_type = WHOLESALE_SALE, is_branch_id = so_branch_id order,
      is_source_document_type = Some ''sales_invoice'', is_source_document_id = Some invoice_id,
      is_created_by = da_created_by a, is_as_of = da_as_of a\<rparr>"

definition dispatched_item :: "uuid \<Rightarrow> sales_order_item \<Rightarrow> sales_invoice_item" where
  "dispatched_item invoice_id item =
     \<lparr>ii_sales_invoice_id = invoice_id, ii_product_id = ot_product_id item,
      ii_base_quantity = ot_base_quantity item, ii_unit_price = ot_unit_price item,
      ii_price_source = ot_price_source item, ii_discount_percent = ot_discount_percent item,
      ii_discount_amount = 0, ii_taxable_value = ot_taxable_value item, ii_gst_rate = ot_gst_rate item,
      ii_tax_amount = ot_tax_amount item, ii_line_total = ot_line_total item\<rparr>"

definition dispatch_item :: "dispatch_args \<Rightarrow> sales_order \<Rightarrow> uuid \<Rightarrow> sales_order_item \<Rightarrow> database \<Rightarrow> database res" where
  "dispatch_item a order invoice_id item s =
     res_bind (on_inventory (release_reservation (so_warehouse_id order) (ot_product_id item) (ot_base_quantity item)) s)
       (\<lambda>(_, s1).
     res_bind (on_inventory (issue_fefo (dispatch_issue a order invoice_id item)) s1) (\<lambda>(_, s2).
     Inr (s2\<lparr>db_invoice_items := db_invoice_items s2 @ [dispatched_item invoice_id item]\<rparr>)))"

text \<open>\<open>item.dispatched_quantity = item.base_quantity\<close>, for all items of the order.\<close>

definition set_dispatched_quantities :: "uuid \<Rightarrow> database \<Rightarrow> database" where
  "set_dispatched_quantities order_id s =
     s\<lparr>db_order_items := upd_rows (\<lambda>i. ot_sales_order_id i = order_id)
         (\<lambda>i. i\<lparr>ot_dispatched_quantity := ot_base_quantity i\<rparr>) (db_order_items s)\<rparr>"

definition order_journal_lines :: "sales_invoice \<Rightarrow> journal_line list" where
  "order_journal_lines invoice =
     [debit_line ''AR'' (Money (si_grand_total invoice)), credit_line ''SALES'' (Money (si_subtotal invoice))]
     @ (if 0 < si_tax_total invoice then [credit_line ''GST_OUTPUT'' (Money (si_tax_total invoice))] else [])"

definition order_journal :: "dispatch_args \<Rightarrow> sales_order \<Rightarrow> sales_invoice \<Rightarrow> post_args" where
  "order_journal a order invoice =
     \<lparr>pa_organization_id = da_organization_id a, pa_entry_date = si_invoice_date invoice,
      pa_lines = order_journal_lines invoice, pa_branch_id = so_branch_id order,
      pa_source_document_type = Some ''sales_invoice'', pa_source_document_id = Some (si_id invoice),
      pa_created_by = da_created_by a\<rparr>"

definition post_order_journal :: "dispatch_args \<Rightarrow> sales_order \<Rightarrow> sales_invoice \<Rightarrow> database \<Rightarrow> database res" where
  "post_order_journal a order invoice s =
     (if si_grand_total invoice \<le> 0 then Inr s
      else res_bind (on_books (post_journal (order_journal a order invoice)) s) (\<lambda>(_, s'). Inr s'))"

definition dispatch_and_invoice :: "dispatch_args \<Rightarrow> database \<Rightarrow> (dispatch_result \<times> database) res" where
  "dispatch_and_invoice a s =
     (case get_order (da_sales_order_id a) s of
        None \<Rightarrow> Inl not_found
      | Some order \<Rightarrow>
     if so_organization_id order \<noteq> da_organization_id a then Inl not_found
     else if so_status order \<noteq> CONFIRMED then Inl (business ''order_not_dispatchable'')
     else
     let items = filter (\<lambda>i. ot_sales_order_id i = da_sales_order_id a) (db_order_items s);
         (invoice_number, s1) = issue_number (da_organization_id a) ''sales_invoice'' (so_branch_id order) s;
         invoice = order_invoice a order invoice_number s1
     in res_bind (insert_invoice invoice s1) (\<lambda>s2.
     res_bind (fold_res (dispatch_item a order (si_id invoice)) items s2) (\<lambda>s3.
     let s4 = update_order (so_id order) (\<lambda>v. v\<lparr>so_status := INVOICED, so_sales_invoice_id := Some (si_id invoice)\<rparr>)
           (set_dispatched_quantities (so_id order) s3)
     in res_bind (post_order_journal a order invoice s4) (\<lambda>s5.
     Inr (\<lparr>dr_sales_order_id = so_id order, dr_sales_invoice_id = si_id invoice,
           dr_invoice_number = invoice_number, dr_grand_total = si_grand_total invoice\<rparr>, s5)))))"

section \<open>The endpoints\<close>

record create_order_request =
  co_warehouse_id :: uuid
  co_customer_id :: uuid
  co_lines :: "sale_line_input list"
  co_is_quotation :: bool
  co_credit_override_approved :: bool

definition valid_order_request :: "create_order_request \<Rightarrow> bool" where
  "valid_order_request p \<longleftrightarrow> co_lines p \<noteq> [] \<and> (\<forall>l \<in> set (co_lines p). valid_line l)"

definition post_order :: "date \<Rightarrow> current_user \<Rightarrow> create_order_request \<Rightarrow> database \<Rightarrow> (order_result \<times> database) res" where
  "post_order server_date user payload s =
     res_bind (require_permission ''sales.create'' user) (\<lambda>user.
     create_order
       \<lparr>oa_organization_id = cu_organization_id user, oa_warehouse_id = co_warehouse_id payload,
        oa_customer_id = co_customer_id payload, oa_order_date = today s, oa_lines = co_lines payload,
        oa_branch_id = default_branch_id user, oa_salesperson_id = Some (cu_user_id user),
        oa_is_quotation = co_is_quotation payload,
        oa_credit_override_approved = co_credit_override_approved payload, oa_as_of = Some server_date\<rparr> s)"

definition dispatch_order :: "date \<Rightarrow> current_user \<Rightarrow> uuid \<Rightarrow> database \<Rightarrow> (dispatch_result \<times> database) res" where
  "dispatch_order server_date user sales_order_id s =
     res_bind (require_permission ''sales.finalize'' user) (\<lambda>user.
     dispatch_and_invoice
       \<lparr>da_organization_id = cu_organization_id user, da_sales_order_id = sales_order_id,
        da_invoice_date = today s, da_created_by = Some (cu_user_id user), da_as_of = Some server_date\<rparr> s)"

section \<open>Order lines and reservations\<close>

definition ordered_as :: "product list \<Rightarrow> sale_line_input \<Rightarrow> price_result \<Rightarrow> bool" where
  "ordered_as products l r \<longleftrightarrow>
     (\<exists>p. get_product (sl_product_id l) products = Some p \<and> price_line (wholesale_price_input p l) = Inr r)"

lemma ordered_as_ok: "catalogue_ok products \<Longrightarrow> ordered_as products l r \<Longrightarrow> line_amounts_ok r"
  by (auto simp: ordered_as_def catalogue_ok_def prices_nonneg_def wholesale_price_input_def PriceInput_def
      dest: get_product_in intro!: exclusive_line)

lemma order_line_ok:
  "order_line i ps l s = Inr (r, t) \<longleftrightarrow>
   0 < sl_base_quantity l \<and>
   (\<exists>p. get_product (sl_product_id l) ps = Some p \<and> price_line (wholesale_price_input p l) = Inr r \<and>
     t = s\<lparr>db_order_items := db_order_items s @ [order_item i p l r]\<rparr>)"
  by (auto simp: order_line_def not_le split: option.splits)

lemma order_lines_ok:
  assumes "map_state (order_line i ps) ls s = Inr (rs, t)"
  obtains items where "list_all2 (ordered_as ps) ls rs" "t = s\<lparr>db_order_items := db_order_items s @ items\<rparr>"
    "map ot_product_id items = map sl_product_id ls" "map ot_base_quantity items = map sl_base_quantity ls"
    "\<forall>x \<in> set items. ot_sales_order_id x = i" "\<forall>l \<in> set ls. 0 < sl_base_quantity l"
    "map ot_taxable_value items = map pr_net_amount rs" "map ot_tax_amount items = map pr_tax_amount rs"
proof -
  have "\<exists>items. list_all2 (ordered_as ps) ls rs \<and> t = s\<lparr>db_order_items := db_order_items s @ items\<rparr> \<and>
    map ot_product_id items = map sl_product_id ls \<and> map ot_base_quantity items = map sl_base_quantity ls \<and>
    (\<forall>x \<in> set items. ot_sales_order_id x = i) \<and> (\<forall>l \<in> set ls. 0 < sl_base_quantity l) \<and>
    map ot_taxable_value items = map pr_net_amount rs \<and> map ot_tax_amount items = map pr_tax_amount rs"
    using assms
  proof (induction ls arbitrary: s rs)
    case Nil
    then show ?case by auto
  next
    case (Cons l ls)
    obtain r m rs' where m: "order_line i ps l s = Inr (r, m)" "map_state (order_line i ps) ls m = Inr (rs', t)"
        "rs = r # rs'"
      using Cons.prems by (auto simp only: map_state_Cons_ok)
    obtain p where p: "get_product (sl_product_id l) ps = Some p" "price_line (wholesale_price_input p l) = Inr r"
      "0 < sl_base_quantity l"
      and mm: "m = s\<lparr>db_order_items := db_order_items s @ [order_item i p l r]\<rparr>"
      using m(1) unfolding order_line_ok by blast
    obtain items where IH: "list_all2 (ordered_as ps) ls rs'"
      "t = m\<lparr>db_order_items := db_order_items m @ items\<rparr>"
      "map ot_product_id items = map sl_product_id ls" "map ot_base_quantity items = map sl_base_quantity ls"
      "\<forall>x \<in> set items. ot_sales_order_id x = i" "\<forall>l \<in> set ls. 0 < sl_base_quantity l"
      "map ot_taxable_value items = map pr_net_amount rs'" "map ot_tax_amount items = map pr_tax_amount rs'"
      using Cons.IH [OF m(2)] by blast
    have "ordered_as ps l r" using p(1,2) by (auto simp: ordered_as_def)
    then show ?case
      using IH p(3) by (intro exI [of _ "order_item i p l r # items"]) (simp add: m(3) mm order_item_def)
  qed
  then show ?thesis using that by blast
qed

text \<open>The reservations of the lines, on the stock tables alone.\<close>

definition reserve_on :: "order_args \<Rightarrow> sale_line_input \<Rightarrow> inventory \<Rightarrow> inventory res" where
  "reserve_on a l v = res_bind (reserve \<lparr>rv_warehouse_id = oa_warehouse_id a, rv_product_id = sl_product_id l,
     rv_base_quantity = sl_base_quantity l, rv_as_of = oa_as_of a\<rparr> v) (\<lambda>(_, v'). Inr v')"

lemma reserve_line_ok:
  "reserve_line a l s = Inr t \<longleftrightarrow> (\<exists>v. reserve_on a l (db_inventory s) = Inr v \<and> t = s\<lparr>db_inventory := v\<rparr>)"
  by (auto simp: reserve_line_def reserve_on_def on_inventory_ok)

lemma reserve_lines_ok:
  "fold_res (reserve_line a) ls s = Inr t \<Longrightarrow>
   \<exists>v. fold_res (reserve_on a) ls (db_inventory s) = Inr v \<and> t = s\<lparr>db_inventory := v\<rparr>"
proof (induction ls arbitrary: s)
  case Nil
  then show ?case by (intro exI [of _ "db_inventory s"]) simp
next
  case (Cons l ls)
  obtain m where m: "reserve_line a l s = Inr m" "fold_res (reserve_line a) ls m = Inr t" using Cons.prems by auto
  obtain v where v: "reserve_on a l (db_inventory s) = Inr v" "m = s\<lparr>db_inventory := v\<rparr>"
    using m(1) by (auto simp: reserve_line_ok)
  show ?case using Cons.IH [OF m(2)] v by auto
qed

lemma reserves_keep:
  assumes "fold_res (reserve_on a) ls v = Inr t" "ledger_ok v" "reserved_ok v"
  shows "ledger_ok t \<and> reserved_ok t \<and> stock_of t w p = stock_of v w p
    \<and> reservations_of t w p = reservations_of v w p +
        (\<Sum>l\<leftarrow>filter (\<lambda>l. oa_warehouse_id a = w \<and> sl_product_id l = p) ls. sl_base_quantity l)"
  using assms
proof (induction ls arbitrary: v)
  case (Cons l ls)
  obtain m where m: "reserve_on a l v = Inr m" "fold_res (reserve_on a) ls m = Inr t" using Cons.prems(1) by auto
  obtain u where "reserve \<lparr>rv_warehouse_id = oa_warehouse_id a, rv_product_id = sl_product_id l,
     rv_base_quantity = sl_base_quantity l, rv_as_of = oa_as_of a\<rparr> v = Inr (u, m)"
    using m(1) by (auto simp: reserve_on_def)
  note one = reserve_keeps [OF this Cons.prems(2,3)]
  show ?case using Cons.IH [OF m(2) one(1,2)] one(4,5) by auto
qed simp

section \<open>An order taken\<close>

definition order_confirmed :: "order_args \<Rightarrow> customer \<Rightarrow> decimal \<Rightarrow> database \<Rightarrow> inventory \<Rightarrow> bool" where
  "order_confirmed a customer grand s v \<longleftrightarrow>
     (if oa_is_quotation a then v = db_inventory s
      else enforce_order_credit customer grand (oa_credit_override_approved a) s = Inr ()
        \<and> fold_res (reserve_on a) (oa_lines a) (db_inventory s) = Inr v)"

lemma confirm_order_ok:
  assumes "confirm_order a customer order s = Inr t"
  obtains v items where "order_confirmed a customer (so_grand_total order) s v"
    "t = s\<lparr>db_inventory := v, db_order_items := items\<rparr>"
    "items = (if oa_is_quotation a then db_order_items s
      else upd_rows (\<lambda>i. ot_sales_order_id i = so_id order) (\<lambda>i. i\<lparr>ot_reserved_quantity := ot_base_quantity i\<rparr>) (db_order_items s))"
proof (cases "oa_is_quotation a")
  case True
  then have t: "t = s" using assms by (simp add: confirm_order_def)
  show ?thesis
    by (rule that [of "db_inventory s" "db_order_items s"]) (simp_all add: True t order_confirmed_def)
next
  case False
  then obtain s' where s': "enforce_order_credit customer (so_grand_total order) (oa_credit_override_approved a) s = Inr ()"
      "fold_res (reserve_line a) (oa_lines a) s = Inr s'" "t = set_reserved_quantities (so_id order) s'"
    using assms by (auto simp: confirm_order_def)
  obtain v where v: "fold_res (reserve_on a) (oa_lines a) (db_inventory s) = Inr v" "s' = s\<lparr>db_inventory := v\<rparr>"
    using reserve_lines_ok [OF s'(2)] by blast
  show ?thesis
  proof (rule that [of v])
    show "order_confirmed a customer (so_grand_total order) s v"
      using s'(1) v(1) False by (simp add: order_confirmed_def)
    show "t = s\<lparr>db_inventory := v, db_order_items := upd_rows (\<lambda>i. ot_sales_order_id i = so_id order)
        (\<lambda>i. i\<lparr>ot_reserved_quantity := ot_base_quantity i\<rparr>) (db_order_items s)\<rparr>"
      by (simp add: s'(3) set_reserved_quantities_def v(2))
  qed (simp add: False)
qed

lemma order_confirmed_cong:
  "db_invoices s = db_invoices s' \<Longrightarrow> db_inventory s = db_inventory s' \<Longrightarrow>
   order_confirmed a c grand s v = order_confirmed a c grand s' v"
  by (simp add: order_confirmed_def enforce_order_credit_def customer_outstanding_def)

lemma create_order_cases:
  assumes "create_order a s = Inr (r, t)" "ids_ok s"
  obtains customer products number q draft priced items order v where "oa_lines a \<noteq> []"
    "get_customer (oa_customer_id a) s = Some customer" "cs_organization_id customer = oa_organization_id a"
    "load_products (oa_organization_id a) (map sl_product_id (oa_lines a)) s = Inr products"
    "draft = draft_order a number s" "list_all2 (ordered_as products) (oa_lines a) priced"
    "order = totalled priced draft" "order_confirmed a customer (so_grand_total order) s v"
    "map ot_product_id items = map sl_product_id (oa_lines a)"
    "map ot_base_quantity items = map sl_base_quantity (oa_lines a)"
    "\<forall>x \<in> set items. ot_sales_order_id x = so_id draft" "\<forall>l \<in> set (oa_lines a). 0 < sl_base_quantity l"
    "t = s\<lparr>db_numbering := q, db_inventory := v, db_orders := db_orders s @ [order],
       db_order_items := db_order_items s @ items, db_next := Suc (db_next s)\<rparr>"
    "r = \<lparr>or_sales_order_id = so_id order, or_order_number = so_order_number order, or_status = so_status order,
          or_grand_total = so_grand_total order, or_warnings = concat (map pr_warnings priced)\<rparr>"
    "map ot_taxable_value items = map pr_net_amount priced" "map ot_tax_amount items = map pr_tax_amount priced"
proof -
  obtain number s1 where n: "issue_number (oa_organization_id a)
      (if oa_is_quotation a then ''quotation'' else ''sales_order'') (oa_branch_id a) s = (number, s1)"
    by fastforce
  then obtain q where s1: "s1 = s\<lparr>db_numbering := q\<rparr>" using issue_number_ok by blast
  define draft where "draft = draft_order a number s"
  have d: "draft_order a number s1 = draft" by (simp add: draft_def draft_order_def s1)
  have ne: "oa_lines a \<noteq> []" using assms(1) by (auto simp: create_order_def)
  obtain customer where c: "get_customer (oa_customer_id a) s = Some customer" "cs_organization_id customer = oa_organization_id a"
    using assms(1) ne by (auto simp: create_order_def split: option.splits if_splits)
  obtain products s2 priced s3 where
    p: "load_products (oa_organization_id a) (map sl_product_id (oa_lines a)) s = Inr products"
    and i: "insert_order draft s1 = Inr s2"
    and l: "map_state (order_line (so_id draft) products) (oa_lines a) s2 = Inr (priced, s3)"
    and k: "confirm_order a customer (totalled priced draft) (update_order (so_id draft) (totalled priced) s3) = Inr t"
    and r: "r = \<lparr>or_sales_order_id = so_id (totalled priced draft), or_order_number = so_order_number (totalled priced draft),
      or_status = so_status (totalled priced draft), or_grand_total = so_grand_total (totalled priced draft),
      or_warnings = concat (map pr_warnings priced)\<rparr>"
    using assms(1) ne c by (auto simp: create_order_def n d Let_def)
  have s2: "s2 = s1\<lparr>db_orders := db_orders s @ [draft], db_next := Suc (db_next s)\<rparr>"
    using insert_order_ok [OF i] by (simp add: s1)
  obtain items where it: "list_all2 (ordered_as products) (oa_lines a) priced"
    "s3 = s2\<lparr>db_order_items := db_order_items s2 @ items\<rparr>"
    "map ot_product_id items = map sl_product_id (oa_lines a)" "map ot_base_quantity items = map sl_base_quantity (oa_lines a)"
    "\<forall>x \<in> set items. ot_sales_order_id x = so_id draft" "\<forall>l \<in> set (oa_lines a). 0 < sl_base_quantity l"
    "map ot_taxable_value items = map pr_net_amount priced" "map ot_tax_amount items = map pr_tax_amount priced"
    by (rule order_lines_ok [OF l])
  have id: "so_id draft = db_next s" "so_id (totalled priced draft) = db_next s"
    by (simp_all add: draft_def draft_order_def totalled_def)
  have upd: "upd_first (\<lambda>v. so_id v = db_next s) (totalled priced) (db_orders s @ [draft])
      = db_orders s @ [totalled priced draft]"
    by (rule upd_first_append_new) (use assms(2) in \<open>auto simp: ids_ok_def id\<close>)
  define s4 where "s4 = update_order (so_id draft) (totalled priced) s3"
  have s4: "s4 = s\<lparr>db_numbering := q, db_orders := db_orders s @ [totalled priced draft],
      db_order_items := db_order_items s @ items, db_next := Suc (db_next s)\<rparr>"
    by (simp add: s4_def update_order_def it(2) s2 s1 id upd)
  obtain v items' where v: "order_confirmed a customer (so_grand_total (totalled priced draft)) s4 v"
    "t = s4\<lparr>db_inventory := v, db_order_items := items'\<rparr>"
    "items' = (if oa_is_quotation a then db_order_items s4
      else upd_rows (\<lambda>i. ot_sales_order_id i = so_id (totalled priced draft))
        (\<lambda>i. i\<lparr>ot_reserved_quantity := ot_base_quantity i\<rparr>) (db_order_items s4))"
    by (rule confirm_order_ok [OF k [folded s4_def]])
  define new where "new = (if oa_is_quotation a then items else map (\<lambda>i. i\<lparr>ot_reserved_quantity := ot_base_quantity i\<rparr>) items)"
  have "upd_rows (\<lambda>i. ot_sales_order_id i = db_next s) f (db_order_items s @ items) = db_order_items s @ map f items" for f
    using assms(2) it(5) by (auto simp: upd_rows_def ids_ok_def id intro!: map_idI)
  then have items': "items' = db_order_items s @ new" by (simp add: v(3) new_def s4 id)
  show ?thesis
  proof (rule that [OF ne c p draft_def it(1) refl _ _ _ _ it(6)])
    show "order_confirmed a customer (so_grand_total (totalled priced draft)) s v"
      using v(1) order_confirmed_cong [of s4 s] by (simp add: s4)
    show "map ot_product_id new = map sl_product_id (oa_lines a)"
      "map ot_base_quantity new = map sl_base_quantity (oa_lines a)" "\<forall>x \<in> set new. ot_sales_order_id x = so_id draft"
      using it(3-5) by (simp_all add: new_def comp_def)
    show "t = s\<lparr>db_numbering := q, db_inventory := v, db_orders := db_orders s @ [totalled priced draft],
       db_order_items := db_order_items s @ new, db_next := Suc (db_next s)\<rparr>"
      by (simp add: v(2) s4 items')
    show "map ot_taxable_value new = map pr_net_amount priced" "map ot_tax_amount new = map pr_tax_amount priced"
      using it(7,8) by (simp_all add: new_def comp_def)
  qed (rule r)
qed

section \<open>A dispatch\<close>

text \<open>One item on the stock tables: its reservation is released, then its stock issued.\<close>

definition ship_on :: "dispatch_args \<Rightarrow> sales_order \<Rightarrow> uuid \<Rightarrow> sales_order_item \<Rightarrow> inventory \<Rightarrow> inventory res" where
  "ship_on a order i item v =
     res_bind (release_reservation (so_warehouse_id order) (ot_product_id item) (ot_base_quantity item) v) (\<lambda>(_, v1).
     res_bind (issue_fefo (dispatch_issue a order i item) v1) (\<lambda>(_, v2). Inr v2))"

lemma dispatch_item_ok:
  "dispatch_item a order i item s = Inr t \<longleftrightarrow>
   (\<exists>v. ship_on a order i item (db_inventory s) = Inr v \<and>
     t = s\<lparr>db_inventory := v, db_invoice_items := db_invoice_items s @ [dispatched_item i item]\<rparr>)"
  by (auto simp: dispatch_item_def ship_on_def on_inventory_ok)

lemma dispatch_items_ok:
  "fold_res (dispatch_item a order i) its s = Inr t \<Longrightarrow>
   \<exists>v. fold_res (ship_on a order i) its (db_inventory s) = Inr v \<and>
     t = s\<lparr>db_inventory := v, db_invoice_items := db_invoice_items s @ map (dispatched_item i) its\<rparr>"
proof (induction its arbitrary: s)
  case Nil
  then show ?case by (intro exI [of _ "db_inventory s"]) simp
next
  case (Cons item its)
  obtain m where m: "dispatch_item a order i item s = Inr m" "fold_res (dispatch_item a order i) its m = Inr t"
    using Cons.prems by auto
  obtain v where v: "ship_on a order i item (db_inventory s) = Inr v"
    "m = s\<lparr>db_inventory := v, db_invoice_items := db_invoice_items s @ [dispatched_item i item]\<rparr>"
    using m(1) by (auto simp: dispatch_item_ok)
  show ?case using Cons.IH [OF m(2)] v by auto
qed

text \<open>Shipping lowers the stock and the reservations of each product by what is shipped of it.\<close>

definition shipped :: "uuid \<Rightarrow> uuid \<Rightarrow> uuid \<Rightarrow> sales_order_item list \<Rightarrow> decimal" where
  "shipped ow w p its = (\<Sum>i\<leftarrow>filter (\<lambda>i. ow = w \<and> ot_product_id i = p) its. ot_base_quantity i)"

lemma ships_keep:
  assumes "fold_res (ship_on a order i) its v = Inr t" "ledger_ok v" "reserved_ok v"
  shows "ledger_ok t \<and> reserved_ok t \<and> stock_of t w p = stock_of v w p - shipped (so_warehouse_id order) w p its
    \<and> reservations_of t w p = reservations_of v w p - shipped (so_warehouse_id order) w p its"
  using assms
proof (induction its arbitrary: v)
  case (Cons item its)
  obtain m where m: "ship_on a order i item v = Inr m" "fold_res (ship_on a order i) its m = Inr t"
    using Cons.prems(1) by auto
  obtain u v1 ps where v1: "release_reservation (so_warehouse_id order) (ot_product_id item) (ot_base_quantity item) v = Inr (u, v1)"
      and v2: "issue_fefo (dispatch_issue a order i item) v1 = Inr (ps, m)"
    using m(1) by (auto simp: ship_on_def)
  note rel = release_keeps [OF v1 Cons.prems(2,3)]
  have dir: "movement_direction (is_movement_type (dispatch_issue a order i item)) = - 1"
    by (simp add: dispatch_issue_def movement_direction_def INBOUND_TYPES_def OUTBOUND_TYPES_def)
  have args: "is_warehouse_id (dispatch_issue a order i item) = so_warehouse_id order"
      "is_product_id (dispatch_issue a order i item) = ot_product_id item"
      "is_base_quantity (dispatch_issue a order i item) = ot_base_quantity item"
    by (simp_all add: dispatch_issue_def)
  note iss = issue_keeps [OF v2 rel(1) dir]
  show ?case
    using Cons.IH [OF m(2) iss(1) iss(2) [OF rel(2)]] iss(3,4) rel(4,5) by (auto simp: shipped_def args)
qed (simp add: shipped_def)

definition order_booked :: "dispatch_args \<Rightarrow> sales_order \<Rightarrow> sales_invoice \<Rightarrow> books \<Rightarrow> books \<Rightarrow> bool" where
  "order_booked a order invoice b b' \<longleftrightarrow>
     si_grand_total invoice \<le> 0 \<and> b' = b \<or>
     0 < si_grand_total invoice \<and> (\<exists>e. post_journal (order_journal a order invoice) b = Inr (e, b'))"

lemma post_order_journal_ok:
  "post_order_journal a order invoice s = Inr t \<longleftrightarrow>
   (\<exists>b. order_booked a order invoice (db_books s) b \<and> t = s\<lparr>db_books := b\<rparr>)"
  by (auto simp: post_order_journal_def order_booked_def on_books_ok)

lemma dispatch_cases:
  assumes "dispatch_and_invoice a s = Inr (r, t)" "ids_ok s"
  obtains order number q invoice items v b where "get_order (da_sales_order_id a) s = Some order"
    "so_organization_id order = da_organization_id a" "so_status order = CONFIRMED"
    "items = filter (\<lambda>i. ot_sales_order_id i = da_sales_order_id a) (db_order_items s)"
    "invoice = order_invoice a order number s"
    "fold_res (ship_on a order (si_id invoice)) items (db_inventory s) = Inr v"
    "order_booked a order invoice (db_books s) b"
    "t = s\<lparr>db_numbering := q, db_inventory := v, db_invoices := db_invoices s @ [invoice],
       db_invoice_items := db_invoice_items s @ map (dispatched_item (si_id invoice)) items,
       db_order_items := upd_rows (\<lambda>i. ot_sales_order_id i = da_sales_order_id a)
         (\<lambda>i. i\<lparr>ot_dispatched_quantity := ot_base_quantity i\<rparr>) (db_order_items s),
       db_orders := upd_first (\<lambda>v. so_id v = da_sales_order_id a)
         (\<lambda>v. v\<lparr>so_status := INVOICED, so_sales_invoice_id := Some (si_id invoice)\<rparr>) (db_orders s),
       db_books := b, db_next := Suc (db_next s)\<rparr>"
    "r = \<lparr>dr_sales_order_id = da_sales_order_id a, dr_sales_invoice_id = si_id invoice,
          dr_invoice_number = number, dr_grand_total = si_grand_total invoice\<rparr>"
proof -
  obtain order where o: "get_order (da_sales_order_id a) s = Some order" "so_organization_id order = da_organization_id a"
      "so_status order = CONFIRMED"
    using assms(1) by (auto simp: dispatch_and_invoice_def split: option.splits if_splits)
  have oid: "so_id order = da_sales_order_id a" using o(1) by (auto simp: get_order_def dest: first_row_Some)
  obtain number s1 where n: "issue_number (da_organization_id a) ''sales_invoice'' (so_branch_id order) s = (number, s1)"
    by fastforce
  then obtain q where s1: "s1 = s\<lparr>db_numbering := q\<rparr>" using issue_number_ok by blast
  define invoice where "invoice = order_invoice a order number s"
  have d: "order_invoice a order number s1 = invoice" by (simp add: invoice_def order_invoice_def s1)
  define items where "items = filter (\<lambda>i. ot_sales_order_id i = da_sales_order_id a) (db_order_items s)"
  obtain s2 s3 where i: "insert_invoice invoice s1 = Inr s2"
    and l: "fold_res (dispatch_item a order (si_id invoice)) items s2 = Inr s3"
    and k: "post_order_journal a order invoice (update_order (da_sales_order_id a)
        (\<lambda>v. v\<lparr>so_status := INVOICED, so_sales_invoice_id := Some (si_id invoice)\<rparr>)
        (set_dispatched_quantities (da_sales_order_id a) s3)) = Inr t"
    and r: "r = \<lparr>dr_sales_order_id = da_sales_order_id a, dr_sales_invoice_id = si_id invoice,
      dr_invoice_number = number, dr_grand_total = si_grand_total invoice\<rparr>"
    using assms(1) o by (auto simp: dispatch_and_invoice_def n d oid Let_def simp flip: items_def)
  have s2: "s2 = s1\<lparr>db_invoices := db_invoices s @ [invoice], db_next := Suc (db_next s)\<rparr>"
    using insert_invoice_ok [OF i] by (simp add: s1)
  obtain v where v: "fold_res (ship_on a order (si_id invoice)) items (db_inventory s2) = Inr v"
    "s3 = s2\<lparr>db_inventory := v, db_invoice_items := db_invoice_items s2 @ map (dispatched_item (si_id invoice)) items\<rparr>"
    using dispatch_items_ok [OF l] by blast
  define s4 where "s4 = update_order (da_sales_order_id a)
      (\<lambda>v. v\<lparr>so_status := INVOICED, so_sales_invoice_id := Some (si_id invoice)\<rparr>)
      (set_dispatched_quantities (da_sales_order_id a) s3)"
  have bk: "db_books s4 = db_books s"
    by (simp add: s4_def update_order_def set_dispatched_quantities_def v(2) s2 s1)
  obtain b where b: "order_booked a order invoice (db_books s) b" "t = s4\<lparr>db_books := b\<rparr>"
    using k [folded s4_def] unfolding post_order_journal_ok bk by blast
  show ?thesis
  proof (rule that [OF o items_def invoice_def _ b(1) _ r])
    show "fold_res (ship_on a order (si_id invoice)) items (db_inventory s) = Inr v" using v(1) by (simp add: s2 s1)
    show "t = s\<lparr>db_numbering := q, db_inventory := v, db_invoices := db_invoices s @ [invoice],
       db_invoice_items := db_invoice_items s @ map (dispatched_item (si_id invoice)) items,
       db_order_items := upd_rows (\<lambda>i. ot_sales_order_id i = da_sales_order_id a)
         (\<lambda>i. i\<lparr>ot_dispatched_quantity := ot_base_quantity i\<rparr>) (db_order_items s),
       db_orders := upd_first (\<lambda>v. so_id v = da_sales_order_id a)
         (\<lambda>v. v\<lparr>so_status := INVOICED, so_sales_invoice_id := Some (si_id invoice)\<rparr>) (db_orders s),
       db_books := b, db_next := Suc (db_next s)\<rparr>"
      by (simp add: b(2) s4_def update_order_def set_dispatched_quantities_def v(2) s2 s1)
  qed
qed

lemma ordered_lines_ok:
  "catalogue_ok ps \<Longrightarrow> list_all2 (ordered_as ps) ls rs \<Longrightarrow> \<forall>r \<in> set rs. line_amounts_ok r"
  by (erule list_all2_right) (rule ordered_as_ok)

text \<open>The amounts of an order that becomes an invoice.\<close>

definition order_ok :: "sales_order \<Rightarrow> bool" where
  "order_ok v \<longleftrightarrow>
     paisa_grid (so_subtotal v) \<and> paisa_grid (so_tax_total v) \<and> so_grand_total v = so_subtotal v + so_tax_total v
     \<and> 0 \<le> so_subtotal v \<and> 0 \<le> so_tax_total v"

lemma totalled_sel [simp]:
  "so_id (totalled rs v) = so_id v" "so_organization_id (totalled rs v) = so_organization_id v"
  "so_status (totalled rs v) = so_status v" "so_sales_invoice_id (totalled rs v) = so_sales_invoice_id v"
  "so_subtotal (totalled rs v) = Money (\<Sum>r\<leftarrow>rs. pr_net_amount r)"
  "so_tax_total (totalled rs v) = Money (\<Sum>r\<leftarrow>rs. pr_tax_amount r)"
  "so_grand_total (totalled rs v) = Money (\<Sum>r\<leftarrow>rs. pr_total_amount r)"
  by (simp_all add: totalled_def)

lemma totalled_ok: "\<forall>r \<in> set rs. line_amounts_ok r \<Longrightarrow> order_ok (totalled rs v)"
proof -
  assume *: "\<forall>r \<in> set rs. line_amounts_ok r"
  have "Money (\<Sum>r\<leftarrow>rs. pr_total_amount r) = Money (\<Sum>r\<leftarrow>rs. pr_net_amount r) + Money (\<Sum>r\<leftarrow>rs. pr_tax_amount r)"
    using line_totals [OF *] by simp
  then show ?thesis using line_totals(5,6) [OF *] by (simp add: order_ok_def Money_nonneg)
qed

lemma order_invoice_ok: "order_ok order \<Longrightarrow> invoice_ok (order_invoice a order number s)"
  by (auto simp: order_ok_def invoice_ok_def order_invoice_def derive_status_def)

end
