(* ===== verification/Collections.thy ===== *)
theory Collections
  imports Wholesale
begin

text \<open>
  Customer payments, \<open>app/modules/collections/service.py\<close> and the mutating endpoint of
  \<open>app/modules/collections/api.py\<close>: a receipt is spread over the customer's open invoices oldest first,
  their status follows, and the journal turns the receivable into money.
\<close>

section \<open>Receiving a payment\<close>

record collection_result =
  cr_payment_id :: uuid
  cr_allocated_total :: decimal
  cr_unallocated :: decimal
  cr_settled_invoice_ids :: "uuid list"

record receipt_args =
  ra_organization_id :: uuid
  ra_customer_id :: uuid
  ra_amount :: decimal
  ra_method :: payment_method
  ra_payment_date :: date
  ra_branch_id :: "uuid option"
  ra_reference :: "string option"
  ra_created_by :: "uuid option"

text \<open>\<open>_outstanding_invoices\<close>: the open invoices by date, then by creation.\<close>

definition outstanding_invoices :: "uuid \<Rightarrow> uuid \<Rightarrow> database \<Rightarrow> sales_invoice list" where
  "outstanding_invoices organization_id customer_id s =
     sort_key (\<lambda>v. (si_invoice_date v, si_created_at v))
       (filter (\<lambda>v. si_organization_id v = organization_id \<and> si_customer_id v = Some customer_id
          \<and> si_payment_status v \<noteq> PAID) (db_invoices s))"

definition outstanding_of :: "sales_invoice \<Rightarrow> outstanding_invoice" where
  "outstanding_of v = \<lparr>oi_invoice_id = si_id v, oi_outstanding = si_grand_total v - si_paid_amount v\<rparr>"

definition settled_by :: "decimal \<Rightarrow> sales_invoice \<Rightarrow> sales_invoice" where
  "settled_by amount v =
     (let paid = Money (si_paid_amount v + amount)
      in v\<lparr>si_paid_amount := paid, si_payment_status := (if si_grand_total v \<le> paid then PAID else PARTIAL)\<rparr>)"

text \<open>
  One round of the allocation loop: the invoice, whether it is settled now, and the allocation row.
  The invoices of the map are rows of the table.
\<close>

definition settle_invoice :: "uuid \<Rightarrow> invoice_allocation \<Rightarrow> database \<Rightarrow> (uuid list \<times> database) res" where
  "settle_invoice payment_id alloc s =
     (let s1 = update_invoice (ia_invoice_id alloc) (settled_by (ia_amount alloc)) s
      in case get_invoice (ia_invoice_id alloc) s1 of
           None \<Rightarrow> Inl KeyError
         | Some invoice \<Rightarrow> Inr (if si_payment_status invoice = PAID then [si_id invoice] else [],
             s1\<lparr>db_payment_allocations := db_payment_allocations s1 @
                 [\<lparr>pl_payment_id = payment_id, pl_sales_invoice_id = Some (si_id invoice), pl_amount = ia_amount alloc\<rparr>]\<rparr>))"

definition receipt_row :: "receipt_args \<Rightarrow> database \<Rightarrow> payment" where
  "receipt_row a s =
     \<lparr>py_id = db_next s, py_organization_id = ra_organization_id a, py_branch_id = ra_branch_id a,
      py_customer_id = Some (ra_customer_id a), py_direction = INBOUND, py_method = ra_method a,
      py_amount = Money (ra_amount a), py_reference = ra_reference a,
      py_received_at = iv_now (db_inventory s), py_created_by = ra_created_by a\<rparr>"

definition receipt_journal :: "receipt_args \<Rightarrow> uuid \<Rightarrow> post_args" where
  "receipt_journal a payment_id =
     \<lparr>pa_organization_id = ra_organization_id a, pa_entry_date = ra_payment_date a,
      pa_lines = [debit_line (method_account (ra_method a)) (Money (ra_amount a)),
                  credit_line ''AR'' (Money (ra_amount a))],
      pa_branch_id = ra_branch_id a, pa_source_document_type = Some ''payment'',
      pa_source_document_id = Some payment_id, pa_created_by = ra_created_by a\<rparr>"

definition receive_payment :: "receipt_args \<Rightarrow> database \<Rightarrow> (collection_result \<times> database) res" where
  "receive_payment a s =
     (if ra_amount a \<le> 0 then Inl business_rule
      else let row = receipt_row a s;
               s1 = s\<lparr>db_payments := db_payments s @ [row], db_next := Suc (db_next s)\<rparr>;
               invoices = outstanding_invoices (ra_organization_id a) (ra_customer_id a) s1
      in res_bind (allocate_payment (ra_amount a) (map outstanding_of invoices)) (\<lambda>r.
         res_bind (map_state (settle_invoice (py_id row)) (ar_allocations r) s1) (\<lambda>(settled, s2).
         res_bind (on_books (post_journal (receipt_journal a (py_id row))) s2) (\<lambda>(_, s3).
         Inr (\<lparr>cr_payment_id = py_id row, cr_allocated_total = ar_allocated_total r,
               cr_unallocated = ar_unallocated r, cr_settled_invoice_ids = concat settled\<rparr>, s3)))))"

definition customer_ledger_balance :: "uuid \<Rightarrow> uuid \<Rightarrow> database \<Rightarrow> decimal" where
  "customer_ledger_balance organization_id customer_id s =
     Money (\<Sum>v\<leftarrow>outstanding_invoices organization_id customer_id s. si_grand_total v - si_paid_amount v)"

section \<open>The endpoint\<close>

record receive_payment_request =
  rp_customer_id :: uuid
  rp_amount :: decimal
  rp_method :: payment_method
  rp_reference :: "string option"

definition post_payment :: "current_user \<Rightarrow> receive_payment_request \<Rightarrow> database \<Rightarrow> (collection_result \<times> database) res" where
  "post_payment user payload s =
     res_bind (require_permission ''payment.receive'' user) (\<lambda>user.
     receive_payment
       \<lparr>ra_organization_id = cu_organization_id user, ra_customer_id = rp_customer_id payload,
        ra_amount = rp_amount payload, ra_method = rp_method payload, ra_payment_date = today s,
        ra_branch_id = None, ra_reference = rp_reference payload, ra_created_by = Some (cu_user_id user)\<rparr> s)"

text \<open>The listing of a customer's open invoices.\<close>

definition outstanding_listing :: "current_user \<Rightarrow> uuid \<Rightarrow> database \<Rightarrow> (sales_invoice list \<times> decimal) res" where
  "outstanding_listing user customer_id s =
     res_bind (require_permission ''payment.receive'' user) (\<lambda>user.
     let invoices = outstanding_invoices (cu_organization_id user) customer_id s
     in Inr (invoices, Money (\<Sum>v\<leftarrow>invoices. si_grand_total v - si_paid_amount v)))"

section \<open>The settlement loop\<close>

definition allocation_row :: "uuid \<Rightarrow> invoice_allocation \<Rightarrow> payment_allocation" where
  "allocation_row payment_id al =
     \<lparr>pl_payment_id = payment_id, pl_sales_invoice_id = Some (ia_invoice_id al), pl_amount = ia_amount al\<rparr>"

definition settle_all :: "invoice_allocation list \<Rightarrow> sales_invoice list \<Rightarrow> sales_invoice list" where
  "settle_all als vs = fold (\<lambda>al. upd_first (\<lambda>v. si_id v = ia_invoice_id al) (settled_by (ia_amount al))) als vs"

lemma settled_by_sel [simp]:
  "si_id (settled_by x v) = si_id v" "si_organization_id (settled_by x v) = si_organization_id v"
  "si_customer_id (settled_by x v) = si_customer_id v" "si_grand_total (settled_by x v) = si_grand_total v"
  by (simp_all add: settled_by_def Let_def)

lemma settle_invoice_ok:
  assumes "settle_invoice p al s = Inr (ids, t)"
  shows "t = s\<lparr>db_invoices := upd_first (\<lambda>v. si_id v = ia_invoice_id al) (settled_by (ia_amount al)) (db_invoices s),
    db_payment_allocations := db_payment_allocations s @ [allocation_row p al]\<rparr>"
  using assms
  by (auto simp: settle_invoice_def update_invoice_def get_invoice_def allocation_row_def Let_def
      dest: first_row_Some split: option.splits)

lemma settle_loop_ok:
  "map_state (settle_invoice p) als s = Inr (settled, t) \<Longrightarrow>
   t = s\<lparr>db_invoices := settle_all als (db_invoices s),
     db_payment_allocations := db_payment_allocations s @ map (allocation_row p) als\<rparr>"
proof (induction als arbitrary: s settled)
  case (Cons al als)
  obtain ids m settled' where m: "settle_invoice p al s = Inr (ids, m)" "map_state (settle_invoice p) als m = Inr (settled', t)"
    using Cons.prems by (auto simp only: map_state_Cons_ok)
  show ?case using Cons.IH [OF m(2)] by (simp add: settle_invoice_ok [OF m(1)] settle_all_def)
qed (simp add: settle_all_def)

lemma settled_by_ok:
  assumes "invoice_ok v" "0 < x" "x \<le> open_amount v" "paisa_grid x"
  shows "invoice_ok (settled_by x v)" "open_amount (settled_by x v) = open_amount v - x"
proof -
  have m: "Money (si_paid_amount v + x) = si_paid_amount v + x"
    using assms by (intro Money_id on_grid_add) (auto simp: invoice_ok_def)
  show "invoice_ok (settled_by x v)"
    using assms by (auto simp: settled_by_def Let_def m invoice_ok_def open_amount_def derive_status_def)
  show "open_amount (settled_by x v) = open_amount v - x"
    by (simp add: settled_by_def Let_def m open_amount_def)
qed

text \<open>
  Settling invoices that belong to \<open>P\<close> keeps the invoices consistent and lowers the open amounts of
  every selection that contains \<open>P\<close> by what is allocated.
\<close>

lemma settle_all_keeps:
  assumes "distinct (map si_id vs)" "\<forall>v \<in> set vs. invoice_ok v" "distinct (map ia_invoice_id als)"
    and "\<forall>al \<in> set als. \<exists>v \<in> set vs. si_id v = ia_invoice_id al \<and> P v \<and> 0 < ia_amount al
      \<and> ia_amount al \<le> open_amount v \<and> paisa_grid (ia_amount al)"
    and P: "\<And>x v. P (settled_by x v) = P v" and Q: "\<And>x v. Q (settled_by x v) = Q v"
    and PQ: "\<And>v. P v \<Longrightarrow> Q v = b"
  shows "map si_id (settle_all als vs) = map si_id vs \<and> (\<forall>v \<in> set (settle_all als vs). invoice_ok v)
    \<and> sum_rows Q open_amount (settle_all als vs)
      = sum_rows Q open_amount vs - (if b then (\<Sum>al\<leftarrow>als. ia_amount al) else 0)"
  using assms(1-4)
proof (induction als arbitrary: vs)
  case Nil
  then show ?case by (simp add: settle_all_def)
next
  case (Cons al als)
  let ?p = "\<lambda>v. si_id v = ia_invoice_id al"
  let ?vs = "upd_first ?p (settled_by (ia_amount al)) vs"
  obtain v where v: "v \<in> set vs" "si_id v = ia_invoice_id al" "P v" "0 < ia_amount al" "ia_amount al \<le> open_amount v"
      "paisa_grid (ia_amount al)"
    using Cons.prems(4) by auto
  obtain v' where v': "first_row ?p vs = Some v'" using v(1,2) first_row_None [of ?p vs] by (cases "first_row ?p vs") auto
  have "v' = v" using first_row_Some [OF v'] v(1,2) Cons.prems(1) inj_onD [of si_id "set vs" v' v]
    by (simp add: distinct_map)
  with v' have f: "first_row ?p vs = Some v" by simp
  note st = settled_by_ok [OF _ v(4,5,6)]
  have ok: "invoice_ok v" using Cons.prems(2) v(1) by blast
  obtain xs ys where split: "vs = xs @ v # ys" "?vs = xs @ settled_by (ia_amount al) v # ys"
    using upd_first_eq_list_update [OF f, of "settled_by (ia_amount al)"] by blast
  have ids: "map si_id ?vs = map si_id vs" by (rule map_upd_first) simp
  have oks: "\<forall>v \<in> set ?vs. invoice_ok v"
    using Cons.prems(2) st(1) [OF ok] by (auto simp: split(1) split(2)[unfolded split(1)])
  have alloc: "\<forall>bl \<in> set als. \<exists>w \<in> set ?vs. si_id w = ia_invoice_id bl \<and> P w \<and> 0 < ia_amount bl
      \<and> ia_amount bl \<le> open_amount w \<and> paisa_grid (ia_amount bl)"
  proof
    fix bl assume bl: "bl \<in> set als"
    then obtain w where w: "w \<in> set vs" "si_id w = ia_invoice_id bl" "P w" "0 < ia_amount bl"
        "ia_amount bl \<le> open_amount w" "paisa_grid (ia_amount bl)"
      using Cons.prems(4) by auto
    have "si_id w \<noteq> si_id v" using imageI [OF bl, of ia_invoice_id] Cons.prems(3) w(2) v(2) by auto
    then have "w \<in> set ?vs" using w(1) by (auto simp: split(1) split(2)[unfolded split(1)])
    then show "\<exists>w \<in> set ?vs. si_id w = ia_invoice_id bl \<and> P w \<and> 0 < ia_amount bl
      \<and> ia_amount bl \<le> open_amount w \<and> paisa_grid (ia_amount bl)" using w by blast
  qed
  have "sum_rows Q open_amount ?vs = sum_rows Q open_amount vs - (if b then ia_amount al else 0)"
    using sum_rows_upd_first [OF f, where q = Q and g = open_amount and f = "settled_by (ia_amount al)"] Q PQ [OF v(3)]
    by (simp add: st(2) [OF ok])
  moreover have "settle_all (al # als) vs = settle_all als ?vs" by (simp add: settle_all_def)
  moreover have "distinct (map si_id ?vs)" "distinct (map ia_invoice_id als)" using Cons.prems(1,3) ids by simp_all
  ultimately show ?case using Cons.IH [of ?vs] oks alloc ids by simp
qed

lemma outstanding_invoices_in:
  "v \<in> set (outstanding_invoices org c s) \<longleftrightarrow> v \<in> set (db_invoices s) \<and> si_organization_id v = org
     \<and> si_customer_id v = Some c \<and> si_payment_status v \<noteq> PAID"
  by (auto simp: outstanding_invoices_def)

lemma outstanding_of_sel [simp]:
  "oi_invoice_id (outstanding_of v) = si_id v" "oi_outstanding (outstanding_of v) = open_amount v"
  by (simp_all add: outstanding_of_def open_amount_def)

lemma outstanding_invoices_ids:
  "distinct (map si_id (db_invoices s)) \<Longrightarrow> distinct (map si_id (outstanding_invoices org c s))"
  by (simp add: outstanding_invoices_def distinct_map_filter distinct_map inj_on_def)

lemma receive_payment_cases:
  assumes "receive_payment a s = Inr (r, t)" "ids_ok s" "\<forall>v \<in> set (db_invoices s). invoice_ok v"
  obtains res settled e b where "0 < ra_amount a"
    "allocate_payment (ra_amount a) (map outstanding_of (outstanding_invoices (ra_organization_id a) (ra_customer_id a) s)) = Inr res"
    "distinct (map ia_invoice_id (ar_allocations res))"
    "\<forall>al \<in> set (ar_allocations res). \<exists>v \<in> set (db_invoices s). si_id v = ia_invoice_id al
      \<and> si_organization_id v = ra_organization_id a \<and> si_customer_id v = Some (ra_customer_id a) \<and> 0 < ia_amount al
      \<and> ia_amount al \<le> open_amount v \<and> paisa_grid (ia_amount al)"
    "ar_allocated_total res = (\<Sum>al\<leftarrow>ar_allocations res. ia_amount al)"
    "post_journal (receipt_journal a (db_next s)) (db_books s) = Inr (e, b)"
    "t = s\<lparr>db_payments := db_payments s @ [receipt_row a s], db_next := Suc (db_next s),
       db_invoices := settle_all (ar_allocations res) (db_invoices s),
       db_payment_allocations := db_payment_allocations s @ map (allocation_row (db_next s)) (ar_allocations res),
       db_books := b\<rparr>"
    "r = \<lparr>cr_payment_id = db_next s, cr_allocated_total = ar_allocated_total res,
          cr_unallocated = ar_unallocated res, cr_settled_invoice_ids = concat settled\<rparr>"
proof -
  define s1 where "s1 = s\<lparr>db_payments := db_payments s @ [receipt_row a s], db_next := Suc (db_next s)\<rparr>"
  let ?invs = "outstanding_invoices (ra_organization_id a) (ra_customer_id a) s"
  have o: "outstanding_invoices (ra_organization_id a) (ra_customer_id a) s1 = ?invs"
    by (simp add: outstanding_invoices_def s1_def)
  have id: "py_id (receipt_row a s) = db_next s" by (simp add: receipt_row_def)
  obtain res settled s2 e where pos: "0 < ra_amount a"
    and al: "allocate_payment (ra_amount a) (map outstanding_of ?invs) = Inr res"
    and l: "map_state (settle_invoice (db_next s)) (ar_allocations res) s1 = Inr (settled, s2)"
    and j: "on_books (post_journal (receipt_journal a (db_next s))) s2 = Inr (e, t)"
    and r: "r = \<lparr>cr_payment_id = db_next s, cr_allocated_total = ar_allocated_total res,
          cr_unallocated = ar_unallocated res, cr_settled_invoice_ids = concat settled\<rparr>"
    using assms(1) by (auto simp: receive_payment_def Let_def id o not_le simp flip: s1_def split: if_splits)
  have s2: "s2 = s1\<lparr>db_invoices := settle_all (ar_allocations res) (db_invoices s),
      db_payment_allocations := db_payment_allocations s @ map (allocation_row (db_next s)) (ar_allocations res)\<rparr>"
    using settle_loop_ok [OF l] by (simp add: s1_def)
  obtain b where b: "post_journal (receipt_journal a (db_next s)) (db_books s) = Inr (e, b)" "t = s2\<lparr>db_books := b\<rparr>"
    using j by (auto simp: on_books_ok s2 s1_def)
  have grid: "\<forall>i \<in> set (map outstanding_of ?invs). paisa_grid (oi_outstanding i)"
    using assms(3) invoice_ok_grid by (auto simp: outstanding_invoices_in)
  note sh = allocate_payment_shares [OF al grid]
  have ids: "map oi_invoice_id (map outstanding_of ?invs) = map si_id ?invs" by simp
  have dist: "distinct (map ia_invoice_id (ar_allocations res))"
    by (rule sh(2)) (use assms(2) outstanding_invoices_ids in \<open>simp only: ids ids_ok_def\<close>)
  have targets: "\<forall>al \<in> set (ar_allocations res). \<exists>v \<in> set (db_invoices s). si_id v = ia_invoice_id al
      \<and> si_organization_id v = ra_organization_id a \<and> si_customer_id v = Some (ra_customer_id a) \<and> 0 < ia_amount al
      \<and> ia_amount al \<le> open_amount v \<and> paisa_grid (ia_amount al)"
    using sh(1) by (fastforce simp: outstanding_invoices_in)
  show ?thesis
    by (rule that [OF pos al dist targets sh(3) b(1) _ r]) (simp add: b(2) s2 s1_def)
qed

end
