(* ===== verification/Receivables.thy ===== *)
theory Receivables
  imports Collections
begin

text \<open>
  What the sales documents and the books owe each other. The theory states the invariant of the
  database and shows that every document operation keeps it: identities are unique, invoices and
  orders add up, the stock ledger and the books are consistent, and the receivables account of every
  organization is what its invoices are short of, less the payments not yet applied to an invoice.
\<close>

section \<open>Open invoices and unapplied payments\<close>

definition receivable :: "uuid \<Rightarrow> sales_invoice list \<Rightarrow> decimal" where
  "receivable org vs = sum_rows (\<lambda>v. si_organization_id v = org) open_amount vs"

definition unapplied :: "uuid \<Rightarrow> payment list \<Rightarrow> payment_allocation list \<Rightarrow> decimal" where
  "unapplied org ps ls =
     sum_rows (\<lambda>p. py_organization_id p = org) py_amount ps
     - sum_rows (\<lambda>l. \<exists>p \<in> set ps. py_id p = pl_payment_id l \<and> py_organization_id p = org) pl_amount ls"

definition receivables_agree :: "database \<Rightarrow> bool" where
  "receivables_agree s \<longleftrightarrow> (\<forall>org. account_balance org ''AR'' (db_books s)
     = receivable org (db_invoices s) - unapplied org (db_payments s) (db_payment_allocations s))"

lemma sum_rows_cong:
  "(\<And>r. r \<in> set rs \<Longrightarrow> p r = q r) \<Longrightarrow> sum_rows p g rs = sum_rows q g rs"
  unfolding sum_rows_def by (metis filter_cong)

text \<open>New payments of one organization, allocated in part, add what they leave unallocated.\<close>

lemma unapplied_extend:
  assumes "\<forall>p \<in> set ps. py_id p < n" "\<forall>l \<in> set ls. pl_payment_id l < n"
    and "\<forall>p \<in> set qs. n \<le> py_id p \<and> py_organization_id p = o'"
    and "\<forall>l \<in> set ms. \<exists>p \<in> set qs. py_id p = pl_payment_id l"
  shows "unapplied org (ps @ qs) (ls @ ms) = unapplied org ps ls
    + (if org = o' then (\<Sum>p\<leftarrow>qs. py_amount p) - (\<Sum>l\<leftarrow>ms. pl_amount l) else 0)"
proof -
  let ?q = "\<lambda>l. \<exists>p \<in> set (ps @ qs). py_id p = pl_payment_id l \<and> py_organization_id p = org"
  have old: "sum_rows ?q pl_amount ls
      = sum_rows (\<lambda>l. \<exists>p \<in> set ps. py_id p = pl_payment_id l \<and> py_organization_id p = org) pl_amount ls"
    using assms(2,3) by (intro sum_rows_cong) fastforce
  have new: "?q l \<longleftrightarrow> org = o'" if "l \<in> set ms" for l
  proof -
    obtain p where p: "p \<in> set qs" "py_id p = pl_payment_id l" using assms(4) \<open>l \<in> set ms\<close> by blast
    then have "n \<le> pl_payment_id l" using assms(3) by metis
    then have "py_id p' \<noteq> pl_payment_id l" if "p' \<in> set ps" for p' using assms(1) that by fastforce
    then show ?thesis using p assms(3) by fastforce
  qed
  have ms: "sum_rows ?q pl_amount ms = (if org = o' then (\<Sum>l\<leftarrow>ms. pl_amount l) else 0)"
    using new by (auto simp: sum_rows_all sum_rows_none)
  have qs: "sum_rows (\<lambda>p. py_organization_id p = org) py_amount qs = (if org = o' then (\<Sum>p\<leftarrow>qs. py_amount p) else 0)"
    using assms(3) by (auto simp: sum_rows_all sum_rows_none)
  show ?thesis by (simp only: unapplied_def sum_rows_append old ms qs) simp
qed

section \<open>The invariant of the database\<close>

definition database_ok :: "database \<Rightarrow> bool" where
  "database_ok s \<longleftrightarrow>
     ids_ok s \<and> catalogue_ok (db_products s) \<and> ledger_ok (db_inventory s) \<and> books_ok (db_books s)
     \<and> (\<forall>v \<in> set (db_invoices s). invoice_ok v) \<and> (\<forall>v \<in> set (db_orders s). order_ok v)
     \<and> receivables_agree s"

section \<open>The journals of the documents\<close>

lemma method_account_not_AR: "method_account m \<noteq> ''AR''"
  by (cases m) (simp_all add: method_account_def PAYMENT_METHOD_ACCOUNT_def)

lemma posted_amount_append: "posted_amount c (xs @ ys) = posted_amount c xs + posted_amount c ys"
  by (simp add: posted_amount_def sum_rows_append)

lemma posted_amount_Cons:
  "posted_amount c (l # ls) = (if ln_account_code l = c then Money (ln_debit l) - Money (ln_credit l) else 0)
     + posted_amount c ls"
  by (simp add: posted_amount_def sum_rows_Cons)

lemma posted_amount_Nil: "posted_amount c [] = 0"
  by (simp add: posted_amount_def)

lemmas posted_amount_simps = posted_amount_append posted_amount_Cons posted_amount_Nil

lemma posted_payments: "posted_amount ''AR'' (map (\<lambda>p. debit_line (method_account (pn_method p)) (f p)) ps) = 0"
  by (induction ps) (simp_all add: posted_amount_simps debit_line_def method_account_not_AR)

lemma sale_journal_AR:
  assumes "invoice_ok v"
  shows "posted_amount ''AR'' (sale_journal_lines v ps) = open_amount v"
proof -
  have "Money (si_grand_total v - si_paid_amount v) = open_amount v" "0 \<le> open_amount v"
    using assms invoice_ok_grid [OF assms] by (auto simp: open_amount_def Money_id invoice_ok_def)
  then show ?thesis
    by (auto simp: sale_journal_lines_def Let_def posted_amount_simps posted_payments)
      (auto simp: credit_line_def debit_line_def posted_amount_simps open_amount_def)
qed

lemma order_journal_AR: "invoice_ok v \<Longrightarrow> posted_amount ''AR'' (order_journal_lines v) = si_grand_total v"
  using invoice_ok_grid [of v]
  by (auto simp: order_journal_lines_def posted_amount_simps debit_line_def credit_line_def Money_id)

lemma receipt_journal_AR: "posted_amount ''AR'' (pa_lines (receipt_journal a i)) = - Money (ra_amount a)"
  by (simp add: receipt_journal_def posted_amount_simps debit_line_def credit_line_def method_account_not_AR)

lemma journals_on_grid:
  "lines_on_grid (sale_journal_lines v ps)" "lines_on_grid (order_journal_lines v)"
  "lines_on_grid (pa_lines (receipt_journal a i))"
  by (auto simp: lines_on_grid_def sale_journal_lines_def order_journal_lines_def receipt_journal_def Let_def
      debit_line_def credit_line_def)

section \<open>A sale keeps the invariant\<close>

lemma check_payment_le: "check_payment c paid grand s = Inr () \<Longrightarrow> paid \<le> grand"
  by (auto simp: check_payment_def split: if_splits)

lemma payment_rows_in: "v \<in> set (payment_rows a now ps n) \<Longrightarrow> n \<le> py_id v \<and> py_id v < n + length ps"
proof -
  assume "v \<in> set (payment_rows a now ps n)"
  then have "py_id v \<in> set (map py_id (payment_rows a now ps n))" by simp
  then show ?thesis unfolding payment_rows_ids by simp
qed

lemma allocation_rows_in: "l \<in> set (allocation_rows i ps n) \<Longrightarrow> n \<le> pl_payment_id l \<and> pl_payment_id l < n + length ps"
proof -
  assume "l \<in> set (allocation_rows i ps n)"
  then have "pl_payment_id l \<in> set (map pl_payment_id (allocation_rows i ps n))" by simp
  then show ?thesis unfolding allocation_rows_ids by simp
qed

lemma sale_unapplied:
  assumes "ids_ok s"
  shows "unapplied org (db_payments s @ payment_rows a now ps (Suc (db_next s)))
      (db_payment_allocations s @ allocation_rows i ps (Suc (db_next s)))
    = unapplied org (db_payments s) (db_payment_allocations s)"
proof -
  let ?qs = "payment_rows a now ps (Suc (db_next s))" and ?ms = "allocation_rows i ps (Suc (db_next s))"
  have "\<exists>p \<in> set ?qs. py_id p = pl_payment_id l" if "l \<in> set ?ms" for l
  proof -
    have "pl_payment_id l \<in> set (map py_id ?qs)" using allocation_rows_in [OF that] by (auto simp: payment_rows_ids)
    then show ?thesis by auto
  qed
  then have "unapplied org (db_payments s @ ?qs) (db_payment_allocations s @ ?ms)
      = unapplied org (db_payments s) (db_payment_allocations s)
        + (if org = rs_organization_id a then (\<Sum>p\<leftarrow>?qs. py_amount p) - (\<Sum>l\<leftarrow>?ms. pl_amount l) else 0)"
    using assms payment_rows_in [of _ a now ps] payment_rows_org [of _ a now ps]
    by (intro unapplied_extend [where n = "db_next s"]) (fastforce simp: ids_ok_def)+
  then show ?thesis by (simp add: payment_rows_amounts allocation_rows_amounts)
qed

lemma sale_books:
  assumes "sale_booked a v b b'" "books_ok b" "invoice_ok v" "si_organization_id v = rs_organization_id a"
  shows "books_ok b'" "account_balance org ''AR'' b' = account_balance org ''AR'' b
    + (if si_organization_id v = org then open_amount v else 0)"
proof -
  have l: "pa_lines (sale_journal a v) = sale_journal_lines v (rs_payments a)"
    "pa_organization_id (sale_journal a v) = rs_organization_id a" by (simp_all add: sale_journal_def)
  consider "si_grand_total v \<le> 0" "b' = b" | e where "post_journal (sale_journal a v) b = Inr (e, b')"
    using assms(1) by (auto simp: sale_booked_def)
  then have "books_ok b' \<and> account_balance org ''AR'' b' = account_balance org ''AR'' b
    + (if si_organization_id v = org then open_amount v else 0)"
  proof cases
    case 1
    then have "open_amount v = 0" using assms(3) by (simp add: invoice_ok_def open_amount_def)
    then show ?thesis using 1 assms(2) by simp
  next
    case 2
    have "books_ok b'" by (rule post_journal_books_ok [OF 2 assms(2)]) (simp add: l journals_on_grid)
    then show ?thesis
      using post_journal_balance [OF assms(2) 2] assms(4) by (simp add: l sale_journal_AR [OF assms(3)])
  qed
  then show "books_ok b'" "account_balance org ''AR'' b' = account_balance org ''AR'' b
    + (if si_organization_id v = org then open_amount v else 0)" by simp_all
qed

lemma receivable_append: "receivable org (vs @ [v]) = receivable org vs + (if si_organization_id v = org then open_amount v else 0)"
  by (simp add: receivable_def sum_rows_append sum_rows_Cons)

lemma issues_ledger_ok:
  "map_state (\<lambda>l. issue_fefo (f l)) ls v = Inr (ms, t) \<Longrightarrow> ledger_ok v \<Longrightarrow> ledger_ok t"
  by (rule map_state_invariant [where I = ledger_ok])
    (auto simp: issue_fefo_ok intro: map_state_post_ledger_ok)

lemma sale_keeps:
  assumes "create_retail_invoice a s = Inr (r, t)" "database_ok s" "payments_ok (rs_payments a)"
  shows "database_ok t"
proof -
  have ids: "ids_ok s" using assms(2) by (simp add: database_ok_def)
  show ?thesis
    using assms(1) ids
  proof (cases rule: create_retail_invoice_cases)
    case replayed
    then show ?thesis using assms(2) by simp
  next
    case (fresh products number q draft priced moves items paid invoice)
    let ?qs = "payment_rows a (iv_now (db_inventory t)) (rs_payments a) (Suc (db_next s))"
    let ?ms = "allocation_rows (db_next s) (rs_payments a) (Suc (db_next s))"
    have "catalogue_ok products"
      by (rule load_products_catalogue [OF fresh(2)]) (use assms(2) in \<open>simp add: database_ok_def\<close>)
    then have lines: "\<forall>r \<in> set priced. line_amounts_ok r" by (rule priced_lines_ok [OF _ fresh(6)])
    have paid: "paisa_grid paid" "0 \<le> paid"
      using payments_ok_sum(2) [OF assms(3)] by (simp_all add: fresh(8) Money_nonneg)
    have inv: "invoice_ok invoice"
      unfolding fresh(9) by (rule finalized_ok [OF lines paid]) (use check_payment_le [OF fresh(10)] fresh(9) in simp)
    have dr: "si_id invoice = db_next s" "si_organization_id invoice = rs_organization_id a"
      by (simp_all add: fresh(9) fresh(4) draft_invoice_def)
    have bk: "books_ok (db_books s)" using assms(2) by (simp add: database_ok_def)
    note books = sale_books [OF fresh(15) bk inv dr(2)]
    have led: "ledger_ok (db_inventory t)"
      using issues_ledger_ok [OF fresh(7)] assms(2) by (simp add: database_ok_def)
    have f: "db_invoices t = db_invoices s @ [invoice]" "db_payments t = db_payments s @ ?qs"
      "db_payment_allocations t = db_payment_allocations s @ ?ms" "db_next t = Suc (db_next s) + length (rs_payments a)"
      "db_orders t = db_orders s" "db_order_items t = db_order_items s" "db_products t = db_products s"
      by (subst fresh(17), simp)+
    have "ids_ok t"
      unfolding ids_ok_def
    proof (intro conjI)
      show "\<forall>v \<in> set (db_payments t). py_id v < db_next t" "\<forall>l \<in> set (db_payment_allocations t). pl_payment_id l < db_next t"
        using ids by (auto simp: ids_ok_def f less_SucI trans_less_add1 dest!: payment_rows_in allocation_rows_in)
      show "distinct (map py_id (db_payments t))"
        using ids by (force simp: ids_ok_def f payment_rows_ids dest: payment_rows_in)
    qed (use ids in \<open>auto simp: ids_ok_def f dr(1) less_SucI trans_less_add1\<close>)
    moreover have "receivables_agree t"
      using assms(2) books(2) sale_unapplied [OF ids]
      by (simp add: receivables_agree_def database_ok_def f receivable_append)
    ultimately show ?thesis
      using assms(2) led books(1) inv by (simp add: database_ok_def f)
  qed
qed

section \<open>Orders and dispatches keep the invariant\<close>

lemma order_confirmed_ledger_ok:
  assumes "order_confirmed a c grand s v" "ledger_ok (db_inventory s)"
  shows "ledger_ok v"
proof -
  have one: "ledger_ok y" if "ledger_ok x" "reserve_on a l x = Inr y" for l x y
    using that by (auto simp: reserve_on_def intro: operations_ledger_ok(2))
  show ?thesis
    using assms one by (auto simp: order_confirmed_def split: if_splits elim!: fold_res_invariant [where I = ledger_ok])
qed

lemma order_keeps:
  assumes "create_order a s = Inr (r, t)" "database_ok s"
  shows "database_ok t"
proof -
  have ids: "ids_ok s" using assms(2) by (simp add: database_ok_def)
  show ?thesis
    using assms(1) ids
  proof (rule create_order_cases)
    fix customer products number q draft priced items order v
    assume p: "load_products (oa_organization_id a) (map sl_product_id (oa_lines a)) s = Inr products"
      and d: "draft = draft_order a number s" and l: "list_all2 (ordered_as products) (oa_lines a) priced"
      and o: "order = totalled priced draft" and c: "order_confirmed a customer (so_grand_total order) s v"
      and it: "\<forall>x \<in> set items. ot_sales_order_id x = so_id draft"
      and t: "t = s\<lparr>db_numbering := q, db_inventory := v, db_orders := db_orders s @ [order],
        db_order_items := db_order_items s @ items, db_next := Suc (db_next s)\<rparr>"
    have "catalogue_ok products"
      by (rule load_products_catalogue [OF p]) (use assms(2) in \<open>simp add: database_ok_def\<close>)
    then have ok: "order_ok order" unfolding o by (intro totalled_ok ordered_lines_ok [OF _ l])
    have id: "so_id order = db_next s" "so_id draft = db_next s" by (simp_all add: o d draft_order_def)
    have "ledger_ok v" by (rule order_confirmed_ledger_ok [OF c]) (use assms(2) in \<open>simp add: database_ok_def\<close>)
    moreover have "ids_ok t"
      using ids it by (auto simp: ids_ok_def t id less_SucI)
    moreover have "receivables_agree t" using assms(2) by (simp add: database_ok_def receivables_agree_def t)
    ultimately show "database_ok t" using assms(2) ok by (simp add: database_ok_def t)
  qed
qed

lemma ship_ledger_ok: "ship_on a order i item x = Inr y \<Longrightarrow> ledger_ok x \<Longrightarrow> ledger_ok y"
  by (auto simp: ship_on_def dest!: operations_ledger_ok)

lemma order_books:
  assumes "order_booked a order v b b'" "books_ok b" "invoice_ok v" "si_organization_id v = da_organization_id a"
    "si_paid_amount v = 0"
  shows "books_ok b'" "account_balance org ''AR'' b' = account_balance org ''AR'' b
    + (if si_organization_id v = org then open_amount v else 0)"
proof -
  have l: "pa_lines (order_journal a order v) = order_journal_lines v"
    "pa_organization_id (order_journal a order v) = da_organization_id a" by (simp_all add: order_journal_def)
  have due: "open_amount v = si_grand_total v" by (simp add: open_amount_def assms(5))
  consider "si_grand_total v \<le> 0" "b' = b" | e where "post_journal (order_journal a order v) b = Inr (e, b')"
    using assms(1) by (auto simp: order_booked_def)
  then have "books_ok b' \<and> account_balance org ''AR'' b' = account_balance org ''AR'' b
    + (if si_organization_id v = org then open_amount v else 0)"
  proof cases
    case 1
    then have "open_amount v = 0" using assms(3,5) by (simp add: invoice_ok_def open_amount_def)
    then show ?thesis using 1 assms(2) by simp
  next
    case 2
    have "books_ok b'" by (rule post_journal_books_ok [OF 2 assms(2)]) (simp add: l journals_on_grid)
    then show ?thesis
      using post_journal_balance [OF assms(2) 2] assms(4) by (simp add: l order_journal_AR [OF assms(3)] due)
  qed
  then show "books_ok b'" "account_balance org ''AR'' b' = account_balance org ''AR'' b
    + (if si_organization_id v = org then open_amount v else 0)" by simp_all
qed

lemma dispatch_keeps:
  assumes "dispatch_and_invoice a s = Inr (r, t)" "database_ok s"
  shows "database_ok t"
proof -
  have ids: "ids_ok s" using assms(2) by (simp add: database_ok_def)
  show ?thesis
    using assms(1) ids
  proof (rule dispatch_cases)
    fix order number q invoice items v b
    assume o: "get_order (da_sales_order_id a) s = Some order"
      and inv: "invoice = order_invoice a order number s"
      and run: "fold_res (ship_on a order (si_id invoice)) items (db_inventory s) = Inr v"
      and bk: "order_booked a order invoice (db_books s) b"
      and t: "t = s\<lparr>db_numbering := q, db_inventory := v, db_invoices := db_invoices s @ [invoice],
        db_invoice_items := db_invoice_items s @ map (dispatched_item (si_id invoice)) items,
        db_order_items := upd_rows (\<lambda>i. ot_sales_order_id i = da_sales_order_id a)
          (\<lambda>i. i\<lparr>ot_dispatched_quantity := ot_base_quantity i\<rparr>) (db_order_items s),
        db_orders := upd_first (\<lambda>v. so_id v = da_sales_order_id a)
          (\<lambda>v. v\<lparr>so_status := INVOICED, so_sales_invoice_id := Some (si_id invoice)\<rparr>) (db_orders s),
        db_books := b, db_next := Suc (db_next s)\<rparr>"
    have "order_ok order"
      using o assms(2) by (auto simp: get_order_def database_ok_def dest: first_row_Some)
    then have ok: "invoice_ok invoice" unfolding inv by (rule order_invoice_ok)
    have sel: "si_id invoice = db_next s" "si_organization_id invoice = da_organization_id a" "si_paid_amount invoice = 0"
      by (simp_all add: inv order_invoice_def)
    have b: "books_ok (db_books s)" using assms(2) by (simp add: database_ok_def)
    note books = order_books [OF bk b ok sel(2,3)]
    have led: "ledger_ok v"
      using run by (rule fold_res_invariant [where I = ledger_ok])
        (use assms(2) ship_ledger_ok in \<open>auto simp: database_ok_def\<close>)
    let ?f = "\<lambda>v. v\<lparr>so_status := INVOICED, so_sales_invoice_id := Some (si_id invoice)\<rparr>"
    have ord: "map so_id (upd_first (\<lambda>v. so_id v = da_sales_order_id a) ?f (db_orders s)) = map so_id (db_orders s)"
      by (rule map_upd_first) simp
    have orows: "\<exists>w \<in> set (db_orders s). so_id w = so_id x \<and> order_ok x = order_ok w"
      if "x \<in> set (upd_first (\<lambda>v. so_id v = da_sales_order_id a) ?f (db_orders s))" for x
      using set_upd_first [OF that] by (auto simp: order_ok_def)
    have items: "\<exists>j \<in> set (db_order_items s). ot_sales_order_id j = ot_sales_order_id x"
      if "x \<in> set (upd_rows (\<lambda>i. ot_sales_order_id i = da_sales_order_id a)
          (\<lambda>i. i\<lparr>ot_dispatched_quantity := ot_base_quantity i\<rparr>) (db_order_items s))" for x
      using that by (fastforce simp: upd_rows_def)
    have "ids_ok t"
      unfolding ids_ok_def
    proof (intro conjI)
      show "\<forall>v \<in> set (db_orders t). so_id v < db_next t" using ids orows by (fastforce simp: ids_ok_def t)
      show "\<forall>i \<in> set (db_order_items t). ot_sales_order_id i < db_next t" using ids items by (fastforce simp: ids_ok_def t)
      show "distinct (map so_id (db_orders t))" using ids by (simp add: ids_ok_def t ord)
    qed (use ids in \<open>auto simp: ids_ok_def t sel less_SucI\<close>)
    moreover have "receivables_agree t"
      using assms(2) books(2) by (simp add: database_ok_def receivables_agree_def t receivable_append)
    moreover have "\<forall>x \<in> set (db_orders t). order_ok x" using orows assms(2) by (fastforce simp: t database_ok_def)
    ultimately show "database_ok t" using assms(2) led books(1) ok by (simp add: database_ok_def t)
  qed
qed

section \<open>A receipt keeps the invariant\<close>

lemma receipt_keeps:
  assumes "receive_payment a s = Inr (r, t)" "database_ok s"
  shows "database_ok t"
proof -
  have ids: "ids_ok s" and inv: "\<forall>v \<in> set (db_invoices s). invoice_ok v"
    and bk: "books_ok (db_books s)" using assms(2) by (simp_all add: database_ok_def)
  show ?thesis
    using assms(1) ids inv
  proof (rule receive_payment_cases)
    fix res settled e b
    assume dist: "distinct (map ia_invoice_id (ar_allocations res))"
      and targets: "\<forall>al \<in> set (ar_allocations res). \<exists>v \<in> set (db_invoices s). si_id v = ia_invoice_id al
        \<and> si_organization_id v = ra_organization_id a \<and> si_customer_id v = Some (ra_customer_id a) \<and> 0 < ia_amount al
        \<and> ia_amount al \<le> open_amount v \<and> paisa_grid (ia_amount al)"
      and j: "post_journal (receipt_journal a (db_next s)) (db_books s) = Inr (e, b)"
      and t: "t = s\<lparr>db_payments := db_payments s @ [receipt_row a s], db_next := Suc (db_next s),
         db_invoices := settle_all (ar_allocations res) (db_invoices s),
         db_payment_allocations := db_payment_allocations s @ map (allocation_row (db_next s)) (ar_allocations res),
         db_books := b\<rparr>"
    let ?als = "ar_allocations res" and ?P = "\<lambda>v. si_organization_id v = ra_organization_id a"
    have d: "distinct (map si_id (db_invoices s))" using ids by (simp add: ids_ok_def)
    have tg: "\<forall>al \<in> set ?als. \<exists>v \<in> set (db_invoices s). si_id v = ia_invoice_id al \<and> ?P v \<and> 0 < ia_amount al
        \<and> ia_amount al \<le> open_amount v \<and> paisa_grid (ia_amount al)" using targets by blast
    have settle: "map si_id (settle_all ?als (db_invoices s)) = map si_id (db_invoices s)
        \<and> (\<forall>v \<in> set (settle_all ?als (db_invoices s)). invoice_ok v)
        \<and> receivable org (settle_all ?als (db_invoices s)) = receivable org (db_invoices s)
          - (if ra_organization_id a = org then (\<Sum>al\<leftarrow>?als. ia_amount al) else 0)" for org
      unfolding receivable_def by (rule settle_all_keeps [OF d inv dist tg]) simp_all
    have row: "py_id (receipt_row a s) = db_next s" "py_organization_id (receipt_row a s) = ra_organization_id a"
        "py_amount (receipt_row a s) = Money (ra_amount a)" by (simp_all add: receipt_row_def)
    have "unapplied org (db_payments s @ [receipt_row a s])
          (db_payment_allocations s @ map (allocation_row (db_next s)) ?als)
        = unapplied org (db_payments s) (db_payment_allocations s)
        + (if org = ra_organization_id a then (\<Sum>p\<leftarrow>[receipt_row a s]. py_amount p)
             - (\<Sum>l\<leftarrow>map (allocation_row (db_next s)) ?als. pl_amount l) else 0)" for org
      using ids by (intro unapplied_extend [where n = "db_next s"])
        (auto simp: ids_ok_def row allocation_row_def)
    then have unap: "unapplied org (db_payments t) (db_payment_allocations t)
        = unapplied org (db_payments s) (db_payment_allocations s)
        + (if org = ra_organization_id a then Money (ra_amount a) - (\<Sum>al\<leftarrow>?als. ia_amount al) else 0)" for org
      by (simp add: t row allocation_row_def comp_def)
    have pa: "pa_organization_id (receipt_journal a i) = ra_organization_id a" for i by (simp add: receipt_journal_def)
    have bal: "account_balance org ''AR'' b = account_balance org ''AR'' (db_books s)
        + (if org = ra_organization_id a then - Money (ra_amount a) else 0)" for org
      using post_journal_balance [OF bk j] by (simp add: pa receipt_journal_AR)
    have "books_ok b" by (rule post_journal_books_ok [OF j bk]) (rule journals_on_grid)
    moreover have "receivables_agree t"
      unfolding receivables_agree_def unap using assms(2) settle
      by (simp add: database_ok_def receivables_agree_def t bal)
    moreover have "ids_ok t"
      unfolding ids_ok_def
    proof (intro conjI)
      have eq: "map si_id (db_invoices t) = map si_id (db_invoices s)" using settle by (simp add: t)
      have "si_id v \<in> set (map si_id (db_invoices s))" if "v \<in> set (db_invoices t)" for v
        unfolding eq [symmetric] using that by simp
      then show "\<forall>v \<in> set (db_invoices t). si_id v < db_next t" using ids by (fastforce simp: ids_ok_def t)
      show "distinct (map si_id (db_invoices t))" using settle d by (simp add: t)
    qed (use ids in \<open>auto simp: ids_ok_def t row allocation_row_def less_SucI\<close>)
    ultimately show "database_ok t" using assms(2) settle by (simp add: database_ok_def t)
  qed
qed

end
