(* ===== verification/Fulfilment.thy ===== *)
theory Fulfilment
  imports Receivables
begin

text \<open>
  Orders and stock together. Every reservation in the stock tables belongs to a confirmed order: the
  theory shows that counter sales, orders, dispatches and receipts keep the reservations of each
  product and warehouse equal to what the confirmed orders still have to ship, that a confirmed order
  can be dispatched, and how an order moves through its states.
\<close>

section \<open>What the confirmed orders have to ship\<close>

definition awaiting :: "sales_order list \<Rightarrow> uuid \<Rightarrow> sales_order_item \<Rightarrow> bool" where
  "awaiting orders w i \<longleftrightarrow>
     (\<exists>v \<in> set orders. so_id v = ot_sales_order_id i \<and> so_status v = CONFIRMED \<and> so_warehouse_id v = w)"

definition reserved_for :: "database \<Rightarrow> uuid \<Rightarrow> uuid \<Rightarrow> decimal" where
  "reserved_for s w p =
     sum_rows (\<lambda>i. awaiting (db_orders s) w i \<and> ot_product_id i = p) ot_base_quantity (db_order_items s)"

definition fulfilment_ok :: "database \<Rightarrow> bool" where
  "fulfilment_ok s \<longleftrightarrow>
     reserved_ok (db_inventory s) \<and> (\<forall>w p. reservations_of (db_inventory s) w p = reserved_for s w p)
     \<and> (\<forall>i \<in> set (db_order_items s). 0 < ot_base_quantity i)"

lemma sum_rows_map_cong:
  "map f xs = map f' ys \<Longrightarrow> map g xs = map g' ys \<Longrightarrow>
   sum_rows (\<lambda>x. P (f x)) g xs = sum_rows (\<lambda>y. P (f' y)) g' ys"
proof (induction xs arbitrary: ys)
  case (Cons x xs)
  then show ?case by (cases ys) (auto simp: sum_rows_Cons)
qed simp

lemma filter_const_sum: "(\<Sum>x\<leftarrow>filter (\<lambda>x. b \<and> P x) xs. g x) = (if b then sum_rows P g xs else (0 :: decimal))"
  by (simp add: sum_rows_def)

lemma quantities_pos: "map f xs = map g ys \<Longrightarrow> \<forall>y \<in> set ys. 0 < g y \<Longrightarrow> \<forall>x \<in> set xs. 0 < (f x :: decimal)"
  by (metis (no_types, lifting) in_set_conv_nth length_map nth_map)

section \<open>Every operation keeps the reservations in step with the orders\<close>

lemma sale_movement: "movement_direction (is_movement_type (sale_issue a i l)) = - 1"
  by (simp add: sale_issue_def movement_direction_def INBOUND_TYPES_def OUTBOUND_TYPES_def)

lemma sale_fulfils:
  assumes "create_retail_invoice a s = Inr (r, t)" "database_ok s" "fulfilment_ok s"
  shows "fulfilment_ok t"
proof -
  have ids: "ids_ok s" and led: "ledger_ok (db_inventory s)" using assms(2) by (simp_all add: database_ok_def)
  show ?thesis
    using assms(1) ids
  proof (cases rule: create_retail_invoice_cases)
    case replayed
    then show ?thesis using assms(3) by simp
  next
    case (fresh products number q draft priced moves items paid invoice)
    have "db_orders t = db_orders s" "db_order_items t = db_order_items s" by (subst fresh(17), simp)+
    then show ?thesis
      using assms(3) issues_keep [OF fresh(7) led sale_movement] by (simp add: fulfilment_ok_def reserved_for_def)
  qed
qed

lemma order_fulfils:
  assumes "create_order a s = Inr (r, t)" "database_ok s" "fulfilment_ok s"
  shows "fulfilment_ok t"
proof -
  have ids: "ids_ok s" and led: "ledger_ok (db_inventory s)" using assms(2) by (simp_all add: database_ok_def)
  show ?thesis
    using assms(1) ids
  proof (rule create_order_cases)
    fix customer products number q draft priced items order v
    assume d: "draft = draft_order a number s" and o: "order = totalled priced draft"
      and c: "order_confirmed a customer (so_grand_total order) s v"
      and prod: "map ot_product_id items = map sl_product_id (oa_lines a)"
      and qty: "map ot_base_quantity items = map sl_base_quantity (oa_lines a)"
      and it: "\<forall>x \<in> set items. ot_sales_order_id x = so_id draft" and pos: "\<forall>l \<in> set (oa_lines a). 0 < sl_base_quantity l"
      and t: "t = s\<lparr>db_numbering := q, db_inventory := v, db_orders := db_orders s @ [order],
        db_order_items := db_order_items s @ items, db_next := Suc (db_next s)\<rparr>"
    have o': "so_id order = db_next s" "so_warehouse_id order = oa_warehouse_id a"
        "so_status order = (if oa_is_quotation a then QUOTATION else CONFIRMED)" "so_id draft = db_next s"
      by (simp_all add: o d draft_order_def totalled_def)
    have old: "awaiting (db_orders t) w i = awaiting (db_orders s) w i" if "i \<in> set (db_order_items s)" for w i
      using ids that by (auto simp: awaiting_def t ids_ok_def o')
    have new: "awaiting (db_orders t) w i \<longleftrightarrow> \<not> oa_is_quotation a \<and> w = oa_warehouse_id a" if "i \<in> set items" for w i
      using ids that it by (auto simp: awaiting_def t ids_ok_def o')
    have "reserved_for t w p = reserved_for s w p
        + sum_rows (\<lambda>i. awaiting (db_orders t) w i \<and> ot_product_id i = p) ot_base_quantity items" for w p
    proof -
      have "sum_rows (\<lambda>i. awaiting (db_orders t) w i \<and> ot_product_id i = p) ot_base_quantity (db_order_items s)
          = reserved_for s w p"
        unfolding reserved_for_def by (rule sum_rows_cong) (use old in auto)
      moreover have "db_order_items t = db_order_items s @ items" by (simp add: t)
      ultimately show ?thesis by (simp only: reserved_for_def sum_rows_append)
    qed
    moreover have "sum_rows (\<lambda>i. awaiting (db_orders t) w i \<and> ot_product_id i = p) ot_base_quantity items
        = (if \<not> oa_is_quotation a \<and> w = oa_warehouse_id a
           then sum_rows (\<lambda>l. sl_product_id l = p) sl_base_quantity (oa_lines a) else 0)" for w p
    proof (cases "\<not> oa_is_quotation a \<and> w = oa_warehouse_id a")
      case True
      then have "sum_rows (\<lambda>i. awaiting (db_orders t) w i \<and> ot_product_id i = p) ot_base_quantity items
          = sum_rows (\<lambda>i. ot_product_id i = p) ot_base_quantity items"
        by (intro sum_rows_cong) (use new in auto)
      also have "\<dots> = sum_rows (\<lambda>l. sl_product_id l = p) sl_base_quantity (oa_lines a)"
        by (rule sum_rows_map_cong [OF prod qty, where P = "\<lambda>x. x = p"])
      finally show ?thesis using True by simp
    next
      case False
      then have "sum_rows (\<lambda>i. awaiting (db_orders t) w i \<and> ot_product_id i = p) ot_base_quantity items = 0"
        by (intro sum_rows_none) (use new in auto)
      then show ?thesis unfolding if_not_P [OF False] .
    qed
    ultimately have for_t: "reserved_for t w p = reserved_for s w p + (if \<not> oa_is_quotation a \<and> w = oa_warehouse_id a
        then sum_rows (\<lambda>l. sl_product_id l = p) sl_base_quantity (oa_lines a) else 0)" for w p by simp
    have inv: "reserved_ok v \<and> reservations_of v w p = reservations_of (db_inventory s) w p
        + (if \<not> oa_is_quotation a \<and> w = oa_warehouse_id a
           then sum_rows (\<lambda>l. sl_product_id l = p) sl_base_quantity (oa_lines a) else 0)" for w p
    proof (cases "oa_is_quotation a")
      case True
      then show ?thesis using c assms(3) by (simp add: order_confirmed_def fulfilment_ok_def)
    next
      case False
      then have "fold_res (reserve_on a) (oa_lines a) (db_inventory s) = Inr v" using c by (simp add: order_confirmed_def)
      then show ?thesis
        using reserves_keep [of a "oa_lines a" "db_inventory s" v w p] led assms(3) False
        by (auto simp: fulfilment_ok_def filter_const_sum)
    qed
    have "\<forall>i \<in> set (db_order_items t). 0 < ot_base_quantity i"
      using assms(3) quantities_pos [OF qty pos] by (auto simp: t fulfilment_ok_def)
    moreover have "reservations_of v w p = reserved_for t w p" for w p
      using inv [of w p] for_t [of w p] assms(3) unfolding fulfilment_ok_def by metis
    moreover have "db_inventory t = v" by (simp add: t)
    ultimately show "fulfilment_ok t" using inv by (simp add: fulfilment_ok_def)
  qed
qed

lemma dispatch_awaiting:
  assumes "first_row (\<lambda>v. so_id v = k) orders = Some order" "distinct (map so_id orders)"
    and "\<And>v. so_id (f v) = so_id v" "\<And>v. so_warehouse_id (f v) = so_warehouse_id v" "\<And>v. so_status (f v) = INVOICED"
  shows "awaiting (upd_first (\<lambda>v. so_id v = k) f orders) w i \<longleftrightarrow> awaiting orders w i \<and> ot_sales_order_id i \<noteq> k"
proof -
  obtain xs ys where split: "orders = xs @ order # ys" "upd_first (\<lambda>v. so_id v = k) f orders = xs @ f order # ys"
    and k: "so_id order = k"
    using upd_first_eq_list_update [OF assms(1), of f] by blast
  have "so_id v \<noteq> k" if "v \<in> set xs \<union> set ys" for v
  proof -
    have "so_id v \<in> so_id ` set xs \<union> so_id ` set ys" using that by blast
    moreover have "k \<notin> so_id ` set xs \<union> so_id ` set ys" using assms(2) k by (simp add: split(1))
    ultimately show ?thesis by metis
  qed
  then show ?thesis unfolding awaiting_def split(2) using assms(3-5) k by (auto simp: split(1))
qed

lemma dispatch_fulfils:
  assumes "dispatch_and_invoice a s = Inr (r, t)" "database_ok s" "fulfilment_ok s"
  shows "fulfilment_ok t"
proof -
  have ids: "ids_ok s" and led: "ledger_ok (db_inventory s)" using assms(2) by (simp_all add: database_ok_def)
  show ?thesis
    using assms(1) ids
  proof (rule dispatch_cases)
    fix order number q invoice items v b
    assume o: "get_order (da_sales_order_id a) s = Some order" "so_status order = CONFIRMED"
      and items: "items = filter (\<lambda>i. ot_sales_order_id i = da_sales_order_id a) (db_order_items s)"
      and run: "fold_res (ship_on a order (si_id invoice)) items (db_inventory s) = Inr v"
      and t: "t = s\<lparr>db_numbering := q, db_inventory := v, db_invoices := db_invoices s @ [invoice],
        db_invoice_items := db_invoice_items s @ map (dispatched_item (si_id invoice)) items,
        db_order_items := upd_rows (\<lambda>i. ot_sales_order_id i = da_sales_order_id a)
          (\<lambda>i. i\<lparr>ot_dispatched_quantity := ot_base_quantity i\<rparr>) (db_order_items s),
        db_orders := upd_first (\<lambda>v. so_id v = da_sales_order_id a)
          (\<lambda>v. v\<lparr>so_status := INVOICED, so_sales_invoice_id := Some (si_id invoice)\<rparr>) (db_orders s),
        db_books := b, db_next := Suc (db_next s)\<rparr>"
    let ?k = "da_sales_order_id a"
    have first: "first_row (\<lambda>v. so_id v = ?k) (db_orders s) = Some order" using o(1) by (simp add: get_order_def)
    have d: "distinct (map so_id (db_orders s))" using ids by (simp add: ids_ok_def)
    have aw: "awaiting (db_orders t) w i \<longleftrightarrow> awaiting (db_orders s) w i \<and> ot_sales_order_id i \<noteq> ?k" for w i
      unfolding t by (simp add: dispatch_awaiting [OF first d])
    have mine: "awaiting (db_orders s) w i \<longleftrightarrow> so_warehouse_id order = w" if "ot_sales_order_id i = ?k" for w i
    proof -
      have in_orders: "order \<in> set (db_orders s)" "so_id order = ?k" using first_row_Some [OF first] by auto
      have "v = order" if "v \<in> set (db_orders s)" "so_id v = ?k" for v
        using d that in_orders inj_onD [of so_id "set (db_orders s)" v order] by (simp add: distinct_map)
      then show ?thesis using in_orders o(2) \<open>ot_sales_order_id i = ?k\<close> unfolding awaiting_def by metis
    qed
    have m1: "map ot_sales_order_id (db_order_items t) = map ot_sales_order_id (db_order_items s)"
      "map ot_product_id (db_order_items t) = map ot_product_id (db_order_items s)"
      "map ot_base_quantity (db_order_items t) = map ot_base_quantity (db_order_items s)"
      by (auto simp: t upd_rows_def)
    then have key: "map (\<lambda>i. (ot_sales_order_id i, ot_product_id i)) (db_order_items t)
        = map (\<lambda>i. (ot_sales_order_id i, ot_product_id i)) (db_order_items s)"
      by (auto simp: t upd_rows_def)
    have split: "sum_rows P g xs = sum_rows (\<lambda>x. P x \<and> \<not> Q x) g xs + sum_rows (\<lambda>x. P x \<and> Q x) g xs"
      for P Q :: "sales_order_item \<Rightarrow> bool" and g :: "sales_order_item \<Rightarrow> decimal" and xs
      by (induction xs) (auto simp: sum_rows_Cons)
    have for_t: "reserved_for t w p = reserved_for s w p - shipped (so_warehouse_id order) w p items" for w p
    proof -
      define A where "A k p' \<longleftrightarrow> (\<exists>v \<in> set (db_orders s). so_id v = k \<and> so_status v = CONFIRMED \<and> so_warehouse_id v = w)
        \<and> k \<noteq> ?k \<and> p' = p" for k p'
      have "reserved_for t w p = sum_rows (\<lambda>i. (case (ot_sales_order_id i, ot_product_id i) of (k, p') \<Rightarrow> A k p'))
          ot_base_quantity (db_order_items t)"
        unfolding reserved_for_def aw by (rule sum_rows_cong) (auto simp: A_def awaiting_def)
      also have "\<dots> = sum_rows (\<lambda>i. (case (ot_sales_order_id i, ot_product_id i) of (k, p') \<Rightarrow> A k p'))
          ot_base_quantity (db_order_items s)"
        by (rule sum_rows_map_cong [OF key m1(3)])
      also have "\<dots> = sum_rows (\<lambda>i. (awaiting (db_orders s) w i \<and> ot_product_id i = p) \<and> ot_sales_order_id i \<noteq> ?k)
          ot_base_quantity (db_order_items s)"
        by (rule sum_rows_cong) (auto simp: A_def awaiting_def)
      finally have "reserved_for s w p = reserved_for t w p
          + sum_rows (\<lambda>i. (awaiting (db_orders s) w i \<and> ot_product_id i = p) \<and> ot_sales_order_id i = ?k)
              ot_base_quantity (db_order_items s)"
        unfolding reserved_for_def [of s]
        by (simp only: split [of "\<lambda>i. awaiting (db_orders s) w i \<and> ot_product_id i = p" ot_base_quantity
              "db_order_items s" "\<lambda>i. ot_sales_order_id i = ?k"])
      moreover have "sum_rows (\<lambda>i. (awaiting (db_orders s) w i \<and> ot_product_id i = p) \<and> ot_sales_order_id i = ?k)
              ot_base_quantity (db_order_items s)
          = sum_rows (\<lambda>i. ot_sales_order_id i = ?k \<and> so_warehouse_id order = w \<and> ot_product_id i = p)
              ot_base_quantity (db_order_items s)"
        by (rule sum_rows_cong) (use mine in auto)
      moreover have "\<dots> = shipped (so_warehouse_id order) w p items"
        by (simp add: shipped_def items sum_rows_def conj_commute)
      ultimately show ?thesis by simp
    qed
    have "\<forall>i \<in> set (db_order_items t). 0 < ot_base_quantity i"
      using assms(3) quantities_pos [OF m1(3)] by (simp add: fulfilment_ok_def)
    moreover have "reserved_ok v \<and> reservations_of v w p = reservations_of (db_inventory s) w p
        - shipped (so_warehouse_id order) w p items" for w p
      using ships_keep [OF run led] assms(3) by (simp add: fulfilment_ok_def)
    then have "reserved_ok v" "reservations_of v w p = reserved_for t w p" for w p
      using for_t [of w p] assms(3) unfolding fulfilment_ok_def by metis+
    moreover have "db_inventory t = v" by (simp add: t)
    ultimately show "fulfilment_ok t" by (simp add: fulfilment_ok_def)
  qed
qed

lemma receipt_fulfils:
  assumes "receive_payment a s = Inr (r, t)" "database_ok s" "fulfilment_ok s"
  shows "fulfilment_ok t"
proof -
  have ids: "ids_ok s" and inv: "\<forall>v \<in> set (db_invoices s). invoice_ok v" using assms(2) by (simp_all add: database_ok_def)
  show ?thesis
    using assms(1) ids inv
    by (rule receive_payment_cases) (use assms(3) in \<open>simp add: fulfilment_ok_def reserved_for_def\<close>)
qed

end
