(* ===== verification/Listing.thy ===== *)
theory Listing
  imports Exceptions
begin

text \<open>
  What the listing endpoints share: a page of a query's rows with the count over all of them, newest
  rows first, and the optional filters of their query strings. How \<open>ILIKE\<close> matches a pattern is the
  database's; the endpoints that search take it as their argument \<open>ilike\<close>.
\<close>

section \<open>Pages\<close>

record 'a page =
  pg_items :: "'a list"
  pg_total :: nat
  pg_limit :: nat
  pg_offset :: nat

text \<open>\<open>.limit(limit).offset(offset)\<close>, beside \<open>select(func.count())\<close> over the same query.\<close>

definition page_of :: "nat \<Rightarrow> nat \<Rightarrow> 'a list \<Rightarrow> 'a page" where
  "page_of limit offset rows =
     \<lparr>pg_items = take limit (drop offset rows), pg_total = length rows, pg_limit = limit, pg_offset = offset\<rparr>"

text \<open>
  \<open>order_by(date.desc(), created_at.desc())\<close>: a table is in the order of creation, and rows of one
  moment come in any order, here the last one first.
\<close>

definition newest_first :: "('a \<Rightarrow> int) \<Rightarrow> 'a list \<Rightarrow> 'a list" where
  "newest_first date rows = sort_key (\<lambda>r. - date r) (rev rows)"

text \<open>A filter that is applied when its query parameter is given.\<close>

definition given :: "'p option \<Rightarrow> ('p \<Rightarrow> bool) \<Rightarrow> bool" where
  "given param p = (case param of None \<Rightarrow> True | Some v \<Rightarrow> p v)"

text \<open>\<open>if search:\<close> skips the empty string as well; the pattern is \<open>f"%{search.strip()}%"\<close>.\<close>

definition is_space :: "char \<Rightarrow> bool" where
  "is_space c \<longleftrightarrow> (let n = of_char c :: nat in n = 32 \<or> 9 \<le> n \<and> n \<le> 13 \<or> 28 \<le> n \<and> n \<le> 31)"

definition strip :: "string \<Rightarrow> string" where
  "strip s = rev (dropWhile is_space (rev (dropWhile is_space s)))"

definition searched :: "(string \<Rightarrow> string \<Rightarrow> bool) \<Rightarrow> string option \<Rightarrow> string \<Rightarrow> bool" where
  "searched ilike search field =
     (case search of None \<Rightarrow> True | Some t \<Rightarrow> t = [] \<or> ilike (''%'' @ strip t @ ''%'') field)"

section \<open>Duplicates and partial updates\<close>

abbreviation conflict :: exn where
  "conflict \<equiv> App ConflictError ''conflict''"

text \<open>
  A field of a \<open>PATCH\<close> body under \<open>model_dump(exclude_unset=True)\<close>: \<open>None\<close> when the body leaves it
  out, \<open>Some None\<close> for an explicit null. The schemas admit null for every field; a column that is not
  nullable refuses it when the transaction is flushed.
\<close>

definition set_optional :: "'a option option \<Rightarrow> 'a option \<Rightarrow> 'a option" where
  "set_optional field old = (case field of None \<Rightarrow> old | Some v \<Rightarrow> v)"

definition set_required :: "'a option option \<Rightarrow> 'a \<Rightarrow> 'a res" where
  "set_required field old =
     (case field of None \<Rightarrow> Inr old | Some None \<Rightarrow> Inl IntegrityError | Some (Some v) \<Rightarrow> Inr v)"

lemma set_required_ok: "set_required field old = Inr v \<longleftrightarrow> (field = None \<and> v = old \<or> field = Some (Some v))"
  by (auto simp: set_required_def split: option.splits)

section \<open>Going through the pages\<close>

lemma page_of_sel [simp]:
  "pg_items (page_of limit offset rows) = take limit (drop offset rows)" "pg_total (page_of limit offset rows) = length rows"
  by (simp_all add: page_of_def)

text \<open>The pages at offsets \<open>0\<close>, \<open>limit\<close>, \<open>2 limit\<close> and so on are the rows, none twice and none left out.\<close>

lemma concat_pages:
  assumes "length rows \<le> n * limit"
  shows "concat (map (\<lambda>k. pg_items (page_of limit (k * limit) rows)) [0..<n]) = rows"
proof -
  have "concat (map (\<lambda>k. take limit (drop (k * limit) rows)) [0..<m]) = take (m * limit) rows" for m
  proof (induction m)
    case (Suc m)
    then show ?case by (simp add: take_add [symmetric] add.commute)
  qed simp
  then show ?thesis using assms by simp
qed

lemma newest_first_sorted: "sorted (map (\<lambda>r. - date r) (newest_first date rows))"
  by (simp add: newest_first_def)

lemma newest_first_rows: "mset (newest_first date rows) = mset rows"
  by (simp add: newest_first_def)

end
