(* ===== verification/Purchases.thy ===== *)
theory Purchases
  imports Store LandedCost Listing "HOL-Library.AList"
begin

text \<open>
  Purchases, \<open>app/modules/purchases/service.py\<close> and \<open>api.py\<close>: purchase orders, goods receipts with
  their batches, ledger movements and landed costs, the progress of a purchase order, supplier
  invoices, and the receipt listings.
\<close>

section \<open>Inputs and results\<close>

record po_line_input =
  ol_product_id :: uuid
  ol_ordered_base_quantity :: decimal
  ol_unit_rate :: decimal
  ol_trade_discount_percent :: decimal
  ol_gst_rate :: decimal

record receipt_line_input =
  rl_purchase_order_item_id :: "uuid option"
  rl_product_id :: uuid
  rl_received_base_quantity :: decimal
  rl_unit_rate :: decimal
  rl_free_base_quantity :: decimal
  rl_trade_discount_percent :: decimal
  rl_batch_number :: "string option"
  rl_expiry_date :: "date option"
  rl_manufacture_date :: "date option"

record receipt_charges =
  rc_freight :: decimal
  rc_loading :: decimal
  rc_other_charges :: decimal

definition no_charges :: receipt_charges where
  "no_charges = \<lparr>rc_freight = 0, rc_loading = 0, rc_other_charges = 0\<rparr>"

text \<open>The result's dict, in its insertion order.\<close>

record goods_receipt_result =
  gq_goods_receipt_id :: uuid
  gq_grn_number :: string
  gq_landed_unit_costs :: "(uuid \<times> decimal) list"

section \<open>Purchase orders\<close>

record po_args =
  oc_organization_id :: uuid
  oc_supplier_id :: uuid
  oc_order_date :: date
  oc_lines :: "po_line_input list"
  oc_branch_id :: "uuid option"
  oc_expected_date :: "date option"
  oc_charges :: "receipt_charges option"

definition po_row :: "po_args \<Rightarrow> string \<Rightarrow> database \<Rightarrow> purchase_order" where
  "po_row a po_number s =
     (let charges = (case oc_charges a of None \<Rightarrow> no_charges | Some c \<Rightarrow> c)
      in \<lparr>po_id = db_next s, po_organization_id = oc_organization_id a, po_branch_id = oc_branch_id a,
          po_supplier_id = oc_supplier_id a, po_po_number = po_number, po_status = PO_CONFIRMED,
          po_order_date = oc_order_date a, po_expected_date = oc_expected_date a,
          po_freight = rc_freight charges, po_loading = rc_loading charges,
          po_other_charges = rc_other_charges charges\<rparr>)"

definition insert_purchase_order :: "purchase_order \<Rightarrow> database \<Rightarrow> database res" where
  "insert_purchase_order v s =
     (if \<exists>w \<in> set (db_purchase_orders s). po_organization_id w = po_organization_id v \<and> po_po_number w = po_po_number v
      then Inl IntegrityError
      else Inr (s\<lparr>db_purchase_orders := db_purchase_orders s @ [v], db_next := Suc (db_next s)\<rparr>))"

definition add_po_item :: "uuid \<Rightarrow> po_line_input \<Rightarrow> database \<Rightarrow> database" where
  "add_po_item order_id line s =
     s\<lparr>db_purchase_order_items := db_purchase_order_items s @
         [\<lparr>pt_id = db_next s, pt_purchase_order_id = order_id, pt_product_id = ol_product_id line,
           pt_ordered_base_quantity = ol_ordered_base_quantity line, pt_received_base_quantity = 0,
           pt_unit_rate = ol_unit_rate line, pt_trade_discount_percent = ol_trade_discount_percent line,
           pt_gst_rate = ol_gst_rate line\<rparr>],
       db_next := Suc (db_next s)\<rparr>"

definition create_purchase_order :: "po_args \<Rightarrow> database \<Rightarrow> (purchase_order \<times> database) res" where
  "create_purchase_order a s =
     (if oc_lines a = [] then Inl not_found
      else let (po_number, s1) = issue_number (oc_organization_id a) ''purchase_order'' (oc_branch_id a) s;
               po = po_row a po_number s1
           in res_bind (insert_purchase_order po s1) (\<lambda>s2.
              Inr (po, fold (add_po_item (po_id po)) (oc_lines a) s2)))"

section \<open>Goods receipts\<close>

record goods_receipt_args =
  ga_organization_id :: uuid
  ga_warehouse_id :: uuid
  ga_supplier_id :: uuid
  ga_receipt_date :: date
  ga_lines :: "receipt_line_input list"
  ga_purchase_order_id :: "uuid option"
  ga_branch_id :: "uuid option"
  ga_charges :: "receipt_charges option"
  ga_created_by :: "uuid option"

definition goods_receipt_row :: "goods_receipt_args \<Rightarrow> string \<Rightarrow> database \<Rightarrow> goods_receipt" where
  "goods_receipt_row a grn_number s =
     \<lparr>gr_id = db_next s, gr_organization_id = ga_organization_id a, gr_branch_id = ga_branch_id a,
      gr_warehouse_id = ga_warehouse_id a, gr_supplier_id = ga_supplier_id a,
      gr_purchase_order_id = ga_purchase_order_id a, gr_grn_number = grn_number,
      gr_receipt_date = ga_receipt_date a\<rparr>"

definition insert_receipt :: "goods_receipt \<Rightarrow> database \<Rightarrow> database res" where
  "insert_receipt v s =
     (if \<exists>w \<in> set (db_goods_receipts s). gr_organization_id w = gr_organization_id v \<and> gr_grn_number w = gr_grn_number v
      then Inl IntegrityError
      else Inr (s\<lparr>db_goods_receipts := db_goods_receipts s @ [v], db_next := Suc (db_next s)\<rparr>))"

text \<open>The inputs of the landed cost: the position of the line, as a string, is its id.\<close>

definition cost_input :: "nat \<Rightarrow> receipt_line_input \<Rightarrow> purchase_line_input" where
  "cost_input index line =
     \<lparr>li_line_id = digits index, li_billed_quantity = rl_received_base_quantity line,
      li_free_quantity = rl_free_base_quantity line, li_unit_rate = rl_unit_rate line,
      li_trade_discount_percent = rl_trade_discount_percent line, li_cash_discount_percent = 0\<rparr>"

definition cost_inputs :: "receipt_line_input list \<Rightarrow> purchase_line_input list" where
  "cost_inputs lines = map (\<lambda>(index, line). cost_input index line) (enumerate 0 lines)"

definition landed_by_line :: "landed_cost_result \<Rightarrow> string \<Rightarrow> decimal option" where
  "landed_by_line landed = map_of (map (\<lambda>ln. (lc_line_id ln, lc_landed_unit_cost ln)) (lr_lines landed))"

definition resolve_batch :: "uuid \<Rightarrow> receipt_line_input \<Rightarrow> inventory \<Rightarrow> uuid option \<times> inventory" where
  "resolve_batch organization_id line s =
     (case rl_batch_number line of
        None \<Rightarrow> (None, s)
      | Some n \<Rightarrow>
     if n = [] then (None, s)
     else case first_row (\<lambda>b. bt_product_id b = rl_product_id line \<and> bt_batch_number b = n) (iv_batches s) of
       Some b \<Rightarrow> (Some (bt_id b), s)
     | None \<Rightarrow> (Some (iv_next s),
         s\<lparr>iv_batches := iv_batches s @ [\<lparr>bt_id = iv_next s, bt_organization_id = organization_id,
             bt_product_id = rl_product_id line, bt_batch_number = n,
             bt_manufacture_date = rl_manufacture_date line, bt_expiry_date = rl_expiry_date line,
             bt_mrp = None\<rparr>], iv_next := Suc (iv_next s)\<rparr>))"

definition receipt_movement :: "goods_receipt_args \<Rightarrow> uuid \<Rightarrow> receipt_line_input \<Rightarrow> uuid option \<Rightarrow> movement_args" where
  "receipt_movement a receipt_id line batch_id =
     (required_args (ga_organization_id a) (ga_warehouse_id a) (rl_product_id line) PURCHASE_RECEIPT
        (rl_received_base_quantity line + rl_free_base_quantity line))
     \<lparr>ma_batch_id := batch_id, ma_branch_id := ga_branch_id a,
      ma_source_document_type := Some ''goods_receipt'', ma_source_document_id := Some receipt_id,
      ma_created_by := ga_created_by a\<rparr>"

text \<open>A line's stock: its batch, found or created, and the movement into it.\<close>

definition receive_stock ::
  "goods_receipt_args \<Rightarrow> uuid \<Rightarrow> receipt_line_input \<Rightarrow> inventory \<Rightarrow> (posted_movement \<times> inventory) res" where
  "receive_stock a receipt_id line v =
     (let (batch_id, v1) = resolve_batch (ga_organization_id a) line v
      in post_movement (receipt_movement a receipt_id line batch_id) v1)"

definition receipt_item :: "uuid \<Rightarrow> receipt_line_input \<Rightarrow> posted_movement \<Rightarrow> decimal \<Rightarrow> goods_receipt_item" where
  "receipt_item receipt_id line posted unit_cost =
     \<lparr>gi_goods_receipt_id = receipt_id, gi_product_id = rl_product_id line, gi_batch_id = pm_batch_id posted,
      gi_stock_movement_id = Some (pm_movement_id posted),
      gi_received_base_quantity = rl_received_base_quantity line,
      gi_free_base_quantity = rl_free_base_quantity line, gi_unit_rate = rl_unit_rate line,
      gi_landed_unit_cost = unit_cost\<rparr>"

definition apply_po_receipt :: "uuid \<Rightarrow> decimal \<Rightarrow> database \<Rightarrow> database" where
  "apply_po_receipt po_item_id quantity s =
     s\<lparr>db_purchase_order_items := upd_first (\<lambda>i. pt_id i = po_item_id)
         (\<lambda>i. i\<lparr>pt_received_base_quantity := pt_received_base_quantity i + quantity\<rparr>) (db_purchase_order_items s)\<rparr>"

text \<open>One round of the loop over the lines.\<close>

definition receive_line ::
  "goods_receipt_args \<Rightarrow> uuid \<Rightarrow> (string \<Rightarrow> decimal option) \<Rightarrow> nat \<times> receipt_line_input \<Rightarrow> database
     \<Rightarrow> ((uuid \<times> decimal) \<times> database) res" where
  "receive_line a receipt_id costs entry s =
     (let (index, line) = entry
      in res_bind (on_inventory (receive_stock a receipt_id line) s) (\<lambda>(posted, s1).
         case costs (digits index) of
           None \<Rightarrow> Inl KeyError
         | Some unit_cost \<Rightarrow>
             let s2 = s1\<lparr>db_goods_receipt_items := db_goods_receipt_items s1 @ [receipt_item receipt_id line posted unit_cost]\<rparr>
             in Inr ((rl_product_id line, unit_cost),
                  case rl_purchase_order_item_id line of
                    None \<Rightarrow> s2
                  | Some i \<Rightarrow> apply_po_receipt i (rl_received_base_quantity line + rl_free_base_quantity line) s2)))"

definition refreshed_status :: "purchase_order_item list \<Rightarrow> purchase_order_status \<Rightarrow> purchase_order_status" where
  "refreshed_status items status =
     (if items \<noteq> [] \<and> (\<forall>i \<in> set items. pt_ordered_base_quantity i \<le> pt_received_base_quantity i) then PO_RECEIVED
      else if \<exists>i \<in> set items. 0 < pt_received_base_quantity i then PARTIALLY_RECEIVED
      else status)"

definition refresh_po_status :: "uuid \<Rightarrow> database \<Rightarrow> database" where
  "refresh_po_status purchase_order_id s =
     (let items = filter (\<lambda>i. pt_purchase_order_id i = purchase_order_id) (db_purchase_order_items s)
      in s\<lparr>db_purchase_orders := upd_first (\<lambda>p. po_id p = purchase_order_id)
             (\<lambda>p. p\<lparr>po_status := refreshed_status items (po_status p)\<rparr>) (db_purchase_orders s)\<rparr>)"

definition receive_goods :: "goods_receipt_args \<Rightarrow> database \<Rightarrow> (goods_receipt_result \<times> database) res" where
  "receive_goods a s =
     (if ga_lines a = [] then Inl not_found
      else let charges = (case ga_charges a of None \<Rightarrow> no_charges | Some c \<Rightarrow> c);
               (grn_number, s1) = issue_number (ga_organization_id a) ''goods_receipt'' (ga_branch_id a) s;
               grn = goods_receipt_row a grn_number s1
      in res_bind (insert_receipt grn s1) (\<lambda>s2.
         res_bind (compute_landed_cost (cost_inputs (ga_lines a)) (rc_freight charges) (rc_loading charges)
                     (rc_other_charges charges)) (\<lambda>landed.
         res_bind (map_state (receive_line a (gr_id grn) (landed_by_line landed)) (enumerate 0 (ga_lines a)) s2)
           (\<lambda>(costs, s3).
         Inr (\<lparr>gq_goods_receipt_id = gr_id grn, gq_grn_number = grn_number,
               gq_landed_unit_costs = fold (\<lambda>(p, c). AList.update p c) costs []\<rparr>,
              case ga_purchase_order_id a of None \<Rightarrow> s3 | Some i \<Rightarrow> refresh_po_status i s3)))))"

section \<open>Supplier invoices\<close>

record purchase_invoice_args =
  va_organization_id :: uuid
  va_supplier_id :: uuid
  va_supplier_invoice_number :: string
  va_invoice_date :: date
  va_goods_value :: decimal
  va_tax_amount :: decimal
  va_goods_receipt_id :: "uuid option"

text \<open>The \<open>INSERT\<close> that \<open>uq_supplier_invoice\<close> refuses becomes a conflict; the session is rolled back.\<close>

definition record_purchase_invoice :: "purchase_invoice_args \<Rightarrow> database \<Rightarrow> (purchase_invoice \<times> database) res" where
  "record_purchase_invoice a s =
     (if \<exists>v \<in> set (db_purchase_invoices s). pv_organization_id v = va_organization_id a
           \<and> pv_supplier_id v = va_supplier_id a \<and> pv_supplier_invoice_number v = va_supplier_invoice_number a
      then Inl (App ConflictError ''duplicate_supplier_invoice'')
      else let invoice =
             \<lparr>pv_id = db_next s, pv_organization_id = va_organization_id a, pv_supplier_id = va_supplier_id a,
              pv_goods_receipt_id = va_goods_receipt_id a,
              pv_supplier_invoice_number = va_supplier_invoice_number a, pv_invoice_date = va_invoice_date a,
              pv_goods_value = va_goods_value a, pv_tax_amount = va_tax_amount a,
              pv_total_amount = va_goods_value a + va_tax_amount a\<rparr>
           in Inr (invoice, s\<lparr>db_purchase_invoices := db_purchase_invoices s @ [invoice], db_next := Suc (db_next s)\<rparr>))"

section \<open>The endpoints\<close>

record receipt_line_body =
  lb_product_id :: uuid
  lb_received_base_quantity :: decimal
  lb_unit_rate :: decimal
  lb_free_base_quantity :: decimal
  lb_trade_discount_percent :: decimal
  lb_batch_number :: "string option"
  lb_expiry_date :: "date option"

record goods_receipt_request =
  qb_warehouse_id :: uuid
  qb_supplier_id :: uuid
  qb_lines :: "receipt_line_body list"
  qb_freight :: decimal
  qb_loading :: decimal
  qb_other_charges :: decimal

definition valid_receipt_request :: "goods_receipt_request \<Rightarrow> bool" where
  "valid_receipt_request p \<longleftrightarrow>
     qb_lines p \<noteq> [] \<and> 0 \<le> qb_freight p \<and> 0 \<le> qb_loading p \<and> 0 \<le> qb_other_charges p
     \<and> (\<forall>l \<in> set (qb_lines p). 0 < lb_received_base_quantity l \<and> 0 \<le> lb_unit_rate l \<and> 0 \<le> lb_free_base_quantity l
          \<and> 0 \<le> lb_trade_discount_percent l \<and> lb_trade_discount_percent l \<le> 100)"

definition receipt_line_of :: "receipt_line_body \<Rightarrow> receipt_line_input" where
  "receipt_line_of body =
     \<lparr>rl_purchase_order_item_id = None, rl_product_id = lb_product_id body,
      rl_received_base_quantity = lb_received_base_quantity body, rl_unit_rate = lb_unit_rate body,
      rl_free_base_quantity = lb_free_base_quantity body, rl_trade_discount_percent = lb_trade_discount_percent body,
      rl_batch_number = lb_batch_number body, rl_expiry_date = lb_expiry_date body, rl_manufacture_date = None\<rparr>"

definition create_goods_receipt ::
  "current_user \<Rightarrow> goods_receipt_request \<Rightarrow> database \<Rightarrow> (goods_receipt_result \<times> database) res" where
  "create_goods_receipt user payload s =
     res_bind (require_permission ''purchase.create'' user) (\<lambda>user.
     receive_goods
       \<lparr>ga_organization_id = cu_organization_id user, ga_warehouse_id = qb_warehouse_id payload,
        ga_supplier_id = qb_supplier_id payload, ga_receipt_date = today s,
        ga_lines = map receipt_line_of (qb_lines payload), ga_purchase_order_id = None,
        ga_branch_id = default_branch_id user,
        ga_charges = Some \<lparr>rc_freight = qb_freight payload, rc_loading = qb_loading payload,
                           rc_other_charges = qb_other_charges payload\<rparr>,
        ga_created_by = Some (cu_user_id user)\<rparr> s)"

record receipt_list_item =
  ri_id :: uuid
  ri_grn_number :: string
  ri_receipt_date :: date
  ri_supplier_id :: uuid
  ri_supplier_name :: string
  ri_warehouse_name :: string
  ri_line_count :: nat
  ri_total_value :: decimal

definition supplier_row :: "uuid \<Rightarrow> database \<Rightarrow> supplier option" where
  "supplier_row i s = first_row (\<lambda>v. su_id v = i) (db_suppliers s)"

definition warehouse_row :: "uuid \<Rightarrow> database \<Rightarrow> warehouse option" where
  "warehouse_row i s = first_row (\<lambda>v. wh_id v = i) (db_warehouses s)"

definition items_of_receipt :: "uuid \<Rightarrow> database \<Rightarrow> goods_receipt_item list" where
  "items_of_receipt i s = filter (\<lambda>v. gi_goods_receipt_id v = i) (db_goods_receipt_items s)"

text \<open>
  The receipt with the names of the inner joins and the totals of the outer join; the value of the
  goods is what was billed, before discounts.
\<close>

definition to_receipt_list_item :: "database \<Rightarrow> goods_receipt \<Rightarrow> receipt_list_item option" where
  "to_receipt_list_item s grn =
     (case (supplier_row (gr_supplier_id grn) s, warehouse_row (gr_warehouse_id grn) s) of
        (Some v, Some w) \<Rightarrow> Some
          \<lparr>ri_id = gr_id grn, ri_grn_number = gr_grn_number grn, ri_receipt_date = gr_receipt_date grn,
           ri_supplier_id = gr_supplier_id grn, ri_supplier_name = su_name v, ri_warehouse_name = wh_name w,
           ri_line_count = length (items_of_receipt (gr_id grn) s),
           ri_total_value = (\<Sum>i\<leftarrow>items_of_receipt (gr_id grn) s. gi_received_base_quantity i * gi_unit_rate i)\<rparr>
      | _ \<Rightarrow> None)"

record receipt_filter =
  rf_supplier_id :: "uuid option"
  rf_date_from :: "date option"
  rf_date_to :: "date option"
  rf_search :: "string option"

definition receipt_rows ::
  "(string \<Rightarrow> string \<Rightarrow> bool) \<Rightarrow> receipt_filter \<Rightarrow> uuid \<Rightarrow> database \<Rightarrow> receipt_list_item list" where
  "receipt_rows ilike f organization_id s =
     List.map_filter (to_receipt_list_item s) (newest_first gr_receipt_date
       (filter (\<lambda>g. gr_organization_id g = organization_id \<and> given (rf_supplier_id f) (\<lambda>i. gr_supplier_id g = i)
          \<and> given (rf_date_from f) (\<lambda>d. d \<le> gr_receipt_date g) \<and> given (rf_date_to f) (\<lambda>d. gr_receipt_date g \<le> d)
          \<and> searched ilike (rf_search f) (gr_grn_number g)) (db_goods_receipts s)))"

definition list_goods_receipts ::
  "(string \<Rightarrow> string \<Rightarrow> bool) \<Rightarrow> current_user \<Rightarrow> receipt_filter \<Rightarrow> nat \<Rightarrow> nat \<Rightarrow> database \<Rightarrow> receipt_list_item page res" where
  "list_goods_receipts ilike user f limit offset s =
     res_bind (require_permission ''purchase.view'' user) (\<lambda>user.
     Inr (page_of limit offset (receipt_rows ilike f (cu_organization_id user) s)))"

record receipt_item_out =
  io_product_id :: uuid
  io_product_name :: string
  io_sku :: string
  io_received_base_quantity :: decimal
  io_free_base_quantity :: decimal
  io_unit_rate :: decimal
  io_landed_unit_cost :: decimal
  io_line_value :: decimal

definition to_receipt_item_out :: "database \<Rightarrow> goods_receipt_item \<Rightarrow> receipt_item_out option" where
  "to_receipt_item_out s item =
     map_option (\<lambda>p. \<lparr>io_product_id = gi_product_id item, io_product_name = pd_name p, io_sku = pd_sku p,
        io_received_base_quantity = gi_received_base_quantity item,
        io_free_base_quantity = gi_free_base_quantity item, io_unit_rate = gi_unit_rate item,
        io_landed_unit_cost = gi_landed_unit_cost item,
        io_line_value = dmul (gi_received_base_quantity item) (gi_unit_rate item)\<rparr>)
       (get_product (gi_product_id item) (db_products s))"

text \<open>The detail adds the items up itself.\<close>

definition get_goods_receipt ::
  "current_user \<Rightarrow> uuid \<Rightarrow> database \<Rightarrow> (receipt_list_item \<times> receipt_item_out list) res" where
  "get_goods_receipt user receipt_id s =
     res_bind (require_permission ''purchase.view'' user) (\<lambda>user.
     case first_row (\<lambda>g. gr_id g = receipt_id \<and> gr_organization_id g = cu_organization_id user) (db_goods_receipts s) of
       None \<Rightarrow> Inl not_found
     | Some grn \<Rightarrow> (case to_receipt_list_item s grn of
         None \<Rightarrow> Inl not_found
       | Some head \<Rightarrow>
           let items = List.map_filter (to_receipt_item_out s) (items_of_receipt (gr_id grn) s)
           in Inr (head\<lparr>ri_line_count := length items, ri_total_value := (\<Sum>i\<leftarrow>items. io_line_value i)\<rparr>, items)))"

section \<open>Suppliers\<close>

record create_supplier_request =
  cq_code :: string
  cq_name :: string
  cq_gstin :: "string option"
  cq_phone :: "string option"
  cq_credit_period_days :: int

definition list_suppliers :: "current_user \<Rightarrow> database \<Rightarrow> supplier list res" where
  "list_suppliers user s =
     res_bind (require_permission ''purchase.view'' user) (\<lambda>user.
     Inr (filter (\<lambda>v. su_organization_id v = cu_organization_id user) (db_suppliers s)))"

text \<open>The endpoint does not look for the code first, so \<open>uq_supplier_code\<close> answers.\<close>

definition create_supplier :: "current_user \<Rightarrow> create_supplier_request \<Rightarrow> database \<Rightarrow> (supplier \<times> database) res" where
  "create_supplier user payload s =
     res_bind (require_permission ''purchase.create'' user) (\<lambda>user.
     if \<exists>v \<in> set (db_suppliers s). su_organization_id v = cu_organization_id user \<and> su_code v = cq_code payload
     then Inl IntegrityError
     else let v =
            \<lparr>su_id = db_next s, su_organization_id = cu_organization_id user, su_code = cq_code payload,
             su_name = cq_name payload, su_business_name = None, su_gstin = cq_gstin payload,
             su_phone = cq_phone payload, su_email = None, su_address = None,
             su_credit_period_days = cq_credit_period_days payload, su_opening_balance = 0, su_is_active = True\<rparr>
          in Inr (v, s\<lparr>db_suppliers := db_suppliers s @ [v], db_next := Suc (db_next s)\<rparr>))"

section \<open>What a line puts into stock\<close>

definition line_units :: "receipt_line_input \<Rightarrow> decimal" where
  "line_units l = rl_received_base_quantity l + rl_free_base_quantity l"

lemma resolve_batch_frame:
  assumes "resolve_batch org l v = (b, u)"
  shows "iv_balances u = iv_balances v" "iv_movements u = iv_movements v" "iv_now u = iv_now v" "iv_next v \<le> iv_next u"
  using assms by (auto simp: resolve_batch_def split: option.splits if_splits)

lemma batches_irrelevant:
  assumes "iv_balances u = iv_balances v" "iv_movements u = iv_movements v" "iv_next v \<le> iv_next u"
  shows "ledger_ok v \<Longrightarrow> ledger_ok u" "reserved_ok u = reserved_ok v" "stock_of u w p = stock_of v w p"
    "reservations_of u w p = reservations_of v w p"
  using assms
  by (force simp: ledger_ok_def keys_unique_def on_hand_of_def ledger_of_def reserved_ok_def stock_of_def
      reservations_of_def)+

lemma receive_stock_keeps:
  assumes "receive_stock a i l v = Inr (x, t)" "ledger_ok v"
  shows "ledger_ok t" "reserved_ok v \<Longrightarrow> reserved_ok t" "0 < line_units l"
    "stock_of t w p = stock_of v w p + (if ga_warehouse_id a = w \<and> rl_product_id l = p then line_units l else 0)"
    "reservations_of t w p = reservations_of v w p"
proof -
  obtain b u where u: "resolve_batch (ga_organization_id a) l v = (b, u)" by (cases "resolve_batch (ga_organization_id a) l v")
  let ?m = "receipt_movement a i l b"
  have x: "post_movement ?m u = Inr (x, t)" using assms(1) by (simp add: receive_stock_def u)
  note same = batches_irrelevant [OF resolve_batch_frame(1,2,4) [OF u]]
  obtain d where "movement_delta ?m = Inr d" "pm_base_quantity x = d" using x by (rule post_movement_effect)
  then have d: "0 < line_units l" "pm_base_quantity x = line_units l"
    by (auto simp: movement_delta_def receipt_movement_def required_args_def movement_direction_def INBOUND_TYPES_def
        Let_def line_units_def split: if_splits)
  have k: "ledger_ok u" by (rule same(1) [OF assms(2)])
  show "ledger_ok t" by (rule post_movement_ledger_ok [OF x k])
  show "reserved_ok t" if "reserved_ok v"
    by (rule post_movement_reserved_ok [OF x _ ledger_ok_unique [OF k]]) (use that d in \<open>simp_all add: same(2)\<close>)
  show "0 < line_units l" by (rule d(1))
  show "stock_of t w p = stock_of v w p + (if ga_warehouse_id a = w \<and> rl_product_id l = p then line_units l else 0)"
    "reservations_of t w p = reservations_of v w p"
    using post_movement_on_hand(3,4) [OF x, of w p]
    by (auto simp: same(3,4) d(2) receipt_movement_def required_args_def)
qed

lemma receive_stocks_keep:
  assumes "map_state (\<lambda>l. receive_stock a i l) ls v = Inr (xs, t)" "ledger_ok v"
  shows "ledger_ok t \<and> (reserved_ok v \<longrightarrow> reserved_ok t) \<and> (\<forall>l \<in> set ls. 0 < line_units l)
    \<and> stock_of t w p = stock_of v w p + (\<Sum>l\<leftarrow>filter (\<lambda>l. ga_warehouse_id a = w \<and> rl_product_id l = p) ls. line_units l)
    \<and> reservations_of t w p = reservations_of v w p"
  using assms
proof (induction ls arbitrary: v xs)
  case (Cons l ls)
  obtain x m xs' where m: "receive_stock a i l v = Inr (x, m)" "map_state (\<lambda>l. receive_stock a i l) ls m = Inr (xs', t)"
    using Cons.prems(1) by (auto simp only: map_state_Cons_ok)
  note one = receive_stock_keeps [OF m(1) Cons.prems(2)]
  show ?case using Cons.IH [OF m(2) one(1)] one(2-5) by auto
qed simp

section \<open>A receipt recorded\<close>

text \<open>The items of the purchase orders after the lines are booked against them.\<close>

definition booked_line :: "receipt_line_input \<Rightarrow> purchase_order_item list \<Rightarrow> purchase_order_item list" where
  "booked_line l items =
     (case rl_purchase_order_item_id l of
        None \<Rightarrow> items
      | Some i \<Rightarrow> upd_first (\<lambda>x. pt_id x = i)
          (\<lambda>x. x\<lparr>pt_received_base_quantity := pt_received_base_quantity x + line_units l\<rparr>) items)"

definition received_item :: "uuid \<Rightarrow> receipt_line_input \<Rightarrow> goods_receipt_item \<Rightarrow> bool" where
  "received_item i l g \<longleftrightarrow> gi_goods_receipt_id g = i \<and> gi_product_id g = rl_product_id l
     \<and> gi_received_base_quantity g = rl_received_base_quantity l \<and> gi_free_base_quantity g = rl_free_base_quantity l
     \<and> gi_unit_rate g = rl_unit_rate l \<and> gi_stock_movement_id g \<noteq> None"

lemma receive_line_ok:
  "receive_line a i costs (k, l) s = Inr (e, t) \<longleftrightarrow>
   (\<exists>x v c. receive_stock a i l (db_inventory s) = Inr (x, v) \<and> costs (digits k) = Some c \<and> e = (rl_product_id l, c) \<and>
     t = s\<lparr>db_inventory := v, db_goods_receipt_items := db_goods_receipt_items s @ [receipt_item i l x c],
           db_purchase_order_items := booked_line l (db_purchase_order_items s)\<rparr>)"
  by (auto simp: receive_line_def on_inventory_ok booked_line_def apply_po_receipt_def line_units_def
      split: option.splits)

lemma receive_lines_ok:
  assumes "map_state (receive_line a i costs) (enumerate k ls) s = Inr (es, t)"
  shows "\<exists>xs items. map_state (\<lambda>l. receive_stock a i l) ls (db_inventory s) = Inr (xs, db_inventory t)
    \<and> list_all2 (received_item i) ls items \<and> map fst es = map rl_product_id ls
    \<and> map gi_landed_unit_cost items = map snd es
    \<and> map (\<lambda>j. costs (digits j)) [k ..< k + length ls] = map (\<lambda>e. Some (snd e)) es
    \<and> t = s\<lparr>db_inventory := db_inventory t, db_goods_receipt_items := db_goods_receipt_items s @ items,
            db_purchase_order_items := fold booked_line ls (db_purchase_order_items s)\<rparr>"
  using assms
proof (induction ls arbitrary: k s es)
  case Nil
  then show ?case by simp
next
  case (Cons l ls)
  obtain e m es' where m: "receive_line a i costs (k, l) s = Inr (e, m)"
      "map_state (receive_line a i costs) (enumerate (Suc k) ls) m = Inr (es', t)" "es = e # es'"
    using Cons.prems by (auto simp only: enumerate_simps map_state_Cons_ok)
  obtain x v c where x: "receive_stock a i l (db_inventory s) = Inr (x, v)" "costs (digits k) = Some c" "e = (rl_product_id l, c)"
    and mm: "m = s\<lparr>db_inventory := v, db_goods_receipt_items := db_goods_receipt_items s @ [receipt_item i l x c],
           db_purchase_order_items := booked_line l (db_purchase_order_items s)\<rparr>"
    using m(1) unfolding receive_line_ok by blast
  obtain xs items where IH: "map_state (\<lambda>l. receive_stock a i l) ls (db_inventory m) = Inr (xs, db_inventory t)"
    "list_all2 (received_item i) ls items" "map fst es' = map rl_product_id ls"
    "map gi_landed_unit_cost items = map snd es'"
    "map (\<lambda>j. costs (digits j)) [Suc k ..< Suc k + length ls] = map (\<lambda>e. Some (snd e)) es'"
    "t = m\<lparr>db_inventory := db_inventory t, db_goods_receipt_items := db_goods_receipt_items m @ items,
            db_purchase_order_items := fold booked_line ls (db_purchase_order_items m)\<rparr>"
    using Cons.IH [OF m(2)] by blast
  have "map_state (\<lambda>l. receive_stock a i l) (l # ls) (db_inventory s) = Inr (x # xs, db_inventory t)"
    using x(1) IH(1) by (simp add: mm)
  moreover have "list_all2 (received_item i) (l # ls) (receipt_item i l x c # items)"
    using IH(2) by (simp add: received_item_def receipt_item_def)
  moreover have "[k ..< k + length (l # ls)] = k # [Suc k ..< Suc k + length ls]" by (simp add: upt_rec)
  moreover have "t = s\<lparr>db_inventory := db_inventory t,
      db_goods_receipt_items := db_goods_receipt_items s @ receipt_item i l x c # items,
      db_purchase_order_items := fold booked_line (l # ls) (db_purchase_order_items s)\<rparr>"
    by (subst IH(6)) (simp add: mm)
  ultimately show ?case
    using IH(3-5) x(2,3)
    by (intro exI [of _ "x # xs"] exI [of _ "receipt_item i l x c # items"]) (simp add: m(3) receipt_item_def)
qed

section \<open>The costs of the lines\<close>

lemma digits_inj: "digits m = digits n \<longleftrightarrow> m = n"
  by (metis value_of_digits)

lemma length_cost_inputs [simp]: "length (cost_inputs ls) = length ls"
  by (simp add: cost_inputs_def)

lemma landed_lines_ids:
  "length net_values = length lines \<Longrightarrow> length shares = length lines \<Longrightarrow>
   map lc_line_id (landed_lines lines net_values shares) = map li_line_id lines"
  by (intro nth_equalityI) (simp_all add: landed_lines_def landed_line_def Let_def)

lemma landed_result_lines:
  assumes "compute_landed_cost lines f l c = Inr r"
  shows "map lc_line_id (lr_lines r) = map li_line_id lines"
proof -
  obtain vs sh where v: "net_line_values lines = Inr vs" "allocate (Money (f + l + c)) vs = Inr sh"
    and r: "lr_lines r = landed_lines lines vs sh"
    using compute_landed_cost_ok [OF assms] by (metis landed_cost_result.select_convs(1))
  have "length vs = length lines" using net_line_values_ok [OF v(1)] by simp
  moreover have "length sh = length vs" using v(2) by (auto simp: allocate_def raw_shares_def Let_def split: if_splits)
  ultimately show ?thesis by (simp add: r landed_lines_ids)
qed

lemma map_of_nth_key:
  "distinct (map f xs) \<Longrightarrow> j < length xs \<Longrightarrow> map_of (map (\<lambda>x. (f x, g x)) xs) (f (xs ! j)) = Some (g (xs ! j))"
  by (simp add: map_of_eq_Some_iff comp_def)

lemma landed_by_line_nth:
  assumes "compute_landed_cost (cost_inputs ls) f l c = Inr r"
  shows "map (\<lambda>j. landed_by_line r (digits j)) [0 ..< length ls] = map (\<lambda>x. Some (lc_landed_unit_cost x)) (lr_lines r)"
proof -
  have ids: "map lc_line_id (lr_lines r) = map digits [0 ..< length ls]"
    unfolding landed_result_lines [OF assms]
    by (intro nth_equalityI) (simp_all add: cost_inputs_def cost_input_def nth_enumerate_eq)
  then have len: "length (lr_lines r) = length ls" by (metis length_map diff_zero length_upt)
  have d: "distinct (map lc_line_id (lr_lines r))" unfolding ids by (simp add: distinct_map inj_on_def digits_inj)
  have "lc_line_id (lr_lines r ! j) = digits j" if "j < length ls" for j
    using arg_cong [OF ids, of "\<lambda>xs. xs ! j"] that len by simp
  then show ?thesis
    using map_of_nth_key [OF d, of _ lc_landed_unit_cost] len
    by (intro nth_equalityI) (simp_all add: landed_by_line_def)
qed

section \<open>A goods receipt\<close>

lemma receive_goods_cases:
  assumes "receive_goods a s = Inr (r, t)"
  obtains number q landed charges xs items v es where "ga_lines a \<noteq> []"
    "charges = (case ga_charges a of None \<Rightarrow> no_charges | Some c \<Rightarrow> c)"
    "compute_landed_cost (cost_inputs (ga_lines a)) (rc_freight charges) (rc_loading charges)
       (rc_other_charges charges) = Inr landed"
    "map_state (\<lambda>l. receive_stock a (db_next s) l) (ga_lines a) (db_inventory s) = Inr (xs, v)"
    "list_all2 (received_item (db_next s)) (ga_lines a) items"
    "map gi_landed_unit_cost items = map lc_landed_unit_cost (lr_lines landed)"
    "map fst es = map rl_product_id (ga_lines a)" "map snd es = map lc_landed_unit_cost (lr_lines landed)"
    "t = (case ga_purchase_order_id a of None \<Rightarrow> id | Some i \<Rightarrow> refresh_po_status i)
       (s\<lparr>db_numbering := q, db_inventory := v, db_goods_receipts := db_goods_receipts s @ [goods_receipt_row a number s],
          db_goods_receipt_items := db_goods_receipt_items s @ items,
          db_purchase_order_items := fold booked_line (ga_lines a) (db_purchase_order_items s),
          db_next := Suc (db_next s)\<rparr>)"
    "r = \<lparr>gq_goods_receipt_id = db_next s, gq_grn_number = number,
          gq_landed_unit_costs = fold (\<lambda>(p, c). AList.update p c) es []\<rparr>"
proof -
  define charges where "charges = (case ga_charges a of None \<Rightarrow> no_charges | Some c \<Rightarrow> c)"
  obtain number s1 where n: "issue_number (ga_organization_id a) ''goods_receipt'' (ga_branch_id a) s = (number, s1)"
    by (cases "issue_number (ga_organization_id a) ''goods_receipt'' (ga_branch_id a) s")
  obtain q where q: "s1 = s\<lparr>db_numbering := q\<rparr>" using issue_number_ok [OF n] by blast
  have row: "goods_receipt_row a number s1 = goods_receipt_row a number s" "gr_id (goods_receipt_row a number s) = db_next s"
    by (simp_all add: goods_receipt_row_def q)
  obtain s2 landed es s3 where lines: "ga_lines a \<noteq> []" and ins: "insert_receipt (goods_receipt_row a number s1) s1 = Inr s2"
    and landed: "compute_landed_cost (cost_inputs (ga_lines a)) (rc_freight charges) (rc_loading charges)
       (rc_other_charges charges) = Inr landed"
    and loop: "map_state (receive_line a (db_next s) (landed_by_line landed)) (enumerate 0 (ga_lines a)) s2 = Inr (es, s3)"
    and t: "t = (case ga_purchase_order_id a of None \<Rightarrow> s3 | Some i \<Rightarrow> refresh_po_status i s3)"
    and r: "r = \<lparr>gq_goods_receipt_id = db_next s, gq_grn_number = number,
          gq_landed_unit_costs = fold (\<lambda>(p, c). AList.update p c) es []\<rparr>"
    using assms unfolding receive_goods_def n by (auto simp: Let_def row charges_def split: if_splits)
  have s2: "s2 = s1\<lparr>db_goods_receipts := db_goods_receipts s1 @ [goods_receipt_row a number s], db_next := Suc (db_next s1)\<rparr>"
    using ins by (auto simp: insert_receipt_def row split: if_splits)
  obtain xs items where l: "map_state (\<lambda>l. receive_stock a (db_next s) l) (ga_lines a) (db_inventory s2) = Inr (xs, db_inventory s3)"
      "list_all2 (received_item (db_next s)) (ga_lines a) items" "map fst es = map rl_product_id (ga_lines a)"
      "map gi_landed_unit_cost items = map snd es"
      "map (\<lambda>j. landed_by_line landed (digits j)) [0 ..< 0 + length (ga_lines a)] = map (\<lambda>e. Some (snd e)) es"
      "s3 = s2\<lparr>db_inventory := db_inventory s3, db_goods_receipt_items := db_goods_receipt_items s2 @ items,
            db_purchase_order_items := fold booked_line (ga_lines a) (db_purchase_order_items s2)\<rparr>"
    using receive_lines_ok [OF loop] by blast
  have "map Some (map snd es) = map Some (map lc_landed_unit_cost (lr_lines landed))"
    using l(5) unfolding add_0 landed_by_line_nth [OF landed] by (simp add: comp_def)
  then have costs: "map snd es = map lc_landed_unit_cost (lr_lines landed)" by (simp only: inj_map_eq_map [OF inj_Some])
  have inv: "db_inventory s2 = db_inventory s" by (simp add: s2 q)
  define u where "u = s\<lparr>db_numbering := q, db_inventory := db_inventory s3,
    db_goods_receipts := db_goods_receipts s @ [goods_receipt_row a number s],
    db_goods_receipt_items := db_goods_receipt_items s @ items,
    db_purchase_order_items := fold booked_line (ga_lines a) (db_purchase_order_items s), db_next := Suc (db_next s)\<rparr>"
  have "s3 = u" by (subst l(6)) (simp add: s2 q u_def)
  then have "t = (case ga_purchase_order_id a of None \<Rightarrow> id | Some i \<Rightarrow> refresh_po_status i) u"
    using t by (simp split: option.split)
  moreover have "map gi_landed_unit_cost items = map lc_landed_unit_cost (lr_lines landed)" using l(4) costs by simp
  ultimately show ?thesis
    by (intro that [OF lines charges_def landed l(1)[unfolded inv] l(2) _ l(3) costs _ r]) (simp_all only: u_def)
qed


section \<open>An example\<close>

text \<open>Ten units and two free ones of a batch that expires on day 700, with freight.\<close>

definition sample_receipt_request :: goods_receipt_request where
  "sample_receipt_request =
     \<lparr>qb_warehouse_id = 4, qb_supplier_id = 9,
      qb_lines = [\<lparr>lb_product_id = 7, lb_received_base_quantity = 10, lb_unit_rate = 60, lb_free_base_quantity = 2,
        lb_trade_discount_percent = 0, lb_batch_number = Some ''B1'', lb_expiry_date = Some 700\<rparr>],
      qb_freight = 24, qb_loading = 0, qb_other_charges = 0\<rparr>"

definition stocked_database :: database where
  "stocked_database =
     (case create_goods_receipt sample_clerk sample_receipt_request sample_database of Inr (_, t) \<Rightarrow> t | _ \<Rightarrow> sample_database)"

lemma sample_receipt_accepted:
  "\<exists>r. create_goods_receipt sample_clerk sample_receipt_request sample_database = Inr (r, stocked_database)
     \<and> gq_landed_unit_costs r = [(7, 52)]"
proof -
  have "res_bind (create_goods_receipt sample_clerk sample_receipt_request sample_database)
      (\<lambda>(r, t). Inr (gq_landed_unit_costs r)) = Inr [(7, 52)]" by code_simp
  then obtain r t where "create_goods_receipt sample_clerk sample_receipt_request sample_database = Inr (r, t)"
      "gq_landed_unit_costs r = [(7, 52)]"
    by (rule res_bind_pairE)
  then show ?thesis by (simp add: stocked_database_def)
qed

lemma create_goods_receipt_ok:
  assumes "create_goods_receipt user q s = Inr (r, t)"
  obtains a where "receive_goods a s = Inr (r, t)" "ga_warehouse_id a = qb_warehouse_id q"
    "ga_lines a = map receipt_line_of (qb_lines q)" "ga_organization_id a = cu_organization_id user"
  using assms by (auto simp: create_goods_receipt_def)


end
