(* ===== verification/ServiceJobs.thy ===== *)
theory ServiceJobs
  imports Purchases
begin

text \<open>
  The workshop, \<open>app/modules/service_jobs/service.py\<close> and \<open>api.py\<close>: repair jobs with their warranty
  check, the spare parts taken from stock and given back, the charges, and the status of a job. The
  invariant is at the end: what a job charges is what its parts and labour cost.
\<close>

section \<open>The service\<close>

definition is_under_warranty :: "uuid \<Rightarrow> date \<Rightarrow> database \<Rightarrow> warranty option" where
  "is_under_warranty serial_id as_of s =
     first_row (\<lambda>w. wa_serial_id w = Some serial_id \<and> wa_start_date w \<le> as_of \<and> as_of \<le> wa_end_date w) (db_warranties s)"

record job_args =
  jb_organization_id :: uuid
  jb_warehouse_id :: uuid
  jb_received_date :: date
  jb_customer_id :: "uuid option"
  jb_product_id :: "uuid option"
  jb_serial_id :: "uuid option"
  jb_complaint :: "string option"
  jb_branch_id :: "uuid option"
  jb_technician_id :: "uuid option"

definition job_row :: "job_args \<Rightarrow> string \<Rightarrow> database \<Rightarrow> repair_job" where
  "job_row a job_number s =
     (let warranty = (case jb_serial_id a of None \<Rightarrow> None | Some i \<Rightarrow> is_under_warranty i (jb_received_date a) s)
      in \<lparr>rj_id = db_next s, rj_organization_id = jb_organization_id a, rj_branch_id = jb_branch_id a,
          rj_warehouse_id = jb_warehouse_id a, rj_job_number = job_number, rj_customer_id = jb_customer_id a,
          rj_product_id = jb_product_id a, rj_serial_id = jb_serial_id a,
          rj_warranty_id = map_option wa_id warranty, rj_technician_id = jb_technician_id a,
          rj_complaint = jb_complaint a, rj_status = RECEIVED, rj_is_warranty_covered = (warranty \<noteq> None),
          rj_labour_charges = 0, rj_parts_total = 0, rj_customer_payable = 0,
          rj_received_date = jb_received_date a, rj_completed_date = None\<rparr>)"

definition insert_job :: "repair_job \<Rightarrow> database \<Rightarrow> database res" where
  "insert_job v s =
     (if \<exists>w \<in> set (db_repair_jobs s). rj_organization_id w = rj_organization_id v \<and> rj_job_number w = rj_job_number v
      then Inl IntegrityError
      else Inr (s\<lparr>db_repair_jobs := db_repair_jobs s @ [v], db_next := Suc (db_next s)\<rparr>))"

definition create_job :: "job_args \<Rightarrow> database \<Rightarrow> (repair_job \<times> database) res" where
  "create_job a s =
     (let (job_number, s1) = issue_number (jb_organization_id a) ''repair_job'' (jb_branch_id a) s;
          job = job_row a job_number s1
      in res_bind (insert_job job s1) (\<lambda>s2. Inr (job, s2)))"

definition get_job :: "uuid \<Rightarrow> uuid \<Rightarrow> database \<Rightarrow> repair_job res" where
  "get_job organization_id repair_job_id s =
     (case first_row (\<lambda>j. rj_id j = repair_job_id) (db_repair_jobs s) of
        None \<Rightarrow> Inl not_found
      | Some job \<Rightarrow> if rj_organization_id job \<noteq> organization_id then Inl not_found else Inr job)"

definition update_job :: "uuid \<Rightarrow> (repair_job \<Rightarrow> repair_job) \<Rightarrow> database \<Rightarrow> database" where
  "update_job i f s = s\<lparr>db_repair_jobs := upd_first (\<lambda>j. rj_id j = i) f (db_repair_jobs s)\<rparr>"

definition recompute_payable :: "repair_job \<Rightarrow> repair_job" where
  "recompute_payable job =
     (let parts = (if rj_is_warranty_covered job then 0 else rj_parts_total job)
      in job\<lparr>rj_customer_payable := Money (rj_labour_charges job + parts)\<rparr>)"

record consume_part_result =
  cp_repair_job_part_id :: uuid
  cp_parts_total :: decimal
  cp_customer_payable :: decimal

record consume_args =
  cn_organization_id :: uuid
  cn_repair_job_id :: uuid
  cn_product_id :: uuid
  cn_base_quantity :: decimal
  cn_created_by :: "uuid option"
  cn_as_of :: "date option"

definition part_issue :: "consume_args \<Rightarrow> repair_job \<Rightarrow> issue_args" where
  "part_issue a job =
     \<lparr>is_organization_id = cn_organization_id a, is_warehouse_id = rj_warehouse_id job,
      is_product_id = cn_product_id a, is_base_quantity = cn_base_quantity a,
      is_movement_type = REPAIR_CONSUMPTION, is_branch_id = rj_branch_id job,
      is_source_document_type = Some ''repair_job'', is_source_document_id = Some (rj_id job),
      is_created_by = cn_created_by a, is_as_of = cn_as_of a\<rparr>"

definition add_parts :: "decimal \<Rightarrow> repair_job \<Rightarrow> repair_job" where
  "add_parts line_value job = recompute_payable (job\<lparr>rj_parts_total := Money (rj_parts_total job + line_value)\<rparr>)"

definition part_row :: "consume_args \<Rightarrow> repair_job \<Rightarrow> product \<Rightarrow> posted_movement list \<Rightarrow> uuid \<Rightarrow> repair_job_part" where
  "part_row a job product posted i =
     \<lparr>rt_id = i, rt_repair_job_id = rj_id job, rt_product_id = cn_product_id a,
      rt_base_quantity = cn_base_quantity a, rt_unit_price = pd_retail_price product,
      rt_consumption_movement_id = (case posted of [] \<Rightarrow> None | p # _ \<Rightarrow> Some (pm_movement_id p)),
      rt_return_movement_id = None, rt_is_returned = False\<rparr>"

definition consume_part :: "consume_args \<Rightarrow> database \<Rightarrow> (consume_part_result \<times> database) res" where
  "consume_part a s =
     res_bind (get_job (cn_organization_id a) (cn_repair_job_id a) s) (\<lambda>job.
     if cn_base_quantity a \<le> 0 then Inl business_rule
     else case get_product (cn_product_id a) (db_products s) of
       None \<Rightarrow> Inl not_found
     | Some product \<Rightarrow>
     if pd_organization_id product \<noteq> cn_organization_id a then Inl not_found
     else res_bind (on_inventory (issue_fefo (part_issue a job)) s) (\<lambda>(posted, s1).
       let part = part_row a job product posted (db_next s1);
           s2 = s1\<lparr>db_repair_job_parts := db_repair_job_parts s1 @ [part], db_next := Suc (db_next s1)\<rparr>;
           line_value = Money (dmul (pd_retail_price product) (cn_base_quantity a));
           job' = add_parts line_value job
       in Inr (\<lparr>cp_repair_job_part_id = rt_id part, cp_parts_total = rj_parts_total job',
                cp_customer_payable = rj_customer_payable job'\<rparr>,
               update_job (rj_id job) (add_parts line_value) s2)))"

definition return_movement :: "uuid \<Rightarrow> repair_job \<Rightarrow> repair_job_part \<Rightarrow> uuid option \<Rightarrow> movement_args" where
  "return_movement organization_id job part created_by =
     (required_args organization_id (rj_warehouse_id job) (rt_product_id part) REPAIR_RETURN (rt_base_quantity part))
     \<lparr>ma_branch_id := rj_branch_id job, ma_source_document_type := Some ''repair_job'',
      ma_source_document_id := Some (rj_id job), ma_created_by := created_by\<rparr>"

definition remove_parts :: "decimal \<Rightarrow> repair_job \<Rightarrow> repair_job" where
  "remove_parts line_value job = recompute_payable (job\<lparr>rj_parts_total := Money (rj_parts_total job - line_value)\<rparr>)"

definition return_part :: "uuid \<Rightarrow> uuid \<Rightarrow> uuid option \<Rightarrow> database \<Rightarrow> (unit \<times> database) res" where
  "return_part organization_id repair_job_part_id created_by s =
     (case first_row (\<lambda>p. rt_id p = repair_job_part_id) (db_repair_job_parts s) of
        None \<Rightarrow> Inl not_found
      | Some part \<Rightarrow>
     if rt_is_returned part then Inl (business ''already_returned'')
     else res_bind (get_job organization_id (rt_repair_job_id part) s) (\<lambda>job.
       res_bind (on_inventory (post_movement (return_movement organization_id job part created_by)) s) (\<lambda>(posted, s1).
       let s2 = s1\<lparr>db_repair_job_parts := upd_first (\<lambda>p. rt_id p = repair_job_part_id)
                  (\<lambda>p. p\<lparr>rt_is_returned := True, rt_return_movement_id := Some (pm_movement_id posted)\<rparr>)
                  (db_repair_job_parts s1)\<rparr>
       in Inr ((), update_job (rj_id job) (remove_parts (Money (dmul (rt_unit_price part) (rt_base_quantity part)))) s2))))"

definition complete :: "decimal \<Rightarrow> date \<Rightarrow> repair_job \<Rightarrow> repair_job" where
  "complete labour_charges completed_date job =
     (recompute_payable (job\<lparr>rj_labour_charges := Money labour_charges\<rparr>))
     \<lparr>rj_status := READY, rj_completed_date := Some completed_date\<rparr>"

definition set_labour_and_complete ::
  "uuid \<Rightarrow> uuid \<Rightarrow> decimal \<Rightarrow> date \<Rightarrow> database \<Rightarrow> (repair_job \<times> database) res" where
  "set_labour_and_complete organization_id repair_job_id labour_charges completed_date s =
     res_bind (get_job organization_id repair_job_id s) (\<lambda>job.
     Inr (complete labour_charges completed_date job,
          update_job (rj_id job) (complete labour_charges completed_date) s))"

section \<open>The endpoints\<close>

record create_job_request =
  cj_warehouse_id :: uuid
  cj_customer_id :: "uuid option"
  cj_product_id :: "uuid option"
  cj_complaint :: "string option"

definition post_job :: "current_user \<Rightarrow> create_job_request \<Rightarrow> database \<Rightarrow> (repair_job \<times> database) res" where
  "post_job user payload s =
     res_bind (require_permission ''service.manage'' user) (\<lambda>user.
     create_job
       \<lparr>jb_organization_id = cu_organization_id user, jb_warehouse_id = cj_warehouse_id payload,
        jb_received_date = today s, jb_customer_id = cj_customer_id payload, jb_product_id = cj_product_id payload,
        jb_serial_id = None, jb_complaint = cj_complaint payload, jb_branch_id = default_branch_id user,
        jb_technician_id = Some (cu_user_id user)\<rparr> s)"

definition moved_to :: "repair_status \<Rightarrow> date \<Rightarrow> repair_job \<Rightarrow> repair_job" where
  "moved_to status day job =
     job\<lparr>rj_status := status,
         rj_completed_date := (if status = DELIVERED \<and> rj_completed_date job = None then Some day
                               else rj_completed_date job)\<rparr>"

definition update_status :: "current_user \<Rightarrow> uuid \<Rightarrow> repair_status \<Rightarrow> database \<Rightarrow> (repair_job \<times> database) res" where
  "update_status user job_id status s =
     res_bind (require_permission ''service.manage'' user) (\<lambda>user.
     res_bind (get_job (cu_organization_id user) job_id s) (\<lambda>job.
     if rj_status job \<in> {DELIVERED, JOB_CANCELLED} then Inl (business ''job_closed'')
     else Inr (moved_to status (today s) job, update_job job_id (moved_to status (today s)) s)))"

definition post_part :: "current_user \<Rightarrow> uuid \<Rightarrow> uuid \<Rightarrow> decimal \<Rightarrow> database \<Rightarrow> (consume_part_result \<times> database) res" where
  "post_part user job_id product_id base_quantity s =
     res_bind (require_permission ''service.manage'' user) (\<lambda>user.
     consume_part \<lparr>cn_organization_id = cu_organization_id user, cn_repair_job_id = job_id, cn_product_id = product_id,
       cn_base_quantity = base_quantity, cn_created_by = Some (cu_user_id user), cn_as_of = None\<rparr> s)"

text \<open>The job in the path of the request is not compared with the job of the part.\<close>

definition post_return :: "current_user \<Rightarrow> uuid \<Rightarrow> uuid \<Rightarrow> database \<Rightarrow> (unit \<times> database) res" where
  "post_return user job_id part_id s =
     res_bind (require_permission ''service.manage'' user) (\<lambda>user.
     return_part (cu_organization_id user) part_id (Some (cu_user_id user)) s)"

definition complete_job :: "current_user \<Rightarrow> uuid \<Rightarrow> decimal \<Rightarrow> database \<Rightarrow> (repair_job \<times> database) res" where
  "complete_job user job_id labour_charges s =
     res_bind (require_permission ''service.manage'' user) (\<lambda>user.
     set_labour_and_complete (cu_organization_id user) job_id labour_charges (today s) s)"

section \<open>Listing the jobs\<close>

text \<open>\<open>JobOut\<close>: the row with the names of the outer joins.\<close>

record job_out =
  jo_job :: repair_job
  jo_customer_name :: "string option"
  jo_product_name :: "string option"
  jo_technician_name :: "string option"

definition to_job_out :: "database \<Rightarrow> repair_job \<Rightarrow> job_out" where
  "to_job_out s job =
     \<lparr>jo_job = job,
      jo_customer_name = Option.bind (rj_customer_id job) (\<lambda>i. map_option cs_name (get_customer i s)),
      jo_product_name = Option.bind (rj_product_id job) (\<lambda>i. map_option pd_name (get_product i (db_products s))),
      jo_technician_name = Option.bind (rj_technician_id job) (\<lambda>i. map_option us_full_name (get_user i (db_identity s)))\<rparr>"

definition OPEN_STATUSES :: "repair_status list" where
  "OPEN_STATUSES =
     [RECEIVED, UNDER_INSPECTION, ESTIMATE_PREPARED, AWAITING_APPROVAL, APPROVED, IN_PROGRESS, WAITING_FOR_PART,
      QUALITY_CHECK]"

definition job_rows ::
  "(string \<Rightarrow> string \<Rightarrow> bool) \<Rightarrow> repair_status option \<Rightarrow> string option \<Rightarrow> uuid \<Rightarrow> database \<Rightarrow> job_out list" where
  "job_rows ilike status search organization_id s =
     map (to_job_out s) (rev (filter (\<lambda>j. rj_organization_id j = organization_id
        \<and> given status (\<lambda>v. rj_status j = v) \<and> searched ilike search (rj_job_number j)) (db_repair_jobs s)))"

text \<open>The page and, beside it, the number of open jobs of the organization, whatever the filters.\<close>

definition list_jobs ::
  "(string \<Rightarrow> string \<Rightarrow> bool) \<Rightarrow> current_user \<Rightarrow> repair_status option \<Rightarrow> string option \<Rightarrow> nat \<Rightarrow> nat \<Rightarrow> database
     \<Rightarrow> (job_out page \<times> nat) res" where
  "list_jobs ilike user status search limit offset s =
     res_bind (require_permission ''service.manage'' user) (\<lambda>user.
     Inr (page_of limit offset (job_rows ilike status search (cu_organization_id user) s),
          length (filter (\<lambda>j. rj_organization_id j = cu_organization_id user \<and> rj_status j \<in> set OPEN_STATUSES)
            (db_repair_jobs s))))"

record job_part_out =
  jp_part :: repair_job_part
  jp_product_name :: string
  jp_line_total :: decimal

definition to_job_part_out :: "database \<Rightarrow> repair_job_part \<Rightarrow> job_part_out option" where
  "to_job_part_out s part =
     map_option (\<lambda>p. \<lparr>jp_part = part, jp_product_name = pd_name p,
        jp_line_total = dmul (rt_unit_price part) (rt_base_quantity part)\<rparr>)
       (get_product (rt_product_id part) (db_products s))"

definition job_detail :: "current_user \<Rightarrow> uuid \<Rightarrow> database \<Rightarrow> (job_out \<times> job_part_out list) res" where
  "job_detail user job_id s =
     res_bind (require_permission ''service.manage'' user) (\<lambda>user.
     case first_row (\<lambda>j. rj_id j = job_id \<and> rj_organization_id j = cu_organization_id user) (db_repair_jobs s) of
       None \<Rightarrow> Inl not_found
     | Some job \<Rightarrow> Inr (to_job_out s job,
         List.map_filter (to_job_part_out s) (filter (\<lambda>p. rt_repair_job_id p = rj_id job) (db_repair_job_parts s))))"

section \<open>The charges add up\<close>

definition part_value :: "repair_job_part \<Rightarrow> decimal" where
  "part_value p = Money (dmul (rt_unit_price p) (rt_base_quantity p))"

text \<open>The value of the parts in a job, those given back excepted.\<close>

definition parts_value :: "uuid \<Rightarrow> repair_job_part list \<Rightarrow> decimal" where
  "parts_value i parts = sum_rows (\<lambda>p. rt_repair_job_id p = i \<and> \<not> rt_is_returned p) part_value parts"

definition job_ok :: "repair_job_part list \<Rightarrow> repair_job \<Rightarrow> bool" where
  "job_ok parts j \<longleftrightarrow>
     rj_parts_total j = parts_value (rj_id j) parts \<and> paisa_grid (rj_labour_charges j)
     \<and> rj_customer_payable j = rj_labour_charges j + (if rj_is_warranty_covered j then 0 else rj_parts_total j)"

definition jobs_ok :: "database \<Rightarrow> bool" where
  "jobs_ok s \<longleftrightarrow>
     distinct (map rj_id (db_repair_jobs s)) \<and> (\<forall>j \<in> set (db_repair_jobs s). rj_id j < db_next s)
     \<and> distinct (map rt_id (db_repair_job_parts s))
     \<and> (\<forall>p \<in> set (db_repair_job_parts s). rt_id p < db_next s \<and> rt_repair_job_id p < db_next s)
     \<and> (\<forall>j \<in> set (db_repair_jobs s). job_ok (db_repair_job_parts s) j)"

lemma parts_value_grid: "paisa_grid (parts_value i parts)"
  unfolding parts_value_def sum_rows_def by (rule on_grid_sum_list) (auto simp: part_value_def)

lemma recompute_ok:
  assumes "paisa_grid (rj_labour_charges j)" "paisa_grid (rj_parts_total j)"
  shows "rj_customer_payable (recompute_payable j)
    = rj_labour_charges j + (if rj_is_warranty_covered j then 0 else rj_parts_total j)"
  using assms by (auto simp: recompute_payable_def Let_def intro!: Money_id on_grid_add)

lemma recompute_sel [simp]:
  "rj_id (recompute_payable j) = rj_id j" "rj_parts_total (recompute_payable j) = rj_parts_total j"
  "rj_labour_charges (recompute_payable j) = rj_labour_charges j"
  "rj_is_warranty_covered (recompute_payable j) = rj_is_warranty_covered j"
  "rj_status (recompute_payable j) = rj_status j"
  by (simp_all add: recompute_payable_def Let_def)

lemma job_okI:
  assumes "rj_parts_total j = parts_value (rj_id j) parts" "paisa_grid (rj_labour_charges j)"
  shows "job_ok parts (recompute_payable j)"
  using assms recompute_ok [of j] by (simp add: job_ok_def parts_value_grid)

lemma add_parts_ok:
  assumes "job_ok parts j" "parts_value (rj_id j) parts' = parts_value (rj_id j) parts + v"
  shows "job_ok parts' (add_parts v j)"
proof -
  have "Money (rj_parts_total j + v) = parts_value (rj_id j) parts'"
    using assms Money_id [OF parts_value_grid, of "rj_id j" parts'] by (simp add: job_ok_def)
  then show ?thesis unfolding add_parts_def by (intro job_okI) (use assms(1) in \<open>simp_all add: job_ok_def\<close>)
qed

lemma remove_parts_ok:
  assumes "job_ok parts j" "parts_value (rj_id j) parts' = parts_value (rj_id j) parts - v"
  shows "job_ok parts' (remove_parts v j)"
proof -
  have "Money (rj_parts_total j - v) = parts_value (rj_id j) parts'"
    using assms Money_id [OF parts_value_grid, of "rj_id j" parts'] by (simp add: job_ok_def)
  then show ?thesis unfolding remove_parts_def by (intro job_okI) (use assms(1) in \<open>simp_all add: job_ok_def\<close>)
qed

lemma charges_sel [simp]:
  "rj_id (add_parts v j) = rj_id j" "rj_id (remove_parts v j) = rj_id j" "rj_id (complete l d j) = rj_id j"
  "rj_id (moved_to st d j) = rj_id j"
  by (simp_all add: add_parts_def remove_parts_def complete_def moved_to_def)

text \<open>Changing one job, and perhaps its parts.\<close>

lemma jobs_okI:
  assumes "jobs_ok s" "first_row (\<lambda>j. rj_id j = i) (db_repair_jobs s) = Some job"
    and "db_repair_jobs t = upd_first (\<lambda>j. rj_id j = i) f (db_repair_jobs s)" "\<And>j. rj_id (f j) = rj_id j"
    and "db_next s \<le> db_next t" "distinct (map rt_id (db_repair_job_parts t))"
    and "\<forall>p \<in> set (db_repair_job_parts t). rt_id p < db_next t \<and> rt_repair_job_id p < db_next t"
    and "job_ok (db_repair_job_parts t) (f job)"
    and "\<And>k. k \<noteq> i \<Longrightarrow> parts_value k (db_repair_job_parts t) = parts_value k (db_repair_job_parts s)"
  shows "jobs_ok t"
proof -
  have d: "distinct (map rj_id (db_repair_jobs s))" using assms(1) by (simp add: jobs_ok_def)
  have job: "job \<in> set (db_repair_jobs s)" "rj_id job = i" using first_row_Some [OF assms(2)] by auto
  have jobs: "db_repair_jobs t = map (\<lambda>j. if rj_id j = i then f j else j) (db_repair_jobs s)"
    unfolding assms(3) by (rule upd_first_key_map [OF d])
  have ids: "map rj_id (db_repair_jobs t) = map rj_id (db_repair_jobs s)" by (auto simp: jobs assms(4))
  have "job_ok (db_repair_job_parts t) x \<and> rj_id x < db_next t" if x: "x \<in> set (db_repair_jobs t)" for x
    using x unfolding jobs
  proof (rule in_map_if)
    fix y assume y: "y \<in> set (db_repair_jobs s)" "rj_id y = i" "x = f y"
    then have "y = job" using d job by (auto simp: distinct_map dest: inj_onD)
    then show ?thesis using y assms(1,4,5,8) by (auto simp: jobs_ok_def intro: less_le_trans)
  next
    assume y: "x \<in> set (db_repair_jobs s)" "rj_id x \<noteq> i"
    then show ?thesis using assms(1,5) assms(9) [OF y(2)] by (auto simp: jobs_ok_def job_ok_def intro: less_le_trans)
  qed
  then show ?thesis using d assms(6,7) ids unfolding jobs_ok_def by metis
qed

lemma get_job_ok: "get_job org i s = Inr j \<longleftrightarrow> first_row (\<lambda>j. rj_id j = i) (db_repair_jobs s) = Some j \<and> rj_organization_id j = org"
  by (auto simp: get_job_def split: option.splits)

lemma create_job_keeps:
  assumes "create_job a s = Inr (j, t)" "jobs_ok s"
  shows "jobs_ok t"
proof -
  obtain n s1 where n: "issue_number (jb_organization_id a) ''repair_job'' (jb_branch_id a) s = (n, s1)"
    by (cases "issue_number (jb_organization_id a) ''repair_job'' (jb_branch_id a) s")
  obtain q where q: "s1 = s\<lparr>db_numbering := q\<rparr>" using issue_number_ok [OF n] by blast
  have t: "t = s1\<lparr>db_repair_jobs := db_repair_jobs s1 @ [job_row a n s1], db_next := Suc (db_next s1)\<rparr>"
    using assms(1) unfolding create_job_def n by (auto simp: insert_job_def Let_def split: if_splits)
  have "parts_value (db_next s) (db_repair_job_parts s) = 0"
    unfolding parts_value_def sum_rows_def
    by (subst filter_False) (use assms(2) in \<open>auto simp: jobs_ok_def\<close>)
  then have "job_ok (db_repair_job_parts s) (job_row a n s1)" by (simp add: job_ok_def job_row_def Let_def q)
  then show ?thesis
    using assms(2) unfolding jobs_ok_def t q by (auto simp: job_row_def Let_def)
qed

lemma consume_part_cases:
  assumes "consume_part a s = Inr (r, t)"
  obtains job product moves v where "first_row (\<lambda>j. rj_id j = cn_repair_job_id a) (db_repair_jobs s) = Some job"
    "rj_organization_id job = cn_organization_id a" "0 < cn_base_quantity a"
    "get_product (cn_product_id a) (db_products s) = Some product"
    "issue_fefo (part_issue a job) (db_inventory s) = Inr (moves, v)"
    "t = s\<lparr>db_inventory := v,
       db_repair_job_parts := db_repair_job_parts s @ [part_row a job product moves (db_next s)],
       db_next := Suc (db_next s),
       db_repair_jobs := upd_first (\<lambda>j. rj_id j = cn_repair_job_id a)
         (add_parts (Money (dmul (pd_retail_price product) (cn_base_quantity a)))) (db_repair_jobs s)\<rparr>"
proof -
  obtain job where j: "get_job (cn_organization_id a) (cn_repair_job_id a) s = Inr job"
    using assms by (auto simp: consume_part_def)
  then have "rj_id job = cn_repair_job_id a" by (auto simp: get_job_ok dest: first_row_Some)
  then show ?thesis
    using assms j that by (auto simp: consume_part_def Let_def on_inventory_ok get_job_ok update_job_def not_le
        split: option.splits if_splits)
qed

lemma consume_part_keeps:
  assumes "consume_part a s = Inr (r, t)" "jobs_ok s"
  shows "jobs_ok t"
  using assms(1)
proof (rule consume_part_cases)
  fix job and product :: product and moves v
  let ?v = "Money (dmul (pd_retail_price product) (cn_base_quantity a))"
  let ?p = "part_row a job product moves (db_next s)"
  assume j: "first_row (\<lambda>j. rj_id j = cn_repair_job_id a) (db_repair_jobs s) = Some job"
    and t: "t = s\<lparr>db_inventory := v, db_repair_job_parts := db_repair_job_parts s @ [?p], db_next := Suc (db_next s),
       db_repair_jobs := upd_first (\<lambda>j. rj_id j = cn_repair_job_id a) (add_parts ?v) (db_repair_jobs s)\<rparr>"
  have job: "job \<in> set (db_repair_jobs s)" "rj_id job = cn_repair_job_id a" using first_row_Some [OF j] by auto
  then have "job_ok (db_repair_job_parts s) job" "rj_id job < db_next s" using assms(2) by (auto simp: jobs_ok_def)
  moreover have new: "parts_value k (db_repair_job_parts s @ [?p])
      = parts_value k (db_repair_job_parts s) + (if k = rj_id job then ?v else 0)" for k
    by (simp add: parts_value_def sum_rows_append sum_rows_Cons part_row_def part_value_def)
  moreover have "rt_id ?p = db_next s" "rt_repair_job_id ?p = rj_id job" by (simp_all add: part_row_def)
  ultimately show ?thesis
    by (intro jobs_okI [OF assms(2) j, of t "add_parts ?v"])
      (use assms(2) job(2) in \<open>auto simp: t jobs_ok_def intro: add_parts_ok\<close>)
qed

lemma parts_value_returned:
  assumes "first_row (\<lambda>p. rt_id p = i) parts = Some part" "\<not> rt_is_returned part"
  shows "parts_value k (upd_first (\<lambda>p. rt_id p = i) (\<lambda>p. p\<lparr>rt_is_returned := True, rt_return_movement_id := m\<rparr>) parts)
    = parts_value k parts - (if k = rt_repair_job_id part then part_value part else 0)"
proof -
  obtain xs ys where "parts = xs @ part # ys"
    "upd_first (\<lambda>p. rt_id p = i) (\<lambda>p. p\<lparr>rt_is_returned := True, rt_return_movement_id := m\<rparr>) parts
      = xs @ part\<lparr>rt_is_returned := True, rt_return_movement_id := m\<rparr> # ys"
    using upd_first_eq_list_update [OF assms(1)] by blast
  then show ?thesis using assms(2) by (simp add: parts_value_def sum_rows_append sum_rows_Cons)
qed

lemma return_part_cases:
  assumes "return_part org i by s = Inr (u, t)"
  obtains part job x v where "first_row (\<lambda>p. rt_id p = i) (db_repair_job_parts s) = Some part" "\<not> rt_is_returned part"
    "first_row (\<lambda>j. rj_id j = rt_repair_job_id part) (db_repair_jobs s) = Some job" "rj_organization_id job = org"
    "post_movement (return_movement org job part by) (db_inventory s) = Inr (x, v)"
    "t = s\<lparr>db_inventory := v,
       db_repair_job_parts := upd_first (\<lambda>p. rt_id p = i)
         (\<lambda>p. p\<lparr>rt_is_returned := True, rt_return_movement_id := Some (pm_movement_id x)\<rparr>) (db_repair_job_parts s),
       db_repair_jobs := upd_first (\<lambda>j. rj_id j = rt_repair_job_id part) (remove_parts (part_value part)) (db_repair_jobs s)\<rparr>"
proof -
  obtain part where p: "first_row (\<lambda>p. rt_id p = i) (db_repair_job_parts s) = Some part" "\<not> rt_is_returned part"
    using assms by (auto simp: return_part_def split: option.splits if_splits)
  obtain job where j: "get_job org (rt_repair_job_id part) s = Inr job" using assms p by (auto simp: return_part_def)
  then have "rj_id job = rt_repair_job_id part" by (auto simp: get_job_ok dest: first_row_Some)
  then show ?thesis
    using assms p j that by (auto simp: return_part_def Let_def on_inventory_ok get_job_ok update_job_def part_value_def)
qed

lemma return_part_keeps:
  assumes "return_part org i by s = Inr (u, t)" "jobs_ok s"
  shows "jobs_ok t"
  using assms(1)
proof (rule return_part_cases)
  fix part :: repair_job_part and job x v
  let ?g = "\<lambda>p. p\<lparr>rt_is_returned := True, rt_return_movement_id := Some (pm_movement_id x)\<rparr>"
  assume p: "first_row (\<lambda>p. rt_id p = i) (db_repair_job_parts s) = Some part" "\<not> rt_is_returned part"
    and j: "first_row (\<lambda>j. rj_id j = rt_repair_job_id part) (db_repair_jobs s) = Some job"
    and t: "t = s\<lparr>db_inventory := v, db_repair_job_parts := upd_first (\<lambda>p. rt_id p = i) ?g (db_repair_job_parts s),
       db_repair_jobs := upd_first (\<lambda>j. rj_id j = rt_repair_job_id part) (remove_parts (part_value part)) (db_repair_jobs s)\<rparr>"
  have job: "job \<in> set (db_repair_jobs s)" "rj_id job = rt_repair_job_id part" using first_row_Some [OF j] by auto
  have ids: "map rt_id (db_repair_job_parts t) = map rt_id (db_repair_job_parts s)"
    unfolding t by (simp, rule map_upd_first) simp
  have rows: "\<forall>p \<in> set (db_repair_job_parts t). rt_id p < db_next t \<and> rt_repair_job_id p < db_next t"
    using assms(2) by (auto simp: t jobs_ok_def dest!: set_upd_first)
  note returned = parts_value_returned [OF p, of _ "Some (pm_movement_id x)"]
  show ?thesis
  proof (rule jobs_okI [OF assms(2) j _ _ _ _ rows])
    show "db_repair_jobs t = upd_first (\<lambda>j. rj_id j = rt_repair_job_id part) (remove_parts (part_value part)) (db_repair_jobs s)"
      by (simp add: t)
    show "distinct (map rt_id (db_repair_job_parts t))" using assms(2) by (simp add: ids jobs_ok_def)
    show "job_ok (db_repair_job_parts t) (remove_parts (part_value part) job)"
      by (rule remove_parts_ok) (use assms(2) job returned in \<open>auto simp: t jobs_ok_def\<close>)
    show "parts_value k (db_repair_job_parts t) = parts_value k (db_repair_job_parts s)" if "k \<noteq> rt_repair_job_id part" for k
      using that returned by (simp add: t)
  qed (simp_all add: t)
qed

lemma job_changed_keeps:
  assumes "jobs_ok s" "first_row (\<lambda>j. rj_id j = i) (db_repair_jobs s) = Some job" "\<And>j. rj_id (f j) = rj_id j"
    and "\<And>parts. job_ok parts job \<Longrightarrow> job_ok parts (f job)"
  shows "jobs_ok (update_job i f s)"
proof -
  have "job \<in> set (db_repair_jobs s)" using first_row_Some [OF assms(2)] by blast
  then show ?thesis
    by (intro jobs_okI [OF assms(1,2), where f = f]) (use assms(1,3,4) in \<open>auto simp: update_job_def jobs_ok_def\<close>)
qed

lemma set_labour_keeps:
  assumes "set_labour_and_complete org i l d s = Inr (j, t)" "jobs_ok s"
  shows "jobs_ok t"
proof -
  obtain job where job: "get_job org i s = Inr job" using assms(1) by (auto simp: set_labour_and_complete_def)
  then have f: "first_row (\<lambda>j. rj_id j = i) (db_repair_jobs s) = Some job" "rj_id job = i"
    by (auto simp: get_job_ok dest: first_row_Some)
  have "job_ok parts (complete l d job)" if "job_ok parts job" for parts
    using job_okI [of "job\<lparr>rj_labour_charges := Money l\<rparr>" parts] that by (simp add: job_ok_def complete_def)
  then show ?thesis
    using assms(1) job f job_changed_keeps [OF assms(2) f(1), of "complete l d"]
    by (simp add: set_labour_and_complete_def)
qed

lemma update_status_keeps:
  assumes "update_status user i st s = Inr (j, t)" "jobs_ok s"
  shows "jobs_ok t"
proof -
  obtain job where job: "get_job (cu_organization_id user) i s = Inr job" "t = update_job i (moved_to st (today s)) s"
    using assms(1) by (auto simp: update_status_def split: if_splits)
  then have f: "first_row (\<lambda>j. rj_id j = i) (db_repair_jobs s) = Some job" by (simp add: get_job_ok)
  show ?thesis
    unfolding job(2) by (rule job_changed_keeps [OF assms(2) f]) (simp_all add: job_ok_def moved_to_def)
qed

text \<open>The requests of the workshop.\<close>

datatype workshop_command =
    PostJob current_user create_job_request
  | UpdateStatus current_user uuid repair_status
  | PostPart current_user uuid uuid decimal
  | PostReturn current_user uuid uuid
  | CompleteJob current_user uuid decimal

definition silent :: "('a \<times> 's) res \<Rightarrow> (unit \<times> 's) res" where
  "silent r = res_bind r (\<lambda>(_, s). Inr ((), s))"

lemma silent_ok: "silent r = Inr (u, t) \<longleftrightarrow> (\<exists>a. r = Inr (a, t))"
  by (auto simp: silent_def)

fun run_workshop :: "workshop_command \<Rightarrow> database \<Rightarrow> (unit \<times> database) res" where
  "run_workshop (PostJob user payload) s = silent (post_job user payload s)"
| "run_workshop (UpdateStatus user i st) s = silent (update_status user i st s)"
| "run_workshop (PostPart user i p q) s = silent (post_part user i p q s)"
| "run_workshop (PostReturn user i p) s = silent (post_return user i p s)"
| "run_workshop (CompleteJob user i l) s = silent (complete_job user i l s)"

lemma run_workshop_keeps: "run_workshop c s = Inr (u, t) \<Longrightarrow> jobs_ok s \<Longrightarrow> jobs_ok t"
  by (cases c)
    (auto simp: silent_ok post_job_def post_part_def post_return_def complete_job_def
      intro: create_job_keeps update_status_keeps consume_part_keeps return_part_keeps set_labour_keeps)

interpretation workshop: handler_contract jobs_ok "\<lambda>_. True" run_workshop
  by unfold_locales (rule run_workshop_keeps)


section \<open>Closed jobs and returned parts\<close>

text \<open>
  Completing reopens closed jobs. A job that was delivered or cancelled refuses every change of
  status, but \<open>complete\<close> accepts it, whatever its status, and makes it ready again.
\<close>

theorem complete_reopens_closed_job:
  assumes "get_job (cu_organization_id user) i s = Inr job" "rj_status job \<in> {DELIVERED, JOB_CANCELLED}"
    and "has_permission user ''service.manage''"
  shows "(\<forall>st. update_status user i st s = Inl (business ''job_closed''))
    \<and> (\<exists>j t. complete_job user i labour s = Inr (j, t) \<and> rj_status j = READY
          \<and> get_job (cu_organization_id user) i t = Inr j)"
proof -
  have f: "first_row (\<lambda>j. rj_id j = i) (db_repair_jobs s) = Some job" "rj_organization_id job = cu_organization_id user"
    "rj_id job = i"
    using assms(1) by (auto simp: get_job_ok dest: first_row_Some)
  let ?f = "complete labour (today s)"
  have "get_job (cu_organization_id user) i (update_job i ?f s) = Inr (?f job)"
    using first_row_upd_first_same [OF f(1), of ?f] f(2)
    by (simp add: get_job_ok update_job_def) (simp add: complete_def recompute_payable_def Let_def)
  then show ?thesis
    using assms f(3)
    by (auto simp: update_status_def complete_job_def set_labour_and_complete_def complete_def require_permission_def)
qed

section \<open>An example\<close>

text \<open>A job for which two units are taken, one more is taken and given back, and labour is 50.\<close>

definition sample_job_request :: create_job_request where
  "sample_job_request = \<lparr>cj_warehouse_id = 4, cj_customer_id = Some 5, cj_product_id = None, cj_complaint = None\<rparr>"

definition sample_repair :: "workshop_command list" where
  "sample_repair =
     [PostJob sample_clerk sample_job_request, PostPart sample_clerk 1 7 2, PostPart sample_clerk 1 7 1,
      PostReturn sample_clerk 1 3, PostReturn sample_clerk 1 3, CompleteJob sample_clerk 1 50,
      UpdateStatus sample_clerk 1 DELIVERED]"

definition repaired_database :: database where
  "repaired_database = serve run_workshop sample_repair stocked_database"

lemma stocked_jobs_ok: "jobs_ok stocked_database"
  by code_simp

lemma repaired_database_jobs: "jobs_ok repaired_database"
  unfolding repaired_database_def by (rule workshop.serve_keeps) (simp_all add: stocked_jobs_ok)

lemma sample_repair_row:
  "\<exists>j. get_job 1 1 repaired_database = Inr j \<and> rj_id j = 1 \<and> rj_labour_charges j = 50
     \<and> \<not> rj_is_warranty_covered j \<and> rj_parts_total j = 200 \<and> rj_status j = DELIVERED"
proof -
  have "(case get_job 1 1 repaired_database of Inr j \<Rightarrow> rj_id j = 1 \<and> rj_labour_charges j = 50
     \<and> \<not> rj_is_warranty_covered j \<and> rj_parts_total j = 200 \<and> rj_status j = DELIVERED | _ \<Rightarrow> False)"
    by code_simp
  then show ?thesis by (simp split: sum.splits)
qed


theorem complete_reopens_closed_job_witness:
  "update_status sample_clerk 1 RECEIVED repaired_database = Inl (business ''job_closed'')
   \<and> (\<exists>j t. complete_job sample_clerk 1 75 repaired_database = Inr (j, t) \<and> rj_status j = READY)"
proof -
  have clerk: "cu_organization_id sample_clerk = 1" "has_permission sample_clerk ''service.manage''"
    by (simp_all add: sample_clerk_def has_permission_def)
  obtain j where "get_job 1 1 repaired_database = Inr j" "rj_status j = DELIVERED" using sample_repair_row by blast
  then show ?thesis
    using complete_reopens_closed_job [of sample_clerk 1 repaired_database j 75] by (auto simp: clerk)
qed

end
