(* ===== verification/Sessions.thy ===== *)
theory Sessions
  imports Identity
begin

text \<open>
  What the authentication service guarantees over any history of sign-ins, refreshes and sign-outs:
  the life of sessions and refresh tokens as a step relation, its invariant, single use of refresh
  tokens, the end of a session whose token was replayed, the lockout, and the round trip from issued
  access tokens to the current user.
\<close>

section \<open>Histories\<close>

datatype auth_command =
    SignIn timestamp string string client_info
  | Refresh timestamp string client_info
  | SignOut timestamp "string option"

definition run_auth :: "crypto \<Rightarrow> auth_settings \<Rightarrow> auth_command \<Rightarrow> identity \<Rightarrow> identity" where
  "run_auth c settings cmd s =
     (case cmd of
        SignIn now email password client \<Rightarrow> snd (authenticate c settings now email password client s)
      | Refresh now raw client \<Rightarrow> snd (refresh c settings now raw client s)
      | SignOut now raw \<Rightarrow> logout c now raw s)"

text \<open>The service commits what it does on both paths, so no command of a history is rolled back.\<close>

definition auth_handler :: "crypto \<Rightarrow> auth_settings \<Rightarrow> auth_command \<Rightarrow> identity \<Rightarrow> (unit \<times> identity) res" where
  "auth_handler c settings cmd s = Inr ((), run_auth c settings cmd s)"

definition auth_history :: "crypto \<Rightarrow> auth_settings \<Rightarrow> auth_command list \<Rightarrow> identity \<Rightarrow> identity" where
  "auth_history c settings cmds s = serve (auth_handler c settings) cmds s"

lemma auth_history_simps [simp]:
  "auth_history c settings [] s = s"
  "auth_history c settings (cmd # cmds) s = auth_history c settings cmds (run_auth c settings cmd s)"
  by (simp_all add: auth_history_def serve_def run_request_def auth_handler_def)

section \<open>The life of sessions and tokens\<close>

definition live :: "refresh_token \<Rightarrow> bool" where
  "live t \<longleftrightarrow> tk_used_at t = None \<and> tk_revoked_at t = None"

definition unseen :: "refresh_token \<Rightarrow> identity \<Rightarrow> bool" where
  "unseen k s \<longleftrightarrow> (\<forall>t \<in> set (id_tokens s). tk_token_hash t \<noteq> tk_token_hash k) \<and> id_next s \<le> tk_id k"

inductive session_step :: "identity \<Rightarrow> identity \<Rightarrow> bool" where
  idle: "\<lbrakk>id_sessions t = id_sessions s; id_tokens t = id_tokens s; id_next s \<le> id_next t\<rbrakk> \<Longrightarrow> session_step s t"
| opened: "\<lbrakk>unseen k s; ss_id v = tk_session_id k; id_next s \<le> ss_id v; ss_id v < id_next t; tk_id k < id_next t;
    ss_revoked_at v = None; id_sessions t = id_sessions s @ [v]; id_tokens t = id_tokens s @ [k]\<rbrakk>
    \<Longrightarrow> session_step s t"
| rotated: "\<lbrakk>old \<in> set (id_tokens s); live old; unseen k s; tk_session_id k = tk_session_id old; tk_id k < id_next t;
    v \<in> set (id_sessions s); ss_id v = tk_session_id old; ss_revoked_at v = None; id_next s \<le> id_next t;
    id_sessions t = upd_first (\<lambda>v. ss_id v = tk_session_id old) (\<lambda>v. v\<lparr>ss_last_seen_at := now\<rparr>) (id_sessions s);
    id_tokens t = upd_first (\<lambda>x. tk_id x = tk_id old)
      (\<lambda>x. x\<lparr>tk_used_at := Some now, tk_replaced_by_id := Some (tk_id k)\<rparr>) (id_tokens s) @ [k]\<rbrakk>
    \<Longrightarrow> session_step s t"
| killed: "\<lbrakk>id_next t = id_next s;
    id_sessions t = upd_first (\<lambda>v. ss_id v = i) (\<lambda>v. v\<lparr>ss_revoked_at := Some now\<rparr>) (id_sessions s);
    id_tokens t = upd_rows (\<lambda>x. tk_session_id x = i \<and> tk_revoked_at x = None)
      (\<lambda>x. x\<lparr>tk_revoked_at := Some now\<rparr>) (id_tokens s)\<rbrakk>
    \<Longrightarrow> session_step s t"

inductive_cases session_stepE: "session_step s t"

text \<open>
  Identities and hashes are unique, a session has at most one token that can still be redeemed, and
  the tokens of a revoked session are revoked.
\<close>

definition sessions_ok :: "identity \<Rightarrow> bool" where
  "sessions_ok s \<longleftrightarrow>
     distinct (map tk_id (id_tokens s)) \<and> distinct (map tk_token_hash (id_tokens s))
     \<and> distinct (map ss_id (id_sessions s))
     \<and> (\<forall>t \<in> set (id_tokens s). tk_id t < id_next s \<and> tk_session_id t < id_next s)
     \<and> (\<forall>v \<in> set (id_sessions s). ss_id v < id_next s)
     \<and> (\<forall>t \<in> set (id_tokens s). \<forall>u \<in> set (id_tokens s).
          live t \<longrightarrow> live u \<longrightarrow> tk_session_id t = tk_session_id u \<longrightarrow> t = u)
     \<and> (\<forall>v \<in> set (id_sessions s). ss_revoked_at v \<noteq> None \<longrightarrow>
          (\<forall>t \<in> set (id_tokens s). tk_session_id t = ss_id v \<longrightarrow> tk_revoked_at t \<noteq> None))"

lemma sessions_okI:
  assumes "distinct (map tk_id (id_tokens s))" "distinct (map tk_token_hash (id_tokens s))"
    "distinct (map ss_id (id_sessions s))"
    "\<And>t. t \<in> set (id_tokens s) \<Longrightarrow> tk_id t < id_next s \<and> tk_session_id t < id_next s"
    "\<And>v. v \<in> set (id_sessions s) \<Longrightarrow> ss_id v < id_next s"
    "\<And>t u. t \<in> set (id_tokens s) \<Longrightarrow> u \<in> set (id_tokens s) \<Longrightarrow> live t \<Longrightarrow> live u
      \<Longrightarrow> tk_session_id t = tk_session_id u \<Longrightarrow> t = u"
    "\<And>v t. v \<in> set (id_sessions s) \<Longrightarrow> ss_revoked_at v \<noteq> None \<Longrightarrow> t \<in> set (id_tokens s)
      \<Longrightarrow> tk_session_id t = ss_id v \<Longrightarrow> tk_revoked_at t \<noteq> None"
  shows "sessions_ok s"
  using assms unfolding sessions_ok_def by blast

lemma sessions_okD:
  assumes "sessions_ok s"
  shows "distinct (map tk_id (id_tokens s))" "distinct (map tk_token_hash (id_tokens s))"
    "distinct (map ss_id (id_sessions s))"
    "t \<in> set (id_tokens s) \<Longrightarrow> tk_id t < id_next s" "t \<in> set (id_tokens s) \<Longrightarrow> tk_session_id t < id_next s"
    "v \<in> set (id_sessions s) \<Longrightarrow> ss_id v < id_next s"
    "t \<in> set (id_tokens s) \<Longrightarrow> u \<in> set (id_tokens s) \<Longrightarrow> live t \<Longrightarrow> live u
      \<Longrightarrow> tk_session_id t = tk_session_id u \<Longrightarrow> t = u"
    "v \<in> set (id_sessions s) \<Longrightarrow> ss_revoked_at v \<noteq> None \<Longrightarrow> t \<in> set (id_tokens s)
      \<Longrightarrow> tk_session_id t = ss_id v \<Longrightarrow> tk_revoked_at t \<noteq> None"
  using assms unfolding sessions_ok_def by blast+

lemma rotated_tokens:
  assumes "sessions_ok s" "old \<in> set (id_tokens s)"
  shows "upd_first (\<lambda>x. tk_id x = tk_id old) f (id_tokens s) = map (\<lambda>x. if x = old then f x else x) (id_tokens s)"
proof -
  have d: "distinct (map tk_id (id_tokens s))" using assms(1) by (simp add: sessions_ok_def)
  have "tk_id x = tk_id old \<longleftrightarrow> x = old" if "x \<in> set (id_tokens s)" for x
    using d assms(2) that by (auto simp: distinct_map dest: inj_onD)
  then show ?thesis by (simp add: upd_first_key_map [OF d])
qed

lemma revoked_sessions:
  assumes "sessions_ok s"
  shows "upd_first (\<lambda>v. ss_id v = i) f (id_sessions s) = map (\<lambda>v. if ss_id v = i then f v else v) (id_sessions s)"
  using assms by (intro upd_first_key_map) (simp add: sessions_ok_def)

lemma session_step_keeps:
  assumes "session_step s t" "sessions_ok s"
  shows "sessions_ok t"
  using assms(1)
proof cases
  case idle
  note ok = sessions_okD [OF assms(2)]
  have bounds: "tk_id x < id_next t \<and> tk_session_id x < id_next t" if "x \<in> set (id_tokens s)" for x
    using ok(4,5) [OF that] idle(3) by linarith
  have "ss_id x < id_next t" if "x \<in> set (id_sessions s)" for x using ok(6) [OF that] idle(3) by linarith
  then show ?thesis
    using ok(1-3,7,8) bounds unfolding sessions_ok_def idle(1,2) by (intro conjI) blast+
next
  case (opened k v)
  note ok = sessions_okD [OF assms(2)]
  have old: "tk_id x \<noteq> tk_id k" "tk_session_id x \<noteq> tk_session_id k" "tk_id x < id_next t" "tk_session_id x < id_next t"
    if "x \<in> set (id_tokens s)" for x
    using opened(1-5) ok(4,5) [OF that] by (auto simp: unseen_def)
  have sess: "ss_id x \<noteq> ss_id v" "ss_id x < id_next t" if "x \<in> set (id_sessions s)" for x
    using opened(1-5) ok(6) [OF that] by auto
  show ?thesis
  proof (rule sessions_okI)
    show "distinct (map tk_id (id_tokens t))" using ok(1) by (auto simp: opened(8) dest: old(1))
    show "distinct (map tk_token_hash (id_tokens t))" using ok(2) opened(1) by (auto simp: opened(8) unseen_def)
    show "distinct (map ss_id (id_sessions t))" using ok(3) by (auto simp: opened(7) dest: sess(1))
    show "tk_id x < id_next t \<and> tk_session_id x < id_next t" if "x \<in> set (id_tokens t)" for x
      using that old(3,4) opened(2,4,5) by (auto simp: opened(8))
    show "ss_id x < id_next t" if "x \<in> set (id_sessions t)" for x
      using that sess(2) opened(4) by (auto simp: opened(7))
    show "x = y" if "x \<in> set (id_tokens t)" "y \<in> set (id_tokens t)" "live x" "live y"
      "tk_session_id x = tk_session_id y" for x y
      using that old(2) [of x] old(2) [of y] ok(7) [of x y] by (auto simp: opened(8))
    show "tk_revoked_at x \<noteq> None" if "w \<in> set (id_sessions t)" "ss_revoked_at w \<noteq> None" "x \<in> set (id_tokens t)"
      "tk_session_id x = ss_id w" for w x
      using that old(2) [of x] sess(1) [of w] ok(5) [of x] ok(6) [of w] ok(8) [of w x] opened(2,3,6)
      by (auto simp: opened(7,8))
  qed
next
  case (rotated old k v now)
  note ok = sessions_okD [OF assms(2)]
  let ?f = "\<lambda>x. x\<lparr>tk_used_at := Some now, tk_replaced_by_id := Some (tk_id k)\<rparr>"
  let ?g = "\<lambda>v. if ss_id v = tk_session_id old then v\<lparr>ss_last_seen_at := now\<rparr> else v"
  have tk: "id_tokens t = map (\<lambda>x. if x = old then ?f x else x) (id_tokens s) @ [k]"
    using rotated(11) by (simp add: rotated_tokens [OF assms(2) rotated(1)])
  have ss: "id_sessions t = map ?g (id_sessions s)" using rotated(10) by (simp add: revoked_sessions [OF assms(2)])
  have cols: "map tk_id (id_tokens t) = map tk_id (id_tokens s) @ [tk_id k]"
    "map tk_token_hash (id_tokens t) = map tk_token_hash (id_tokens s) @ [tk_token_hash k]"
    "map ss_id (id_sessions t) = map ss_id (id_sessions s)"
    by (auto simp: tk ss)
  have row: "x = k \<or> x = ?f old \<or> x \<in> set (id_tokens s) \<and> x \<noteq> old" if "x \<in> set (id_tokens t)" for x
    using that by (auto simp: tk)
  have dead: "\<not> live x" if "x \<in> set (id_tokens t)" "x \<noteq> k" "tk_session_id x = tk_session_id k" for x
  proof
    assume l: "live x"
    then have "x \<noteq> ?f old" by (auto simp: live_def)
    then have "x \<in> set (id_tokens s)" "x \<noteq> old" using row [OF that(1)] that(2) by blast+
    then show False using ok(7) [OF _ rotated(1) l rotated(2)] that(3) rotated(4) by simp
  qed
  show ?thesis
  proof (rule sessions_okI)
    show "distinct (map tk_id (id_tokens t))"
      unfolding cols using ok(1,4) rotated(3) by (fastforce simp: unseen_def)
    show "distinct (map tk_token_hash (id_tokens t))"
      unfolding cols using ok(2) rotated(3) by (auto simp: unseen_def)
    show "distinct (map ss_id (id_sessions t))" unfolding cols by (rule ok(3))
    show "tk_id x < id_next t \<and> tk_session_id x < id_next t" if "x \<in> set (id_tokens t)" for x
      using row [OF that] rotated(1,4,5,9) ok(4,5) [of x] ok(4,5) [of old] by auto
    show "ss_id x < id_next t" if "x \<in> set (id_sessions t)" for x
      using that rotated(9) ok(6) by (fastforce simp: ss)
    show "x = y" if "x \<in> set (id_tokens t)" "y \<in> set (id_tokens t)" "live x" "live y"
      "tk_session_id x = tk_session_id y" for x y
    proof (cases "x = k \<or> y = k")
      case True
      then show ?thesis using that dead [of x] dead [of y] by metis
    next
      case False
      have "x \<noteq> ?f old" "y \<noteq> ?f old" using that(3,4) by (auto simp: live_def)
      then have "x \<in> set (id_tokens s)" "y \<in> set (id_tokens s)" using row [OF that(1)] row [OF that(2)] False by blast+
      then show ?thesis using ok(7) that(3-5) by blast
    qed
    show "tk_revoked_at x \<noteq> None" if w: "w \<in> set (id_sessions t)" "ss_revoked_at w \<noteq> None" and x: "x \<in> set (id_tokens t)"
      "tk_session_id x = ss_id w" for w x
    proof -
      obtain w' where w': "w' \<in> set (id_sessions s)" "w = ?g w'" using w(1) by (auto simp: ss)
      then have "ss_id w' = ss_id w" "ss_revoked_at w' \<noteq> None" using w(2) by (auto split: if_splits)
      moreover have "w' = v" if "ss_id w' = ss_id v"
        using ok(3) w'(1) rotated(6) that by (auto simp: distinct_map dest: inj_onD)
      ultimately have "ss_id w \<noteq> tk_session_id old" using rotated(7,8) by metis
      then show ?thesis
        using row [OF x(1)] x(2) rotated(4) ok(8) [OF w'(1) \<open>ss_revoked_at w' \<noteq> None\<close>, of x] \<open>ss_id w' = ss_id w\<close> by auto
    qed
  qed
next
  case (killed i now)
  note ok = sessions_okD [OF assms(2)]
  let ?g = "\<lambda>v. if ss_id v = i then v\<lparr>ss_revoked_at := Some now\<rparr> else v"
  let ?f = "\<lambda>x. if tk_session_id x = i \<and> tk_revoked_at x = None then x\<lparr>tk_revoked_at := Some now\<rparr> else x"
  have tk: "id_tokens t = map ?f (id_tokens s)" using killed(3) by (simp add: upd_rows_def)
  have ss: "id_sessions t = map ?g (id_sessions s)" using killed(2) by (simp add: revoked_sessions [OF assms(2)])
  have cols: "map tk_id (id_tokens t) = map tk_id (id_tokens s)"
    "map tk_token_hash (id_tokens t) = map tk_token_hash (id_tokens s)"
    "map ss_id (id_sessions t) = map ss_id (id_sessions s)"
    by (auto simp: tk ss)
  have row: "x \<in> set (id_tokens s) \<and> tk_session_id x \<noteq> i \<or> tk_session_id x = i \<and> tk_revoked_at x \<noteq> None"
    if "x \<in> set (id_tokens t)" for x
    using that by (auto simp: tk split: if_splits)
  show ?thesis
  proof (rule sessions_okI)
    show "distinct (map tk_id (id_tokens t))" "distinct (map tk_token_hash (id_tokens t))"
      "distinct (map ss_id (id_sessions t))"
      unfolding cols by (rule ok)+
    show "tk_id x < id_next t \<and> tk_session_id x < id_next t" if "x \<in> set (id_tokens t)" for x
      using that killed(1) ok(4,5) by (fastforce simp: tk)
    show "ss_id x < id_next t" if "x \<in> set (id_sessions t)" for x
      using that killed(1) ok(6) by (fastforce simp: ss)
    show "x = y" if "x \<in> set (id_tokens t)" "y \<in> set (id_tokens t)" "live x" "live y"
      "tk_session_id x = tk_session_id y" for x y
      using row [OF that(1)] row [OF that(2)] that(3-5) ok(7) [of x y] by (auto simp: live_def)
    show "tk_revoked_at x \<noteq> None" if "w \<in> set (id_sessions t)" "ss_revoked_at w \<noteq> None" "x \<in> set (id_tokens t)"
      "tk_session_id x = ss_id w" for w x
    proof -
      obtain w' where "w' \<in> set (id_sessions s)" "w = ?g w'" using \<open>w \<in> set (id_sessions t)\<close> by (auto simp: ss)
      then show ?thesis using row [OF that(3)] that(2,4) ok(8) [of w' x] by (auto split: if_splits)
    qed
  qed
qed

section \<open>Every operation is such a step\<close>

definition seen_same :: "identity \<Rightarrow> identity \<Rightarrow> bool" where
  "seen_same s t \<longleftrightarrow> id_sessions t = id_sessions s \<and> id_tokens t = id_tokens s \<and> id_next t = id_next s"

lemma bookkeeping_same [simp]:
  "id_sessions (record_audit a s) = id_sessions s" "id_tokens (record_audit a s) = id_tokens s"
  "id_next (record_audit a s) = id_next s" "id_users (record_audit a s) = id_users s"
  "id_sessions (update_user i f s) = id_sessions s" "id_tokens (update_user i f s) = id_tokens s"
  "id_next (update_user i f s) = id_next s"
  by (simp_all add: record_audit_def update_user_def)

lemma new_token_sel [simp]:
  "tk_session_id (new_token c st now i u raw) = i" "tk_token_hash (new_token c st now i u raw) = cy_sha256 c raw"
  "tk_used_at (new_token c st now i u raw) = None" "tk_revoked_at (new_token c st now i u raw) = None"
  by (simp_all add: new_token_def)

lemma add_refresh_token_ok:
  "add_refresh_token t s = Inr (i, s') \<longleftrightarrow> (\<forall>r \<in> set (id_tokens s). tk_token_hash r \<noteq> tk_token_hash t) \<and> i = id_next s
     \<and> s' = s\<lparr>id_tokens := id_tokens s @ [t\<lparr>tk_id := id_next s\<rparr>], id_next := Suc (id_next s)\<rparr>"
  by (auto simp: add_refresh_token_def)

lemma issue_session_step:
  assumes "issue_session c st now u client s = Inr (r, t)"
  shows "\<exists>k v. unseen k s \<and> ss_id v = tk_session_id k \<and> id_next s \<le> ss_id v \<and> ss_id v < id_next t \<and> tk_id k < id_next t
    \<and> ss_revoked_at v = None \<and> id_sessions t = id_sessions s @ [v] \<and> id_tokens t = id_tokens s @ [k]"
proof -
  define v where "v = \<lparr>ss_id = id_next s, ss_user_id = us_id u, ss_organization_id = us_organization_id u,
    ss_user_agent = ci_user_agent client, ss_ip_address = ci_ip_address client,
    ss_created_at = now, ss_last_seen_at = now, ss_revoked_at = None\<rparr>"
  let ?k = "(new_token c st now (id_next s) (us_id u) (cy_token_urlsafe c (Suc (id_next s))))\<lparr>tk_id := Suc (id_next s)\<rparr>"
  have t: "t = s\<lparr>id_sessions := id_sessions s @ [v], id_tokens := id_tokens s @ [?k], id_next := Suc (Suc (id_next s))\<rparr>"
    and new: "\<forall>r \<in> set (id_tokens s). tk_token_hash r \<noteq> tk_token_hash ?k"
    using assms by (auto simp: issue_session_def create_session_def Let_def add_refresh_token_ok v_def)
  show ?thesis
    by (intro exI [of _ ?k] exI [of _ v]) (use new in \<open>simp add: t unseen_def, simp add: v_def\<close>)
qed

lemma authenticate_step: "session_step s (snd (authenticate c st now email password client s))"
proof (cases "authenticate c st now email password client s")
  case (Pair r t)
  show ?thesis
  proof (cases r)
    case (Inl e)
    then have "id_sessions t = id_sessions s \<and> id_tokens t = id_tokens s \<and> id_next t = id_next s"
      using Pair by (auto simp: authenticate_def outcome_of_def Let_def split: option.splits if_splits sum.splits bool.splits)
    then show ?thesis using Pair by (simp add: session_step.idle)
  next
    case (Inr tokens)
    then obtain u u' s1 s2 where i: "issue_session c st now u' client s1 = Inr (tokens, s2)"
      and s1: "id_sessions s1 = id_sessions s" "id_tokens s1 = id_tokens s" "id_next s1 = Suc (id_next s)"
      and t: "id_sessions t = id_sessions s2" "id_tokens t = id_tokens s2" "id_next t = id_next s2"
      using Pair by (auto simp: authenticate_def outcome_of_def Let_def split: option.splits if_splits sum.splits bool.splits)
    obtain k v where k: "unseen k s1" "ss_id v = tk_session_id k" "id_next s1 \<le> ss_id v" "ss_id v < id_next s2"
      "tk_id k < id_next s2" "ss_revoked_at v = None" "id_sessions s2 = id_sessions s1 @ [v]" "id_tokens s2 = id_tokens s1 @ [k]"
      using issue_session_step [OF i] by blast
    show ?thesis unfolding Pair
      by (rule session_step.opened [of k _ v]) (use k in \<open>auto simp: s1 t unseen_def\<close>)
  qed
qed

lemma kill_session_step: "session_step s (kill_session i now s)"
  by (rule session_step.killed [of _ _ i now]) (simp_all add: kill_session_def revoke_session_def revoke_session_tokens_def)

lemma rotate_ok:
  assumes "rotate c st now stored u s = Inr (r, t)" "stored \<in> set (id_tokens s)"
  shows "\<exists>k. unseen k s \<and> tk_session_id k = tk_session_id stored \<and> tk_id k < id_next t \<and> id_next s \<le> id_next t
    \<and> id_sessions t = upd_first (\<lambda>v. ss_id v = tk_session_id stored) (\<lambda>v. v\<lparr>ss_last_seen_at := now\<rparr>) (id_sessions s)
    \<and> id_tokens t = upd_first (\<lambda>x. tk_id x = tk_id stored)
        (\<lambda>x. x\<lparr>tk_used_at := Some now, tk_replaced_by_id := Some (tk_id k)\<rparr>) (id_tokens s) @ [k]
    \<and> id_users t = id_users s"
proof -
  let ?p = "\<lambda>x. tk_id x = tk_id stored"
  define k where "k = (new_token c st now (tk_session_id stored) (us_id u) (cy_token_urlsafe c (id_next s)))\<lparr>tk_id := id_next s\<rparr>"
  define ts where "ts = upd_first ?p (\<lambda>x. x\<lparr>tk_used_at := Some now\<rparr>) (id_tokens s)"
  have new: "\<forall>r \<in> set ts. tk_token_hash r \<noteq> tk_token_hash k"
    and t: "id_sessions t = upd_first (\<lambda>v. ss_id v = tk_session_id stored) (\<lambda>v. v\<lparr>ss_last_seen_at := now\<rparr>) (id_sessions s)"
      "id_tokens t = upd_first ?p (\<lambda>x. x\<lparr>tk_replaced_by_id := Some (id_next s)\<rparr>) (ts @ [k])"
      "id_next t = Suc (id_next s)" "id_users t = id_users s"
    using assms(1) by (auto simp: rotate_def update_token_def Let_def add_refresh_token_ok k_def ts_def)
  have maps: "map tk_token_hash ts = map tk_token_hash (id_tokens s)" "map tk_id ts = map tk_id (id_tokens s)"
    unfolding ts_def by (rule map_upd_first, simp)+
  have cols: "tk_token_hash ` set ts = tk_token_hash ` set (id_tokens s)" "tk_id ` set ts = tk_id ` set (id_tokens s)"
    using arg_cong [OF maps(1), of set] arg_cong [OF maps(2), of set] by simp_all
  have k: "tk_session_id k = tk_session_id stored" "tk_id k = id_next s" by (simp_all add: k_def)
  have "tk_token_hash k \<notin> tk_token_hash ` set ts" using new by auto
  then have "unseen k s" unfolding cols(1) unseen_def k(2) by (auto simp: image_iff)
  obtain x where "x \<in> set ts" "?p x" using imageI [OF assms(2), of tk_id] unfolding cols(2) [symmetric] by force
  then have "id_tokens t = upd_first ?p (\<lambda>x. x\<lparr>tk_replaced_by_id := Some (id_next s)\<rparr>) ts @ [k]"
    unfolding t(2) by (rule upd_first_append)
  then have "id_tokens t = upd_first ?p (\<lambda>x. x\<lparr>tk_used_at := Some now, tk_replaced_by_id := Some (id_next s)\<rparr>) (id_tokens s) @ [k]"
    by (simp add: ts_def upd_first_upd_first)
  then show ?thesis using \<open>unseen k s\<close> k by (intro exI [of _ k]) (simp add: t)
qed

text \<open>The outcomes of a refresh: the token was spent, the request is refused, or the token is rotated.\<close>

lemma refresh_cases:
  obtains (spent) stored where "get_refresh_by_hash (cy_sha256 c raw) s = Some stored" "\<not> live stored"
      "fst (refresh c st now raw client s) = Inl (auth_error ''token_reuse'')"
      "\<exists>a. snd (refresh c st now raw client s) = record_audit a (kill_session (tk_session_id stored) now s)"
  | (refused) e where "fst (refresh c st now raw client s) = Inl e" "snd (refresh c st now raw client s) = s"
      "\<And>stored. get_refresh_by_hash (cy_sha256 c raw) s = Some stored \<Longrightarrow> live stored"
  | (granted) stored v u r t where "get_refresh_by_hash (cy_sha256 c raw) s = Some stored" "live stored"
      "now < tk_expires_at stored" "get_session (tk_session_id stored) s = Some v" "ss_revoked_at v = None"
      "get_user (tk_user_id stored) s = Some u" "us_is_active u"
      "rotate c st now stored u s = Inr (r, t)" "refresh c st now raw client s = (Inr r, t)"
proof (cases "get_refresh_by_hash (cy_sha256 c raw) s")
  case None
  then show ?thesis by (intro refused) (auto simp: refresh_def)
next
  case (Some stored)
  show ?thesis
  proof (cases "live stored")
    case False
    then show ?thesis using Some by (intro spent [OF Some]) (auto simp: refresh_def live_def)
  next
    case True
    have "(\<exists>e. refresh c st now raw client s = (Inl e, s)) \<or>
      (\<exists>v u r t. now < tk_expires_at stored \<and> get_session (tk_session_id stored) s = Some v \<and> ss_revoked_at v = None \<and>
        get_user (tk_user_id stored) s = Some u \<and> us_is_active u \<and> rotate c st now stored u s = Inr (r, t) \<and>
        refresh c st now raw client s = (Inr r, t))"
      using True by (auto simp: refresh_def Some live_def outcome_of_def not_le split: option.splits sum.splits)
    then show ?thesis
    proof (elim disjE exE conjE)
      fix e assume "refresh c st now raw client s = (Inl e, s)"
      then show ?thesis using True Some by (intro refused) auto
    next
      fix v u r t
      assume "now < tk_expires_at stored" "get_session (tk_session_id stored) s = Some v" "ss_revoked_at v = None"
        "get_user (tk_user_id stored) s = Some u" "us_is_active u" "rotate c st now stored u s = Inr (r, t)"
        "refresh c st now raw client s = (Inr r, t)"
      then show ?thesis by (rule granted [OF Some True])
    qed
  qed
qed

lemma refresh_step: "session_step s (snd (refresh c st now raw client s))"
proof (cases rule: refresh_cases [of c raw s st now client])
  case (spent stored)
  then obtain a where t: "snd (refresh c st now raw client s) = record_audit a (kill_session (tk_session_id stored) now s)"
    by blast
  show ?thesis unfolding t
    by (rule session_step.killed [of _ _ "tk_session_id stored" now])
      (simp_all add: kill_session_def revoke_session_def revoke_session_tokens_def)
next
  case (refused e)
  then show ?thesis by (simp add: session_step.idle)
next
  case (granted stored v u r t)
  have stored: "stored \<in> set (id_tokens s)" using granted(1) by (auto simp: get_refresh_by_hash_def dest: first_row_Some)
  have v: "v \<in> set (id_sessions s)" "ss_id v = tk_session_id stored"
    using granted(4) by (auto simp: get_session_def dest: first_row_Some)
  obtain k where k: "unseen k s" "tk_session_id k = tk_session_id stored" "tk_id k < id_next t" "id_next s \<le> id_next t"
    "id_sessions t = upd_first (\<lambda>v. ss_id v = tk_session_id stored) (\<lambda>v. v\<lparr>ss_last_seen_at := now\<rparr>) (id_sessions s)"
    "id_tokens t = upd_first (\<lambda>x. tk_id x = tk_id stored)
        (\<lambda>x. x\<lparr>tk_used_at := Some now, tk_replaced_by_id := Some (tk_id k)\<rparr>) (id_tokens s) @ [k]"
    using rotate_ok [OF granted(8) stored] by blast
  show ?thesis
    unfolding granted(9) snd_conv by (rule session_step.rotated [OF stored granted(2) k(1-3) v granted(5) k(4-6)])
qed

lemma logout_step: "session_step s (logout c now raw s)"
  using kill_session_step session_step.idle [of s s] by (auto simp: logout_def split: option.splits)

lemma run_auth_step: "session_step s (run_auth c settings cmd s)"
  by (cases cmd) (simp_all add: run_auth_def authenticate_step refresh_step logout_step)

interpretation auth: handler_contract sessions_ok "\<lambda>_. True" "auth_handler c settings" for c settings
  by unfold_locales (auto simp: auth_handler_def intro: session_step_keeps [OF run_auth_step])

lemma auth_history_ok: "sessions_ok s \<Longrightarrow> sessions_ok (auth_history c settings cmds s)"
  unfolding auth_history_def by (rule auth.serve_keeps) simp_all

section \<open>A spent token stays spent, a closed session stays closed\<close>

definition spent :: "string \<Rightarrow> identity \<Rightarrow> bool" where
  "spent h s \<longleftrightarrow> (\<exists>t. get_refresh_by_hash h s = Some t \<and> \<not> live t)"

definition closed :: "uuid \<Rightarrow> identity \<Rightarrow> bool" where
  "closed i s \<longleftrightarrow> i < id_next s \<and> (\<forall>v \<in> set (id_sessions s). ss_id v = i \<longrightarrow> ss_revoked_at v \<noteq> None)
     \<and> (\<forall>t \<in> set (id_tokens s). tk_session_id t = i \<longrightarrow> tk_revoked_at t \<noteq> None)"

lemma first_row_map: "(\<And>x. p (f x) = p x) \<Longrightarrow> first_row p (map f xs) = map_option f (first_row p xs)"
  by (induction xs) auto

lemma upd_first_revoked:
  "sessions_ok s \<Longrightarrow> v \<in> set (upd_first (\<lambda>v. ss_id v = i) f (id_sessions s)) \<Longrightarrow>
   \<exists>w \<in> set (id_sessions s). v = (if ss_id w = i then f w else w)"
  unfolding revoked_sessions by auto

lemma session_step_spent:
  assumes "session_step s t" "sessions_ok s" "spent h s"
  shows "spent h t"
proof -
  obtain x where x: "first_row (\<lambda>t. tk_token_hash t = h) (id_tokens s) = Some x" "\<not> live x"
    using assms(3) by (auto simp: spent_def get_refresh_by_hash_def)
  have mapped: ?thesis if "id_tokens t = map f (id_tokens s) @ ks" "\<And>y. tk_token_hash (f y) = tk_token_hash y"
    "\<And>y. \<not> live y \<Longrightarrow> \<not> live (f y)" for f ks
    using x that(2,3) by (simp add: spent_def get_refresh_by_hash_def that(1) first_row_append first_row_map)
  from assms(1) show ?thesis
  proof cases
    case idle
    then show ?thesis using x by (simp add: spent_def get_refresh_by_hash_def)
  next
    case (opened k v)
    then show ?thesis by (intro mapped [of "\<lambda>y. y" "[k]"]) simp_all
  next
    case (rotated old k v now)
    show ?thesis
      by (rule mapped [OF rotated(11) [unfolded rotated_tokens [OF assms(2) rotated(1)]]]) (auto simp: live_def)
  next
    case (killed i now)
    then show ?thesis
      by (intro mapped [of "\<lambda>x. if tk_session_id x = i \<and> tk_revoked_at x = None then x\<lparr>tk_revoked_at := Some now\<rparr> else x" "[]"])
        (auto simp: upd_rows_def live_def)
  qed
qed

lemma session_step_closed:
  assumes "session_step s t" "sessions_ok s" "closed i s"
  shows "closed i t"
  using assms(1)
proof cases
  case idle
  then show ?thesis using assms(3) by (auto simp: closed_def)
next
  case (opened k v)
  then show ?thesis using assms(3) by (auto simp: closed_def)
next
  case (rotated old k v now)
  have "tk_session_id old \<noteq> i" using assms(3) rotated(1,2) by (auto simp: closed_def live_def)
  moreover have "ss_revoked_at w \<noteq> None" if "w \<in> set (id_sessions t)" "ss_id w = i" for w
    using upd_first_revoked [OF assms(2) that(1) [unfolded rotated(10)]] that(2) assms(3)
    by (auto simp: closed_def split: if_splits)
  moreover have "tk_revoked_at x \<noteq> None" if "x \<in> set (id_tokens t)" "tk_session_id x = i" for x
    using that assms(3) rotated(1,4) \<open>tk_session_id old \<noteq> i\<close>
    unfolding rotated(11) rotated_tokens [OF assms(2) rotated(1)] by (auto simp: closed_def split: if_splits)
  ultimately show ?thesis using assms(3) rotated(9) by (auto simp: closed_def)
next
  case (killed j now)
  have "ss_revoked_at w \<noteq> None" if "w \<in> set (id_sessions t)" "ss_id w = i" for w
    using upd_first_revoked [OF assms(2) that(1) [unfolded killed(2)]] that(2) assms(3)
    by (auto simp: closed_def split: if_splits)
  moreover have "tk_revoked_at x \<noteq> None" if "x \<in> set (id_tokens t)" "tk_session_id x = i" for x
    using that assms(3) unfolding killed(3) upd_rows_def by (auto simp: closed_def split: if_splits)
  ultimately show ?thesis using assms(3) killed(1) by (auto simp: closed_def)
qed

lemma history_spent: "sessions_ok s \<Longrightarrow> spent h s \<Longrightarrow> spent h (auth_history c settings cmds s)"
  by (induction cmds arbitrary: s) (auto intro: session_step_spent session_step_keeps run_auth_step)

lemma history_closed: "sessions_ok s \<Longrightarrow> closed i s \<Longrightarrow> closed i (auth_history c settings cmds s)"
  by (induction cmds arbitrary: s) (auto intro: session_step_closed session_step_keeps run_auth_step)

lemma spent_refused: "spent (cy_sha256 c raw) s \<Longrightarrow> fst (refresh c st now raw client s) = Inl (auth_error ''token_reuse'')"
  by (auto simp: spent_def refresh_def live_def)

lemma granted_spent:
  assumes "sessions_ok s" "refresh c st now raw client s = (Inr r, t)"
  shows "spent (cy_sha256 c raw) t"
proof (cases rule: refresh_cases [of c raw s st now client])
  case (granted stored v u r' t')
  have t: "t' = t" using granted(9) assms(2) by simp
  have stored: "stored \<in> set (id_tokens s)" using granted(1) by (auto simp: get_refresh_by_hash_def dest: first_row_Some)
  obtain k where "id_tokens t' = upd_first (\<lambda>x. tk_id x = tk_id stored)
      (\<lambda>x. x\<lparr>tk_used_at := Some now, tk_replaced_by_id := Some (tk_id k)\<rparr>) (id_tokens s) @ [k]"
    using rotate_ok [OF granted(8) stored] by blast
  then show ?thesis
    using granted(1) by (simp add: spent_def get_refresh_by_hash_def t rotated_tokens [OF assms(1) stored]
        first_row_append first_row_map live_def)
qed (use assms(2) in auto)

lemma killed_closed:
  assumes "sessions_ok s" "i < id_next s"
  shows "closed i (kill_session i now s)"
proof -
  let ?t = "kill_session i now s"
  have t: "id_next ?t = id_next s"
    "id_sessions ?t = map (\<lambda>v. if ss_id v = i then v\<lparr>ss_revoked_at := Some now\<rparr> else v) (id_sessions s)"
    "id_tokens ?t = map (\<lambda>x. if tk_session_id x = i \<and> tk_revoked_at x = None then x\<lparr>tk_revoked_at := Some now\<rparr> else x)
       (id_tokens s)"
    by (simp_all add: kill_session_def revoke_session_def revoke_session_tokens_def upd_rows_def revoked_sessions [OF assms(1)])
  have "ss_revoked_at v \<noteq> None" if v: "v \<in> set (id_sessions ?t)" "ss_id v = i" for v
    using v(1) unfolding t(2) by (rule in_map_if) (use v(2) in simp_all)
  moreover have "tk_revoked_at x \<noteq> None" if x: "x \<in> set (id_tokens ?t)" "tk_session_id x = i" for x
    using x(1) unfolding t(3) by (rule in_map_if) (use x(2) in simp_all)
  ultimately show ?thesis using assms(2) unfolding closed_def t(1) by blast
qed

section \<open>Refresh tokens\<close>

text \<open>
  A refresh token is good for one refresh. Once it was exchanged, every later refresh with it is
  refused as a replay, whatever happened in between and at whatever time it is presented.
\<close>

theorem refresh_token_single_use:
  assumes "sessions_ok s" "refresh c settings now raw client s = (Inr tokens, t)"
  shows "fst (refresh c settings now' raw client' (auth_history c settings cmds t)) = Inl (auth_error ''token_reuse'')"
proof -
  have "sessions_ok t" using session_step_keeps [OF refresh_step assms(1)] assms(2) by (metis snd_conv)
  then show ?thesis by (intro spent_refused history_spent granted_spent [OF assms])
qed

text \<open>
  C32: The replay of a spent refresh token ends its session for good. From then on, no token of that
  session can be exchanged, whatever requests follow.
\<close>

theorem replay_ends_session:
  assumes "sessions_ok s" "get_refresh_by_hash (cy_sha256 c raw) s = Some stored" "\<not> live stored"
    and "t = auth_history c settings cmds (snd (refresh c settings now raw client s))"
    and "get_refresh_by_hash (cy_sha256 c raw') t = Some other" "tk_session_id other = tk_session_id stored"
  shows "fst (refresh c settings now' raw' client' t) = Inl (auth_error ''token_reuse'')"
proof -
  let ?i = "tk_session_id stored" and ?m = "snd (refresh c settings now raw client s)"
  have "stored \<in> set (id_tokens s)" using assms(2) by (auto simp: get_refresh_by_hash_def dest: first_row_Some)
  then have i: "?i < id_next s" using sessions_okD(5) [OF assms(1)] by blast
  have "closed ?i ?m"
    using killed_closed [OF assms(1) i, of now] assms(2,3) by (auto simp: refresh_def live_def closed_def)
  then have "closed ?i t"
    unfolding assms(4) by (intro history_closed session_step_keeps [OF refresh_step assms(1)])
  moreover have "other \<in> set (id_tokens t)" using assms(5) by (auto simp: get_refresh_by_hash_def dest: first_row_Some)
  ultimately have "\<not> live other" using assms(6) by (auto simp: closed_def live_def)
  then show ?thesis using assms(5) by (intro spent_refused) (auto simp: spent_def)
qed

text \<open>
  C31: After any history of sign-ins, refreshes and sign-outs, each session has at most one refresh
  token that can still be exchanged, and a revoked session has none.
\<close>

theorem one_live_token_per_session:
  assumes "sessions_ok s" "t = auth_history c settings cmds s"
  shows "(\<forall>x \<in> set (id_tokens t). \<forall>y \<in> set (id_tokens t).
            live x \<and> live y \<and> tk_session_id x = tk_session_id y \<longrightarrow> x = y)
    \<and> (\<forall>v \<in> set (id_sessions t). ss_revoked_at v \<noteq> None \<longrightarrow>
          \<not> (\<exists>x \<in> set (id_tokens t). tk_session_id x = ss_id v \<and> live x))"
proof -
  have "sessions_ok t" unfolding assms(2) by (rule auth_history_ok [OF assms(1)])
  note ok = sessions_okD [OF this]
  have "\<not> live x" if "v \<in> set (id_sessions t)" "ss_revoked_at v \<noteq> None" "x \<in> set (id_tokens t)"
    "tk_session_id x = ss_id v" for v x
    using ok(8) [OF that] by (simp add: live_def)
  then show ?thesis using ok(7) by blast
qed

end
