(* ===== verification/Logins.thy ===== *)
theory Logins
  imports Sessions
begin

text \<open>
  Signing in: how many passwords an attacker can try against one account, what an issued access token
  says when it comes back, and the examples of the authentication theories.
\<close>

section \<open>The lockout\<close>

text \<open>The results of a series of attempts on one account.\<close>

fun attempts :: "crypto \<Rightarrow> auth_settings \<Rightarrow> string \<Rightarrow> (timestamp \<times> string \<times> client_info) list \<Rightarrow> identity
    \<Rightarrow> issued_tokens res list" where
  "attempts c settings email [] s = []"
| "attempts c settings email ((now, password, client) # xs) s =
     (let (r, t) = authenticate c settings now email password client s in r # attempts c settings email xs t)"

definition password_refused :: "issued_tokens res \<Rightarrow> bool" where
  "password_refused r \<longleftrightarrow> r = Inl (auth_error ''authentication_error'')"

lemma locked_attempts:
  assumes "get_user_by_email None email s = Some u" "us_locked_until u = Some l" "\<forall>x \<in> set xs. fst x < l"
  shows "attempts c settings email xs s = replicate (length xs) (Inl (auth_error ''account_locked''))"
  using assms
proof (induction xs arbitrary: s)
  case (Cons x xs)
  obtain now password client where x: "x = (now, password, client)" by (cases x)
  let ?a = "audit_of ''login.locked'' (Some (us_organization_id u)) (Some (us_id u)) client"
  have "authenticate c settings now email password client s = (Inl (auth_error ''account_locked''), record_audit ?a s)"
    using Cons.prems by (simp add: authenticate_def x)
  moreover have "get_user_by_email None email (record_audit ?a s) = Some u"
    using Cons.prems(1) by (simp add: get_user_by_email_def)
  ultimately show ?case using Cons.IH Cons.prems(2,3) by (simp add: x)
qed simp

lemma update_user_by_email:
  assumes "get_user_by_email None email s = Some u" "distinct (map us_id (id_users s))"
    and "us_email (f u) = us_email u" "us_id (f u) = us_id u"
  shows "get_user_by_email None email (update_user (us_id u) f s) = Some (f u)"
    "map us_id (id_users (update_user (us_id u) f s)) = map us_id (id_users s)"
proof -
  have u: "first_row (\<lambda>u. us_email u = email) (id_users s) = Some u" using assms(1) by (simp add: get_user_by_email_def)
  then obtain xs ys where split: "id_users s = xs @ u # ys" "\<forall>x \<in> set xs. us_email x \<noteq> email" "us_email u = email"
    using upd_first_eq_list_update [OF u, of id] by auto
  have "upd_first (\<lambda>x. us_id x = us_id u) f (id_users s) = map (\<lambda>x. if us_id x = us_id u then f x else x) (id_users s)"
    by (rule upd_first_key_map [OF assms(2)])
  also have "\<dots> = xs @ f u # ys"
    using assms(2) by (auto simp: split(1) image_iff intro!: map_idI)
  finally have upd: "id_users (update_user (us_id u) f s) = xs @ f u # ys" by (simp add: update_user_def)
  show "get_user_by_email None email (update_user (us_id u) f s) = Some (f u)"
    using split(2,3) assms(3) first_row_None [of "\<lambda>x. us_email x = email" xs]
    by (simp add: get_user_by_email_def upd first_row_append)
  show "map us_id (id_users (update_user (us_id u) f s)) = map us_id (id_users s)"
    by (simp add: upd split(1) assms(4))
qed

lemma failed_login_sel [simp]:
  "us_id (failed_login now u) = us_id u" "us_email (failed_login now u) = us_email u"
  by (simp_all add: failed_login_def Let_def)

text \<open>What one attempt does to the account.\<close>

lemma authenticate_failed:
  assumes "authenticate c settings now email password client s = (Inl e, t)"
    and "get_user_by_email None email s = Some u" "distinct (map us_id (id_users s))"
  obtains (locked) l where "us_locked_until u = Some l" "now < l" "e = auth_error ''account_locked''" "id_users t = id_users s"
  | (escaped) "e \<noteq> auth_error ''authentication_error''" "id_users t = id_users s"
  | (refused) "e = auth_error ''authentication_error''" "get_user_by_email None email t = Some (failed_login now u)"
      "distinct (map us_id (id_users t))"
proof -
  have "(\<exists>l. us_locked_until u = Some l \<and> now < l \<and> e = auth_error ''account_locked'' \<and> id_users t = id_users s)
    \<or> (e \<noteq> auth_error ''authentication_error'' \<and> id_users t = id_users s)
    \<or> (e = auth_error ''authentication_error'' \<and> id_users t = id_users (update_user (us_id u) (failed_login now) s))"
    using assms(1)
    by (auto simp: authenticate_def assms(2) outcome_of_def Let_def verify_password_def auth_error_def issue_session_def
        create_session_def add_refresh_token_def split: if_splits sum.splits bool.splits argon2_verdict.splits)
  then show ?thesis
  proof (elim disjE exE conjE)
    fix l assume "us_locked_until u = Some l" "now < l" "e = auth_error ''account_locked''" "id_users t = id_users s"
    then show ?thesis by (rule locked)
  next
    assume "e \<noteq> auth_error ''authentication_error''" "id_users t = id_users s"
    then show ?thesis by (rule escaped)
  next
    assume e: "e = auth_error ''authentication_error''" "id_users t = id_users (update_user (us_id u) (failed_login now) s)"
    note up = update_user_by_email [OF assms(2,3), of "failed_login now"]
    show ?thesis by (rule refused) (use e up assms(3) in \<open>simp_all add: get_user_by_email_def\<close>)
  qed
qed

lemma attempts_bound:
  assumes "get_user_by_email None email s = Some u" "distinct (map us_id (id_users s))"
    and "0 \<le> us_failed_login_count u" "us_failed_login_count u < MAX_FAILED_LOGINS"
    and "\<forall>x \<in> set xs. t0 \<le> fst x \<and> fst x < t0 + 60 * LOCKOUT_MINUTES"
    and "\<forall>r \<in> set (attempts c settings email xs s). \<exists>e. r = Inl e"
  shows "int (length (filter password_refused (attempts c settings email xs s))) \<le> MAX_FAILED_LOGINS - us_failed_login_count u"
  using assms
proof (induction xs arbitrary: s u)
  case (Cons x xs)
  obtain now password client where x: "x = (now, password, client)" by (cases x)
  obtain r t where a: "authenticate c settings now email password client s = (r, t)" by (cases "authenticate c settings now email password client s")
  have all: "attempts c settings email (x # xs) s = r # attempts c settings email xs t" by (simp add: x a)
  then obtain e where r: "r = Inl e" using Cons.prems(6) by auto
  have rest: "\<forall>r \<in> set (attempts c settings email xs t). \<exists>e. r = Inl e" using Cons.prems(6) all by auto
  have times: "\<forall>x \<in> set xs. t0 \<le> fst x \<and> fst x < t0 + 60 * LOCKOUT_MINUTES" using Cons.prems(5) by simp
  from a [unfolded r] Cons.prems(1,2) show ?case
  proof (cases rule: authenticate_failed)
    case (locked l)
    then have "get_user_by_email None email t = Some u" using Cons.prems(1) by (simp add: get_user_by_email_def)
    from Cons.IH [OF this _ Cons.prems(3,4) times rest] show ?thesis
      using Cons.prems(2) locked by (simp add: all r password_refused_def auth_error_def)
  next
    case escaped
    then have "get_user_by_email None email t = Some u" using Cons.prems(1) by (simp add: get_user_by_email_def)
    from Cons.IH [OF this _ Cons.prems(3,4) times rest] show ?thesis
      using Cons.prems(2) escaped by (simp add: all r password_refused_def)
  next
    case refused
    show ?thesis
    proof (cases "us_failed_login_count u + 1 < MAX_FAILED_LOGINS")
      case True
      have "us_failed_login_count (failed_login now u) = us_failed_login_count u + 1"
        using True by (simp add: failed_login_def Let_def)
      with Cons.IH [OF refused(2,3) _ _ times rest] show ?thesis
        using Cons.prems(3) True by (simp add: all r password_refused_def)
    next
      case False
      then have lock: "us_locked_until (failed_login now u) = Some (now + 60 * LOCKOUT_MINUTES)"
        by (simp add: failed_login_def Let_def)
      have "\<forall>x \<in> set xs. fst x < now + 60 * LOCKOUT_MINUTES"
        using Cons.prems(5) by (auto simp: x LOCKOUT_MINUTES_def)
      from locked_attempts [OF refused(2) lock this] show ?thesis
        using Cons.prems(4) by (simp add: all r password_refused_def auth_error_def)
    qed
  qed
qed simp


section \<open>What an access token says\<close>

definition role_grants :: "identity \<Rightarrow> uuid \<Rightarrow> string \<Rightarrow> bool" where
  "role_grants s user_id code \<longleftrightarrow>
     (\<exists>ur \<in> set (id_user_roles s). \<exists>ro \<in> set (id_roles s). \<exists>rp \<in> set (id_role_permissions s). \<exists>p \<in> set (id_permissions s).
        ur_user_id ur = user_id \<and> ro_id ro = ur_role_id ur \<and> rq_role_id rp = ro_id ro
        \<and> pe_id p = rq_permission_id rp \<and> pe_code p = code)"

lemma get_user_permissions_iff: "code \<in> set (get_user_permissions i s) \<longleftrightarrow> role_grants s i code"
  by (simp add: get_user_permissions_def role_grants_def) fastforce

lemma role_grants_cong:
  "id_user_roles t = id_user_roles s \<Longrightarrow> id_roles t = id_roles s \<Longrightarrow> id_role_permissions t = id_role_permissions s
    \<Longrightarrow> id_permissions t = id_permissions s \<Longrightarrow> role_grants t = role_grants s"
  by (simp add: role_grants_def fun_eq_iff)

lemma tokens_for_sel [simp]:
  "it_user_id (tokens_for c st now u i raw s) = us_id u"
  "it_organization_id (tokens_for c st now u i raw s) = us_organization_id u"
  "it_is_owner (tokens_for c st now u i raw s) = us_is_owner u"
  "it_permissions (tokens_for c st now u i raw s) = get_user_permissions (us_id u) s"
  "it_branch_ids (tokens_for c st now u i raw s) = get_user_branch_ids (us_id u) s"
  "it_access_token (tokens_for c st now u i raw s) = create_access_token c st now (id_next s)
     (access_payload (us_id u) (us_organization_id u) (get_user_branch_ids (us_id u) s) (get_user_permissions (us_id u) s)
        i (us_is_owner u))"
  by (simp_all add: tokens_for_def Let_def)

lemma claim_values_Claim [simp]: "claim_values (map Claim xs) = Inr xs"
  by (induction xs) simp_all

lemma issue_session_tokens:
  assumes "issue_session c settings now u client s = Inr (tokens, t)"
  shows "\<exists>i raw. tokens = tokens_for c settings now u i raw t \<and> role_grants t = role_grants s"
  using assms
  by (auto simp: issue_session_def create_session_def add_refresh_token_ok Let_def intro!: role_grants_cong)

text \<open>Tokens are issued to an active user, with the permissions of its roles at that moment.\<close>

lemma authenticate_issues:
  assumes "authenticate c settings now email password client s = (Inr tokens, t)"
  shows "\<exists>u v i raw m. tokens = tokens_for c settings now u i raw m \<and> role_grants m = role_grants s
    \<and> v \<in> set (id_users s) \<and> us_id v = us_id u \<and> us_is_active v \<and> us_is_owner v = us_is_owner u"
proof -
  obtain v m where v: "get_user_by_email None email s = Some v" "us_is_active v"
    and i: "issue_session c settings now (signed_in c now (id_next s) password v) client
      (update_user (us_id v) (\<lambda>_. signed_in c now (id_next s) password v) (s\<lparr>id_next := Suc (id_next s)\<rparr>)) = Inr (tokens, m)"
    using assms by (auto simp: authenticate_def outcome_of_def Let_def split: option.splits if_splits sum.splits bool.splits)
  have "v \<in> set (id_users s)" using v(1) by (auto simp: get_user_by_email_def dest: first_row_Some)
  moreover have "role_grants (update_user (us_id v) f (s\<lparr>id_next := n\<rparr>)) = role_grants s" for f n
    by (rule role_grants_cong) (simp_all add: update_user_def)
  ultimately obtain j raw where j: "tokens = tokens_for c settings now (signed_in c now (id_next s) password v) j raw m"
      "role_grants m = role_grants s" "v \<in> set (id_users s)"
    using issue_session_tokens [OF i] by metis
  show ?thesis
    by (rule exI [of _ "signed_in c now (id_next s) password v"], rule exI [of _ v], rule exI [of _ j], rule exI [of _ raw],
        rule exI [of _ m]) (use j v(2) in \<open>simp add: signed_in_def\<close>)
qed

lemma refresh_issues:
  assumes "refresh c settings now raw client s = (Inr tokens, t)"
  shows "\<exists>u v i raw m. tokens = tokens_for c settings now u i raw m \<and> role_grants m = role_grants s
    \<and> v \<in> set (id_users s) \<and> us_id v = us_id u \<and> us_is_active v \<and> us_is_owner v = us_is_owner u"
proof (cases rule: refresh_cases [of c raw s settings now client])
  case (granted stored v u r t')
  have r: "r = tokens" "t' = t" using granted(9) assms by simp_all
  have "u \<in> set (id_users s)" using granted(6) by (auto simp: get_user_def dest: first_row_Some)
  moreover have "\<exists>i raw. tokens = tokens_for c settings now u i raw t \<and> role_grants t = role_grants s"
    using granted(8) by (auto simp: r rotate_def update_token_def Let_def add_refresh_token_ok intro!: role_grants_cong)
  ultimately show ?thesis using granted(7) by blast
qed (use assms in auto)

text \<open>
  C34: Tokens round-trip. The access token that a sign-in or a refresh issues, presented as a cookie
  before it expires, makes the request run as an active user of the database with its organization, and
  with exactly the permissions that the user's roles grant at that moment, or all for an owner. The
  token package is assumed to return the payload that was encoded, until the expiry time.
\<close>

theorem access_token_roundtrip:
  assumes "fst (authenticate c settings now email password client s) = Inr tokens
      \<or> fst (refresh c settings now raw client s) = Inr tokens"
    and "now' < now + st_access_token_ttl_seconds settings"
    and "\<And>sid exp jti. now' < exp \<Longrightarrow>
      (let p = access_payload (it_user_id tokens) (it_organization_id tokens) (it_branch_ids tokens)
                 (it_permissions tokens) sid (it_is_owner tokens);
           token = cy_jwt_encode c p now exp jti
       in token \<noteq> [] \<and> jwt_decode token = Payload p)"
  shows "\<exists>cu. get_current_user jwt_decode \<lparr>rq_access_cookie = Some (it_access_token tokens), rq_bearer = bearer\<rparr> = Inr cu
    \<and> cu_user_id cu = it_user_id tokens \<and> cu_organization_id cu = it_organization_id tokens
    \<and> (\<forall>code. has_permission cu code \<longleftrightarrow> it_is_owner tokens \<or> role_grants s (it_user_id tokens) code)
    \<and> (\<exists>v \<in> set (id_users s). us_id v = it_user_id tokens \<and> us_is_active v \<and> us_is_owner v = it_is_owner tokens)"
proof -
  have "\<exists>u v i raw m. tokens = tokens_for c settings now u i raw m \<and> role_grants m = role_grants s
    \<and> v \<in> set (id_users s) \<and> us_id v = us_id u \<and> us_is_active v \<and> us_is_owner v = us_is_owner u"
    using assms(1) authenticate_issues refresh_issues by (metis prod.collapse)
  then obtain u v i raw m where tokens: "tokens = tokens_for c settings now u i raw m" "role_grants m = role_grants s"
    and v: "v \<in> set (id_users s)" "us_id v = us_id u" "us_is_active v" "us_is_owner v = us_is_owner u"
    by blast
  let ?p = "access_payload (us_id u) (us_organization_id u) (get_user_branch_ids (us_id u) m)
    (get_user_permissions (us_id u) m) i (us_is_owner u)"
  have "it_access_token tokens \<noteq> []" "jwt_decode (it_access_token tokens) = Payload ?p"
    using assms(3) [OF assms(2), of i "id_next m"] by (simp_all add: tokens(1) create_access_token_def Let_def)
  then have "get_current_user jwt_decode \<lparr>rq_access_cookie = Some (it_access_token tokens), rq_bearer = bearer\<rparr>
    = Inr \<lparr>cu_user_id = us_id u, cu_organization_id = us_organization_id u, cu_session_id = i, cu_is_owner = us_is_owner u,
        cu_branch_ids = get_user_branch_ids (us_id u) m, cu_permissions = get_user_permissions (us_id u) m\<rparr>"
    by (cases "it_access_token tokens")
      (simp_all add: get_current_user_def extract_token_def decode_access_token_def user_of_payload_def access_payload_def)
  then show ?thesis
    using v by (auto simp: tokens(1) has_permission_def get_user_permissions_iff tokens(2))
qed

section \<open>Examples\<close>

definition sample_crypto :: crypto where
  "sample_crypto =
     \<lparr>cy_argon2_hash = (\<lambda>salt plain. ''argon2:'' @ plain),
      cy_argon2_verify = (\<lambda>hashed plain. if hashed = ''argon2:'' @ plain then Verified else VerifyMismatch),
      cy_check_needs_rehash = (\<lambda>_. False), cy_token_urlsafe = (\<lambda>n. replicate n CHR ''t''),
      cy_sha256 = (\<lambda>t. t), cy_jwt_encode = (\<lambda>p issued expires jti. ''jwt:'' @ replicate (case jp_sid p of Claim i \<Rightarrow> i | _ \<Rightarrow> 0) CHR ''s'')\<rparr>"

definition sample_settings :: auth_settings where
  "sample_settings = \<lparr>st_access_token_ttl_seconds = 900, st_refresh_token_ttl_seconds = 1000000,
     st_login_rate_limit = 10, st_login_rate_window_seconds = 60\<rparr>"

definition sample_identity :: identity where
  "sample_identity =
     \<lparr>id_users = [\<lparr>us_id = 1, us_organization_id = 1, us_email = ''asha@shop.local'', us_full_name = ''Asha'',
        us_hashed_password = ''argon2:kharif'', us_is_active = True, us_is_owner = False, us_failed_login_count = 0,
        us_locked_until = None, us_last_login_at = None\<rparr>],
      id_roles = [\<lparr>ro_id = 2, ro_organization_id = 1, ro_name = ''Counter / Sales'', ro_code = ''counter_sales'',
        ro_description = None, ro_is_system = True\<rparr>],
      id_permissions = [\<lparr>pe_id = 3, pe_code = ''sales.create'', pe_category = ''sales''\<rparr>],
      id_user_roles = [\<lparr>ur_user_id = 1, ur_role_id = 2, ur_branch_id = None\<rparr>],
      id_role_permissions = [\<lparr>rq_role_id = 2, rq_permission_id = 3\<rparr>],
      id_user_branches = [\<lparr>ub_user_id = 1, ub_branch_id = 4\<rparr>], id_sessions = [], id_tokens = [], id_audit = [],
      id_next = 5\<rparr>"

definition sample_client :: client_info where
  "sample_client = \<lparr>ci_ip_address = None, ci_user_agent = None, ci_correlation_id = None\<rparr>"

definition sample_sign_in :: "issued_tokens outcome" where
  "sample_sign_in = authenticate sample_crypto sample_settings 1000 ''asha@shop.local'' ''kharif'' sample_client sample_identity"

definition sample_refresh :: "issued_tokens outcome" where
  "sample_refresh = refresh sample_crypto sample_settings 1500 ''ttttttt'' sample_client (snd sample_sign_in)"

lemma sample_sessions_ok: "sessions_ok (snd sample_sign_in)"
  by code_simp

lemma sample_refresh_granted: "\<exists>tokens t. sample_refresh = (Inr tokens, t)"
proof -
  have "is_ok (fst sample_refresh)" by code_simp
  then show ?thesis unfolding is_ok_iff by (metis prod.collapse)
qed

theorem refresh_token_single_use_witness:
  "fst (refresh sample_crypto sample_settings 1700 ''ttttttt'' sample_client (snd sample_refresh)) = Inl (auth_error ''token_reuse'')"
proof -
  obtain tokens t where t: "sample_refresh = (Inr tokens, t)" using sample_refresh_granted by blast
  then have "fst (refresh sample_crypto sample_settings 1700 ''ttttttt'' sample_client
      (auth_history sample_crypto sample_settings [] t)) = Inl (auth_error ''token_reuse'')"
    by (intro refresh_token_single_use [OF sample_sessions_ok]) (simp add: sample_refresh_def)
  then show ?thesis by (simp add: t)
qed

theorem replay_ends_session_witness:
  "fst (refresh sample_crypto sample_settings 1800 ''tttttttt'' sample_client
     (snd (refresh sample_crypto sample_settings 1700 ''ttttttt'' sample_client (snd sample_refresh))))
   = Inl (auth_error ''token_reuse'')"
proof -
  let ?t = "snd (refresh sample_crypto sample_settings 1700 ''ttttttt'' sample_client (snd sample_refresh))"
  have ok: "sessions_ok (snd sample_refresh)"
    unfolding sample_refresh_def by (rule session_step_keeps [OF refresh_step sample_sessions_ok])
  obtain stored other where s: "get_refresh_by_hash (cy_sha256 sample_crypto ''ttttttt'') (snd sample_refresh) = Some stored"
      "\<not> live stored" "get_refresh_by_hash (cy_sha256 sample_crypto ''tttttttt'') ?t = Some other"
      "tk_session_id other = tk_session_id stored"
  proof -
    have "case (get_refresh_by_hash (cy_sha256 sample_crypto ''ttttttt'') (snd sample_refresh),
        get_refresh_by_hash (cy_sha256 sample_crypto ''tttttttt'') ?t) of
      (Some a, Some b) \<Rightarrow> \<not> live a \<and> tk_session_id b = tk_session_id a | _ \<Rightarrow> False" by code_simp
    then show thesis by (auto intro: that split: option.splits)
  qed
  show ?thesis
    using replay_ends_session [OF ok s(1,2) _ s(3,4), of sample_settings "[]" 1700 sample_client] by simp
qed

theorem one_live_token_per_session_witness:
  "\<exists>x. x \<in> set (id_tokens (snd sample_refresh)) \<and> live x
     \<and> {y \<in> set (id_tokens (snd sample_refresh)). live y \<and> tk_session_id y = tk_session_id x} = {x}
     \<and> length (id_tokens (snd sample_refresh)) = 2"
proof -
  let ?tokens = "id_tokens (snd sample_refresh)"
  have "snd sample_refresh = auth_history sample_crypto sample_settings [Refresh 1500 ''ttttttt'' sample_client] (snd sample_sign_in)"
    by (simp add: run_auth_def sample_refresh_def)
  note single = one_live_token_per_session [OF sample_sessions_ok this, THEN conjunct1]
  have "map live ?tokens = [False, True]" by code_simp
  then obtain a b where "?tokens = [a, b]" "live b" by (auto simp: map_eq_Cons_conv)
  then show ?thesis using single by (intro exI [of _ b]) auto
qed

definition sample_guesses :: "(timestamp \<times> string \<times> client_info) list" where
  "sample_guesses = map (\<lambda>k. (1000 + k, ''rabi'', sample_client)) [0, 1, 2, 3, 4, 5, 6]"


theorem access_token_roundtrip_witness:
  "\<exists>tokens cu. fst sample_sign_in = Inr tokens
     \<and> get_current_user (\<lambda>t. Payload (access_payload 1 1 [4] [''sales.create''] (length t - 4) False))
         \<lparr>rq_access_cookie = Some (it_access_token tokens), rq_bearer = None\<rparr> = Inr cu
     \<and> cu_user_id cu = 1 \<and> has_permission cu ''sales.create''"
proof -
  define check where "check tokens \<longleftrightarrow> it_user_id tokens = 1 \<and> it_organization_id tokens = 1 \<and> it_branch_ids tokens = [4]
    \<and> it_permissions tokens = [''sales.create''] \<and> \<not> it_is_owner tokens" for tokens :: issued_tokens
  have "case fst sample_sign_in of Inl _ \<Rightarrow> False | Inr tokens \<Rightarrow> it_user_id tokens = 1 \<and> it_organization_id tokens = 1
      \<and> it_branch_ids tokens = [4] \<and> it_permissions tokens = [''sales.create''] \<and> \<not> it_is_owner tokens" by code_simp
  then obtain tokens where tokens: "fst sample_sign_in = Inr tokens" "check tokens"
    by (cases "fst sample_sign_in") (auto simp: check_def)
  have "role_grants sample_identity 1 ''sales.create''" by (simp add: role_grants_def sample_identity_def)
  then show ?thesis
    using access_token_roundtrip [of sample_crypto sample_settings 1000 "''asha@shop.local''" "''kharif''" sample_client
        sample_identity tokens "[]" 1100 "\<lambda>t. Payload (access_payload 1 1 [4] [''sales.create''] (length t - 4) False)" None]
      tokens
    by (auto simp: sample_sign_in_def check_def sample_settings_def sample_crypto_def access_payload_def Let_def)
qed

end
