(* ===== verification/Organizations.thy ===== *)
theory Organizations
  imports Store Listing
begin

text \<open>
  Organizations, \<open>app/modules/organizations/api.py\<close> and \<open>service.py\<close>: the profile, branches and
  warehouses of an organization, and the provisioning that creates one with the permission catalogue,
  its default roles and its owner. The descriptions of permissions are left out, and \<open>collate\<close> is the
  sort key of the database's collation.
\<close>

section \<open>The profile\<close>

definition org_row :: "uuid \<Rightarrow> database \<Rightarrow> organization option" where
  "org_row i s = first_row (\<lambda>o'. og_id o' = i) (db_organizations s)"

definition get_profile :: "current_user \<Rightarrow> database \<Rightarrow> organization res" where
  "get_profile user s =
     (case org_row (cu_organization_id user) s of None \<Rightarrow> Inl not_found | Some org \<Rightarrow> Inr org)"

record update_organization_request =
  uo_name :: "string option option"
  uo_legal_name :: "string option option"
  uo_gstin :: "string option option"
  uo_address :: "string option option"

definition patched_organization :: "update_organization_request \<Rightarrow> organization \<Rightarrow> organization res" where
  "patched_organization p org =
     res_bind (set_required (uo_name p) (og_name org)) (\<lambda>name.
     Inr (org\<lparr>og_name := name, og_legal_name := set_optional (uo_legal_name p) (og_legal_name org),
              og_gstin := set_optional (uo_gstin p) (og_gstin org),
              og_address := set_optional (uo_address p) (og_address org)\<rparr>))"

definition update_profile ::
  "current_user \<Rightarrow> update_organization_request \<Rightarrow> database \<Rightarrow> (organization \<times> database) res" where
  "update_profile user payload s =
     res_bind (require_permission ''settings.manage'' user) (\<lambda>user.
     case org_row (cu_organization_id user) s of
       None \<Rightarrow> Inl not_found
     | Some org \<Rightarrow> res_bind (patched_organization payload org) (\<lambda>org'.
         Inr (org', s\<lparr>db_organizations := upd_first (\<lambda>o'. og_id o' = og_id org) (\<lambda>_. org') (db_organizations s)\<rparr>)))"

section \<open>Branches\<close>

record branch_out =
  bo_branch :: branch
  bo_warehouse_count :: nat

definition list_branches :: "(string \<Rightarrow> string) \<Rightarrow> current_user \<Rightarrow> database \<Rightarrow> branch_out list" where
  "list_branches collate user s =
     map (\<lambda>b. \<lparr>bo_branch = b, bo_warehouse_count = length (filter
           (\<lambda>w. wh_organization_id w = cu_organization_id user \<and> wh_branch_id w = Some (br_id b)) (db_warehouses s))\<rparr>)
       (sort_key (\<lambda>b. collate (br_name b))
         (filter (\<lambda>b. br_organization_id b = cu_organization_id user) (db_branches s)))"

record create_branch_request =
  cb_name :: string
  cb_code :: string
  cb_address :: "string option"

definition create_branch :: "current_user \<Rightarrow> create_branch_request \<Rightarrow> database \<Rightarrow> (branch_out \<times> database) res" where
  "create_branch user payload s =
     res_bind (require_permission ''settings.manage'' user) (\<lambda>user.
     if \<exists>b \<in> set (db_branches s). br_organization_id b = cu_organization_id user \<and> br_code b = cb_code payload
     then Inl conflict
     else let b = \<lparr>br_id = db_next s, br_organization_id = cu_organization_id user, br_name = cb_name payload,
                   br_code = cb_code payload, br_address = cb_address payload, br_is_active = True\<rparr>
          in Inr (\<lparr>bo_branch = b, bo_warehouse_count = 0\<rparr>,
                  s\<lparr>db_branches := db_branches s @ [b], db_next := Suc (db_next s)\<rparr>))"

section \<open>Warehouses\<close>

record warehouse_out =
  wo_warehouse :: warehouse
  wo_branch_name :: "string option"

definition list_warehouses :: "(string \<Rightarrow> string) \<Rightarrow> current_user \<Rightarrow> database \<Rightarrow> warehouse_out list" where
  "list_warehouses collate user s =
     map (\<lambda>w. \<lparr>wo_warehouse = w, wo_branch_name = Option.bind (wh_branch_id w)
           (\<lambda>i. map_option br_name (first_row (\<lambda>b. br_id b = i) (db_branches s)))\<rparr>)
       (sort_key (\<lambda>w. collate (wh_name w))
         (filter (\<lambda>w. wh_organization_id w = cu_organization_id user \<and> wh_is_active w) (db_warehouses s)))"

record create_warehouse_request =
  cw_name :: string
  cw_code :: string
  cw_type :: warehouse_type
  cw_branch_id :: "uuid option"

definition create_warehouse ::
  "current_user \<Rightarrow> create_warehouse_request \<Rightarrow> database \<Rightarrow> (warehouse_out \<times> database) res" where
  "create_warehouse user payload s =
     res_bind (require_permission ''settings.manage'' user) (\<lambda>user.
     if \<exists>w \<in> set (db_warehouses s). wh_organization_id w = cu_organization_id user \<and> wh_code w = cw_code payload
     then Inl conflict
     else let w = \<lparr>wh_id = db_next s, wh_organization_id = cu_organization_id user, wh_branch_id = cw_branch_id payload,
                   wh_name = cw_name payload, wh_code = cw_code payload, wh_type = cw_type payload, wh_is_active = True\<rparr>
          in Inr (\<lparr>wo_warehouse = w, wo_branch_name = None\<rparr>,
                  s\<lparr>db_warehouses := db_warehouses s @ [w], db_next := Suc (db_next s)\<rparr>))"

section \<open>Provisioning\<close>

text \<open>The codes of the catalogue with their categories.\<close>

definition PERMISSIONS :: "(string \<times> string) list" where
  "PERMISSIONS =
     [(''product.view'', ''catalogue''), (''product.create'', ''catalogue''), (''product.update'', ''catalogue''),
      (''pricing.view_cost'', ''pricing''), (''pricing.override'', ''pricing''), (''inventory.view'', ''inventory''),
      (''inventory.adjust'', ''inventory''), (''stock.transfer'', ''inventory''), (''purchase.view'', ''purchases''),
      (''purchase.create'', ''purchases''), (''sales.create'', ''sales''), (''sales.finalize'', ''sales''),
      (''sales.cancel'', ''sales''), (''customer.view'', ''crm''), (''customer.create'', ''crm''),
      (''payment.receive'', ''payments''), (''report.view'', ''reports''), (''report.view_profit'', ''reports''),
      (''service.manage'', ''service''), (''user.manage'', ''admin''), (''settings.manage'', ''admin''),
      (''audit.view'', ''admin'')]"

definition permission_row :: "string \<Rightarrow> identity \<Rightarrow> permission option" where
  "permission_row code s = first_row (\<lambda>p. pe_code p = code) (id_permissions s)"

definition ensure_permission :: "string \<times> string \<Rightarrow> identity \<Rightarrow> identity" where
  "ensure_permission d s =
     (case permission_row (fst d) s of
        Some _ \<Rightarrow> s
      | None \<Rightarrow> s\<lparr>id_permissions := id_permissions s @ [\<lparr>pe_id = id_next s, pe_code = fst d, pe_category = snd d\<rparr>],
                 id_next := Suc (id_next s)\<rparr>)"

definition ensure_permissions :: "identity \<Rightarrow> identity" where
  "ensure_permissions s = fold ensure_permission PERMISSIONS s"

text \<open>\<open>permissions[perm_code]\<close> raises \<open>KeyError\<close> for a code that is not in the catalogue.\<close>

definition grant :: "uuid \<Rightarrow> string \<Rightarrow> identity \<Rightarrow> identity res" where
  "grant role_id perm_code s =
     (case permission_row perm_code s of
        None \<Rightarrow> Inl KeyError
      | Some p \<Rightarrow> Inr (s\<lparr>id_role_permissions := id_role_permissions s @ [\<lparr>rq_role_id = role_id, rq_permission_id = pe_id p\<rparr>]\<rparr>))"

definition add_role :: "uuid \<Rightarrow> role_spec \<Rightarrow> identity \<Rightarrow> (role \<times> identity) res" where
  "add_role organization_id spec s =
     (let role = \<lparr>ro_id = id_next s, ro_organization_id = organization_id, ro_name = rs_name spec,
                  ro_code = rs_code spec, ro_description = None, ro_is_system = True\<rparr>
      in res_bind (fold_res (grant (ro_id role)) (rs_permissions spec)
             (s\<lparr>id_roles := id_roles s @ [role], id_next := Suc (id_next s)\<rparr>)) (\<lambda>s'. Inr (role, s')))"

text \<open>A new user; \<open>uq_user_org_email\<close> refuses an email that the organization has already.\<close>

definition insert_user :: "crypto \<Rightarrow> uuid \<Rightarrow> string \<Rightarrow> string \<Rightarrow> string \<Rightarrow> bool \<Rightarrow> identity \<Rightarrow> (user \<times> identity) res" where
  "insert_user c organization_id email password full_name is_owner s =
     (if \<exists>u \<in> set (id_users s). us_organization_id u = organization_id \<and> us_email u = email then Inl IntegrityError
      else let u = \<lparr>us_id = id_next s, us_organization_id = organization_id, us_email = email, us_full_name = full_name,
                    us_hashed_password = cy_argon2_hash c (id_next s) password, us_is_active = True,
                    us_is_owner = is_owner, us_failed_login_count = 0, us_locked_until = None, us_last_login_at = None\<rparr>
           in Inr (u, s\<lparr>id_users := id_users s @ [u], id_next := Suc (id_next s)\<rparr>))"

definition assign_role :: "uuid \<Rightarrow> uuid \<Rightarrow> identity \<Rightarrow> identity" where
  "assign_role user_id role_id s =
     s\<lparr>id_user_roles := id_user_roles s @ [\<lparr>ur_user_id = user_id, ur_role_id = role_id, ur_branch_id = None\<rparr>]\<rparr>"

definition assign_branch :: "uuid \<Rightarrow> uuid \<Rightarrow> identity \<Rightarrow> identity" where
  "assign_branch user_id branch_id s =
     s\<lparr>id_user_branches := id_user_branches s @ [\<lparr>ub_user_id = user_id, ub_branch_id = branch_id\<rparr>]\<rparr>"

record provision_args =
  vn_org_name :: string
  vn_owner_email :: string
  vn_owner_password :: string
  vn_owner_name :: string
  vn_branch_name :: string
  vn_branch_code :: string

record provision_result =
  vr_organization :: organization
  vr_owner :: user
  vr_branch :: branch
  vr_roles :: "role list"

definition owner_role :: "role list \<Rightarrow> role res" where
  "owner_role roles = (case first_row (\<lambda>r. ro_code r = ''owner'') roles of None \<Rightarrow> Inl KeyError | Some r \<Rightarrow> Inr r)"

text \<open>The rows of the identity tables, for the new organization and branch.\<close>

definition provision_identity ::
  "crypto \<Rightarrow> provision_args \<Rightarrow> uuid \<Rightarrow> uuid \<Rightarrow> identity \<Rightarrow> ((user \<times> role list) \<times> identity) res" where
  "provision_identity c a organization_id branch_id s =
     res_bind (map_state (add_role organization_id) DEFAULT_ROLES s) (\<lambda>(roles, s1).
     res_bind (insert_user c organization_id (vn_owner_email a) (vn_owner_password a) (vn_owner_name a) True s1)
       (\<lambda>(owner, s2).
     res_bind (owner_role roles) (\<lambda>role.
     Inr ((owner, roles), assign_branch (us_id owner) branch_id (assign_role (us_id owner) (ro_id role) s2)))))"

definition provision :: "crypto \<Rightarrow> provision_args \<Rightarrow> database \<Rightarrow> (provision_result \<times> database) res" where
  "provision c a s =
     (let org = \<lparr>og_id = db_next s, og_name = vn_org_name a, og_legal_name = None, og_gstin = None, og_address = None,
                 og_currency = ''INR'', og_is_active = True\<rparr>;
          branch = \<lparr>br_id = Suc (db_next s), br_organization_id = og_id org, br_name = vn_branch_name a,
                    br_code = vn_branch_code a, br_address = None, br_is_active = True\<rparr>
      in res_bind (provision_identity c a (og_id org) (br_id branch) (ensure_permissions (db_identity s)))
           (\<lambda>((owner, roles), i).
         Inr (\<lparr>vr_organization = org, vr_owner = owner, vr_branch = branch, vr_roles = roles\<rparr>,
              s\<lparr>db_organizations := db_organizations s @ [org], db_branches := db_branches s @ [branch],
                db_identity := i, db_next := Suc (Suc (db_next s))\<rparr>)))"

section \<open>What provisioning sets up\<close>

text \<open>References of the identity tables stay below the supply, keys and permission codes are unique.\<close>

definition identity_ok :: "identity \<Rightarrow> bool" where
  "identity_ok s \<longleftrightarrow>
     distinct (map pe_id (id_permissions s)) \<and> distinct (map pe_code (id_permissions s))
     \<and> (\<forall>p \<in> set (id_permissions s). pe_id p < id_next s)
     \<and> distinct (map ro_id (id_roles s)) \<and> (\<forall>r \<in> set (id_roles s). ro_id r < id_next s)
     \<and> (\<forall>g \<in> set (id_role_permissions s). rq_role_id g < id_next s \<and> rq_permission_id g < id_next s)
     \<and> distinct (map us_id (id_users s)) \<and> (\<forall>u \<in> set (id_users s). us_id u < id_next s)
     \<and> (\<forall>r \<in> set (id_user_roles s). ur_user_id r < id_next s \<and> ur_role_id r < id_next s)
     \<and> (\<forall>b \<in> set (id_user_branches s). ub_user_id b < id_next s)"

text \<open>The codes a role grants, and the roles a user has, in the order of the join.\<close>

definition role_codes :: "uuid \<Rightarrow> identity \<Rightarrow> string list" where
  "role_codes role_id s =
     [pe_code p. g \<leftarrow> id_role_permissions s, rq_role_id g = role_id, p \<leftarrow> id_permissions s, pe_id p = rq_permission_id g]"

definition roles_of :: "uuid \<Rightarrow> identity \<Rightarrow> role list" where
  "roles_of user_id s =
     [ro. ur \<leftarrow> id_user_roles s, ur_user_id ur = user_id, ro \<leftarrow> id_roles s, ro_id ro = ur_role_id ur]"

lemma concat_comprehension:
  "concat (map f (concat (map (\<lambda>x. if p x then [x] else []) xs))) = concat (map (\<lambda>x. if p x then f x else []) xs)"
  by (induction xs) auto

lemma concat_comprehensions:
  "concat (map f (concat (map (\<lambda>x. if p x then concat (map (\<lambda>y. if q x y then [y] else []) ys) else []) xs)))
   = concat (map (\<lambda>x. if p x then concat (map (\<lambda>y. if q x y then f y else []) ys) else []) xs)"
  by (induction xs) (auto simp: concat_comprehension)

lemma get_user_permissions_roles:
  "get_user_permissions u s = sort (remdups (concat (map (\<lambda>r. role_codes (ro_id r) s) (roles_of u s))))"
  unfolding get_user_permissions_def roles_of_def concat_comprehensions role_codes_def by (rule refl)

lemma ensure_permission_cases:
  obtains "ensure_permission d s = s" "permission_row (fst d) s \<noteq> None"
  | "permission_row (fst d) s = None" "ensure_permission d s = s\<lparr>id_permissions := id_permissions s
        @ [\<lparr>pe_id = id_next s, pe_code = fst d, pe_category = snd d\<rparr>], id_next := Suc (id_next s)\<rparr>"
  by (cases "permission_row (fst d) s") (auto simp: ensure_permission_def)

lemma ensure_permission_ok: "identity_ok s \<Longrightarrow> identity_ok (ensure_permission d s)"
  by (cases rule: ensure_permission_cases [of d s])
    (auto simp: identity_ok_def permission_row_def first_row_None less_SucI)

text \<open>Identity tables that differ in the permission catalogue only, which grew.\<close>

definition permissions_grown :: "identity \<Rightarrow> identity \<Rightarrow> bool" where
  "permissions_grown s t \<longleftrightarrow> id_next s \<le> id_next t \<and> (\<exists>ps. id_permissions t = id_permissions s @ ps
      \<and> (\<forall>p \<in> set ps. id_next s \<le> pe_id p)
      \<and> t = s\<lparr>id_permissions := id_permissions s @ ps, id_next := id_next t\<rparr>)"

lemma permissions_grown_refl: "permissions_grown s s"
  by (simp add: permissions_grown_def)

lemma permissions_grown_trans: "permissions_grown s t \<Longrightarrow> permissions_grown t u \<Longrightarrow> permissions_grown s u"
proof -
  assume st: "permissions_grown s t" and tu: "permissions_grown t u"
  obtain ps where p: "id_permissions t = id_permissions s @ ps" "\<forall>p \<in> set ps. id_next s \<le> pe_id p"
      "t = s\<lparr>id_permissions := id_permissions s @ ps, id_next := id_next t\<rparr>" "id_next s \<le> id_next t"
    using st unfolding permissions_grown_def by blast
  obtain qs where q: "id_permissions u = id_permissions t @ qs" "\<forall>p \<in> set qs. id_next t \<le> pe_id p"
      "u = t\<lparr>id_permissions := id_permissions t @ qs, id_next := id_next u\<rparr>" "id_next t \<le> id_next u"
    using tu unfolding permissions_grown_def by blast
  have "u = s\<lparr>id_permissions := id_permissions s @ ps @ qs, id_next := id_next u\<rparr>"
    by (subst q(3), subst p(3)) (simp add: p(1))
  then show ?thesis
    unfolding permissions_grown_def using p(1,2,4) q(1,2,4)
    by (intro conjI exI [of _ "ps @ qs"]) (auto intro: le_trans)
qed

lemma ensure_permission_grown: "permissions_grown s (ensure_permission d s)"
  by (cases rule: ensure_permission_cases [of d s]) (simp_all add: permissions_grown_def)

lemma permission_row_grown: "permissions_grown s t \<Longrightarrow> permission_row c s \<noteq> None \<Longrightarrow> permission_row c t \<noteq> None"
  by (auto simp: permissions_grown_def permission_row_def first_row_None)

lemma ensure_all:
  assumes "identity_ok s"
  shows "identity_ok (fold ensure_permission ds s) \<and> permissions_grown s (fold ensure_permission ds s)
    \<and> (\<forall>d \<in> set ds. permission_row (fst d) (fold ensure_permission ds s) \<noteq> None)"
  using assms
proof (induction ds arbitrary: s)
  case (Cons d ds)
  let ?m = "ensure_permission d s"
  have "permission_row (fst d) ?m \<noteq> None"
    by (cases rule: ensure_permission_cases [of d s]) (auto simp: permission_row_def first_row_append split: option.splits)
  then show ?case
    using Cons.IH [OF ensure_permission_ok [OF Cons.prems, of d]] ensure_permission_grown [of s d]
      permission_row_grown [of ?m] by (auto intro: permissions_grown_trans)
qed (simp add: permissions_grown_refl)

lemma ensure_present: "\<forall>d \<in> set ds. permission_row (fst d) s \<noteq> None \<Longrightarrow> fold ensure_permission ds s = s"
  by (induction ds) (auto simp: ensure_permission_def)

text \<open>A second run finds every code and changes nothing.\<close>

lemma ensure_permissions_idempotent:
  assumes "identity_ok s"
  shows "ensure_permissions (ensure_permissions s) = ensure_permissions s"
  unfolding ensure_permissions_def by (rule ensure_present) (use ensure_all [OF assms] in blast)

lemma permission_codes: "map fst PERMISSIONS = ALL_PERMISSION_CODES"
  by (simp add: PERMISSIONS_def ALL_PERMISSION_CODES_def)

lemma filter_key: "distinct (map key xs) \<Longrightarrow> x \<in> set xs \<Longrightarrow> filter (\<lambda>y. key y = key x) xs = [x]"
proof (induction xs)
  case (Cons y xs)
  then show ?case by (cases "y = x") (force simp: filter_empty_conv image_iff)+
qed simp

lemma permission_of_id:
  assumes "distinct (map pe_id ps)" "first_row (\<lambda>p. pe_code p = c) ps = Some p"
  shows "map pe_code (filter (\<lambda>q. pe_id q = pe_id p) ps) = [c]"
  using first_row_Some [OF assms(2)] filter_key [OF assms(1)] by auto

lemma role_codes_append:
  "role_codes r (s\<lparr>id_role_permissions := id_role_permissions s @ [g]\<rparr>)
   = role_codes r s @ (if rq_role_id g = r then map pe_code (filter (\<lambda>p. pe_id p = rq_permission_id g) (id_permissions s)) else [])"
proof -
  have c: "[pe_code p. p \<leftarrow> ps, pe_id p = i] = map pe_code (filter (\<lambda>p. pe_id p = i) ps)" for i ps
    by (induction ps) auto
  show ?thesis by (simp add: role_codes_def c cong: if_cong)
qed

text \<open>Granting a list of known codes.\<close>

lemma grants_ok:
  assumes "identity_ok s" "\<forall>c \<in> set codes. permission_row c s \<noteq> None" "r < id_next s"
  shows "\<exists>t gs. fold_res (grant r) codes s = Inr t \<and> identity_ok t
    \<and> t = s\<lparr>id_role_permissions := id_role_permissions s @ gs\<rparr>
    \<and> role_codes r t = role_codes r s @ codes \<and> (\<forall>r'. r' \<noteq> r \<longrightarrow> role_codes r' t = role_codes r' s)"
  using assms
proof (induction codes arbitrary: s)
  case Nil
  then show ?case by (intro exI [of _ s] exI [of _ "[]"]) simp
next
  case (Cons c codes)
  obtain p where p: "permission_row c s = Some p" using Cons.prems(2) by auto
  define m where "m = s\<lparr>id_role_permissions := id_role_permissions s @ [\<lparr>rq_role_id = r, rq_permission_id = pe_id p\<rparr>]\<rparr>"
  have g: "grant r c s = Inr m" by (simp add: grant_def p m_def)
  have "p \<in> set (id_permissions s)" using p by (auto simp: permission_row_def dest: first_row_Some)
  then have m: "identity_ok m" "r < id_next m" "\<forall>c \<in> set codes. permission_row c m \<noteq> None"
    using Cons.prems by (auto simp: identity_ok_def m_def permission_row_def)
  have one: "map pe_code (filter (\<lambda>q. pe_id q = pe_id p) (id_permissions s)) = [c]"
    using p Cons.prems(1) by (intro permission_of_id) (simp_all add: identity_ok_def permission_row_def)
  obtain t gs where IH: "fold_res (grant r) codes m = Inr t" "identity_ok t"
    "t = m\<lparr>id_role_permissions := id_role_permissions m @ gs\<rparr>"
    "role_codes r t = role_codes r m @ codes" "\<forall>r'. r' \<noteq> r \<longrightarrow> role_codes r' t = role_codes r' m"
    using Cons.IH [OF m(1,3,2)] by blast
  have "role_codes r' m = role_codes r' s @ (if r' = r then [c] else [])" for r'
    using one by (auto simp: m_def role_codes_append)
  then show ?case
    using IH by (intro exI [of _ t] exI [of _ "\<lparr>rq_role_id = r, rq_permission_id = pe_id p\<rparr> # gs"])
      (simp add: g, simp add: m_def)
qed

text \<open>Adding roles leaves the codes of every older role as they are.\<close>

lemma add_role_ok:
  assumes "identity_ok s" "\<forall>c \<in> set (rs_permissions spec). permission_row c s \<noteq> None"
  shows "\<exists>role t. add_role org spec s = Inr (role, t) \<and> identity_ok t \<and> ro_id role = id_next s
    \<and> ro_organization_id role = org \<and> ro_code role = rs_code spec \<and> role_codes (ro_id role) t = rs_permissions spec
    \<and> (\<forall>r < id_next s. role_codes r t = role_codes r s) \<and> (\<exists>gs. t = s\<lparr>id_roles := id_roles s @ [role],
        id_role_permissions := id_role_permissions s @ gs, id_next := Suc (id_next s)\<rparr>)"
proof -
  define role where "role = \<lparr>ro_id = id_next s, ro_organization_id = org, ro_name = rs_name spec,
                  ro_code = rs_code spec, ro_description = None, ro_is_system = True\<rparr>"
  define m where "m = s\<lparr>id_roles := id_roles s @ [role], id_next := Suc (id_next s)\<rparr>"
  have m: "identity_ok m" "\<forall>c \<in> set (rs_permissions spec). permission_row c m \<noteq> None" "id_next s < id_next m"
    using assms by (auto simp: identity_ok_def m_def role_def permission_row_def less_SucI)
  have codes: "role_codes r m = role_codes r s" for r by (simp add: m_def role_codes_def cong: if_cong)
  have "role_codes (id_next s) s = []"
    using assms(1) by (auto simp: role_codes_def identity_ok_def)
  moreover obtain t gs where t: "fold_res (grant (id_next s)) (rs_permissions spec) m = Inr t" "identity_ok t"
    "t = m\<lparr>id_role_permissions := id_role_permissions m @ gs\<rparr>"
    "role_codes (id_next s) t = role_codes (id_next s) m @ rs_permissions spec"
    "\<forall>r'. r' \<noteq> id_next s \<longrightarrow> role_codes r' t = role_codes r' m"
    using grants_ok [OF m] by blast
  moreover from this have form: "t = s\<lparr>id_roles := id_roles s @ [role],
        id_role_permissions := id_role_permissions s @ gs, id_next := Suc (id_next s)\<rparr>"
    by (simp add: m_def)
  moreover have "add_role org spec s = Inr (role, t)"
    using t(1) by (simp add: add_role_def Let_def role_def m_def)
  ultimately show ?thesis
    using form by (intro exI [of _ role] exI [of _ t] conjI exI [of _ gs]) (simp_all add: codes role_def)
qed

definition role_for :: "uuid \<Rightarrow> identity \<Rightarrow> uuid \<Rightarrow> role_spec \<Rightarrow> role \<Rightarrow> bool" where
  "role_for org t n spec role \<longleftrightarrow> n \<le> ro_id role \<and> ro_id role < id_next t \<and> ro_organization_id role = org
     \<and> ro_code role = rs_code spec \<and> role_codes (ro_id role) t = rs_permissions spec"

lemma add_roles_ok:
  assumes "identity_ok s" "\<forall>spec \<in> set specs. \<forall>c \<in> set (rs_permissions spec). permission_row c s \<noteq> None"
  shows "\<exists>roles t. map_state (add_role org) specs s = Inr (roles, t) \<and> identity_ok t \<and> id_next s \<le> id_next t
    \<and> list_all2 (role_for org t (id_next s)) specs roles \<and> (\<forall>r < id_next s. role_codes r t = role_codes r s)
    \<and> (\<exists>gs. t = s\<lparr>id_roles := id_roles s @ roles, id_role_permissions := id_role_permissions s @ gs,
                  id_next := id_next t\<rparr>)"
  using assms
proof (induction specs arbitrary: s)
  case Nil
  then show ?case by (intro exI [of _ "[]"] exI [of _ s]) (auto intro!: exI [of _ "[]"])
next
  case (Cons spec specs)
  obtain role m gs where m: "add_role org spec s = Inr (role, m)" "identity_ok m" "ro_id role = id_next s"
    "ro_organization_id role = org" "ro_code role = rs_code spec" "role_codes (ro_id role) m = rs_permissions spec"
    "\<forall>r < id_next s. role_codes r m = role_codes r s"
    and meq: "m = s\<lparr>id_roles := id_roles s @ [role], id_role_permissions := id_role_permissions s @ gs,
      id_next := Suc (id_next s)\<rparr>"
    using add_role_ok [OF Cons.prems(1), of spec org] Cons.prems(2) by auto
  have next_m: "id_next m = Suc (id_next s)" by (simp add: meq)
  have "\<forall>spec \<in> set specs. \<forall>c \<in> set (rs_permissions spec). permission_row c m \<noteq> None"
    using Cons.prems(2) by (simp add: meq permission_row_def)
  from Cons.IH [OF m(2) this] obtain roles t hs where t: "map_state (add_role org) specs m = Inr (roles, t)"
    "identity_ok t" "id_next m \<le> id_next t" "list_all2 (role_for org t (id_next m)) specs roles"
    "\<forall>r < id_next m. role_codes r t = role_codes r m"
    and teq: "t = m\<lparr>id_roles := id_roles m @ roles, id_role_permissions := id_role_permissions m @ hs, id_next := id_next t\<rparr>"
    by blast
  have "list_all2 (role_for org t (id_next s)) specs roles"
    using t(4) by (rule list_all2_mono) (simp add: role_for_def next_m)
  moreover have "role_for org t (id_next s) spec role"
    using m(3-6) t(3,5) by (simp add: role_for_def next_m)
  moreover have "t = s\<lparr>id_roles := id_roles s @ role # roles, id_role_permissions := id_role_permissions s @ gs @ hs,
      id_next := id_next t\<rparr>"
    by (subst teq, subst meq) (simp add: meq)
  ultimately show ?case
    using m(1,7) t(1-3,5) next_m
    by (intro exI [of _ "role # roles"] exI [of _ t]) auto
qed

lemma insert_user_ok:
  "insert_user c org email password name own s = Inr (u, t) \<longleftrightarrow>
     \<not> (\<exists>v \<in> set (id_users s). us_organization_id v = org \<and> us_email v = email)
     \<and> u = \<lparr>us_id = id_next s, us_organization_id = org, us_email = email, us_full_name = name,
            us_hashed_password = cy_argon2_hash c (id_next s) password, us_is_active = True, us_is_owner = own,
            us_failed_login_count = 0, us_locked_until = None, us_last_login_at = None\<rparr>
     \<and> t = s\<lparr>id_users := id_users s @ [u], id_next := Suc (id_next s)\<rparr>"
  by (auto simp: insert_user_def Let_def)

lemma default_codes_known:
  assumes "identity_ok s" "spec \<in> set DEFAULT_ROLES" "c \<in> set (rs_permissions spec)"
  shows "permission_row c (ensure_permissions s) \<noteq> None"
proof -
  have "c \<in> set (map fst PERMISSIONS)" using default_roles_in_catalogue assms(2,3) unfolding permission_codes by blast
  then show ?thesis using ensure_all [OF assms(1), of PERMISSIONS] by (auto simp: ensure_permissions_def)
qed

lemma role_codes_same:
  "id_role_permissions s = id_role_permissions t \<Longrightarrow> id_permissions s = id_permissions t \<Longrightarrow> role_codes r s = role_codes r t"
  by (simp add: role_codes_def cong: if_cong)

lemma comprehension_none: "(\<And>x. x \<in> set xs \<Longrightarrow> \<not> p x) \<Longrightarrow> concat (map (\<lambda>x. if p x then f x else []) xs) = []"
  by (induction xs) auto

lemma comprehension_key:
  assumes "distinct (map key xs)" "x \<in> set xs"
  shows "concat (map (\<lambda>y. if key y = key x then [y] else []) xs) = [x]"
proof -
  have "concat (map (\<lambda>y. if p y then [y] else []) xs) = filter p xs" for p
    by (induction xs) auto
  then show ?thesis using filter_key [OF assms] by simp
qed

text \<open>The catalogue's growth leaves the codes of the roles as they are.\<close>

lemma role_codes_grown:
  assumes "permissions_grown s t" "identity_ok s"
  shows "role_codes r t = role_codes r s"
proof -
  obtain ps where ps: "id_permissions t = id_permissions s @ ps" "\<forall>p \<in> set ps. id_next s \<le> pe_id p"
      "id_role_permissions t = id_role_permissions s"
    using assms(1) unfolding permissions_grown_def by (metis (no_types, lifting) identity.select_convs(5) identity.surjective identity.update_convs(3,10))
  have none: "concat (map (\<lambda>p. if pe_id p = rq_permission_id g then [pe_code p] else []) ps) = []"
    if "g \<in> set (id_role_permissions s)" for g
    by (rule comprehension_none) (use assms(2) ps(2) that in \<open>force simp: identity_ok_def\<close>)
  show ?thesis unfolding role_codes_def ps(1,3) using none by (intro arg_cong [of _ _ concat] map_cong) auto
qed

lemma roles_of_extended:
  assumes "identity_ok s" "id_user_roles t = id_user_roles s @ [a]" "id_roles t = id_roles s @ rs"
    and "\<forall>r \<in> set rs. id_next s \<le> ro_id r" "ur_user_id a \<noteq> u"
  shows "roles_of u t = roles_of u s"
proof -
  have none: "concat (map (\<lambda>r. if ro_id r = ur_role_id ur then [r] else []) rs) = []" if "ur \<in> set (id_user_roles s)" for ur
    by (rule comprehension_none) (use assms(1,4) that in \<open>force simp: identity_ok_def\<close>)
  show ?thesis unfolding roles_of_def assms(2,3) using none assms(5)
    by simp (intro arg_cong [of _ _ concat] map_cong; simp)
qed

lemma roles_of_new:
  assumes "identity_ok s" "id_user_roles t = id_user_roles s @ [a]" "id_next s \<le> ur_user_id a"
    and "distinct (map ro_id (id_roles t))" "r \<in> set (id_roles t)" "ur_role_id a = ro_id r"
  shows "roles_of (ur_user_id a) t = [r]"
proof -
  have "concat (map (\<lambda>ur. if ur_user_id ur = ur_user_id a
      then concat (map (\<lambda>ro. if ro_id ro = ur_role_id ur then [ro] else []) (id_roles t)) else []) (id_user_roles s)) = []"
    by (rule comprehension_none) (use assms(1,3) in \<open>force simp: identity_ok_def\<close>)
  then show ?thesis
    unfolding roles_of_def assms(2) using comprehension_key [OF assms(4,5)] by (simp add: assms(6))
qed

lemma provision_identity_works:
  assumes "identity_ok s0" "\<forall>u \<in> set (id_users s0). us_organization_id u \<noteq> org"
  shows "\<exists>owner roles t. provision_identity c a org branch (ensure_permissions s0) = Inr ((owner, roles), t)
    \<and> identity_ok t \<and> us_organization_id owner = org \<and> us_is_owner owner
    \<and> get_user_permissions (us_id owner) t = sort ALL_PERMISSION_CODES
    \<and> get_user_branch_ids (us_id owner) t = [branch]
    \<and> list_all2 (\<lambda>spec role. ro_organization_id role = org \<and> ro_code role = rs_code spec
          \<and> role_codes (ro_id role) t = rs_permissions spec) DEFAULT_ROLES roles
    \<and> (\<forall>i < id_next s0. get_user_permissions i t = get_user_permissions i s0)
    \<and> id_users t = id_users s0 @ [owner]"
proof -
  define s where "s = ensure_permissions s0"
  have s: "identity_ok s" "permissions_grown s0 s" using ensure_all [OF assms(1)] by (auto simp: s_def ensure_permissions_def)
  obtain ps where same: "s = s0\<lparr>id_permissions := ps, id_next := id_next s\<rparr>" "id_next s0 \<le> id_next s"
    using s(2) by (auto simp: permissions_grown_def)
  have known: "\<forall>spec \<in> set DEFAULT_ROLES. \<forall>c \<in> set (rs_permissions spec). permission_row c s \<noteq> None"
    using default_codes_known [OF assms(1)] by (simp add: s_def)
  obtain roles m gs where m: "map_state (add_role org) DEFAULT_ROLES s = Inr (roles, m)" "identity_ok m" "id_next s \<le> id_next m"
    "list_all2 (role_for org m (id_next s)) DEFAULT_ROLES roles" "\<forall>r < id_next s. role_codes r m = role_codes r s"
    and meq: "m = s\<lparr>id_roles := id_roles s @ roles, id_role_permissions := id_role_permissions s @ gs, id_next := id_next m\<rparr>"
    using add_roles_ok [OF s(1) known, of org] by blast
  obtain r0 rest where r0: "roles = r0 # rest" "role_for org m (id_next s) (hd DEFAULT_ROLES) r0"
    using m(4) by (cases roles) (auto simp: DEFAULT_ROLES_def)
  have code0: "ro_code r0 = ''owner''" "role_codes (ro_id r0) m = ALL_PERMISSION_CODES"
    using r0(2) by (simp_all add: role_for_def DEFAULT_ROLES_def)
  have frame: "id_users m = id_users s0" "id_user_roles m = id_user_roles s0" "id_roles m = id_roles s0 @ roles"
      "id_user_branches m = id_user_branches s0"
    by (subst meq, subst same(1), simp)+
  obtain u w where u: "insert_user c org (vn_owner_email a) (vn_owner_password a) (vn_owner_name a) True m = Inr (u, w)"
    using assms(2) unfolding insert_user_def Let_def by (auto simp: frame)
  then have w: "w = m\<lparr>id_users := id_users m @ [u], id_next := Suc (id_next m)\<rparr>"
    and ids: "us_id u = id_next m" "us_organization_id u = org" "us_is_owner u"
    unfolding insert_user_ok by auto
  define t where "t = assign_branch (us_id u) branch (assign_role (us_id u) (ro_id r0) w)"
  have run: "provision_identity c a org branch s = Inr ((u, roles), t)"
    by (simp add: provision_identity_def m(1) u owner_role_def r0(1) code0(1) t_def)
  have tf: "id_permissions t = id_permissions m" "id_role_permissions t = id_role_permissions m" "id_roles t = id_roles m"
      "id_user_roles t = id_user_roles s0 @ [\<lparr>ur_user_id = us_id u, ur_role_id = ro_id r0, ur_branch_id = None\<rparr>]"
      "id_users t = id_users s0 @ [u]" "id_next t = Suc (id_next m)"
      "id_user_branches t = id_user_branches s0 @ [\<lparr>ub_user_id = us_id u, ub_branch_id = branch\<rparr>]"
    by (simp_all add: t_def w assign_branch_def assign_role_def frame)
  have codes: "role_codes r t = role_codes r m" for r by (rule role_codes_same) (simp_all add: tf)
  have r0m: "r0 \<in> set (id_roles t)" "ro_id r0 < id_next m" using r0 by (simp_all add: tf frame role_for_def)
  have ok: "identity_ok t"
    using m(2) r0m(2) unfolding identity_ok_def by (auto simp: tf frame ids less_SucI)
  have new: "roles_of (us_id u) t = [r0]"
    using roles_of_new [OF assms(1) tf(4) _ _ r0m(1)] ok same(2) m(3) by (simp add: ids identity_ok_def)
  have "get_user_permissions (us_id u) t = sort ALL_PERMISSION_CODES"
    unfolding get_user_permissions_roles new using default_roles_in_catalogue by (simp add: codes code0(2) distinct_remdups_id)
  moreover have "get_user_branch_ids (us_id u) t = [branch]"
    using assms(1) same(2) m(3) unfolding get_user_branch_ids_def
    by (auto simp: tf ids identity_ok_def filter_empty_conv)
  moreover have "get_user_permissions i t = get_user_permissions i s0" if "i < id_next s0" for i
  proof -
    have "\<forall>r \<in> set roles. id_next s0 \<le> ro_id r" using list_all2_right [OF m(4), of "\<lambda>r. id_next s \<le> ro_id r"] same(2)
      by (fastforce simp: role_for_def)
    then have roles_i: "roles_of i t = roles_of i s0"
      by (intro roles_of_extended [OF assms(1) tf(4)]) (use that same(2) m(3) in \<open>auto simp: tf frame ids\<close>)
    have "role_codes (ro_id r) t = role_codes (ro_id r) s0" if r: "r \<in> set (roles_of i s0)" for r
    proof -
      have "ro_id r < id_next s0" using assms(1) r by (auto simp: roles_of_def identity_ok_def split: if_splits)
      then show ?thesis using m(5) same(2) by (simp add: codes role_codes_grown [OF s(2) assms(1)])
    qed
    then show ?thesis unfolding get_user_permissions_roles roles_i by (simp cong: map_cong)
  qed
  moreover have "list_all2 (\<lambda>spec role. ro_organization_id role = org \<and> ro_code role = rs_code spec
          \<and> role_codes (ro_id role) t = rs_permissions spec) DEFAULT_ROLES roles"
    using m(4) by (rule list_all2_mono) (simp add: role_for_def codes)
  ultimately show ?thesis using run ok ids tf(5) unfolding s_def by blast
qed

end
