(* ===== verification/Users.thy ===== *)
theory Users
  imports Organizations Logins
begin

text \<open>
  The administration of users, \<open>app/modules/users/api.py\<close> with \<open>create_user\<close> of
  \<open>organizations/service.py\<close>: creating a colleague with a role, renaming, deactivating, re-assigning
  and resetting the password, and the lists of users and roles. The theorems are about provisioning
  and about what no sequence of such requests can do.
\<close>

section \<open>Creating a user\<close>

record create_user_args =
  ux_organization_id :: uuid
  ux_email :: string
  ux_password :: string
  ux_full_name :: string
  ux_role_code :: string
  ux_branch_id :: "uuid option"

definition role_by_code :: "uuid \<Rightarrow> string \<Rightarrow> identity \<Rightarrow> role option" where
  "role_by_code organization_id code s =
     first_row (\<lambda>r. ro_organization_id r = organization_id \<and> ro_code r = code) (id_roles s)"

definition create_user :: "crypto \<Rightarrow> create_user_args \<Rightarrow> identity \<Rightarrow> (user \<times> identity) res" where
  "create_user c a s =
     (case role_by_code (ux_organization_id a) (ux_role_code a) s of
        None \<Rightarrow> Inl not_found
      | Some role \<Rightarrow>
          res_bind (insert_user c (ux_organization_id a) (ux_email a) (ux_password a)
                      (ux_full_name a) False s) (\<lambda>(u, s1).
          let s2 = assign_role (us_id u) (ro_id role) s1
          in Inr (u, case ux_branch_id a of None \<Rightarrow> s2 | Some b \<Rightarrow> assign_branch (us_id u) b s2)))"

section \<open>The endpoints\<close>

record user_out =
  ut_user :: user
  ut_role_code :: "string option"
  ut_role_name :: "string option"

text \<open>\<open>_roles_by_user\<close>: the first of the user's roles in the organization.\<close>

definition role_by_user :: "uuid \<Rightarrow> uuid \<Rightarrow> identity \<Rightarrow> role option" where
  "role_by_user organization_id user_id s =
     first_row (\<lambda>r. ro_organization_id r = organization_id) (roles_of user_id s)"

definition to_user_out :: "user \<Rightarrow> role option \<Rightarrow> user_out" where
  "to_user_out u role =
     \<lparr>ut_user = u,
      ut_role_code = (case role of Some r \<Rightarrow> Some (ro_code r) | None \<Rightarrow> if us_is_owner u then Some ''owner'' else None),
      ut_role_name = (case role of Some r \<Rightarrow> Some (ro_name r) | None \<Rightarrow> if us_is_owner u then Some ''Owner'' else None)\<rparr>"

definition list_users :: "(string \<Rightarrow> string) \<Rightarrow> current_user \<Rightarrow> identity \<Rightarrow> user_out list res" where
  "list_users collate user s =
     res_bind (require_permission ''user.manage'' user) (\<lambda>user.
     Inr (map (\<lambda>u. to_user_out u (role_by_user (cu_organization_id user) (us_id u) s))
       (sort_key (\<lambda>u. collate (us_full_name u))
         (filter (\<lambda>u. us_organization_id u = cu_organization_id user) (id_users s)))))"

record role_out =
  rl_role :: role
  rl_permissions :: "string list"
  rl_user_count :: nat

definition list_roles :: "(string \<Rightarrow> string) \<Rightarrow> current_user \<Rightarrow> identity \<Rightarrow> role_out list res" where
  "list_roles collate user s =
     res_bind (require_permission ''user.manage'' user) (\<lambda>user.
     Inr (map (\<lambda>r. \<lparr>rl_role = r, rl_permissions = sort (role_codes (ro_id r) s),
           rl_user_count = length (filter (\<lambda>ur. ur_role_id ur = ro_id r) (id_user_roles s))\<rparr>)
       (sort_key (\<lambda>r. collate (ro_name r))
         (filter (\<lambda>r. ro_organization_id r = cu_organization_id user) (id_roles s)))))"

record create_user_request =
  qu_email :: string
  qu_password :: string
  qu_full_name :: string
  qu_role_code :: string
  qu_branch_id :: "uuid option"

definition post_user :: "crypto \<Rightarrow> current_user \<Rightarrow> create_user_request \<Rightarrow> identity \<Rightarrow> (user_out \<times> identity) res" where
  "post_user c user payload s =
     res_bind (require_permission ''user.manage'' user) (\<lambda>user.
     res_bind (create_user c
       \<lparr>ux_organization_id = cu_organization_id user, ux_email = qu_email payload,
        ux_password = qu_password payload, ux_full_name = qu_full_name payload,
        ux_role_code = qu_role_code payload, ux_branch_id = qu_branch_id payload\<rparr> s) (\<lambda>(created, s1).
     Inr (to_user_out created (role_by_user (cu_organization_id user) (us_id created) s1), s1)))"

record update_user_request =
  wu_full_name :: "string option"
  wu_is_active :: "bool option"
  wu_role_code :: "string option"
  wu_password :: "string option"

text \<open>The attributes that are assigned; the salt of a new hash is drawn from the supply.\<close>

definition patched_user :: "crypto \<Rightarrow> update_user_request \<Rightarrow> nat \<Rightarrow> user \<Rightarrow> user" where
  "patched_user c p salt u =
     u\<lparr>us_full_name := (case wu_full_name p of None \<Rightarrow> us_full_name u | Some n \<Rightarrow> n),
       us_is_active := (case wu_is_active p of None \<Rightarrow> us_is_active u | Some b \<Rightarrow> b),
       us_hashed_password := (case wu_password p of None \<Rightarrow> us_hashed_password u | Some w \<Rightarrow> cy_argon2_hash c salt w)\<rparr>"

text \<open>The \<open>DELETE\<close> of all of the user's roles and the \<open>INSERT\<close> of the new one.\<close>

definition replace_role :: "uuid \<Rightarrow> uuid \<Rightarrow> identity \<Rightarrow> identity" where
  "replace_role user_id role_id s =
     assign_role user_id role_id (s\<lparr>id_user_roles := filter (\<lambda>r. ur_user_id r \<noteq> user_id) (id_user_roles s)\<rparr>)"

definition change_role :: "uuid \<Rightarrow> uuid \<Rightarrow> string option \<Rightarrow> identity \<Rightarrow> identity res" where
  "change_role organization_id user_id code s =
     (case code of
        None \<Rightarrow> Inr s
      | Some code \<Rightarrow> (case role_by_code organization_id code s of
          None \<Rightarrow> Inl not_found
        | Some role \<Rightarrow> Inr (replace_role user_id (ro_id role) s)))"

definition patch_user ::
  "crypto \<Rightarrow> current_user \<Rightarrow> uuid \<Rightarrow> update_user_request \<Rightarrow> identity \<Rightarrow> (user_out \<times> identity) res" where
  "patch_user c user user_id payload s =
     res_bind (require_permission ''user.manage'' user) (\<lambda>user.
     case get_user user_id s of
       None \<Rightarrow> Inl not_found
     | Some target \<Rightarrow>
     if us_organization_id target \<noteq> cu_organization_id user then Inl not_found
     else if us_is_owner target \<and> wu_is_active payload = Some False then Inl (business ''owner_protected'')
     else if us_id target = cu_user_id user \<and> wu_is_active payload = Some False then Inl (business ''self_lockout'')
     else
     let patched = patched_user c payload (id_next s) target;
         s1 = update_user user_id (\<lambda>_. patched) (s\<lparr>id_next := Suc (id_next s)\<rparr>)
     in res_bind (change_role (cu_organization_id user) user_id (wu_role_code payload) s1) (\<lambda>s2.
        Inr (to_user_out patched (role_by_user (cu_organization_id user) user_id s2), s2)))"

text \<open>The requests that change users.\<close>

datatype user_command =
    PostUser current_user create_user_request
  | PatchUser current_user uuid update_user_request

fun run_users :: "crypto \<Rightarrow> user_command \<Rightarrow> identity \<Rightarrow> (user_out \<times> identity) res" where
  "run_users c (PostUser user payload) s = post_user c user payload s"
| "run_users c (PatchUser user user_id payload) s = patch_user c user user_id payload s"

fun command_user :: "user_command \<Rightarrow> current_user" where
  "command_user (PostUser user _) = user"
| "command_user (PatchUser user _ _) = user"

section \<open>What a request can change\<close>

lemma create_user_ok:
  assumes "create_user c a s = Inr (u, t)"
  obtains role where "role_by_code (ux_organization_id a) (ux_role_code a) s = Some role"
    "insert_user c (ux_organization_id a) (ux_email a) (ux_password a) (ux_full_name a) False s
       = Inr (u, s\<lparr>id_users := id_users s @ [u], id_next := Suc (id_next s)\<rparr>)"
    "id_users t = id_users s @ [u]"
    "id_user_roles t = id_user_roles s @ [\<lparr>ur_user_id = us_id u, ur_role_id = ro_id role, ur_branch_id = None\<rparr>]"
    "id_roles t = id_roles s" "id_permissions t = id_permissions s" "id_role_permissions t = id_role_permissions s"
    "id_next t = Suc (id_next s)" "us_id u = id_next s" "us_organization_id u = ux_organization_id a"
    "id_user_branches t = id_user_branches s @ (case ux_branch_id a of None \<Rightarrow> []
       | Some b \<Rightarrow> [\<lparr>ub_user_id = us_id u, ub_branch_id = b\<rparr>])"
  using assms
  by (auto simp: create_user_def insert_user_ok Let_def assign_role_def assign_branch_def split: option.splits)

lemma patch_user_ok:
  assumes "patch_user c user i p s = Inr (r, t)"
  obtains target where "get_user i s = Some target" "us_organization_id target = cu_organization_id user"
    "wu_is_active p = Some False \<Longrightarrow> \<not> us_is_owner target \<and> i \<noteq> cu_user_id user"
    "id_users t = upd_first (\<lambda>u. us_id u = i) (\<lambda>_. patched_user c p (id_next s) target) (id_users s)"
    "id_roles t = id_roles s" "id_permissions t = id_permissions s" "id_role_permissions t = id_role_permissions s"
    "id_next t = Suc (id_next s)" "id_user_branches t = id_user_branches s" "us_id target = i"
    "id_user_roles t = id_user_roles s \<or> (\<exists>role \<in> set (id_roles s). ro_organization_id role = cu_organization_id user
       \<and> id_user_roles t = filter (\<lambda>r. ur_user_id r \<noteq> i) (id_user_roles s)
            @ [\<lparr>ur_user_id = i, ur_role_id = ro_id role, ur_branch_id = None\<rparr>])"
proof -
  obtain target where tg: "get_user i s = Some target" using assms by (auto simp: patch_user_def split: option.splits)
  then have id: "us_id target = i" by (auto simp: get_user_def dest: first_row_Some)
  let ?m = "update_user i (\<lambda>_. patched_user c p (id_next s) target) (s\<lparr>id_next := Suc (id_next s)\<rparr>)"
  have org: "us_organization_id target = cu_organization_id user"
    and guard: "wu_is_active p = Some False \<Longrightarrow> \<not> us_is_owner target \<and> i \<noteq> cu_user_id user"
    and t: "change_role (cu_organization_id user) i (wu_role_code p) ?m = Inr t"
    using assms tg id by (auto simp: patch_user_def Let_def split: if_splits)
  consider "t = ?m" | role where "role \<in> set (id_roles s)" "ro_organization_id role = cu_organization_id user"
      "t = replace_role i (ro_id role) ?m"
    using t by (auto simp: change_role_def role_by_code_def update_user_def dest!: first_row_Some split: option.splits)
  then have roles: "id_user_roles t = id_user_roles s \<or> (\<exists>role \<in> set (id_roles s). ro_organization_id role = cu_organization_id user
       \<and> id_user_roles t = filter (\<lambda>r. ur_user_id r \<noteq> i) (id_user_roles s)
            @ [\<lparr>ur_user_id = i, ur_role_id = ro_id role, ur_branch_id = None\<rparr>])"
    and rest: "id_users t = id_users ?m" "id_roles t = id_roles s" "id_permissions t = id_permissions s"
      "id_role_permissions t = id_role_permissions s" "id_next t = Suc (id_next s)" "id_user_branches t = id_user_branches s"
    by (cases; auto simp: update_user_def replace_role_def assign_role_def)+
  show ?thesis by (rule that [OF tg org guard _ rest(2-6) id roles]) (simp_all add: rest(1) update_user_def)
qed

lemma patched_user_sel [simp]:
  "us_id (patched_user c p n u) = us_id u" "us_organization_id (patched_user c p n u) = us_organization_id u"
  "us_is_owner (patched_user c p n u) = us_is_owner u" "us_email (patched_user c p n u) = us_email u"
  "us_is_active (patched_user c p n u) = (case wu_is_active p of None \<Rightarrow> us_is_active u | Some b \<Rightarrow> b)"
  by (simp_all add: patched_user_def)

lemma run_users_identity_ok:
  assumes "run_users c x s = Inr (r, t)" "identity_ok s"
  shows "identity_ok t"
proof (cases x)
  case (PostUser user payload)
  then obtain u a where "create_user c a s = Inr (u, t)" using assms(1) by (auto simp: post_user_def)
  then show ?thesis
  proof (rule create_user_ok)
    fix role
    assume r: "role_by_code (ux_organization_id a) (ux_role_code a) s = Some role"
      and f: "id_users t = id_users s @ [u]"
        "id_user_roles t = id_user_roles s @ [\<lparr>ur_user_id = us_id u, ur_role_id = ro_id role, ur_branch_id = None\<rparr>]"
        "id_roles t = id_roles s" "id_permissions t = id_permissions s" "id_role_permissions t = id_role_permissions s"
        "id_next t = Suc (id_next s)" "us_id u = id_next s"
        "id_user_branches t = id_user_branches s @ (case ux_branch_id a of None \<Rightarrow> []
           | Some b \<Rightarrow> [\<lparr>ub_user_id = us_id u, ub_branch_id = b\<rparr>])"
    have "ro_id role < id_next s" using r assms(2) by (auto simp: role_by_code_def identity_ok_def dest: first_row_Some)
    then show ?thesis using assms(2) by (auto simp: identity_ok_def f less_SucI split: option.splits)
  qed
next
  case (PatchUser user i payload)
  then have "patch_user c user i payload s = Inr (r, t)" using assms(1) by simp
  then show ?thesis
  proof (rule patch_user_ok)
    fix target
    assume tg: "get_user i s = Some target" "us_id target = i"
      and f: "id_users t = upd_first (\<lambda>u. us_id u = i) (\<lambda>_. patched_user c payload (id_next s) target) (id_users s)"
        "id_roles t = id_roles s" "id_permissions t = id_permissions s" "id_role_permissions t = id_role_permissions s"
        "id_next t = Suc (id_next s)" "id_user_branches t = id_user_branches s"
      and roles: "id_user_roles t = id_user_roles s \<or> (\<exists>role \<in> set (id_roles s). ro_organization_id role = cu_organization_id user
        \<and> id_user_roles t = filter (\<lambda>r. ur_user_id r \<noteq> i) (id_user_roles s)
            @ [\<lparr>ur_user_id = i, ur_role_id = ro_id role, ur_branch_id = None\<rparr>])"
    have ids: "map us_id (id_users t) = map us_id (id_users s)" unfolding f(1) by (rule map_upd_first) (simp add: tg(2))
    have i: "i < id_next s" using tg assms(2) by (auto simp: get_user_def identity_ok_def dest!: first_row_Some)
    have "us_id u \<in> set (map us_id (id_users s))" if "u \<in> set (id_users t)" for u
      unfolding ids [symmetric] using that by simp
    then have "\<forall>u \<in> set (id_users t). us_id u < id_next t"
      using assms(2) by (fastforce simp: identity_ok_def f less_SucI)
    moreover have "\<forall>r \<in> set (id_user_roles t). ur_user_id r < id_next t \<and> ur_role_id r < id_next t"
      using roles i assms(2) by (auto simp: identity_ok_def f less_SucI)
    ultimately show ?thesis using assms(2) ids by (auto simp: identity_ok_def f less_SucI)
  qed
qed

interpretation administration: handler_contract identity_ok "\<lambda>_. True" "run_users c"
  by unfold_locales (rule run_users_identity_ok)

section \<open>Owners and tenants\<close>

lemma roles_of_filter:
  "roles_of u s = concat (map (\<lambda>ur. concat (map (\<lambda>ro. if ro_id ro = ur_role_id ur then [ro] else []) (id_roles s)))
     (filter (\<lambda>ur. ur_user_id ur = u) (id_user_roles s)))"
proof -
  have "concat (map (\<lambda>x. if p x then f x else []) xs) = concat (map f (filter p xs))" for p f and xs :: "user_role list"
    by (induction xs) auto
  then show ?thesis by (simp add: roles_of_def)
qed

lemma permissions_same:
  assumes "filter (\<lambda>r. ur_user_id r = u) (id_user_roles t) = filter (\<lambda>r. ur_user_id r = u) (id_user_roles s)"
    "id_roles t = id_roles s" "id_permissions t = id_permissions s" "id_role_permissions t = id_role_permissions s"
  shows "get_user_permissions u t = get_user_permissions u s"
  unfolding get_user_permissions_roles roles_of_filter using assms role_codes_same [of t s] by simp

text \<open>A row of the users table after one request.\<close>

definition user_kept :: "uuid \<Rightarrow> user \<Rightarrow> identity \<Rightarrow> identity \<Rightarrow> bool" where
  "user_kept org u s t \<longleftrightarrow>
     (\<exists>v \<in> set (id_users t). us_id v = us_id u \<and> us_organization_id v = us_organization_id u \<and> us_email v = us_email u
        \<and> us_is_owner v = us_is_owner u \<and> (us_is_owner u \<and> us_is_active u \<longrightarrow> us_is_active v)
        \<and> (us_organization_id u \<noteq> org \<longrightarrow> v = u))
     \<and> (us_organization_id u \<noteq> org \<longrightarrow> get_user_permissions (us_id u) t = get_user_permissions (us_id u) s
        \<and> get_user_branch_ids (us_id u) t = get_user_branch_ids (us_id u) s)"

lemma get_user_of:
  "identity_ok s \<Longrightarrow> u \<in> set (id_users s) \<Longrightarrow> get_user (us_id u) s = Some v \<Longrightarrow> v = u"
proof -
  assume "identity_ok s" "u \<in> set (id_users s)" "get_user (us_id u) s = Some v"
  then have "v \<in> set (id_users s)" "us_id v = us_id u" "distinct (map us_id (id_users s))"
    by (auto simp: get_user_def identity_ok_def dest: first_row_Some)
  then show ?thesis using \<open>u \<in> set (id_users s)\<close> by (auto simp: distinct_map dest: inj_onD)
qed

lemma run_users_keeps_user:
  assumes "run_users c x s = Inr (r, t)" "identity_ok s" "u \<in> set (id_users s)"
  shows "user_kept (cu_organization_id (command_user x)) u s t"
proof (cases x)
  case (PostUser user payload)
  then obtain w a where "create_user c a s = Inr (w, t)" using assms(1) by (auto simp: post_user_def)
  then show ?thesis
  proof (rule create_user_ok)
    fix role
    assume f: "id_users t = id_users s @ [w]" "us_id w = id_next s"
        "id_user_roles t = id_user_roles s @ [\<lparr>ur_user_id = us_id w, ur_role_id = ro_id role, ur_branch_id = None\<rparr>]"
        "id_roles t = id_roles s" "id_permissions t = id_permissions s" "id_role_permissions t = id_role_permissions s"
        "id_user_branches t = id_user_branches s @ (case ux_branch_id a of None \<Rightarrow> []
           | Some b \<Rightarrow> [\<lparr>ub_user_id = us_id w, ub_branch_id = b\<rparr>])"
    have ne: "us_id u \<noteq> us_id w" using assms(2,3) f(2) by (auto simp: identity_ok_def)
    then have "get_user_permissions (us_id u) t = get_user_permissions (us_id u) s"
      by (intro permissions_same) (auto simp: f)
    then show ?thesis using assms(3) ne
      by (auto simp: user_kept_def f get_user_branch_ids_def split: option.split)
  qed
next
  case (PatchUser user i payload)
  then have "patch_user c user i payload s = Inr (r, t)" using assms(1) by simp
  then show ?thesis
  proof (rule patch_user_ok)
    fix target
    assume tg: "get_user i s = Some target" "us_id target = i" "us_organization_id target = cu_organization_id user"
      and guard: "wu_is_active payload = Some False \<Longrightarrow> \<not> us_is_owner target \<and> i \<noteq> cu_user_id user"
      and f: "id_users t = upd_first (\<lambda>u. us_id u = i) (\<lambda>_. patched_user c payload (id_next s) target) (id_users s)"
        "id_roles t = id_roles s" "id_permissions t = id_permissions s" "id_role_permissions t = id_role_permissions s"
        "id_user_branches t = id_user_branches s"
      and roles: "id_user_roles t = id_user_roles s \<or> (\<exists>role \<in> set (id_roles s). ro_organization_id role = cu_organization_id user
        \<and> id_user_roles t = filter (\<lambda>r. ur_user_id r \<noteq> i) (id_user_roles s)
            @ [\<lparr>ur_user_id = i, ur_role_id = ro_id role, ur_branch_id = None\<rparr>])"
    have rows: "id_users t = map (\<lambda>u. if us_id u = i then patched_user c payload (id_next s) target else u) (id_users s)"
      unfolding f(1) by (rule upd_first_key_map) (use assms(2) in \<open>simp add: identity_ok_def\<close>)
    show ?thesis
    proof (cases "us_id u = i")
      case True
      then have u: "u = target" using get_user_of [OF assms(2,3)] tg(1) by simp
      have "patched_user c payload (id_next s) target \<in> set (id_users t)"
        using assms(3) True by (auto simp: rows)
      moreover have "us_is_owner target \<and> us_is_active target \<longrightarrow> us_is_active (patched_user c payload (id_next s) target)"
        using guard by (cases "wu_is_active payload") auto
      moreover have "cu_organization_id (command_user x) = us_organization_id u" using PatchUser tg(3) by (simp add: u)
      ultimately show ?thesis unfolding user_kept_def u
        by (intro conjI bexI [of _ "patched_user c payload (id_next s) target"]) (simp_all only: patched_user_sel, simp_all)
    next
      case False
      then have "u \<in> set (id_users t)" using assms(3) by (auto simp: rows)
      moreover have "filter (\<lambda>r. ur_user_id r \<noteq> i \<and> ur_user_id r = us_id u) rs = filter (\<lambda>r. ur_user_id r = us_id u) rs" for rs
        using False by (intro filter_cong) auto
      then have "get_user_permissions (us_id u) t = get_user_permissions (us_id u) s"
        by (intro permissions_same) (use roles False in \<open>auto simp: f\<close>)
      ultimately show ?thesis by (auto simp: user_kept_def f get_user_branch_ids_def)
    qed
  qed
qed

text \<open>The two invariants of a history that starts in \<open>s\<close>.\<close>

definition owner_active :: "user \<Rightarrow> identity \<Rightarrow> bool" where
  "owner_active u t \<longleftrightarrow> identity_ok t \<and> (\<exists>v \<in> set (id_users t). us_id v = us_id u \<and> us_is_owner v \<and> us_is_active v
     \<and> us_organization_id v = us_organization_id u \<and> us_email v = us_email u)"

definition tenant_untouched :: "user \<Rightarrow> identity \<Rightarrow> identity \<Rightarrow> bool" where
  "tenant_untouched u s t \<longleftrightarrow> identity_ok t \<and> u \<in> set (id_users t)
     \<and> get_user_permissions (us_id u) t = get_user_permissions (us_id u) s
     \<and> get_user_branch_ids (us_id u) t = get_user_branch_ids (us_id u) s"

interpretation owners: handler_contract "owner_active u" "\<lambda>_. True" "run_users c"
proof
  fix x s r t
  assume s: "owner_active u s" and run: "run_users c x s = Inr (r, t)"
  then obtain v where v: "v \<in> set (id_users s)" "us_id v = us_id u" "us_is_owner v" "us_is_active v"
      "us_organization_id v = us_organization_id u" "us_email v = us_email u" and ok: "identity_ok s"
    unfolding owner_active_def by blast
  show "owner_active u t"
    using run_users_keeps_user [OF run ok v(1)] run_users_identity_ok [OF run ok] v(2-6)
    unfolding user_kept_def owner_active_def by metis
qed

interpretation tenants: handler_contract "tenant_untouched u s"
  "\<lambda>x. cu_organization_id (command_user x) \<noteq> us_organization_id u" "run_users c"
proof
  fix x s' r t
  assume s: "tenant_untouched u s s'" and run: "run_users c x s' = Inr (r, t)"
    and other: "cu_organization_id (command_user x) \<noteq> us_organization_id u"
  then have "user_kept (cu_organization_id (command_user x)) u s' t"
    by (intro run_users_keeps_user) (auto simp: tenant_untouched_def)
  then show "tenant_untouched u s t"
    using s other run_users_identity_ok [OF run] unfolding user_kept_def tenant_untouched_def by metis
qed

text \<open>
  C35: Owners cannot be locked out of their organization. After any history of requests that create or
  change users, by whichever users and in any organization, accepted or refused, an owner account that
  was active is still there, still the owner and still active.
\<close>

theorem owner_accounts_survive:
  assumes "identity_ok s" "u \<in> set (id_users s)" "us_is_owner u" "us_is_active u"
  shows "\<exists>v \<in> set (id_users (serve (run_users c) cmds s)). us_id v = us_id u \<and> us_is_owner v \<and> us_is_active v
    \<and> us_organization_id v = us_organization_id u \<and> us_email v = us_email u"
  using owners.serve_keeps [where u = u and c = c and xs = cmds and s = s] assms unfolding owner_active_def by blast

text \<open>
  User administration stays in its tenant. Whatever requests the users of other organizations
  make, the row of a user, the permissions the user's roles grant and the user's branches stay
  exactly as they were.
\<close>

theorem user_administration_stays_in_tenant:
  assumes "identity_ok s" "u \<in> set (id_users s)"
    and "\<forall>x \<in> set cmds. cu_organization_id (command_user x) \<noteq> us_organization_id u"
  shows "u \<in> set (id_users (serve (run_users c) cmds s))
    \<and> get_user_permissions (us_id u) (serve (run_users c) cmds s) = get_user_permissions (us_id u) s
    \<and> get_user_branch_ids (us_id u) (serve (run_users c) cmds s) = get_user_branch_ids (us_id u) s"
  using tenants.serve_keeps [where u = u and c = c and xs = cmds and s = s and sa = s] assms unfolding tenant_untouched_def by simp

section \<open>Provisioning\<close>

text \<open>
  C36: A provisioned organization works. Provisioning succeeds for every name and password and creates
  the organization with one branch, its default roles with exactly the permissions the specification
  lists, and an active owner whose session will carry every permission of the catalogue and that
  branch; what the roles of existing users grant does not change.
\<close>

theorem provision_correct:
  assumes "identity_ok (db_identity s)" "\<forall>u \<in> set (id_users (db_identity s)). us_organization_id u < db_next s"
  shows "\<exists>r t. provision c a s = Inr (r, t) \<and> identity_ok (db_identity t)
    \<and> db_organizations t = db_organizations s @ [vr_organization r] \<and> og_id (vr_organization r) = db_next s
    \<and> db_branches t = db_branches s @ [vr_branch r] \<and> br_organization_id (vr_branch r) = db_next s
    \<and> us_organization_id (vr_owner r) = db_next s \<and> us_is_owner (vr_owner r)
    \<and> id_users (db_identity t) = id_users (db_identity s) @ [vr_owner r]
    \<and> get_user_permissions (us_id (vr_owner r)) (db_identity t) = sort ALL_PERMISSION_CODES
    \<and> get_user_branch_ids (us_id (vr_owner r)) (db_identity t) = [br_id (vr_branch r)]
    \<and> list_all2 (\<lambda>spec role. ro_organization_id role = db_next s \<and> ro_code role = rs_code spec
          \<and> role_codes (ro_id role) (db_identity t) = rs_permissions spec) DEFAULT_ROLES (vr_roles r)
    \<and> (\<forall>u \<in> set (id_users (db_identity s)).
          get_user_permissions (us_id u) (db_identity t) = get_user_permissions (us_id u) (db_identity s))"
proof -
  have "\<forall>u \<in> set (id_users (db_identity s)). us_organization_id u \<noteq> db_next s" using assms(2) by auto
  from provision_identity_works [OF assms(1) this, of c a "Suc (db_next s)"]
  obtain owner roles i where i: "provision_identity c a (db_next s) (Suc (db_next s)) (ensure_permissions (db_identity s)) = Inr ((owner, roles), i)"
    "identity_ok i" "us_organization_id owner = db_next s" "us_is_owner owner"
    "get_user_permissions (us_id owner) i = sort ALL_PERMISSION_CODES" "get_user_branch_ids (us_id owner) i = [Suc (db_next s)]"
    "list_all2 (\<lambda>spec role. ro_organization_id role = db_next s \<and> ro_code role = rs_code spec
          \<and> role_codes (ro_id role) i = rs_permissions spec) DEFAULT_ROLES roles"
    "\<forall>k < id_next (db_identity s). get_user_permissions k i = get_user_permissions k (db_identity s)"
    "id_users i = id_users (db_identity s) @ [owner]"
    by blast
  then show ?thesis
    using assms(1) by (auto simp: provision_def Let_def identity_ok_def)
qed

section \<open>Examples\<close>

definition sample_provision :: provision_args where
  "sample_provision =
     \<lparr>vn_org_name = ''Agro Mart'', vn_owner_email = ''owner@shop.local'', vn_owner_password = ''monsoon1'',
      vn_owner_name = ''Meera'', vn_branch_name = ''Main Branch'', vn_branch_code = ''MAIN''\<rparr>"

definition sample_company :: identity where
  "sample_company = (case provision sample_crypto sample_provision (empty_database 0) of
     Inr (_, t) \<Rightarrow> db_identity t | _ \<Rightarrow> empty_identity)"

theorem provision_correct_witness:
  "\<exists>r t. provision sample_crypto sample_provision (empty_database 0) = Inr (r, t) \<and> identity_ok (db_identity t)
     \<and> get_user_permissions (us_id (vr_owner r)) (db_identity t) = sort ALL_PERMISSION_CODES"
  using provision_correct [of "empty_database 0" sample_crypto sample_provision]
  by (simp add: empty_database_def empty_identity_def identity_ok_def) blast

lemma sample_company_ok: "identity_ok sample_company"
  by code_simp

definition sample_admin :: "uuid \<Rightarrow> uuid \<Rightarrow> current_user" where
  "sample_admin organization_id user_id = \<lparr>cu_user_id = user_id, cu_organization_id = organization_id, cu_session_id = 0,
     cu_is_owner = False, cu_branch_ids = [], cu_permissions = [''user.manage'']\<rparr>"

definition deactivation :: update_user_request where
  "deactivation = \<lparr>wu_full_name = None, wu_is_active = Some False, wu_role_code = Some ''counter_sales'', wu_password = None\<rparr>"

definition sample_takeover :: "user_command list" where
  "sample_takeover =
     [PatchUser (sample_admin 0 25) 25 deactivation, PatchUser (sample_admin 0 9) 25 deactivation,
      PatchUser (sample_admin 3 9) 25 deactivation,
      PatchUser (sample_admin 0 9) 25 (deactivation\<lparr>wu_is_active := None, wu_password := Some ''stolen12''\<rparr>)]"

lemma sample_owner_row: "\<exists>u. id_users sample_company = [u] \<and> us_id u = 25 \<and> us_organization_id u = 0 \<and> us_is_owner u \<and> us_is_active u"
proof -
  have "(case id_users sample_company of [u] \<Rightarrow> us_id u = 25 \<and> us_organization_id u = 0 \<and> us_is_owner u \<and> us_is_active u | _ \<Rightarrow> False)"
    by code_simp
  then show ?thesis by (auto split: list.splits)
qed

theorem owner_accounts_survive_witness:
  "\<exists>v \<in> set (id_users (serve (run_users sample_crypto) sample_takeover sample_company)). us_id v = 25 \<and> us_is_active v"
proof -
  obtain u where u: "id_users sample_company = [u]" "us_id u = 25" "us_is_owner u" "us_is_active u"
    using sample_owner_row by blast
  then show ?thesis
    using owner_accounts_survive [OF sample_company_ok, of u sample_crypto sample_takeover] by auto
qed

theorem user_administration_stays_in_tenant_witness:
  "get_user_permissions 25 (serve (run_users sample_crypto) [PatchUser (sample_admin 3 9) 25 deactivation] sample_company)
   = get_user_permissions 25 sample_company"
proof -
  obtain u where u: "id_users sample_company = [u]" "us_id u = 25" "us_organization_id u = 0" using sample_owner_row by blast
  then show ?thesis
    using user_administration_stays_in_tenant [OF sample_company_ok, of u "[PatchUser (sample_admin 3 9) 25 deactivation]" sample_crypto]
    by (simp add: sample_admin_def)
qed

end
