(* ===== verification/Catalogue.thy ===== *)
theory Catalogue
  imports Store Listing
begin

text \<open>
  The catalogue and the customers, \<open>app/modules/catalogue/api.py\<close> and \<open>customers/api.py\<close>: products with
  their stock, categories, units, and customers with what they owe. Prices and limits are given at the
  scale of their columns.
\<close>

section \<open>Products\<close>

record product_out =
  po_product :: product
  po_category_name :: "string option"
  po_unit_code :: "string option"
  po_on_hand :: decimal

definition category_name :: "database \<Rightarrow> product \<Rightarrow> string option" where
  "category_name s p = map_option cg_name (first_row (\<lambda>c. cg_id c = pd_category_id p) (db_categories s))"

definition unit_code :: "database \<Rightarrow> product \<Rightarrow> string option" where
  "unit_code s p = map_option un_code (first_row (\<lambda>u. un_id u = pd_base_unit_id p) (db_units s))"

text \<open>The stock of a product over all warehouses: the list counts the balances of the organization only.\<close>

definition on_hand_in :: "uuid \<Rightarrow> uuid \<Rightarrow> database \<Rightarrow> decimal" where
  "on_hand_in organization_id product_id s =
     sum_rows (\<lambda>b. sb_organization_id b = organization_id \<and> sb_product_id b = product_id) sb_on_hand
       (iv_balances (db_inventory s))"

definition on_hand_total :: "uuid \<Rightarrow> database \<Rightarrow> decimal" where
  "on_hand_total product_id s = sum_rows (\<lambda>b. sb_product_id b = product_id) sb_on_hand (iv_balances (db_inventory s))"

record product_filter =
  pf_search :: "string option"
  pf_category_id :: "uuid option"
  pf_active_only :: bool

text \<open>\<open>NULL ILIKE pattern\<close> is not true, but an absent pattern filters nothing.\<close>

definition searched_opt :: "(string \<Rightarrow> string \<Rightarrow> bool) \<Rightarrow> string option \<Rightarrow> string option \<Rightarrow> bool" where
  "searched_opt ilike search field = (case field of None \<Rightarrow> searched (\<lambda>_ _. False) search [] | Some v \<Rightarrow> searched ilike search v)"

definition product_rows ::
  "(string \<Rightarrow> string \<Rightarrow> bool) \<Rightarrow> (string \<Rightarrow> string) \<Rightarrow> product_filter \<Rightarrow> uuid \<Rightarrow> database \<Rightarrow> product_out list" where
  "product_rows ilike collate f organization_id s =
     map (\<lambda>p. \<lparr>po_product = p, po_category_name = category_name s p, po_unit_code = unit_code s p,
              po_on_hand = on_hand_in organization_id (pd_id p) s\<rparr>)
       (sort_key (\<lambda>p. collate (pd_name p)) (filter (\<lambda>p. pd_organization_id p = organization_id
          \<and> (searched ilike (pf_search f) (pd_name p) \<or> searched ilike (pf_search f) (pd_sku p)
             \<or> searched_opt ilike (pf_search f) (pd_barcode p))
          \<and> given (pf_category_id f) (\<lambda>c. pd_category_id p = c) \<and> (pf_active_only f \<longrightarrow> pd_is_active p))
        (db_products s)))"

definition list_products ::
  "(string \<Rightarrow> string \<Rightarrow> bool) \<Rightarrow> (string \<Rightarrow> string) \<Rightarrow> current_user \<Rightarrow> product_filter \<Rightarrow> nat \<Rightarrow> nat \<Rightarrow> database
     \<Rightarrow> product_out page res" where
  "list_products ilike collate user f limit offset s =
     res_bind (require_permission ''product.view'' user) (\<lambda>user.
     Inr (page_of limit offset (product_rows ilike collate f (cu_organization_id user) s)))"

definition list_categories :: "(string \<Rightarrow> string) \<Rightarrow> current_user \<Rightarrow> database \<Rightarrow> category list res" where
  "list_categories collate user s =
     res_bind (require_permission ''product.view'' user) (\<lambda>user.
     Inr (sort_key (\<lambda>c. collate (cg_name c))
       (filter (\<lambda>c. cg_organization_id c = cu_organization_id user) (db_categories s))))"

definition list_units :: "(string \<Rightarrow> string) \<Rightarrow> current_user \<Rightarrow> database \<Rightarrow> measure_unit list" where
  "list_units collate user s =
     sort_key (\<lambda>u. collate (un_name u)) (filter (\<lambda>u. un_organization_id u = cu_organization_id user) (db_units s))"

definition show_product :: "current_user \<Rightarrow> uuid \<Rightarrow> database \<Rightarrow> product_out res" where
  "show_product user product_id s =
     res_bind (require_permission ''product.view'' user) (\<lambda>user.
     case first_row (\<lambda>p. pd_id p = product_id \<and> pd_organization_id p = cu_organization_id user) (db_products s) of
       None \<Rightarrow> Inl not_found
     | Some p \<Rightarrow> Inr \<lparr>po_product = p, po_category_name = category_name s p, po_unit_code = unit_code s p,
                      po_on_hand = on_hand_total product_id s\<rparr>)"

definition bare_product :: "product \<Rightarrow> product_out" where
  "bare_product p = \<lparr>po_product = p, po_category_name = None, po_unit_code = None, po_on_hand = 0\<rparr>"

record create_product_request =
  cp_name :: string
  cp_sku :: string
  cp_category_id :: uuid
  cp_base_unit_id :: uuid
  cp_barcode :: "string option"
  cp_hsn_code :: "string option"
  cp_retail_price :: decimal
  cp_wholesale_price :: decimal
  cp_mrp :: decimal
  cp_gst_rate :: decimal
  cp_min_stock :: decimal
  cp_tracks_batches :: bool
  cp_tracks_expiry :: bool

definition valid_product_request :: "create_product_request \<Rightarrow> bool" where
  "valid_product_request p \<longleftrightarrow> cp_name p \<noteq> [] \<and> cp_sku p \<noteq> [] \<and> 0 \<le> cp_retail_price p \<and> 0 \<le> cp_wholesale_price p
     \<and> 0 \<le> cp_mrp p \<and> 0 \<le> cp_gst_rate p \<and> cp_gst_rate p \<le> 100 \<and> 0 \<le> cp_min_stock p"

definition product_row :: "current_user \<Rightarrow> create_product_request \<Rightarrow> uuid \<Rightarrow> product" where
  "product_row user p i =
     \<lparr>pd_id = i, pd_organization_id = cu_organization_id user, pd_category_id = cp_category_id p, pd_brand_id = None,
      pd_base_unit_id = cp_base_unit_id p, pd_name = cp_name p, pd_sku = cp_sku p, pd_barcode = cp_barcode p,
      pd_hsn_code = cp_hsn_code p, pd_gst_rate = cp_gst_rate p, pd_mrp = cp_mrp p,
      pd_retail_price = cp_retail_price p, pd_wholesale_price = cp_wholesale_price p,
      pd_tracks_batches = cp_tracks_batches p, pd_tracks_serials = False, pd_tracks_expiry = cp_tracks_expiry p,
      pd_min_stock = cp_min_stock p, pd_is_active = True\<rparr>"

definition create_product ::
  "current_user \<Rightarrow> create_product_request \<Rightarrow> database \<Rightarrow> (product_out \<times> database) res" where
  "create_product user payload s =
     res_bind (require_permission ''product.create'' user) (\<lambda>user.
     if \<exists>p \<in> set (db_products s). pd_organization_id p = cu_organization_id user \<and> pd_sku p = cp_sku payload
     then Inl conflict
     else let p = product_row user payload (db_next s)
          in Inr (bare_product p, s\<lparr>db_products := db_products s @ [p], db_next := Suc (db_next s)\<rparr>))"

record update_product_request =
  ud_name :: "string option option"
  ud_barcode :: "string option option"
  ud_hsn_code :: "string option option"
  ud_retail_price :: "decimal option option"
  ud_wholesale_price :: "decimal option option"
  ud_mrp :: "decimal option option"
  ud_gst_rate :: "decimal option option"
  ud_min_stock :: "decimal option option"
  ud_is_active :: "bool option option"

definition nonneg_field :: "decimal option option \<Rightarrow> bool" where
  "nonneg_field f = (case f of Some (Some v) \<Rightarrow> 0 \<le> v | _ \<Rightarrow> True)"

definition valid_product_update :: "update_product_request \<Rightarrow> bool" where
  "valid_product_update p \<longleftrightarrow> nonneg_field (ud_retail_price p) \<and> nonneg_field (ud_wholesale_price p)
     \<and> nonneg_field (ud_mrp p) \<and> nonneg_field (ud_gst_rate p) \<and> nonneg_field (ud_min_stock p)
     \<and> (case ud_gst_rate p of Some (Some v) \<Rightarrow> v \<le> 100 | _ \<Rightarrow> True)
     \<and> (case ud_name p of Some (Some v) \<Rightarrow> v \<noteq> [] | _ \<Rightarrow> True)"

definition patched_product :: "update_product_request \<Rightarrow> product \<Rightarrow> product res" where
  "patched_product f p =
     res_bind (set_required (ud_name f) (pd_name p)) (\<lambda>name.
     res_bind (set_required (ud_retail_price f) (pd_retail_price p)) (\<lambda>retail.
     res_bind (set_required (ud_wholesale_price f) (pd_wholesale_price p)) (\<lambda>wholesale.
     res_bind (set_required (ud_mrp f) (pd_mrp p)) (\<lambda>mrp.
     res_bind (set_required (ud_gst_rate f) (pd_gst_rate p)) (\<lambda>gst.
     res_bind (set_required (ud_min_stock f) (pd_min_stock p)) (\<lambda>min_stock.
     res_bind (set_required (ud_is_active f) (pd_is_active p)) (\<lambda>active.
     Inr (p\<lparr>pd_name := name, pd_barcode := set_optional (ud_barcode f) (pd_barcode p),
            pd_hsn_code := set_optional (ud_hsn_code f) (pd_hsn_code p), pd_retail_price := retail,
            pd_wholesale_price := wholesale, pd_mrp := mrp, pd_gst_rate := gst, pd_min_stock := min_stock,
            pd_is_active := active\<rparr>))))))))"

definition update_product ::
  "current_user \<Rightarrow> uuid \<Rightarrow> update_product_request \<Rightarrow> database \<Rightarrow> (product_out \<times> database) res" where
  "update_product user product_id payload s =
     res_bind (require_permission ''product.update'' user) (\<lambda>user.
     case get_product product_id (db_products s) of
       None \<Rightarrow> Inl not_found
     | Some p \<Rightarrow>
     if pd_organization_id p \<noteq> cu_organization_id user then Inl not_found
     else res_bind (patched_product payload p) (\<lambda>p'.
       Inr (bare_product p', s\<lparr>db_products := upd_first (\<lambda>q. pd_id q = product_id) (\<lambda>_. p') (db_products s)\<rparr>)))"

section \<open>Customers\<close>

record customer_out =
  cx_customer :: customer
  cx_outstanding :: decimal
  cx_available_credit :: decimal

definition to_customer_out :: "customer \<Rightarrow> decimal \<Rightarrow> customer_out" where
  "to_customer_out c outstanding =
     \<lparr>cx_customer = c, cx_outstanding = outstanding, cx_available_credit = cs_credit_limit c - outstanding\<rparr>"

definition list_customers ::
  "(string \<Rightarrow> string \<Rightarrow> bool) \<Rightarrow> (string \<Rightarrow> string) \<Rightarrow> current_user \<Rightarrow> string option \<Rightarrow> database \<Rightarrow> customer_out list res" where
  "list_customers ilike collate user search s =
     res_bind (require_permission ''customer.view'' user) (\<lambda>user.
     Inr (map (\<lambda>c. to_customer_out c (customer_outstanding (cs_id c) s))
       (sort_key (\<lambda>c. collate (cs_name c)) (filter (\<lambda>c. cs_organization_id c = cu_organization_id user
          \<and> (searched ilike search (cs_name c) \<or> searched ilike search (cs_code c)
             \<or> searched_opt ilike search (cs_phone c))) (db_customers s)))))"

definition show_customer :: "current_user \<Rightarrow> uuid \<Rightarrow> database \<Rightarrow> customer_out res" where
  "show_customer user customer_id s =
     res_bind (require_permission ''customer.view'' user) (\<lambda>user.
     case get_customer customer_id s of
       None \<Rightarrow> Inl not_found
     | Some c \<Rightarrow>
     if cs_organization_id c \<noteq> cu_organization_id user then Inl not_found
     else Inr (to_customer_out c (customer_outstanding customer_id s)))"

record create_customer_request =
  cc_code :: string
  cc_name :: string
  cc_customer_type :: customer_type
  cc_phone :: "string option"
  cc_gstin :: "string option"
  cc_address :: "string option"
  cc_village :: "string option"
  cc_credit_limit :: decimal
  cc_credit_period_days :: int

definition create_customer ::
  "current_user \<Rightarrow> create_customer_request \<Rightarrow> database \<Rightarrow> (customer_out \<times> database) res" where
  "create_customer user payload s =
     res_bind (require_permission ''customer.create'' user) (\<lambda>user.
     if \<exists>c \<in> set (db_customers s). cs_organization_id c = cu_organization_id user \<and> cs_code c = cc_code payload
     then Inl conflict
     else let c =
            \<lparr>cs_id = db_next s, cs_organization_id = cu_organization_id user, cs_code = cc_code payload,
             cs_name = cc_name payload, cs_customer_type = cc_customer_type payload, cs_phone = cc_phone payload,
             cs_gstin = cc_gstin payload, cs_address = cc_address payload, cs_village = cc_village payload,
             cs_credit_limit = cc_credit_limit payload, cs_credit_period_days = cc_credit_period_days payload,
             cs_opening_balance = 0, cs_is_active = True\<rparr>
          in Inr (to_customer_out c 0, s\<lparr>db_customers := db_customers s @ [c], db_next := Suc (db_next s)\<rparr>))"

record update_customer_request =
  uc_name :: "string option option"
  uc_customer_type :: "customer_type option option"
  uc_phone :: "string option option"
  uc_gstin :: "string option option"
  uc_address :: "string option option"
  uc_village :: "string option option"
  uc_credit_limit :: "decimal option option"
  uc_credit_period_days :: "int option option"
  uc_is_active :: "bool option option"

definition patched_customer :: "update_customer_request \<Rightarrow> customer \<Rightarrow> customer res" where
  "patched_customer f c =
     res_bind (set_required (uc_name f) (cs_name c)) (\<lambda>name.
     res_bind (set_required (uc_customer_type f) (cs_customer_type c)) (\<lambda>kind.
     res_bind (set_required (uc_credit_limit f) (cs_credit_limit c)) (\<lambda>limit.
     res_bind (set_required (uc_credit_period_days f) (cs_credit_period_days c)) (\<lambda>days.
     res_bind (set_required (uc_is_active f) (cs_is_active c)) (\<lambda>active.
     Inr (c\<lparr>cs_name := name, cs_customer_type := kind, cs_phone := set_optional (uc_phone f) (cs_phone c),
            cs_gstin := set_optional (uc_gstin f) (cs_gstin c), cs_address := set_optional (uc_address f) (cs_address c),
            cs_village := set_optional (uc_village f) (cs_village c), cs_credit_limit := limit,
            cs_credit_period_days := days, cs_is_active := active\<rparr>))))))"

definition update_customer ::
  "current_user \<Rightarrow> uuid \<Rightarrow> update_customer_request \<Rightarrow> database \<Rightarrow> (customer_out \<times> database) res" where
  "update_customer user customer_id payload s =
     res_bind (require_permission ''customer.create'' user) (\<lambda>user.
     case get_customer customer_id s of
       None \<Rightarrow> Inl not_found
     | Some c \<Rightarrow>
     if cs_organization_id c \<noteq> cu_organization_id user then Inl not_found
     else res_bind (patched_customer payload c) (\<lambda>c'.
       Inr (to_customer_out c' (customer_outstanding customer_id s),
            s\<lparr>db_customers := upd_first (\<lambda>d. cs_id d = customer_id) (\<lambda>_. c') (db_customers s)\<rparr>)))"

section \<open>Prices stay admissible\<close>

lemma create_product_keeps:
  assumes "create_product user p s = Inr (r, t)" "valid_product_request p" "catalogue_ok (db_products s)"
  shows "catalogue_ok (db_products t)"
  using assms
  by (auto simp: create_product_def catalogue_ok_def product_row_def valid_product_request_def Let_def split: if_splits)

lemma patched_product_ok:
  assumes "patched_product f p = Inr q"
  shows "set_required (ud_retail_price f) (pd_retail_price p) = Inr (pd_retail_price q)"
    "set_required (ud_wholesale_price f) (pd_wholesale_price p) = Inr (pd_wholesale_price q)"
    "set_required (ud_mrp f) (pd_mrp p) = Inr (pd_mrp q)" "pd_id q = pd_id p"
    "pd_organization_id q = pd_organization_id p" "pd_sku q = pd_sku p"
  using assms by (auto simp: patched_product_def)

lemma nonneg_field_ok: "set_required f old = Inr v \<Longrightarrow> nonneg_field f \<Longrightarrow> 0 \<le> old \<Longrightarrow> (0 :: decimal) \<le> v"
  by (auto simp: set_required_ok nonneg_field_def)

lemma update_product_keeps:
  assumes "update_product user i f s = Inr (r, t)" "valid_product_update f" "catalogue_ok (db_products s)"
  shows "catalogue_ok (db_products t)"
proof -
  obtain p q where p: "get_product i (db_products s) = Some p" "patched_product f p = Inr q"
      "t = s\<lparr>db_products := upd_first (\<lambda>q. pd_id q = i) (\<lambda>_. q) (db_products s)\<rparr>"
    using assms(1) by (auto simp: update_product_def split: option.splits if_splits)
  have "0 \<le> pd_retail_price p \<and> 0 \<le> pd_mrp p \<and> 0 \<le> pd_wholesale_price p"
    using assms(3) get_product_in [OF p(1)] by (simp add: catalogue_ok_def)
  then have "0 \<le> pd_retail_price q \<and> 0 \<le> pd_mrp q \<and> 0 \<le> pd_wholesale_price q"
    using patched_product_ok(1-3) [OF p(2)] nonneg_field_ok assms(2) unfolding valid_product_update_def by metis
  then show ?thesis using assms(3) by (auto simp: p(3) catalogue_ok_def dest!: set_upd_first)
qed

end
