(* ===== verification/Program.thy ===== *)
theory Program
  imports Fulfilment ServiceJobs Users Catalogue
begin

text \<open>
  The program as a whole: one command for every endpoint that writes to the business tables, the
  handler that runs it at the time of the request, and the invariants that every history of requests
  keeps, accepted or refused, in any order. The clients' current users are those that
  \<open>get_current_user\<close> resolved.
\<close>

section \<open>The requests\<close>

datatype command =
    Sell date current_user "string option" create_invoice_request
  | Order date current_user create_order_request
  | Dispatch date current_user uuid
  | Collect current_user receive_payment_request
  | ReceiveGoods current_user goods_receipt_request
  | Workshop workshop_command
  | Correct current_user adjustment_request
  | Move current_user transfer_request
  | NewSupplier current_user create_supplier_request
  | NewProduct current_user create_product_request
  | EditProduct current_user uuid update_product_request
  | NewCustomer current_user create_customer_request
  | EditCustomer current_user uuid update_customer_request
  | NewBranch current_user create_branch_request
  | NewWarehouse current_user create_warehouse_request
  | EditProfile current_user update_organization_request
  | Administer user_command

definition on_identity :: "(identity \<Rightarrow> ('a \<times> identity) res) \<Rightarrow> database \<Rightarrow> ('a \<times> database) res" where
  "on_identity f s = res_bind (f (db_identity s)) (\<lambda>(a, i). Inr (a, s\<lparr>db_identity := i\<rparr>))"

fun run_command :: "crypto \<Rightarrow> command \<Rightarrow> database \<Rightarrow> (unit \<times> database) res" where
  "run_command c (Sell day user key p) s = silent (create_invoice day user key p s)"
| "run_command c (Order day user p) s = silent (post_order day user p s)"
| "run_command c (Dispatch day user i) s = silent (dispatch_order day user i s)"
| "run_command c (Collect user p) s = silent (post_payment user p s)"
| "run_command c (ReceiveGoods user p) s = silent (create_goods_receipt user p s)"
| "run_command c (Workshop w) s = run_workshop w s"
| "run_command c (Correct user p) s = silent (on_inventory (create_adjustment user p) s)"
| "run_command c (Move user p) s = silent (on_inventory (create_transfer user p) s)"
| "run_command c (NewSupplier user p) s = silent (create_supplier user p s)"
| "run_command c (NewProduct user p) s = silent (create_product user p s)"
| "run_command c (EditProduct user i p) s = silent (update_product user i p s)"
| "run_command c (NewCustomer user p) s = silent (create_customer user p s)"
| "run_command c (EditCustomer user i p) s = silent (update_customer user i p s)"
| "run_command c (NewBranch user p) s = silent (create_branch user p s)"
| "run_command c (NewWarehouse user p) s = silent (create_warehouse user p s)"
| "run_command c (EditProfile user p) s = silent (update_profile user p s)"
| "run_command c (Administer u) s = silent (on_identity (run_users c u) s)"

text \<open>A request carries the time at which it arrives; the clock is otherwise not part of the state.\<close>

definition at_time :: "timestamp \<Rightarrow> database \<Rightarrow> database" where
  "at_time now s = s\<lparr>db_inventory := (db_inventory s)\<lparr>iv_now := now\<rparr>\<rparr>"

definition execute :: "crypto \<Rightarrow> timestamp \<times> command \<Rightarrow> database \<Rightarrow> (unit \<times> database) res" where
  "execute c r s = run_command c (snd r) (at_time (fst r) s)"

text \<open>
  What the schemas guarantee of a body before its handler runs, and that counter payments are in
  whole paise, which they do not check.
\<close>

fun admissible :: "command \<Rightarrow> bool" where
  "admissible (Sell day user key p) \<longleftrightarrow> payments_ok (ci_payments p)"
| "admissible (NewProduct user p) \<longleftrightarrow> valid_product_request p"
| "admissible (EditProduct user i p) \<longleftrightarrow> valid_product_update p"
| "admissible _ \<longleftrightarrow> True"

fun is_transfer :: "command \<Rightarrow> bool" where
  "is_transfer (Move user p) \<longleftrightarrow> True"
| "is_transfer _ \<longleftrightarrow> False"

section \<open>Frames\<close>

text \<open>The tables that the sales invariants read, apart from the stock tables and the catalogue.\<close>

definition sales_tables where
  "sales_tables s = ((db_invoices s, db_invoice_items s, db_payments s, db_payment_allocations s),
     (db_orders s, db_order_items s), (db_books s, db_idempotency s))"

lemma database_ok_frame:
  assumes "database_ok s" "sales_tables t = sales_tables s" "db_next s \<le> db_next t"
    and "ledger_ok (db_inventory t)" "catalogue_ok (db_products t)"
  shows "database_ok t"
proof -
  have f: "db_invoices t = db_invoices s" "db_payments t = db_payments s"
      "db_payment_allocations t = db_payment_allocations s" "db_orders t = db_orders s"
      "db_order_items t = db_order_items s" "db_books t = db_books s"
    using assms(2) by (simp_all add: sales_tables_def)
  have "ids_ok t"
    using assms(1,3) by (auto simp: database_ok_def ids_ok_def f intro: less_le_trans)
  then show ?thesis using assms(1,4,5) by (simp add: database_ok_def receivables_agree_def f)
qed

lemma fulfilment_ok_frame:
  assumes "fulfilment_ok s" "db_orders t = db_orders s" "db_order_items t = db_order_items s"
    and "reserved_ok (db_inventory t)"
    and "\<And>w p. reservations_of (db_inventory t) w p = reservations_of (db_inventory s) w p"
  shows "fulfilment_ok t"
  using assms by (simp add: fulfilment_ok_def reserved_for_def)

lemma jobs_ok_frame:
  assumes "jobs_ok s" "db_repair_jobs t = db_repair_jobs s" "db_repair_job_parts t = db_repair_job_parts s"
    and "db_next s \<le> db_next t"
  shows "jobs_ok t"
  using assms by (auto simp: jobs_ok_def intro: less_le_trans)

section \<open>Requests beside the sales documents\<close>

text \<open>
  What a request does that writes none of the sales tables; \<open>b\<close> tells whether it respects the
  reservations of stock, as every one but a transfer does.
\<close>

definition beside_sales :: "bool \<Rightarrow> database \<Rightarrow> database \<Rightarrow> bool" where
  "beside_sales b s t \<longleftrightarrow>
     sales_tables t = sales_tables s \<and> db_next s \<le> db_next t
     \<and> (catalogue_ok (db_products s) \<longrightarrow> catalogue_ok (db_products t))
     \<and> (ledger_ok (db_inventory s) \<longrightarrow> ledger_ok (db_inventory t)
        \<and> (b \<longrightarrow> (reserved_ok (db_inventory s) \<longrightarrow> reserved_ok (db_inventory t))
             \<and> (\<forall>w p. reservations_of (db_inventory t) w p = reservations_of (db_inventory s) w p)))"

lemma beside_sales_keeps:
  assumes "beside_sales b s t" "database_ok s"
  shows "database_ok t" "b \<Longrightarrow> fulfilment_ok s \<Longrightarrow> fulfilment_ok t"
proof -
  show "database_ok t"
    by (rule database_ok_frame [OF assms(2)]) (use assms in \<open>auto simp: beside_sales_def database_ok_def\<close>)
  show "fulfilment_ok t" if "b" "fulfilment_ok s"
    by (rule fulfilment_ok_frame [OF that(2)])
      (use assms that in \<open>auto simp: beside_sales_def database_ok_def sales_tables_def fulfilment_ok_def\<close>)
qed

lemma beside_sales_stock:
  assumes "t = s\<lparr>db_inventory := v\<rparr>" "ledger_ok (db_inventory s) \<Longrightarrow> ledger_ok v"
    and "\<And>w p. b \<Longrightarrow> ledger_ok (db_inventory s) \<Longrightarrow> (reserved_ok (db_inventory s) \<longrightarrow> reserved_ok v)
      \<and> reservations_of v w p = reservations_of (db_inventory s) w p"
  shows "beside_sales b s t"
  using assms by (simp add: beside_sales_def sales_tables_def)

lemma receive_goods_beside:
  assumes "receive_goods a s = Inr (r, t)"
  shows "beside_sales True s t" "db_repair_jobs t = db_repair_jobs s" "db_repair_job_parts t = db_repair_job_parts s"
  using assms
proof (atomize (full), cases rule: receive_goods_cases)
  case (1 number q landed charges xs items v es)
  have f: "db_inventory t = v" "db_products t = db_products s" "sales_tables t = sales_tables s" "db_next t = Suc (db_next s)"
    "db_repair_jobs t = db_repair_jobs s" "db_repair_job_parts t = db_repair_job_parts s"
    by (simp_all add: 1(9) refresh_po_status_def sales_tables_def Let_def split: option.split)
  then show "beside_sales True s t \<and> db_repair_jobs t = db_repair_jobs s \<and> db_repair_job_parts t = db_repair_job_parts s"
    using receive_stocks_keep [OF 1(4)] by (simp add: beside_sales_def)
qed

text \<open>The parts of a job leave stock like a sale and come back like a receipt.\<close>

lemma consume_part_beside:
  assumes "consume_part a s = Inr (r, t)"
  shows "beside_sales True s t"
  using assms
proof (cases rule: consume_part_cases)
  case (1 job product moves v)
  have "movement_direction (is_movement_type (part_issue a job)) = - 1"
    by (simp add: part_issue_def movement_direction_def INBOUND_TYPES_def OUTBOUND_TYPES_def)
  from issue_keeps [OF _ _ this] 1 show ?thesis
    by (simp add: beside_sales_def sales_tables_def)
qed

lemma return_part_beside:
  assumes "return_part org i by s = Inr (u, t)"
  shows "beside_sales True s t"
  using assms
proof (cases rule: return_part_cases)
  case (1 part job x v)
  let ?m = "return_movement org job part by"
  have d: "0 < rt_base_quantity part" "pm_base_quantity x = rt_base_quantity part"
    using 1(5) by (auto simp: movement_delta_def return_movement_def required_args_def movement_direction_def
        INBOUND_TYPES_def Let_def split: if_splits elim!: post_movement_effect)
  have "ledger_ok v \<and> (reserved_ok (db_inventory s) \<longrightarrow> reserved_ok v)" if "ledger_ok (db_inventory s)"
    using post_movement_ledger_ok [OF 1(5) that] post_movement_reserved_ok [OF 1(5) _ ledger_ok_unique [OF that]] d by simp
  then show ?thesis
    using 1(6) post_movement_on_hand(4) [OF 1(5)] by (simp add: beside_sales_def sales_tables_def)
qed

lemma create_job_beside: "create_job a s = Inr (j, t) \<Longrightarrow> beside_sales True s t"
  using issue_number_ok
  by (fastforce simp: create_job_def insert_job_def beside_sales_def sales_tables_def Let_def split: prod.splits if_splits)

lemma run_workshop_beside: "run_workshop w s = Inr (u, t) \<Longrightarrow> beside_sales True s t"
  by (cases w)
    (auto simp: silent_ok post_job_def post_part_def post_return_def complete_job_def update_status_def
      set_labour_and_complete_def update_job_def beside_sales_def [of True s "s\<lparr>db_repair_jobs := _\<rparr>"] sales_tables_def
      dest: create_job_beside consume_part_beside return_part_beside split: if_splits)

lemma correction_beside:
  assumes "on_inventory (create_adjustment user p) s = Inr (r, t)"
  shows "beside_sales True s t"
proof -
  obtain v where v: "create_adjustment user p (db_inventory s) = Inr (r, v)" "t = s\<lparr>db_inventory := v\<rparr>"
    using assms by (auto simp: on_inventory_ok)
  then obtain a ps where a: "adjust a (db_inventory s) = Inr (ps, v)" "aj_movement_type a = aq_movement_type p"
      "aq_movement_type p \<in> ADJUSTMENT_TYPES"
    by (metis create_adjustment_ok surj_pair)
  then show ?thesis
    using adjust_effect [OF a(1)] adjustment_direction by (intro beside_sales_stock [OF v(2)]) auto
qed

lemma transfer_beside: "on_inventory (create_transfer user p) s = Inr (r, t) \<Longrightarrow> beside_sales False s t"
  using run_inventory_ledger_ok [where c = "Transfer user p"]
  by (auto simp: on_inventory_ok intro!: beside_sales_stock)

text \<open>The catalogue, the customers, the organization and its users.\<close>

lemma product_beside:
  "create_product user p s = Inr (r, t) \<Longrightarrow> valid_product_request p \<Longrightarrow> beside_sales True s t"
  "update_product user i q s = Inr (r, t) \<Longrightarrow> valid_product_update q \<Longrightarrow> beside_sales True s t"
proof -
  assume *: "create_product user p s = Inr (r, t)" "valid_product_request p"
  then show "beside_sales True s t"
    using create_product_keeps [OF *]
    by (auto simp: create_product_def Let_def beside_sales_def sales_tables_def split: if_splits)
next
  assume *: "update_product user i q s = Inr (r, t)" "valid_product_update q"
  then show "beside_sales True s t"
    using update_product_keeps [OF *]
    by (auto simp: update_product_def beside_sales_def sales_tables_def split: option.splits if_splits)
qed

lemma master_data_beside:
  "create_supplier user v s = Inr (r1, t) \<Longrightarrow> beside_sales True s t"
  "create_customer user c s = Inr (r2, t) \<Longrightarrow> beside_sales True s t"
  "update_customer user i uc s = Inr (r3, t) \<Longrightarrow> beside_sales True s t"
  "create_branch user b s = Inr (r4, t) \<Longrightarrow> beside_sales True s t"
  "create_warehouse user w s = Inr (r5, t) \<Longrightarrow> beside_sales True s t"
  "update_profile user o' s = Inr (r6, t) \<Longrightarrow> beside_sales True s t"
  "on_identity f s = Inr (r7, t) \<Longrightarrow> beside_sales True s t"
  by (auto simp: create_supplier_def create_customer_def update_customer_def create_branch_def create_warehouse_def
      update_profile_def on_identity_def beside_sales_def sales_tables_def Let_def split: option.splits if_splits)

fun is_sales :: "command \<Rightarrow> bool" where
  "is_sales (Sell day user key p) \<longleftrightarrow> True"
| "is_sales (Order day user p) \<longleftrightarrow> True"
| "is_sales (Dispatch day user i) \<longleftrightarrow> True"
| "is_sales (Collect user p) \<longleftrightarrow> True"
| "is_sales _ \<longleftrightarrow> False"

lemma other_commands_beside:
  assumes "run_command c x s = Inr (u, t)" "\<not> is_sales x" "admissible x"
  shows "beside_sales (\<not> is_transfer x) s t"
  using assms
  by (cases x)
    (auto simp: silent_ok create_goods_receipt_def
      dest: run_workshop_beside correction_beside transfer_beside product_beside master_data_beside receive_goods_beside)

section \<open>The sales documents\<close>

lemma create_invoice_ok:
  assumes "create_invoice day user key p s = Inr (r, t)"
  obtains a where "create_retail_invoice a s = Inr (r, t)" "rs_payments a = ci_payments p" "rs_lines a = ci_lines p"
    "rs_organization_id a = cu_organization_id user" "rs_warehouse_id a = ci_warehouse_id p" "rs_as_of a = Some day"
    "rs_customer_id a = ci_customer_id p" "rs_idempotency_key a = key" "rs_branch_id a = default_branch_id user"
    "rs_invoice_date a = today s" "has_permission user ''sales.create''"
  using assms by (auto simp: create_invoice_def)

lemma sales_commands_keep:
  assumes "run_command c x s = Inr (u, t)" "is_sales x" "admissible x" "database_ok s"
  shows "database_ok t" "fulfilment_ok s \<Longrightarrow> fulfilment_ok t"
proof -
  show "database_ok t"
    using assms
    by (cases x) (auto simp: silent_ok post_order_def dispatch_order_def post_payment_def
        elim!: create_invoice_ok intro: sale_keeps order_keeps dispatch_keeps receipt_keeps)
  show "fulfilment_ok t" if "fulfilment_ok s"
    using assms that
    by (cases x) (auto simp: silent_ok post_order_def dispatch_order_def post_payment_def
        elim!: create_invoice_ok intro: sale_fulfils order_fulfils dispatch_fulfils receipt_fulfils)
qed

lemma at_time_keeps [simp]:
  "database_ok (at_time now s) \<longleftrightarrow> database_ok s" "fulfilment_ok (at_time now s) \<longleftrightarrow> fulfilment_ok s"
  "jobs_ok (at_time now s) \<longleftrightarrow> jobs_ok s"
proof -
  have l: "ledger_ok (v\<lparr>iv_now := now\<rparr>) = ledger_ok v" "reserved_ok (v\<lparr>iv_now := now\<rparr>) = reserved_ok v"
    "reservations_of (v\<lparr>iv_now := now\<rparr>) w p = reservations_of v w p" for v w p
    by (simp_all add: ledger_ok_def keys_unique_def on_hand_of_def ledger_of_def reserved_ok_def reservations_of_def)
  show "database_ok (at_time now s) \<longleftrightarrow> database_ok s" "fulfilment_ok (at_time now s) \<longleftrightarrow> fulfilment_ok s"
    "jobs_ok (at_time now s) \<longleftrightarrow> jobs_ok s"
    by (simp_all add: database_ok_def ids_ok_def receivables_agree_def fulfilment_ok_def reserved_for_def jobs_ok_def
        at_time_def l)
qed

lemma execute_keeps:
  assumes "execute c r s = Inr (u, t)" "admissible (snd r)" "database_ok s"
  shows "database_ok t" "\<not> is_transfer (snd r) \<Longrightarrow> fulfilment_ok s \<Longrightarrow> fulfilment_ok t"
proof -
  have run: "run_command c (snd r) (at_time (fst r) s) = Inr (u, t)" and ok: "database_ok (at_time (fst r) s)"
    using assms by (simp_all add: execute_def)
  show "database_ok t"
    using sales_commands_keep(1) [OF run _ assms(2) ok]
      beside_sales_keeps(1) [OF other_commands_beside [OF run _ assms(2)] ok] by blast
  show "fulfilment_ok t" if "\<not> is_transfer (snd r)" "fulfilment_ok s"
    using sales_commands_keep(2) [OF run _ assms(2) ok]
      beside_sales_keeps(2) [OF other_commands_beside [OF run _ assms(2)] ok] that by auto
qed

interpretation trade: handler_contract database_ok "\<lambda>r. admissible (snd r)" "execute c" for c
  by unfold_locales (rule execute_keeps(1))

interpretation fulfilment: handler_contract "\<lambda>s. database_ok s \<and> fulfilment_ok s"
  "\<lambda>r. admissible (snd r) \<and> \<not> is_transfer (snd r)" "execute c" for c
  by unfold_locales (auto dest: execute_keeps)

section \<open>The workshop\<close>

definition beside_workshop :: "database \<Rightarrow> database \<Rightarrow> bool" where
  "beside_workshop s t \<longleftrightarrow>
     db_repair_jobs t = db_repair_jobs s \<and> db_repair_job_parts t = db_repair_job_parts s \<and> db_next s \<le> db_next t"

lemma sale_beside_workshop:
  assumes "create_retail_invoice a s = Inr (r, t)" "database_ok s"
  shows "beside_workshop s t"
proof -
  have ids: "ids_ok s" using assms(2) by (simp add: database_ok_def)
  show ?thesis
    using assms(1) ids
  proof (cases rule: create_retail_invoice_cases)
    case (fresh products number q draft priced moves items paid invoice)
    show ?thesis unfolding beside_workshop_def by (subst fresh(17), simp)+
  qed (simp add: beside_workshop_def)
qed

lemma sales_beside_workshop:
  assumes "database_ok s"
  shows "create_order o' s = Inr (r1, t) \<Longrightarrow> beside_workshop s t"
    "dispatch_and_invoice d s = Inr (r2, t) \<Longrightarrow> beside_workshop s t"
    "receive_payment p s = Inr (r3, t) \<Longrightarrow> beside_workshop s t"
proof -
  have ids: "ids_ok s" and inv: "\<forall>v \<in> set (db_invoices s). invoice_ok v" using assms by (simp_all add: database_ok_def)
  show "beside_workshop s t" if "create_order o' s = Inr (r1, t)"
    by (rule create_order_cases [OF that ids]) (simp add: beside_workshop_def)
  show "beside_workshop s t" if "dispatch_and_invoice d s = Inr (r2, t)"
    by (rule dispatch_cases [OF that ids]) (simp add: beside_workshop_def)
  show "beside_workshop s t" if "receive_payment p s = Inr (r3, t)"
    by (rule receive_payment_cases [OF that ids inv]) (simp add: beside_workshop_def)
qed

lemma master_data_beside_workshop:
  "create_supplier user v s = Inr (r1, t) \<Longrightarrow> beside_workshop s t"
  "create_customer user c s = Inr (r2, t) \<Longrightarrow> beside_workshop s t"
  "update_customer user i uc s = Inr (r3, t) \<Longrightarrow> beside_workshop s t"
  "create_branch user b s = Inr (r4, t) \<Longrightarrow> beside_workshop s t"
  "create_warehouse user w s = Inr (r5, t) \<Longrightarrow> beside_workshop s t"
  "update_profile user o' s = Inr (r6, t) \<Longrightarrow> beside_workshop s t"
  "on_identity f s = Inr (r7, t) \<Longrightarrow> beside_workshop s t"
  "create_product user p s = Inr (r8, t) \<Longrightarrow> beside_workshop s t"
  "update_product user j up s = Inr (r8, t) \<Longrightarrow> beside_workshop s t"
  "on_inventory g s = Inr (r9, t) \<Longrightarrow> beside_workshop s t"
  by (auto simp: create_supplier_def create_customer_def update_customer_def create_branch_def create_warehouse_def
      update_profile_def on_identity_def beside_workshop_def create_product_def update_product_def on_inventory_def
      Let_def split: option.splits if_splits)

lemma receive_goods_beside_workshop: "receive_goods a s = Inr (r, t) \<Longrightarrow> beside_workshop s t"
  using receive_goods_beside [of a s r t] by (simp add: beside_workshop_def beside_sales_def)

lemma execute_keeps_jobs:
  assumes "execute c r s = Inr (u, t)" "database_ok s" "jobs_ok s"
  shows "jobs_ok t"
proof -
  have run: "run_command c (snd r) (at_time (fst r) s) = Inr (u, t)" and ok: "database_ok (at_time (fst r) s)"
    and jobs: "jobs_ok (at_time (fst r) s)"
    using assms by (simp_all add: execute_def)
  have "beside_workshop (at_time (fst r) s) t \<or> (\<exists>w. run_workshop w (at_time (fst r) s) = Inr (u, t))"
    using run
    by (cases "snd r")
      (auto simp: silent_ok create_invoice_def post_order_def dispatch_order_def post_payment_def create_goods_receipt_def
        intro: sale_beside_workshop [OF _ ok] sales_beside_workshop [OF ok] master_data_beside_workshop
          receive_goods_beside_workshop)
  then show ?thesis
    using run_workshop_keeps [OF _ jobs] jobs_ok_frame [OF jobs] by (auto simp: beside_workshop_def)
qed

interpretation whole: handler_contract "\<lambda>s. database_ok s \<and> jobs_ok s" "\<lambda>r. admissible (snd r)" "execute c" for c
  by unfold_locales (auto dest: execute_keeps execute_keeps_jobs)

section \<open>A shop that opens\<close>

text \<open>
  Before the first request: master data with prices that are not negative, and no document, payment,
  journal entry, stock or job.
\<close>

definition installed :: "database \<Rightarrow> bool" where
  "installed s \<longleftrightarrow>
     catalogue_ok (db_products s) \<and> db_inventory s = empty_inventory (iv_now (db_inventory s))
     \<and> db_invoices s = [] \<and> db_payments s = [] \<and> db_payment_allocations s = [] \<and> db_orders s = []
     \<and> db_invoice_items s = [] \<and> db_order_items s = [] \<and> db_books s = empty_books \<and> db_repair_jobs s = [] \<and> db_repair_job_parts s = []"

lemma installed_ok:
  assumes "installed s"
  shows "database_ok s" "fulfilment_ok s" "jobs_ok s"
proof -
  obtain now where i: "db_inventory s = empty_inventory now" using assms by (auto simp: installed_def)
  have "reservations_of (empty_inventory now) w p = 0" for w p
    by (simp add: reservations_of_def empty_inventory_def)
  then show "fulfilment_ok s"
    using assms empty_inventory_ok by (simp add: fulfilment_ok_def installed_def i reserved_for_def)
  show "jobs_ok s" using assms by (simp add: jobs_ok_def installed_def)
  show "database_ok s"
    using assms empty_inventory_ok empty_books_ok
    by (simp add: database_ok_def installed_def i ids_ok_def receivables_agree_def account_balance_def receivable_def
        unapplied_def empty_books_def)
qed

section \<open>What every history of requests keeps\<close>

text \<open>
  C3: The receivables account is what the customers owe. After any history of requests, accepted or
  refused, of any kind, time and order, the balance of every organization's receivables account equals
  what its invoices are short of, less the part of its payments that is not applied to an invoice.
\<close>

theorem receivables_reconcile:
  fixes c :: crypto
  assumes "installed s" "\<forall>r \<in> set rs. admissible (snd r)"
  defines "t \<equiv> serve (execute c) rs s"
  shows "account_balance org ''AR'' (db_books t)
    = (\<Sum>v\<leftarrow>filter (\<lambda>v. si_organization_id v = org) (db_invoices t). si_grand_total v - si_paid_amount v)
      - ((\<Sum>p\<leftarrow>filter (\<lambda>p. py_organization_id p = org) (db_payments t). py_amount p)
         - (\<Sum>l\<leftarrow>filter (\<lambda>l. \<exists>p \<in> set (db_payments t). py_id p = pl_payment_id l \<and> py_organization_id p = org)
              (db_payment_allocations t). pl_amount l))"
proof -
  have "database_ok t"
    unfolding t_def by (rule trade.serve_keeps [OF assms(2) installed_ok(1) [OF assms(1)]])
  then show ?thesis
    by (simp add: database_ok_def receivables_agree_def receivable_def unapplied_def sum_rows_def open_amount_def)
qed



section \<open>A day of trade\<close>

text \<open>
  Twelve units come in, a dealer orders five of them, five more and then one, each within the credit
  limit of 500; a request for twenty is refused and changes nothing; the first two orders are
  dispatched, and the dealer pays a part.
\<close>

definition sample_order :: "decimal \<Rightarrow> create_order_request" where
  "sample_order q =
     \<lparr>co_warehouse_id = 4, co_customer_id = 5,
      co_lines = [\<lparr>sl_product_id = 7, sl_base_quantity = q, sl_discount_percent = 0\<rparr>],
      co_is_quotation = False, co_credit_override_approved = False\<rparr>"

definition sample_trade :: "(timestamp \<times> command) list" where
  "sample_trade =
     [(600 * 86400, ReceiveGoods sample_clerk sample_receipt_request),
      (600 * 86400 + 60, Order 600 sample_clerk (sample_order 5)),
      (600 * 86400 + 120, Order 600 sample_clerk (sample_order 5)),
      (600 * 86400 + 150, Order 600 sample_clerk (sample_order 1)),
      (600 * 86400 + 180, Order 600 sample_clerk (sample_order 20)),
      (601 * 86400, Dispatch 601 sample_clerk 1), (601 * 86400 + 9, Dispatch 601 sample_clerk 2),
      (601 * 86400 + 60, Collect sample_clerk
        \<lparr>rp_customer_id = 5, rp_amount = 100, rp_method = UPI, rp_reference = None\<rparr>)]"

lemma sample_database_installed: "installed sample_database"
  by (simp add: installed_def sample_database_def empty_database_def empty_inventory_def catalogue_ok_def sample_product_def)

lemma sample_trade_admissible: "\<forall>r \<in> set sample_trade. admissible (snd r) \<and> \<not> is_transfer (snd r)"
  by (simp add: sample_trade_def)

text \<open>What the examples look at, evaluated once.\<close>

definition trade_summary where
  "trade_summary s =
     ((receivable 1 (db_invoices s), unapplied 1 (db_payments s) (db_payment_allocations s), reserved_for s 4 7),
      (map so_status (db_orders s), map si_payment_status (db_invoices s)),
      (customer_outstanding 5 s, map so_credit_override_approved (db_orders s)),
      map (\<lambda>v. (si_organization_id v, si_invoice_date v, si_subtotal v, si_tax_total v)) (db_invoices s),
      map (\<lambda>c. (cs_id c, cs_organization_id c, cs_opening_balance c)) (db_customers s))"

lemma traded:
  "trade_summary (serve (execute sample_crypto) sample_trade sample_database)
   = ((740, 0, 1), ([INVOICED, INVOICED, CONFIRMED], [PARTIAL, CREDIT]), (740, [False, False, False]),
      [(1, 601, 400, 20), (1, 601, 400, 20)], [(5, 1, 0)])"
  by code_simp

theorem receivables_reconcile_witness:
  "account_balance 1 ''AR'' (db_books (serve (execute sample_crypto) sample_trade sample_database)) = 740"
proof -
  have "\<forall>r \<in> set sample_trade. admissible (snd r)" using sample_trade_admissible by blast
  from receivables_reconcile [OF sample_database_installed this, where c = sample_crypto and org = 1] traded
  show ?thesis by (simp add: trade_summary_def receivable_def unapplied_def sum_rows_def open_amount_def)
qed



section \<open>A limit that open orders escape\<close>

text \<open>
  The credit limit of orders looks at invoices only. Orders that are confirmed and not yet invoiced
  are not counted, so a customer whose every order was within the limit and had no override can owe
  more than the limit once the orders are dispatched.
\<close>

theorem orders_escape_credit_limit:
  "\<exists>s rs c customer. installed s \<and> list_all (admissible \<circ> snd) rs \<and> get_customer 5 s = Some customer
     \<and> filter (\<lambda>v. so_customer_id v = 5 \<and> so_credit_override_approved v) (db_orders (serve (execute c) rs s)) = []
     \<and> 0 < cs_credit_limit customer
     \<and> cs_credit_limit customer < customer_outstanding 5 (serve (execute c) rs s)"
proof -
  have row: "get_customer 5 sample_database = Some sample_dealer" "cs_credit_limit sample_dealer = 500"
    by (simp_all add: get_customer_def sample_database_def sample_dealer_def)
  let ?t = "serve (execute sample_crypto) sample_trade sample_database"
  have t: "customer_outstanding 5 ?t = 740" "map so_credit_override_approved (db_orders ?t) = [False, False, False]"
    using traded by (simp_all add: trade_summary_def)
  have "\<not> so_credit_override_approved v" if "v \<in> set (db_orders ?t)" for v
  proof -
    have "so_credit_override_approved v \<in> set (map so_credit_override_approved (db_orders ?t))" using that by simp
    then show ?thesis unfolding t(2) by simp
  qed
  then show ?thesis
    using sample_database_installed sample_trade_admissible row t(1)
    by (intro exI [of _ sample_database] exI [of _ sample_trade] exI [of _ sample_crypto] exI [of _ sample_dealer])
      (auto simp: list_all_iff filter_empty_conv)
qed

end
