(* ===== verification/Documents.thy ===== *)
theory Documents
  imports Program
begin

text \<open>
  What one document does, from its guards to its last row: the counter sale and its quote, the
  order, its dispatch, and the customer's payment. The cases of each service method are in the
  theories of the services; here they are put together with the stock, the books and the receivables.
\<close>

section \<open>A counter sale\<close>

lemma map_pair_eq: "map f xs = map f' ys \<Longrightarrow> map g xs = map g' ys \<Longrightarrow> map (\<lambda>x. (f x, g x)) xs = map (\<lambda>y. (f' y, g' y)) ys"
proof (induction xs arbitrary: ys)
  case (Cons x xs)
  then show ?case by (cases ys) auto
qed simp

lemma priced_lines_exact:
  assumes "load_products org (map sl_product_id ls) s = Inr ps" "database_ok s" "list_all2 (priced_as ps) ls rs"
  shows "\<forall>r \<in> set rs. line_amounts_ok r" "Money (\<Sum>r\<leftarrow>rs. pr_total_amount r) = (\<Sum>r\<leftarrow>rs. pr_total_amount r)"
proof -
  have "catalogue_ok ps"
    by (rule load_products_catalogue [OF assms(1)]) (use assms(2) in \<open>simp add: database_ok_def\<close>)
  then show ok: "\<forall>r \<in> set rs. line_amounts_ok r" by (rule priced_lines_ok [OF _ assms(3)])
  show "Money (\<Sum>r\<leftarrow>rs. pr_total_amount r) = (\<Sum>r\<leftarrow>rs. pr_total_amount r)" by (rule line_totals(3) [OF ok])
qed


section \<open>The quote\<close>

lemma quote_lines:
  assumes "list_all2 (priced_as ps) ls rs"
  shows "\<exists>qs. map_state (\<lambda>l u. res_bind (quote_line_of w as_of ps s l) (\<lambda>q. Inr (q, ()))) ls () = Inr (qs, ())
    \<and> map fst qs = rs \<and> map (\<lambda>q. ql_line_total (snd q)) qs = map pr_total_amount rs"
  using assms
proof (induction rule: list_all2_induct)
  case (Cons l ls r rs)
  then obtain qs where qs: "map_state (\<lambda>l u. res_bind (quote_line_of w as_of ps s l) (\<lambda>q. Inr (q, ()))) ls () = Inr (qs, ())"
    "map fst qs = rs" "map (\<lambda>q. ql_line_total (snd q)) qs = map pr_total_amount rs" by blast
  obtain p where p: "get_product (sl_product_id l) ps = Some p" "price_line (retail_price_input p l) = Inr r"
    using Cons.hyps(1) by (auto simp: priced_as_def)
  obtain q where q: "quote_line_of w as_of ps s l = Inr (r, q)" "ql_line_total q = pr_total_amount r"
    by (simp add: quote_line_of_def p)
  show ?case by (rule exI [of _ "(r, q) # qs"]) (simp add: q qs)
qed simp

text \<open>
  C18: The quote is the price. Whenever a cart can be sold, quoting it in the same state succeeds, for
  any warehouse and day, and shows the grand total that the invoice charges, the line totals that its
  items have and the same warnings.
\<close>

theorem quote_agrees_with_invoice:
  assumes "create_retail_invoice a s = Inr (r, t)" "replayed_sale a s = None" "database_ok s"
  shows "\<exists>q items. quote (rs_organization_id a) w (rs_lines a) as_of s = Inr q
    \<and> qr_grand_total q = sr_grand_total r \<and> qr_warnings q = sr_warnings r
    \<and> db_invoice_items t = db_invoice_items s @ items
    \<and> map ql_line_total (qr_lines q) = map ii_line_total items"
proof -
  have ids: "ids_ok s" using assms(3) by (simp add: database_ok_def)
  show ?thesis
    using assms(1) ids
  proof (cases rule: create_retail_invoice_cases)
    case replayed
    then show ?thesis using assms(2) by simp
  next
    case (fresh products number q draft priced moves items paid invoice)
    obtain qs where qs: "map_state (\<lambda>l u. res_bind (quote_line_of w as_of products s l) (\<lambda>q. Inr (q, ()))) (rs_lines a) () = Inr (qs, ())"
      "map fst qs = priced" "map (\<lambda>q. ql_line_total (snd q)) qs = map pr_total_amount priced"
      using quote_lines [OF fresh(6)] by blast
    have fst_qs: "map (\<lambda>q. f (fst q)) qs = map f priced" for f :: "price_result \<Rightarrow> 'b" by (simp add: qs(2) [symmetric])
    have "db_invoice_items t = db_invoice_items s @ items" by (subst fresh(17), simp)
    moreover have "sr_grand_total r = Money (\<Sum>r\<leftarrow>priced. pr_total_amount r)" "sr_warnings r = concat (map pr_warnings priced)"
      by (simp_all add: fresh(18) fresh(9))
    moreover have "quote (rs_organization_id a) w (rs_lines a) as_of s = Inr
        \<lparr>qr_lines = map snd qs, qr_subtotal = Money (\<Sum>r\<leftarrow>priced. pr_net_amount r),
         qr_tax_total = Money (\<Sum>r\<leftarrow>priced. pr_tax_amount r), qr_grand_total = Money (\<Sum>r\<leftarrow>priced. pr_total_amount r),
         qr_warnings = concat (map pr_warnings priced)\<rparr>"
      by (simp add: quote_def fresh(2) qs(1) fst_qs)
    ultimately show ?thesis using qs(3) fresh(11) by (simp add: comp_def)
  qed
qed

section \<open>Credit at the counter\<close>

lemma customer_outstanding_append:
  "customer_outstanding c (s\<lparr>db_invoices := db_invoices s @ [v]\<rparr>) = customer_outstanding c s
    + (if si_customer_id v = Some c \<and> si_payment_status v \<noteq> PAID then open_amount v else 0)"
  by (simp add: customer_outstanding_def open_amount_def)

text \<open>
  C17: Credit is given to known customers within their limit. A new sale that is not paid in full has a
  customer, and unless the customer has no limit set, all that the customer owes after the sale, this
  sale included, is within the limit; a sale without a customer is paid in full.
\<close>

theorem counter_credit_within_limit:
  assumes "create_retail_invoice a s = Inr (r, t)" "replayed_sale a s = None"
    and "database_ok s" "payments_ok (rs_payments a)" "sr_paid_amount r < sr_grand_total r"
  shows "\<exists>c customer. rs_customer_id a = Some c \<and> get_customer c s = Some customer
    \<and> (cs_credit_limit customer \<le> 0 \<or> customer_outstanding c t \<le> cs_credit_limit customer)
    \<and> customer_outstanding c t = customer_outstanding c s + (sr_grand_total r - sr_paid_amount r)"
proof -
  have ids: "ids_ok s" using assms(3) by (simp add: database_ok_def)
  show ?thesis
    using assms(1) ids
  proof (cases rule: create_retail_invoice_cases)
    case replayed
    then show ?thesis using assms(2) by simp
  next
    case (fresh products number q draft priced moves items paid invoice)
    have r: "sr_paid_amount r = paid" "sr_grand_total r = si_grand_total invoice" "si_paid_amount invoice = paid"
      by (simp_all add: fresh(18)) (simp add: fresh(9))
    have unpaid: "paid < si_grand_total invoice" using assms(5) by (simp add: r)
    then obtain c where c: "rs_customer_id a = Some c"
        "enforce_credit_limit c (si_grand_total invoice - paid) (s\<lparr>db_invoices := db_invoices s @ [draft]\<rparr>) = Inr ()"
      using fresh(10) by (auto simp: check_payment_def split: option.splits if_splits)
    have d: "open_amount draft = 0" "si_customer_id draft = Some c" "si_customer_id invoice = Some c"
      by (simp_all add: fresh(9) fresh(4) draft_invoice_def open_amount_def c(1))
    have "si_payment_status invoice = derive_status paid (si_grand_total invoice)" by (simp add: fresh(9))
    then have np: "si_payment_status invoice \<noteq> PAID" using unpaid by (simp add: derive_status_def)
    have "customer_outstanding c t = customer_outstanding c (s\<lparr>db_invoices := db_invoices s @ [invoice]\<rparr>)"
      by (subst fresh(17)) (simp add: customer_outstanding_def)
    then have after: "customer_outstanding c t = customer_outstanding c s + (si_grand_total invoice - paid)"
      using np d by (simp only: customer_outstanding_append) (simp add: open_amount_def r(3))
    have before: "customer_outstanding c (s\<lparr>db_invoices := db_invoices s @ [draft]\<rparr>) = customer_outstanding c s"
      by (simp only: customer_outstanding_append) (simp add: d)
    obtain customer where "get_customer c s = Some customer"
        "cs_credit_limit customer \<le> 0 \<or> customer_outstanding c s + (si_grand_total invoice - paid) \<le> cs_credit_limit customer"
      using c(2) before by (auto simp: enforce_credit_limit_def get_customer_def split: option.splits if_splits)
    then show ?thesis using c(1) after r by auto
  qed
qed

section \<open>An order\<close>


section \<open>A dispatch\<close>

lemma dispatched_order:
  assumes "get_order k s = Some order" "\<And>v. so_id (f v) = so_id v"
    and "db_orders t = upd_first (\<lambda>v. so_id v = k) f (db_orders s)"
  shows "get_order k t = Some (f order)"
  using assms first_row_upd_first_same [of "\<lambda>v. so_id v = k" "db_orders s" order f]
  by (auto simp: get_order_def dest: first_row_Some)

text \<open>
  C5: A dispatch ships and invoices the order, once. When a dispatch succeeds, the order was confirmed
  and is now invoiced; one invoice with the order's customer and totals, nothing paid, is added, and
  its items are the order's items in order; the stock and the reservations of every product fall by
  what the order had of it; the receivables account rises by the total. Dispatching the order again
  is refused.
\<close>

theorem dispatch_correct:
  assumes "dispatch_and_invoice a s = Inr (r, t)" "database_ok s" "reserved_ok (db_inventory s)"
  shows "\<exists>order v items. get_order (da_sales_order_id a) s = Some order \<and> so_status order = CONFIRMED
    \<and> get_order (da_sales_order_id a) t = Some (order\<lparr>so_status := INVOICED, so_sales_invoice_id := Some (si_id v)\<rparr>)
    \<and> db_invoices t = db_invoices s @ [v] \<and> db_invoice_items t = db_invoice_items s @ map (dispatched_item (si_id v)) items
    \<and> items = filter (\<lambda>i. ot_sales_order_id i = da_sales_order_id a) (db_order_items s)
    \<and> si_id v = dr_sales_invoice_id r \<and> (\<forall>w \<in> set (db_invoices s). si_id w \<noteq> si_id v)
    \<and> si_customer_id v = Some (so_customer_id order) \<and> si_grand_total v = so_grand_total order
    \<and> si_tax_total v = so_tax_total order \<and> si_paid_amount v = 0
    \<and> (\<forall>w p. stock_of (db_inventory t) w p = stock_of (db_inventory s) w p - shipped (so_warehouse_id order) w p items
        \<and> reservations_of (db_inventory t) w p
            = reservations_of (db_inventory s) w p - shipped (so_warehouse_id order) w p items)
    \<and> (\<forall>org. account_balance org ''AR'' (db_books t) = account_balance org ''AR'' (db_books s)
          + (if org = da_organization_id a then so_grand_total order else 0))
    \<and> (\<forall>b. da_organization_id b = da_organization_id a \<and> da_sales_order_id b = da_sales_order_id a
          \<longrightarrow> dispatch_and_invoice b t = Inl (business ''order_not_dispatchable''))"
proof -
  have ids: "ids_ok s" and led: "ledger_ok (db_inventory s)" and bk: "books_ok (db_books s)"
    using assms(2) by (simp_all add: database_ok_def)
  show ?thesis
    using assms(1) ids
  proof (rule dispatch_cases)
    fix order number q invoice items v b
    assume o: "get_order (da_sales_order_id a) s = Some order" "so_organization_id order = da_organization_id a"
        "so_status order = CONFIRMED"
      and items: "items = filter (\<lambda>i. ot_sales_order_id i = da_sales_order_id a) (db_order_items s)"
      and inv: "invoice = order_invoice a order number s"
      and run: "fold_res (ship_on a order (si_id invoice)) items (db_inventory s) = Inr v"
      and booked: "order_booked a order invoice (db_books s) b"
      and t: "t = s\<lparr>db_numbering := q, db_inventory := v, db_invoices := db_invoices s @ [invoice],
        db_invoice_items := db_invoice_items s @ map (dispatched_item (si_id invoice)) items,
        db_order_items := upd_rows (\<lambda>i. ot_sales_order_id i = da_sales_order_id a)
          (\<lambda>i. i\<lparr>ot_dispatched_quantity := ot_base_quantity i\<rparr>) (db_order_items s),
        db_orders := upd_first (\<lambda>v. so_id v = da_sales_order_id a)
          (\<lambda>v. v\<lparr>so_status := INVOICED, so_sales_invoice_id := Some (si_id invoice)\<rparr>) (db_orders s),
        db_books := b, db_next := Suc (db_next s)\<rparr>"
      and r: "r = \<lparr>dr_sales_order_id = da_sales_order_id a, dr_sales_invoice_id = si_id invoice,
          dr_invoice_number = number, dr_grand_total = si_grand_total invoice\<rparr>"
    have "order_ok order" using o assms(2) by (auto simp: get_order_def database_ok_def dest: first_row_Some)
    then have ok: "invoice_ok invoice" unfolding inv by (rule order_invoice_ok)
    have sel: "si_id invoice = db_next s" "si_organization_id invoice = da_organization_id a" "si_paid_amount invoice = 0"
      "si_customer_id invoice = Some (so_customer_id order)" "si_grand_total invoice = so_grand_total order"
      "si_tax_total invoice = so_tax_total order" by (simp_all add: inv order_invoice_def)
    have now: "get_order (da_sales_order_id a) t
        = Some (order\<lparr>so_status := INVOICED, so_sales_invoice_id := Some (si_id invoice)\<rparr>)"
      by (rule dispatched_order [OF o(1)]) (simp_all add: t)
    have again: "dispatch_and_invoice b' t = Inl (business ''order_not_dispatchable'')"
      if "da_organization_id b' = da_organization_id a \<and> da_sales_order_id b' = da_sales_order_id a" for b'
      using that now o(2) by (simp add: dispatch_and_invoice_def)
    have stock: "stock_of v w p = stock_of (db_inventory s) w p - shipped (so_warehouse_id order) w p items
        \<and> reservations_of v w p = reservations_of (db_inventory s) w p - shipped (so_warehouse_id order) w p items" for w p
      using ships_keep [OF run led assms(3)] by blast
    have ar: "account_balance org ''AR'' b = account_balance org ''AR'' (db_books s)
          + (if org = da_organization_id a then so_grand_total order else 0)" for org
      using order_books(2) [OF booked bk ok sel(2,3)] by (simp add: sel open_amount_def)
    have f: "db_invoices t = db_invoices s @ [invoice]" "db_inventory t = v" "db_books t = b"
      "db_invoice_items t = db_invoice_items s @ map (dispatched_item (si_id invoice)) items" by (simp_all add: t)
    show ?thesis
      by (rule exI [of _ order], rule exI [of _ invoice], rule exI [of _ items])
        (intro conjI allI impI f(1,4) o(1,3) now items again sel stock [THEN conjunct1, folded f(2)]
          stock [THEN conjunct2, folded f(2)] ar [folded f(3)]; use ids in \<open>auto simp: sel r ids_ok_def\<close>)
  qed
qed

section \<open>A customer's payment\<close>

lemma customer_outstanding_open:
  assumes "\<forall>v \<in> set (db_invoices s). invoice_ok v"
  shows "customer_outstanding c s = sum_rows (\<lambda>v. si_customer_id v = Some c) open_amount (db_invoices s)"
proof -
  have "(\<Sum>v\<leftarrow>filter (\<lambda>v. si_customer_id v = Some c \<and> si_payment_status v \<noteq> PAID) vs. si_grand_total v - si_paid_amount v)
      = sum_rows (\<lambda>v. si_customer_id v = Some c) open_amount vs" if "\<forall>v \<in> set vs. invoice_ok v" for vs
    using that by (induction vs) (auto simp: sum_rows_Cons open_amount_def [symmetric] invoice_ok_paid)
  then show ?thesis using assms by (simp add: customer_outstanding_def)
qed

lemma sum_rows_zero_each:
  assumes "sum_rows P g xs = (0 :: decimal)" "\<forall>x \<in> set xs. 0 \<le> g x" "x \<in> set xs" "P x"
  shows "g x = 0"
proof -
  have "g y = 0" if "y \<in> set (filter P xs)" for y
    using assms(1,2) that sum_list_nonneg_eq_0_iff [of "map g (filter P xs)"] by (auto simp: sum_rows_def)
  then show ?thesis using assms(3,4) by simp
qed

lemma outstanding_total:
  assumes "\<forall>v \<in> set (db_invoices s). invoice_ok v"
  shows "(\<Sum>i\<leftarrow>open_invoices (map outstanding_of (outstanding_invoices org c s)). oi_outstanding i)
    = sum_rows (\<lambda>v. si_organization_id v = org \<and> si_customer_id v = Some c) open_amount (db_invoices s)"
proof -
  let ?q = "\<lambda>v. si_organization_id v = org \<and> si_customer_id v = Some c \<and> si_payment_status v \<noteq> PAID"
  have open_nonneg: "0 \<le> open_amount v" if "v \<in> set (db_invoices s)" for v
    using assms that by (auto simp: invoice_ok_def open_amount_def)
  have drop: "(\<Sum>i\<leftarrow>open_invoices (map outstanding_of vs). oi_outstanding i) = (\<Sum>v\<leftarrow>vs. open_amount v)"
    if "\<forall>v \<in> set vs. 0 \<le> open_amount v" for vs
    using that by (induction vs) (auto simp: open_invoices_def)
  have "(\<Sum>i\<leftarrow>open_invoices (map outstanding_of (outstanding_invoices org c s)). oi_outstanding i)
      = (\<Sum>v\<leftarrow>outstanding_invoices org c s. open_amount v)"
    by (rule drop) (use open_nonneg in \<open>auto simp: outstanding_invoices_in\<close>)
  also have "\<dots> = (\<Sum>v\<leftarrow>filter ?q (db_invoices s). open_amount v)"
    unfolding outstanding_invoices_def by (rule sum_list_sort_key)
  also have "\<dots> = sum_rows (\<lambda>v. si_organization_id v = org \<and> si_customer_id v = Some c) open_amount (db_invoices s)"
  proof -
    have "(\<Sum>v\<leftarrow>filter ?q vs. open_amount v)
        = sum_rows (\<lambda>v. si_organization_id v = org \<and> si_customer_id v = Some c) open_amount vs"
      if "\<forall>v \<in> set vs. invoice_ok v" for vs
      using that by (induction vs) (auto simp: sum_rows_Cons invoice_ok_paid)
    then show ?thesis using assms by blast
  qed
  finally show ?thesis .
qed

text \<open>
  C7: A payment settles what the customer owes, and nothing else. When a payment is accepted, what is
  allocated and what is left add up to the amount; the customer owes less by exactly what is
  allocated and no other customer's debt changes; something is left only when the customer's invoices
  in the organization are all settled; every invoice stays consistent; the receivables account falls
  by the whole amount; stock and orders are not touched.
\<close>

theorem payment_correct:
  assumes "receive_payment a s = Inr (r, t)" "database_ok s"
  shows "cr_allocated_total r + cr_unallocated r = Money (ra_amount a) \<and> 0 \<le> cr_unallocated r
    \<and> (\<forall>c. customer_outstanding c t = customer_outstanding c s
          - (if c = ra_customer_id a then cr_allocated_total r else 0))
    \<and> (0 < cr_unallocated r \<longrightarrow> (\<forall>v \<in> set (db_invoices t). si_organization_id v = ra_organization_id a
          \<and> si_customer_id v = Some (ra_customer_id a) \<longrightarrow> si_paid_amount v = si_grand_total v))
    \<and> (\<forall>v \<in> set (db_invoices t). invoice_ok v) \<and> map si_id (db_invoices t) = map si_id (db_invoices s)
    \<and> (\<forall>org. account_balance org ''AR'' (db_books t) = account_balance org ''AR'' (db_books s)
          - (if org = ra_organization_id a then Money (ra_amount a) else 0))
    \<and> db_inventory t = db_inventory s \<and> db_orders t = db_orders s"
proof -
  have ids: "ids_ok s" and inv: "\<forall>v \<in> set (db_invoices s). invoice_ok v" and bk: "books_ok (db_books s)"
    using assms(2) by (simp_all add: database_ok_def)
  show ?thesis
    using assms(1) ids inv
  proof (rule receive_payment_cases)
    fix res :: allocation_result and settled e b
    let ?org = "ra_organization_id a" and ?c = "ra_customer_id a"
    let ?invs = "map outstanding_of (outstanding_invoices ?org ?c s)"
    let ?als = "ar_allocations res" and ?P = "\<lambda>v. si_organization_id v = ?org \<and> si_customer_id v = Some ?c"
    assume al: "allocate_payment (ra_amount a) ?invs = Inr res"
      and dist: "distinct (map ia_invoice_id ?als)"
      and targets: "\<forall>al \<in> set ?als. \<exists>v \<in> set (db_invoices s). si_id v = ia_invoice_id al
        \<and> si_organization_id v = ?org \<and> si_customer_id v = Some ?c \<and> 0 < ia_amount al
        \<and> ia_amount al \<le> open_amount v \<and> paisa_grid (ia_amount al)"
      and sum: "ar_allocated_total res = (\<Sum>al\<leftarrow>?als. ia_amount al)"
      and j: "post_journal (receipt_journal a (db_next s)) (db_books s) = Inr (e, b)"
      and t: "t = s\<lparr>db_payments := db_payments s @ [receipt_row a s], db_next := Suc (db_next s),
         db_invoices := settle_all ?als (db_invoices s),
         db_payment_allocations := db_payment_allocations s @ map (allocation_row (db_next s)) ?als, db_books := b\<rparr>"
      and r: "r = \<lparr>cr_payment_id = db_next s, cr_allocated_total = ar_allocated_total res,
          cr_unallocated = ar_unallocated res, cr_settled_invoice_ids = concat settled\<rparr>"
    have grid: "\<forall>i \<in> set ?invs. paisa_grid (oi_outstanding i)"
      using inv invoice_ok_grid by (auto simp: outstanding_invoices_in)
    note totals = allocate_payment_totals [OF al grid]
    have d: "distinct (map si_id (db_invoices s))" using ids by (simp add: ids_ok_def)
    have tg: "\<forall>al \<in> set ?als. \<exists>v \<in> set (db_invoices s). si_id v = ia_invoice_id al \<and> ?P v \<and> 0 < ia_amount al
        \<and> ia_amount al \<le> open_amount v \<and> paisa_grid (ia_amount al)" using targets by blast
    note settle = settle_all_keeps [OF d inv dist tg]
    have vs: "db_invoices t = settle_all ?als (db_invoices s)" by (simp add: t)
    have ids_t: "map si_id (db_invoices t) = map si_id (db_invoices s)" and inv_t: "\<forall>v \<in> set (db_invoices t). invoice_ok v"
      using settle [where Q = "\<lambda>_. True" and b = True] by (simp_all add: vs)
    have owes: "customer_outstanding c t = customer_outstanding c s - (if c = ?c then ar_allocated_total res else 0)" for c
      using settle [where Q = "\<lambda>v. si_customer_id v = Some c" and b = "c = ?c"]
      by (auto simp: customer_outstanding_open [OF inv] customer_outstanding_open [OF inv_t] vs sum)
    have rest: "sum_rows ?P open_amount (db_invoices t) = sum_rows ?P open_amount (db_invoices s) - ar_allocated_total res"
      using settle [where Q = ?P and b = True] by (simp add: vs sum)
    have paid: "si_paid_amount v = si_grand_total v"
      if "0 < ar_unallocated res" "v \<in> set (db_invoices t)" "?P v" for v
    proof -
      have "sum_rows ?P open_amount (db_invoices t) = 0"
        using totals that(1) by (simp add: rest outstanding_total [OF inv] min_def split: if_splits)
      then have "open_amount v = 0"
        by (rule sum_rows_zero_each) (use inv_t that in \<open>auto simp: invoice_ok_def open_amount_def\<close>)
      then show ?thesis by (simp add: open_amount_def)
    qed
    have ar: "account_balance org ''AR'' b = account_balance org ''AR'' (db_books s)
        - (if org = ?org then Money (ra_amount a) else 0)" for org
      using post_journal_balance [OF bk j] by (simp add: receipt_journal_AR) (simp add: receipt_journal_def)
    have "0 \<le> ar_unallocated res" using totals by (simp add: min_def)
    then show ?thesis
      using owes paid inv_t ids_t ar totals(1) by (simp add: r) (simp add: t)
  qed
qed

section \<open>Examples\<close>

text \<open>
  Two units sold to the dealer, a part of them paid; two units ordered, dispatched and paid for in
  part.
\<close>

definition sample_cart :: create_invoice_request where
  "sample_cart =
     \<lparr>ci_warehouse_id = 4, ci_customer_id = Some 5,
      ci_lines = [\<lparr>sl_product_id = 7, sl_base_quantity = 2, sl_discount_percent = 0\<rparr>],
      ci_payments = [\<lparr>pn_method = CASH, pn_amount = 100, pn_reference = None\<rparr>]\<rparr>"

definition sample_collection :: receive_payment_request where
  "sample_collection = \<lparr>rp_customer_id = 5, rp_amount = 200, rp_method = UPI, rp_reference = None\<rparr>"

definition ordered_database :: database where
  "ordered_database =
     (case post_order 600 sample_clerk (sample_order 2) stocked_database of Inr (_, t) \<Rightarrow> t | _ \<Rightarrow> stocked_database)"

definition shipped_database :: database where
  "shipped_database =
     (case dispatch_order 600 sample_clerk 1 ordered_database of Inr (_, t) \<Rightarrow> t | _ \<Rightarrow> ordered_database)"

lemma sample_sale:
  "\<exists>r t. create_invoice 600 sample_clerk (Some ''till-1'') sample_cart stocked_database = Inr (r, t)
     \<and> sr_grand_total r = 210 \<and> sr_paid_amount r = 100 \<and> \<not> sr_replayed r"
proof -
  have "res_bind (create_invoice 600 sample_clerk (Some ''till-1'') sample_cart stocked_database)
      (\<lambda>(r, t). Inr (sr_grand_total r, sr_paid_amount r, sr_replayed r)) = Inr (210, 100, False)" by code_simp
  then show ?thesis by (rule res_bind_pairE) auto
qed

lemma sample_order_taken:
  "\<exists>r. post_order 600 sample_clerk (sample_order 2) stocked_database = Inr (r, ordered_database)
     \<and> or_grand_total r = 168 \<and> or_sales_order_id r = 1"
proof -
  have "res_bind (post_order 600 sample_clerk (sample_order 2) stocked_database)
      (\<lambda>(r, t). Inr (or_grand_total r, or_sales_order_id r)) = Inr (168, 1)" by code_simp
  then show ?thesis by (rule res_bind_pairE) (auto simp: ordered_database_def)
qed

lemma sample_dispatched:
  "\<exists>r. dispatch_order 600 sample_clerk 1 ordered_database = Inr (r, shipped_database) \<and> dr_grand_total r = 168"
proof -
  have "res_bind (dispatch_order 600 sample_clerk 1 ordered_database)
      (\<lambda>(r, t). Inr (dr_grand_total r)) = Inr 168" by code_simp
  then show ?thesis by (rule res_bind_pairE) (auto simp: shipped_database_def)
qed

lemma sample_collected:
  "\<exists>r t. post_payment sample_clerk sample_collection shipped_database = Inr (r, t)
     \<and> cr_allocated_total r = 168 \<and> cr_unallocated r = 32"
proof -
  have "res_bind (post_payment sample_clerk sample_collection shipped_database)
      (\<lambda>(r, t). Inr (cr_allocated_total r, cr_unallocated r)) = Inr (168, 32)" by code_simp
  then show ?thesis by (rule res_bind_pairE) auto
qed

lemma stocked_database_ok: "database_ok stocked_database" "fulfilment_ok stocked_database"
proof -
  obtain r where "create_goods_receipt sample_clerk sample_receipt_request sample_database = Inr (r, stocked_database)"
    using sample_receipt_accepted by blast
  then obtain a where "receive_goods a sample_database = Inr (r, stocked_database)" by (rule create_goods_receipt_ok)
  then have "beside_sales True sample_database stocked_database" by (rule receive_goods_beside(1))
  from beside_sales_keeps [OF this] installed_ok [OF sample_database_installed]
  show "database_ok stocked_database" "fulfilment_ok stocked_database" by simp_all
qed

lemma post_order_ok:
  assumes "post_order day user p s = Inr (r, t)"
  obtains a where "create_order a s = Inr (r, t)" "oa_lines a = co_lines p" "oa_warehouse_id a = co_warehouse_id p"
    "oa_is_quotation a = co_is_quotation p" "oa_customer_id a = co_customer_id p"
    "oa_credit_override_approved a = co_credit_override_approved p"
  using assms by (auto simp: post_order_def)

lemma ordered_database_ok: "database_ok ordered_database" "fulfilment_ok ordered_database"
proof -
  obtain r where "post_order 600 sample_clerk (sample_order 2) stocked_database = Inr (r, ordered_database)"
    using sample_order_taken by blast
  then obtain a where a: "create_order a stocked_database = Inr (r, ordered_database)" by (rule post_order_ok)
  show "database_ok ordered_database" by (rule order_keeps [OF a stocked_database_ok(1)])
  show "fulfilment_ok ordered_database" by (rule order_fulfils [OF a stocked_database_ok])
qed

lemma dispatch_order_ok:
  assumes "dispatch_order day user i s = Inr (r, t)"
  obtains a where "dispatch_and_invoice a s = Inr (r, t)" "da_sales_order_id a = i"
    "da_organization_id a = cu_organization_id user" "da_as_of a = Some day"
  using assms by (auto simp: dispatch_order_def)

lemma shipped_database_ok: "database_ok shipped_database"
proof -
  obtain r where "dispatch_order 600 sample_clerk 1 ordered_database = Inr (r, shipped_database)"
    using sample_dispatched by blast
  then obtain a where "dispatch_and_invoice a ordered_database = Inr (r, shipped_database)" by (rule dispatch_order_ok)
  then show ?thesis by (rule dispatch_keeps) (rule ordered_database_ok)
qed

lemma fulfilment_reserved: "fulfilment_ok s \<Longrightarrow> reserved_ok (db_inventory s)"
  by (simp add: fulfilment_ok_def)

text \<open>The sale, as a call of the service.\<close>

lemma sample_sale_service:
  obtains a r t where "create_retail_invoice a stocked_database = Inr (r, t)" "replayed_sale a stocked_database = None"
    "payments_ok (rs_payments a)" "rs_lines a = ci_lines sample_cart" "rs_organization_id a = 1" "rs_warehouse_id a = 4"
    "rs_customer_id a = Some 5" "rs_idempotency_key a = Some ''till-1''" "sr_grand_total r = 210" "sr_paid_amount r = 100"
    "create_invoice 600 sample_clerk (Some ''till-1'') sample_cart stocked_database = Inr (r, t)"
proof -
  obtain r t where r: "create_invoice 600 sample_clerk (Some ''till-1'') sample_cart stocked_database = Inr (r, t)"
      "sr_grand_total r = 210" "sr_paid_amount r = 100" "\<not> sr_replayed r"
    using sample_sale by blast
  obtain a where a: "create_retail_invoice a stocked_database = Inr (r, t)" "rs_payments a = ci_payments sample_cart"
      "rs_lines a = ci_lines sample_cart" "rs_organization_id a = cu_organization_id sample_clerk"
      "rs_warehouse_id a = ci_warehouse_id sample_cart" "rs_customer_id a = ci_customer_id sample_cart"
      "rs_idempotency_key a = Some ''till-1''"
    using r(1) by (rule create_invoice_ok) blast
  have "replayed_sale a stocked_database = None"
  proof (rule ccontr)
    assume "replayed_sale a stocked_database \<noteq> None"
    then obtain r' where r': "replayed_sale a stocked_database = Some r'" by blast
    then have "r = r'" using a(1) by (simp add: create_retail_invoice_def split: if_splits)
    then show False using r(4) r' by (auto simp: replayed_sale_def split: option.splits)
  qed
  moreover have "payments_ok (rs_payments a)" by (simp add: a(2) sample_cart_def payments_ok_def on_grid_def)
  ultimately show ?thesis
    using a r by (intro that [of a r t]) (simp_all add: sample_cart_def sample_clerk_def)
qed


theorem quote_agrees_with_invoice_witness:
  "\<exists>q r t. quote 1 4 (ci_lines sample_cart) None stocked_database = Inr q
     \<and> create_invoice 600 sample_clerk (Some ''till-1'') sample_cart stocked_database = Inr (r, t)
     \<and> qr_grand_total q = 210 \<and> sr_grand_total r = 210"
proof (rule sample_sale_service)
  fix a r t
  assume a: "create_retail_invoice a stocked_database = Inr (r, t)" "replayed_sale a stocked_database = None"
    and args: "rs_lines a = ci_lines sample_cart" "rs_organization_id a = 1" and r: "sr_grand_total r = 210"
    and run: "create_invoice 600 sample_clerk (Some ''till-1'') sample_cart stocked_database = Inr (r, t)"
  show ?thesis
    using quote_agrees_with_invoice [OF a stocked_database_ok(1), of 4 None] run r by (auto simp: args)
qed

theorem counter_credit_within_limit_witness:
  "\<exists>r t. create_invoice 600 sample_clerk (Some ''till-1'') sample_cart stocked_database = Inr (r, t)
     \<and> customer_outstanding 5 t = customer_outstanding 5 stocked_database + 110"
proof (rule sample_sale_service)
  fix a r t
  assume a: "create_retail_invoice a stocked_database = Inr (r, t)" "replayed_sale a stocked_database = None"
    "payments_ok (rs_payments a)" and args: "rs_customer_id a = Some 5"
    and r: "sr_grand_total r = 210" "sr_paid_amount r = 100"
    and run: "create_invoice 600 sample_clerk (Some ''till-1'') sample_cart stocked_database = Inr (r, t)"
  show ?thesis
    using counter_credit_within_limit [OF a(1,2) stocked_database_ok(1) a(3)] run by (auto simp: args r)
qed


theorem dispatch_correct_witness:
  "\<exists>r v. dispatch_order 600 sample_clerk 1 ordered_database = Inr (r, shipped_database)
     \<and> db_invoices shipped_database = db_invoices ordered_database @ [v] \<and> si_paid_amount v = 0
     \<and> get_order 1 ordered_database \<noteq> get_order 1 shipped_database"
proof -
  obtain r where r: "dispatch_order 600 sample_clerk 1 ordered_database = Inr (r, shipped_database)"
    using sample_dispatched by blast
  then obtain a where a: "dispatch_and_invoice a ordered_database = Inr (r, shipped_database)" "da_sales_order_id a = 1"
    by (rule dispatch_order_ok)
  from dispatch_correct [OF a(1) ordered_database_ok(1) fulfilment_reserved [OF ordered_database_ok(2)]]
  obtain order v where "get_order 1 ordered_database = Some order" "so_status order = CONFIRMED"
      "get_order 1 shipped_database = Some (order\<lparr>so_status := INVOICED, so_sales_invoice_id := Some (si_id v)\<rparr>)"
      "db_invoices shipped_database = db_invoices ordered_database @ [v]" "si_paid_amount v = 0"
    unfolding a(2) by (elim exE conjE) (rule that; assumption)
  then show ?thesis using r by (intro exI conjI) (auto dest: arg_cong [where f = so_status])
qed

theorem payment_correct_witness:
  "\<exists>r t. post_payment sample_clerk sample_collection shipped_database = Inr (r, t)
     \<and> customer_outstanding 5 t = customer_outstanding 5 shipped_database - 168
     \<and> account_balance 1 ''AR'' (db_books t) = account_balance 1 ''AR'' (db_books shipped_database) - 200"
proof -
  obtain r t where r: "post_payment sample_clerk sample_collection shipped_database = Inr (r, t)" "cr_allocated_total r = 168"
    using sample_collected by blast
  then obtain a where a: "receive_payment a shipped_database = Inr (r, t)" "ra_customer_id a = 5" "ra_amount a = 200"
      "ra_organization_id a = 1"
    by (auto simp: post_payment_def sample_collection_def sample_clerk_def)
  have "Money 200 = 200" by (simp add: Money_id on_grid_def)
  then show ?thesis
    using payment_correct [OF a(1) shipped_database_ok] r by (auto simp: a(2-4))
qed

end
