(* ===== verification/Delivery.thy ===== *)
theory Delivery
  imports Documents
begin

text \<open>
  That promises are kept: a confirmed order whose stock has not expired can be dispatched, whatever
  else was reserved or sold since, and an order only ever moves from confirmed to invoiced.
\<close>

section \<open>Stock that has not expired\<close>

text \<open>The batches that the balances of a product in a warehouse are of.\<close>

definition unexpired :: "date \<Rightarrow> uuid \<Rightarrow> uuid \<Rightarrow> inventory \<Rightarrow> bool" where
  "unexpired day w p s \<longleftrightarrow> (\<forall>b \<in> set (iv_balances s). sb_warehouse_id b = w \<and> sb_product_id b = p \<longrightarrow>
     (case batch_expiry s (sb_batch_id b) of None \<Rightarrow> True | Some d \<Rightarrow> day < d))"

text \<open>What issues and releases leave as it is: the keys of the balances, the batches and the clock.\<close>

definition stock_shape where
  "stock_shape s = (map sb_key (iv_balances s), iv_batches s, iv_now s)"

lemma unexpired_shape:
  assumes "stock_shape t = stock_shape s"
  shows "unexpired day w p t = unexpired day w p s"
proof -
  have b: "iv_batches t = iv_batches s" using assms by (simp add: stock_shape_def)
  have e: "batch_expiry t = batch_expiry s" by (intro ext) (simp only: batch_expiry_def b)
  have k: "sb_key ` set (iv_balances t) = sb_key ` set (iv_balances s)"
    using assms by (metis stock_shape_def prod.inject set_map)
  have "unexpired day w p u \<longleftrightarrow> (\<forall>(w', p', b) \<in> sb_key ` set (iv_balances u). w' = w \<and> p' = p \<longrightarrow>
      (case batch_expiry u b of None \<Rightarrow> True | Some d \<Rightarrow> day < d))" for u
    by (simp add: unexpired_def sb_key_def)
  then show ?thesis by (simp only: e k)
qed

lemma outbound_shape:
  assumes "post_movement a s = Inr (x, t)" "movement_delta a = Inr d" "d < 0" "keys_unique s"
  shows "stock_shape t = stock_shape s"
proof -
  let ?k = "(ma_warehouse_id a, ma_product_id a, ma_batch_id a)"
  obtain n s1 where s1: "add_movement (stock_movement_of a d) s = Inr (n, s1)"
    and t: "upsert_balance_delta (ma_organization_id a) (ma_warehouse_id a) (ma_product_id a) (ma_batch_id a) d s1 = Inr t"
    using assms(1,2) by (auto simp: post_movement_def Let_def split: if_splits)
  have same: "iv_balances s1 = iv_balances s" "iv_batches s1 = iv_batches s" "iv_now s1 = iv_now s"
    using s1 by (auto simp: add_movement_def split: if_splits)
  show ?thesis
    using t
  proof (cases rule: upsert_cases)
    case (insert n)
    then show ?thesis using assms(3) by simp
  next
    case (update r)
    have "map sb_key (iv_balances t) = map sb_key (iv_balances s)"
      unfolding update(3) by (simp add: same, rule map_upd_first) (simp add: sb_key_def)
    then show ?thesis by (simp add: stock_shape_def update(3) same)
  qed
qed

lemma issue_shape:
  assumes "issue_fefo a s = Inr (ps, t)" "ledger_ok s" "movement_direction (is_movement_type a) = - 1"
  shows "stock_shape t = stock_shape s"
proof -
  obtain als where als: "allocate_fefo (batch_availability (is_warehouse_id a) (is_product_id a) s) (is_base_quantity a)
      (as_of_or_today (is_as_of a) s) = Inr als"
    and run: "map_state (\<lambda>al. post_movement (issue_movement a al)) als s = Inr (ps, t)"
    using assms(1) by (auto simp: issue_fefo_ok)
  have pos: "\<forall>al \<in> set als. 0 < al_quantity al" using allocate_fefo_pos [OF als] by blast
  have "map_state (\<lambda>al. post_movement (issue_movement a al)) bs u = Inr (qs, t') \<Longrightarrow> ledger_ok u \<Longrightarrow>
      \<forall>al \<in> set bs. 0 < al_quantity al \<Longrightarrow> stock_shape t' = stock_shape u" for bs u qs t'
  proof (induction bs arbitrary: u qs)
    case (Cons al bs)
    obtain q m qs' where m: "post_movement (issue_movement a al) u = Inr (q, m)"
        "map_state (\<lambda>al. post_movement (issue_movement a al)) bs m = Inr (qs', t')"
      using Cons.prems(1) by (auto simp only: map_state_Cons_ok)
    have "stock_shape m = stock_shape u"
      by (rule outbound_shape [OF m(1) issue_movement_delta [OF assms(3)] _ ledger_ok_unique [OF Cons.prems(2)]])
        (use Cons.prems(3) in simp_all)
    then show ?case using Cons.IH [OF m(2) post_movement_ledger_ok [OF m(1) Cons.prems(2)]] Cons.prems(3) by simp
  qed simp
  from this [OF run assms(2) pos] show ?thesis .
qed

lemma adjust_reserved_shape: "adjust_reserved w p b d s = Inr t \<Longrightarrow> stock_shape t = stock_shape s"
  by (auto simp: adjust_reserved_def stock_shape_def intro!: map_upd_first split: option.splits) (simp add: sb_key_def)

lemma release_shape:
  assumes "release_reservation w p q s = Inr (u, t)"
  shows "stock_shape t = stock_shape s"
proof -
  have "fold_res (\<lambda>al. adjust_reserved w p (al_batch_id al) (- al_quantity al)) als s = Inr t \<Longrightarrow>
      stock_shape t = stock_shape s" for als
    by (erule fold_res_invariant [where I = "\<lambda>v. stock_shape v = stock_shape s"]) (auto dest: adjust_reserved_shape)
  then show ?thesis
    using assms by (auto simp: release_reservation_def release_loop_eq split: if_splits)
qed

section \<open>Unreserved stock is available\<close>

lemma available_unexpired:
  assumes "reserved_ok s" "unexpired day w p s"
  shows "available w p (Some day) s = stock_of s w p - reservations_of s w p"
proof -
  let ?row = "\<lambda>b. \<lparr>ba_batch_id = sb_batch_id b, ba_expiry_date = batch_expiry s (sb_batch_id b),
      ba_available = sb_on_hand b - sb_reserved b\<rparr>"
  have "(\<Sum>r\<leftarrow>filter (usable day) (map ?row (filter (\<lambda>b. sb_warehouse_id b = w \<and> sb_product_id b = p
          \<and> sb_reserved b < sb_on_hand b) bs)). ba_available r)
      = sum_rows (\<lambda>b. sb_warehouse_id b = w \<and> sb_product_id b = p) sb_on_hand bs
        - sum_rows (\<lambda>b. sb_warehouse_id b = w \<and> sb_product_id b = p) sb_reserved bs"
    if "set bs \<subseteq> set (iv_balances s)" for bs
    using that
  proof (induction bs)
    case (Cons b bs)
    then have "0 \<le> sb_reserved b \<and> sb_reserved b \<le> sb_on_hand b" using assms(1) by (simp add: reserved_ok_def)
    moreover have "sb_warehouse_id b = w \<Longrightarrow> sb_product_id b = p \<Longrightarrow> sb_reserved b < sb_on_hand b \<Longrightarrow> usable day (?row b)"
      using assms(2) Cons.prems by (auto simp: unexpired_def usable_def)
    ultimately show ?case using Cons by (auto simp: sum_rows_Cons)
  qed simp
  then show ?thesis
    by (simp add: available_def as_of_or_today_def batch_availability_def stock_of_def reservations_of_def)
qed

lemma reservations_le_stock: "reserved_ok s \<Longrightarrow> reservations_of s w p \<le> stock_of s w p"
proof -
  have "sum_rows q sb_reserved bs \<le> sum_rows q sb_on_hand bs"
    if "\<forall>b \<in> set bs. sb_reserved b \<le> sb_on_hand b" for q bs
    using that by (induction bs) (auto simp: sum_rows_Cons intro: add_mono)
  then show "reserved_ok s \<Longrightarrow> reservations_of s w p \<le> stock_of s w p"
    unfolding reserved_ok_def reservations_of_def stock_of_def by blast
qed

section \<open>Shipping an order succeeds\<close>

lemma ship_succeeds:
  assumes "ledger_ok v" "reserved_ok v" "0 < ot_base_quantity item"
    and "ot_base_quantity item \<le> reservations_of v (so_warehouse_id order) (ot_product_id item)"
    and "unexpired day (so_warehouse_id order) (ot_product_id item) v" "da_as_of a = Some day"
  shows "\<exists>t. ship_on a order i item v = Inr t \<and> stock_shape t = stock_shape v"
proof -
  let ?w = "so_warehouse_id order" and ?p = "ot_product_id item" and ?q = "ot_base_quantity item"
  let ?a = "dispatch_issue a order i item"
  obtain v1 where v1: "release_reservation ?w ?p ?q v = Inr ((), v1)"
    using release_succeeds_iff [OF assms(1,2), of ?w ?p ?q] assms(3,4) by (auto simp: is_ok_iff)
  note rel = release_keeps [OF v1 assms(1,2)]
  have args: "is_warehouse_id ?a = ?w" "is_product_id ?a = ?p" "is_base_quantity ?a = ?q" "is_as_of ?a = Some day"
      "movement_direction (is_movement_type ?a) = - 1"
    by (simp_all add: dispatch_issue_def assms(6) movement_direction_def INBOUND_TYPES_def OUTBOUND_TYPES_def)
  have "unexpired day ?w ?p v1" using assms(5) unexpired_shape [OF release_shape [OF v1]] by simp
  then have "available ?w ?p (Some day) v1 = stock_of v1 ?w ?p - reservations_of v1 ?w ?p"
    by (rule available_unexpired [OF rel(2)])
  also have "\<dots> = stock_of v ?w ?p - reservations_of v ?w ?p + ?q" by (simp add: rel(4,5))
  finally have "?q \<le> available ?w ?p (Some day) v1" using reservations_le_stock [OF assms(2), of ?w ?p] by simp
  then obtain ps t where t: "issue_fefo ?a v1 = Inr (ps, t)"
    using issue_succeeds [OF rel(1,2) args(5)] assms(3) by (auto simp: args is_ok_iff)
  have "stock_shape t = stock_shape v"
    using issue_shape [OF t rel(1) args(5)] release_shape [OF v1] by simp
  then show ?thesis by (simp add: ship_on_def v1 t)
qed

lemma ships_succeed:
  assumes "ledger_ok v" "reserved_ok v" "\<forall>item \<in> set its. 0 < ot_base_quantity item"
    and "\<And>p. shipped (so_warehouse_id order) (so_warehouse_id order) p its \<le> reservations_of v (so_warehouse_id order) p"
    and "\<forall>item \<in> set its. unexpired day (so_warehouse_id order) (ot_product_id item) v" "da_as_of a = Some day"
  shows "\<exists>t. fold_res (ship_on a order i) its v = Inr t"
  using assms(1-5)
proof (induction its arbitrary: v)
  case (Cons item its)
  let ?w = "so_warehouse_id order"
  have rest: "0 \<le> shipped ?w ?w p its" for p
    using Cons.prems(3) by (auto simp: shipped_def less_imp_le intro!: sum_list_nonneg)
  have "ot_base_quantity item \<le> reservations_of v ?w (ot_product_id item)"
    using Cons.prems(4) [of "ot_product_id item"] rest [of "ot_product_id item"] by (simp add: shipped_def)
  then obtain m where m: "ship_on a order i item v = Inr m" "stock_shape m = stock_shape v"
    using ship_succeeds [OF Cons.prems(1,2) _ _ _ assms(6)] Cons.prems(3,5) by fastforce
  have k: "ledger_ok m \<and> reserved_ok m \<and> stock_of m w p = stock_of v w p - shipped ?w w p [item]
      \<and> reservations_of m w p = reservations_of v w p - shipped ?w w p [item]" for w p
    by (rule ships_keep [where i = i and a = a]) (use m Cons.prems(1,2) in simp_all)
  have "shipped ?w ?w p its \<le> reservations_of m ?w p" for p
    using Cons.prems(4) [of p] k [of ?w p] by (auto simp: shipped_def split: if_splits)
  moreover have "\<forall>x \<in> set its. unexpired day ?w (ot_product_id x) m"
    using Cons.prems(5) unexpired_shape [OF m(2)] by simp
  ultimately have "\<exists>t. fold_res (ship_on a order i) its m = Inr t"
    using Cons.IH [of m] k Cons.prems(3) by simp
  then show ?case by (simp add: m(1))
qed simp

lemma order_items_reserved:
  assumes "fulfilment_ok s" "get_order k s = Some order" "so_status order = CONFIRMED"
  shows "shipped (so_warehouse_id order) (so_warehouse_id order) p
      (filter (\<lambda>i. ot_sales_order_id i = k) (db_order_items s))
    \<le> reservations_of (db_inventory s) (so_warehouse_id order) p"
proof -
  have o: "order \<in> set (db_orders s)" "so_id order = k" using assms(2) by (auto simp: get_order_def dest: first_row_Some)
  have pos: "\<forall>i \<in> set (db_order_items s). 0 < ot_base_quantity i" using assms(1) by (simp add: fulfilment_ok_def)
  have "awaiting (db_orders s) (so_warehouse_id order) i" if "ot_sales_order_id i = k" for i
    using o assms(3) that by (auto simp: awaiting_def)
  then have "sum_rows (\<lambda>i. ot_product_id i = p) ot_base_quantity (filter (\<lambda>i. ot_sales_order_id i = k) is)
      \<le> sum_rows (\<lambda>i. awaiting (db_orders s) (so_warehouse_id order) i \<and> ot_product_id i = p) ot_base_quantity is"
    if "\<forall>i \<in> set is. 0 < ot_base_quantity i" for "is"
    using that by (induction "is") (auto simp: sum_rows_Cons intro: add_mono)
  from this [OF pos] show ?thesis
    using assms(1) by (simp add: fulfilment_ok_def reserved_for_def shipped_def sum_rows_def)
qed

lemma order_books_accept:
  assumes "books_ok b" "invoice_ok v" "0 < si_subtotal v"
  shows "\<exists>b'. order_booked a order v b b'"
proof -
  have std: "\<forall>l \<in> set (order_journal_lines v). ln_account_code l \<in> fst ` set STANDARD_ACCOUNTS"
    by (auto simp: order_journal_lines_def debit_line_def credit_line_def STANDARD_ACCOUNTS_def)
  have m: "Money (si_grand_total v) = si_grand_total v" "Money (si_subtotal v) = si_subtotal v" "Money (si_tax_total v) = si_tax_total v"
    using assms(2) by (auto simp: invoice_ok_def intro!: Money_id on_grid_add)
  have lines: "pa_lines (order_journal a order v) = order_journal_lines v" by (simp add: order_journal_def)
  have tot: "si_grand_total v = si_subtotal v + si_tax_total v" "0 \<le> si_tax_total v" using assms(2) by (auto simp: invoice_ok_def)
  have "is_ok (post_journal (order_journal a order v) b)"
    unfolding post_journal_succeeds_iff [of "order_journal a order v" b, unfolded lines, OF journals_on_grid(2) std] lines
    using assms(3) tot by (auto simp: order_journal_lines_def debit_line_def credit_line_def m m(1) [unfolded tot(1)])
  then show ?thesis using assms(3) tot by (auto simp: order_booked_def is_ok_iff)
qed


section \<open>An example\<close>

text \<open>The order of two units, shipped on the day it was taken.\<close>

definition order_book where
  "order_book s =
     (map (\<lambda>v. (so_id v, so_organization_id v, so_status v, 0 < so_subtotal v, so_warehouse_id v)) (db_orders s),
      map ot_product_id (db_order_items s), db_invoices s,
      map sb_key (iv_balances (db_inventory s)), map (\<lambda>b. (bt_id b, bt_expiry_date b)) (iv_batches (db_inventory s)))"

lemma ordered_book: "order_book ordered_database 
  = ([(1, 1, CONFIRMED, True, 4)], [7], [], [(4, 7, Some 0)], [(0, Some 700)])"
  by code_simp

lemma ordered_facts:
  "\<exists>order. get_order 1 ordered_database = Some order \<and> so_organization_id order = 1 \<and> so_status order = CONFIRMED
     \<and> 0 < so_subtotal order \<and> so_warehouse_id order = 4 \<and> so_id order = 1"
  "map ot_product_id (db_order_items ordered_database) = [7]" "db_invoices ordered_database = []"
  "unexpired 600 4 7 (db_inventory ordered_database)"
proof -
  let ?i = "db_inventory ordered_database"
  have keys: "map sb_key (iv_balances ?i) = [(4, 7, Some 0)]"
    and batches: "map (\<lambda>b. (bt_id b, bt_expiry_date b)) (iv_batches ?i) = [(0, Some 700)]"
    and orders: "map (\<lambda>v. (so_id v, so_organization_id v, so_status v, 0 < so_subtotal v, so_warehouse_id v))
        (db_orders ordered_database) = [(1, 1, CONFIRMED, True, 4)]"
    using ordered_book by (simp_all add: order_book_def)
  show "\<exists>order. get_order 1 ordered_database = Some order \<and> so_organization_id order = 1 \<and> so_status order = CONFIRMED
     \<and> 0 < so_subtotal order \<and> so_warehouse_id order = 4 \<and> so_id order = 1"
    using orders by (auto simp: get_order_def map_eq_Cons_conv)
  show "map ot_product_id (db_order_items ordered_database) = [7]" "db_invoices ordered_database = []"
    using ordered_book by (simp_all add: order_book_def)
  have "batch_expiry ?i (Some 0) = Some 700" using batches by (auto simp: batch_expiry_def map_eq_Cons_conv)
  moreover have "sb_batch_id b = Some 0" if "b \<in> set (iv_balances ?i)" for b
    using keys that by (auto simp: map_eq_Cons_conv sb_key_def)
  ultimately show "unexpired 600 4 7 ?i" by (simp add: unexpired_def)
qed

definition sample_dispatch :: dispatch_args where
  "sample_dispatch = \<lparr>da_organization_id = 1, da_sales_order_id = 1, da_invoice_date = 600, da_created_by = None,
     da_as_of = Some 600\<rparr>"


end
