(* ===== verification/Histories.thy ===== *)
theory Histories
  imports Documents
begin

text \<open>
  How documents change over time, whatever requests follow: orders move along their states, invoices
  keep everything but what is paid, items stay, and an idempotency key names its first invoice for
  ever. One relation between an earlier and a later database holds all of it; every request keeps it.
\<close>

section \<open>The later state of a document\<close>

inductive order_step :: "sales_order \<Rightarrow> sales_order \<Rightarrow> bool" where
  stays: "order_step v v"
| ships: "so_status v = CONFIRMED \<Longrightarrow> order_step v (v\<lparr>so_status := INVOICED, so_sales_invoice_id := Some i\<rparr>)"

inductive_cases order_stepE: "order_step v v'"

lemma order_step_trans: "order_step u v \<Longrightarrow> order_step v w \<Longrightarrow> order_step u w"
  by (auto elim!: order_stepE intro: order_step.intros)

definition later_invoice :: "sales_invoice \<Rightarrow> sales_invoice \<Rightarrow> bool" where
  "later_invoice v v' \<longleftrightarrow>
     v' = v\<lparr>si_paid_amount := si_paid_amount v', si_payment_status := si_payment_status v'\<rparr>
     \<and> si_paid_amount v \<le> si_paid_amount v'"

lemma later_invoice_refl [simp]: "later_invoice v v"
  by (simp add: later_invoice_def)

lemma later_invoice_sel:
  assumes "later_invoice v v'"
  shows "si_id v' = si_id v" "si_grand_total v' = si_grand_total v"
proof -
  have v': "v' = v\<lparr>si_paid_amount := si_paid_amount v', si_payment_status := si_payment_status v'\<rparr>"
    using assms by (simp add: later_invoice_def)
  show "si_id v' = si_id v" "si_grand_total v' = si_grand_total v" by (subst v', simp)+
qed

lemma later_invoice_trans:
  assumes "later_invoice u v" "later_invoice v w"
  shows "later_invoice u w"
proof -
  have "v = u\<lparr>si_paid_amount := si_paid_amount v, si_payment_status := si_payment_status v\<rparr>"
    and w: "w = v\<lparr>si_paid_amount := si_paid_amount w, si_payment_status := si_payment_status w\<rparr>"
    using assms by (simp_all add: later_invoice_def)
  then have "w = u\<lparr>si_paid_amount := si_paid_amount w, si_payment_status := si_payment_status w\<rparr>"
    by (cases u, cases v, cases w) simp
  then show ?thesis using assms by (auto simp: later_invoice_def)
qed

definition evolves :: "database \<Rightarrow> database \<Rightarrow> bool" where
  "evolves s t \<longleftrightarrow>
     (\<forall>v \<in> set (db_orders s). \<exists>v' \<in> set (db_orders t). order_step v v')
     \<and> (\<forall>v \<in> set (db_invoices s). \<exists>v' \<in> set (db_invoices t). later_invoice v v')
     \<and> (\<exists>items. db_invoice_items t = db_invoice_items s @ items
          \<and> (\<forall>i \<in> set items. ii_sales_invoice_id i \<notin> si_id ` set (db_invoices s)))
     \<and> (\<forall>org k i. idem_lookup org k (db_idempotency s) = Some i \<longrightarrow> idem_lookup org k (db_idempotency t) = Some i)"

text \<open>A request that only adds rows.\<close>

lemma rows_added:
  assumes "set (db_orders s) \<subseteq> set (db_orders t)" "set (db_invoices s) \<subseteq> set (db_invoices t)"
    and "\<exists>items. db_invoice_items t = db_invoice_items s @ items
      \<and> (\<forall>i \<in> set items. ii_sales_invoice_id i \<notin> si_id ` set (db_invoices s))"
    and "\<And>org k i. idem_lookup org k (db_idempotency s) = Some i \<Longrightarrow> idem_lookup org k (db_idempotency t) = Some i"
  shows "evolves s t"
  unfolding evolves_def
proof (intro conjI ballI allI impI)
  show "\<exists>v' \<in> set (db_orders t). order_step v v'" if "v \<in> set (db_orders s)" for v
    using assms(1) that order_step.stays by blast
  show "\<exists>v' \<in> set (db_invoices t). later_invoice v v'" if "v \<in> set (db_invoices s)" for v
    using assms(2) that later_invoice_refl by blast
qed (use assms(3,4) in auto)

lemma evolves_refl: "evolves s s"
  by (rule rows_added) auto

lemma evolves_trans:
  assumes "evolves s t" "evolves t u"
  shows "evolves s u"
  unfolding evolves_def
proof (intro conjI ballI)
  show "\<exists>v' \<in> set (db_orders u). order_step v v'" if "v \<in> set (db_orders s)" for v
    using assms that unfolding evolves_def by (meson order_step_trans)
  show "\<exists>v' \<in> set (db_invoices u). later_invoice v v'" if "v \<in> set (db_invoices s)" for v
    using assms that unfolding evolves_def by (meson later_invoice_trans)
  have "si_id ` set (db_invoices s) \<subseteq> si_id ` set (db_invoices t)"
  proof
    fix i assume "i \<in> si_id ` set (db_invoices s)"
    then obtain v where v: "v \<in> set (db_invoices s)" "i = si_id v" by blast
    then obtain v' where "v' \<in> set (db_invoices t)" "later_invoice v v'" using assms(1) unfolding evolves_def by blast
    then show "i \<in> si_id ` set (db_invoices t)" using v(2) later_invoice_sel(1) by (metis image_eqI)
  qed
  then show "\<exists>items. db_invoice_items u = db_invoice_items s @ items
      \<and> (\<forall>i \<in> set items. ii_sales_invoice_id i \<notin> si_id ` set (db_invoices s))"
  proof -
    obtain xs where xs: "db_invoice_items t = db_invoice_items s @ xs"
        "\<forall>i \<in> set xs. ii_sales_invoice_id i \<notin> si_id ` set (db_invoices s)"
      using assms(1) unfolding evolves_def by blast
    obtain ys where ys: "db_invoice_items u = db_invoice_items t @ ys"
        "\<forall>i \<in> set ys. ii_sales_invoice_id i \<notin> si_id ` set (db_invoices t)"
      using assms(2) unfolding evolves_def by blast
    assume "si_id ` set (db_invoices s) \<subseteq> si_id ` set (db_invoices t)"
    then show ?thesis using xs ys by (intro exI [of _ "xs @ ys"]) auto
  qed
qed (use assms in \<open>auto simp: evolves_def\<close>)

section \<open>Every request moves on\<close>

lemma same_tables_evolve:
  "db_orders t = db_orders s \<Longrightarrow> db_invoices t = db_invoices s \<Longrightarrow> db_invoice_items t = db_invoice_items s \<Longrightarrow>
   db_idempotency t = db_idempotency s \<Longrightarrow> evolves s t"
  by (rule rows_added) auto

lemma sale_evolves:
  assumes "create_retail_invoice a s = Inr (r, t)" "ids_ok s"
  shows "evolves s t"
  using assms
proof (cases rule: create_retail_invoice_cases)
  case replayed
  then show ?thesis by (simp add: evolves_refl)
next
  case (fresh products number q draft priced moves items paid invoice)
  have f: "db_invoices t = db_invoices s @ [invoice]" "db_invoice_items t = db_invoice_items s @ items"
    "db_orders t = db_orders s" by (subst fresh(17), simp)+
  have "idem_lookup org k (db_idempotency t) = Some i" if "idem_lookup org k (db_idempotency s) = Some i" for org k i
    using fresh(16) idem.find_stable [OF _ that] that by (auto simp: sale_keyed_def split: option.splits)
  moreover have "ii_sales_invoice_id i \<notin> si_id ` set (db_invoices s)" if "i \<in> set items" for i
    using that fresh(4,14) assms(2) by (auto simp: draft_invoice_def ids_ok_def)
  ultimately show ?thesis by (intro rows_added) (auto simp: f)
qed

lemma order_evolves:
  assumes "create_order a s = Inr (r, t)" "ids_ok s"
  shows "evolves s t"
  by (rule create_order_cases [OF assms]) (auto intro!: rows_added)

lemma dispatch_evolves:
  assumes "dispatch_and_invoice a s = Inr (r, t)" "ids_ok s"
  shows "evolves s t"
proof (rule dispatch_cases [OF assms])
  fix order number q items v b and invoice :: sales_invoice
  let ?k = "da_sales_order_id a"
  let ?f = "\<lambda>v. v\<lparr>so_status := INVOICED, so_sales_invoice_id := Some (si_id invoice)\<rparr>"
  assume o: "get_order ?k s = Some order" "so_status order = CONFIRMED"
    and inv: "invoice = order_invoice a order number s"
    and t: "t = s\<lparr>db_numbering := q, db_inventory := v, db_invoices := db_invoices s @ [invoice],
      db_invoice_items := db_invoice_items s @ map (dispatched_item (si_id invoice)) items,
      db_order_items := upd_rows (\<lambda>i. ot_sales_order_id i = ?k) (\<lambda>i. i\<lparr>ot_dispatched_quantity := ot_base_quantity i\<rparr>) (db_order_items s),
      db_orders := upd_first (\<lambda>v. so_id v = ?k) ?f (db_orders s), db_books := b, db_next := Suc (db_next s)\<rparr>"
  obtain xs ys where split: "db_orders s = xs @ order # ys" "db_orders t = xs @ ?f order # ys"
    using upd_first_eq_list_update [of "\<lambda>v. so_id v = ?k" "db_orders s" order ?f] o(1) by (auto simp: get_order_def t)
  have "\<forall>v \<in> set (db_orders s). \<exists>v' \<in> set (db_orders t). order_step v v'"
    unfolding split using o(2) order_step.stays order_step.ships by fastforce
  moreover have "db_invoices t = db_invoices s @ [invoice]" "db_idempotency t = db_idempotency s"
    "db_invoice_items t = db_invoice_items s @ map (dispatched_item (si_id invoice)) items" by (simp_all add: t)
  moreover have "ii_sales_invoice_id i \<notin> si_id ` set (db_invoices s)"
    if "i \<in> set (map (dispatched_item (si_id invoice)) items)" for i
    using that assms(2) by (auto simp: dispatched_item_def inv order_invoice_def ids_ok_def)
  ultimately show "evolves s t" using later_invoice_refl unfolding evolves_def by fastforce
qed

text \<open>Settling an invoice changes its paid amount and status only, and pays more.\<close>

lemma settled_later: "invoice_ok v \<Longrightarrow> 0 < x \<Longrightarrow> x \<le> open_amount v \<Longrightarrow> paisa_grid x \<Longrightarrow> later_invoice v (settled_by x v)"
  using settled_by_ok(2) [of v x] by (simp add: later_invoice_def settled_by_def open_amount_def Let_def)

lemma settle_all_later:
  assumes "distinct (map si_id vs)" "\<forall>v \<in> set vs. invoice_ok v" "distinct (map ia_invoice_id als)"
    and "\<forall>al \<in> set als. \<exists>v \<in> set vs. si_id v = ia_invoice_id al \<and> 0 < ia_amount al
      \<and> ia_amount al \<le> open_amount v \<and> paisa_grid (ia_amount al)"
  shows "\<forall>v \<in> set vs. \<exists>v' \<in> set (settle_all als vs). later_invoice v v'"
proof -
  have once: "later_invoice v (fold (\<lambda>al v. if si_id v = ia_invoice_id al then settled_by (ia_amount al) v else v) bs v)"
    if "distinct (map ia_invoice_id bs)" "invoice_ok v" "\<forall>al \<in> set bs. si_id v = ia_invoice_id al \<longrightarrow>
      0 < ia_amount al \<and> ia_amount al \<le> open_amount v \<and> paisa_grid (ia_amount al)" for bs v
  proof -
    have skip: "fold (\<lambda>al v. if si_id v = ia_invoice_id al then settled_by (ia_amount al) v else v) cs w = w"
      if "si_id w \<notin> set (map ia_invoice_id cs)" for cs w
      using that by (induction cs) auto
    show ?thesis
      using that
    proof (induction bs)
      case (Cons b bs)
      then show ?case using skip [of "settled_by (ia_amount b) v" bs] settled_later [of v "ia_amount b"]
        by (cases "si_id v = ia_invoice_id b") auto
    qed simp
  qed
  have "settle_all bs ws = map (fold (\<lambda>al v. if si_id v = ia_invoice_id al then settled_by (ia_amount al) v else v) bs) ws"
    if "distinct (map si_id ws)" for bs ws
    using that
  proof (induction bs arbitrary: ws)
    case (Cons b bs)
    let ?ws = "map (\<lambda>v. if si_id v = ia_invoice_id b then settled_by (ia_amount b) v else v) ws"
    have "upd_first (\<lambda>v. si_id v = ia_invoice_id b) (settled_by (ia_amount b)) ws = ?ws"
      by (rule upd_first_key_map [OF Cons.prems])
    moreover have "map si_id ?ws = map si_id ws" by simp
    then have "distinct (map si_id ?ws)" using Cons.prems by metis
    ultimately show ?case using Cons.IH [of ?ws] by (simp add: settle_all_def comp_def)
  qed (simp add: settle_all_def)
  then have "settle_all als vs = map (fold (\<lambda>al v. if si_id v = ia_invoice_id al then settled_by (ia_amount al) v else v) als) vs"
    using assms(1) by blast
  moreover have "later_invoice v (fold (\<lambda>al v. if si_id v = ia_invoice_id al then settled_by (ia_amount al) v else v) als v)"
    if v: "v \<in> set vs" for v
  proof (rule once [OF assms(3)])
    show "\<forall>al \<in> set als. si_id v = ia_invoice_id al \<longrightarrow>
      0 < ia_amount al \<and> ia_amount al \<le> open_amount v \<and> paisa_grid (ia_amount al)"
      using assms(1,4) v by (metis distinct_map inj_onD)
  qed (use assms(2) v in blast)
  ultimately show ?thesis by auto
qed

lemma payment_evolves:
  assumes "receive_payment a s = Inr (r, t)" "ids_ok s" "\<forall>v \<in> set (db_invoices s). invoice_ok v"
  shows "evolves s t"
proof (rule receive_payment_cases [OF assms])
  fix res :: allocation_result and settled e b
  assume dist: "distinct (map ia_invoice_id (ar_allocations res))"
    and targets: "\<forall>al \<in> set (ar_allocations res). \<exists>v \<in> set (db_invoices s). si_id v = ia_invoice_id al
      \<and> si_organization_id v = ra_organization_id a \<and> si_customer_id v = Some (ra_customer_id a) \<and> 0 < ia_amount al
      \<and> ia_amount al \<le> open_amount v \<and> paisa_grid (ia_amount al)"
    and t: "t = s\<lparr>db_payments := db_payments s @ [receipt_row a s], db_next := Suc (db_next s),
       db_invoices := settle_all (ar_allocations res) (db_invoices s),
       db_payment_allocations := db_payment_allocations s @ map (allocation_row (db_next s)) (ar_allocations res),
       db_books := b\<rparr>"
  have "\<forall>v \<in> set (db_invoices s). \<exists>v' \<in> set (settle_all (ar_allocations res) (db_invoices s)). later_invoice v v'"
    by (rule settle_all_later [OF _ assms(3) dist]) (use assms(2) targets in \<open>auto simp: ids_ok_def\<close>)
  then show "evolves s t" using evolves_refl [of s] by (simp add: evolves_def t)
qed

section \<open>Every history moves on\<close>

lemma execute_evolves:
  assumes "execute c r s = Inr (u, t)" "admissible (snd r)" "database_ok s"
  shows "evolves s t"
proof -
  let ?s = "at_time (fst r) s"
  have run: "run_command c (snd r) ?s = Inr (u, t)" and ok: "database_ok ?s" using assms by (simp_all add: execute_def)
  have "evolves s ?s" by (rule same_tables_evolve) (simp_all add: at_time_def)
  moreover have "evolves ?s t"
  proof (cases "is_sales (snd r)")
    case True
    then show ?thesis
      using run ok
      by (cases "snd r") (auto simp: silent_ok post_order_def dispatch_order_def post_payment_def database_ok_def
          elim!: create_invoice_ok intro: sale_evolves order_evolves dispatch_evolves payment_evolves)
  next
    case False
    then show ?thesis
      using other_commands_beside [OF run _ assms(2)] by (simp add: beside_sales_def sales_tables_def same_tables_evolve)
  qed
  ultimately show ?thesis by (rule evolves_trans)
qed

interpretation history: handler_contract "\<lambda>t. database_ok t \<and> evolves s t" "\<lambda>r. admissible (snd r)" "execute c" for s c
  by unfold_locales (auto dest: execute_keeps execute_evolves intro: evolves_trans)

lemma serve_evolves:
  assumes "database_ok s" "\<forall>r \<in> set rs. admissible (snd r)"
  shows "database_ok (serve (execute c) rs s)" "evolves s (serve (execute c) rs s)"
  using history.serve_keeps [of rs s s c] assms evolves_refl by blast+

text \<open>
  C10: The life of an order. Whatever requests follow, an order keeps its identity, customer, items'
  amounts and totals; its state changes at most from confirmed to invoiced, when its invoice is set;
  a quotation stays a quotation and an invoiced order keeps its invoice for ever.
\<close>

theorem order_lifecycle:
  fixes c :: crypto
  assumes "database_ok s" "\<forall>r \<in> set rs. admissible (snd r)" "v \<in> set (db_orders s)"
  shows "\<exists>v' \<in> set (db_orders (serve (execute c) rs s)). v' = v \<or>
    so_status v = CONFIRMED \<and> (\<exists>i. v' = v\<lparr>so_status := INVOICED, so_sales_invoice_id := Some i\<rparr>)"
proof -
  obtain v' where "v' \<in> set (db_orders (serve (execute c) rs s))" "order_step v v'"
    using serve_evolves(2) [OF assms(1,2)] assms(3) unfolding evolves_def by blast
  then show ?thesis by (auto elim!: order_stepE)
qed

text \<open>
  C11: Finalized invoices are snapshots. Whatever requests follow, price changes among them, every
  invoice keeps its number, customer, lines and totals; only its paid amount and status change, and
  the paid amount never falls.
\<close>

theorem invoices_are_snapshots:
  fixes c :: crypto
  assumes "database_ok s" "\<forall>r \<in> set rs. admissible (snd r)" "v \<in> set (db_invoices s)"
  defines "t \<equiv> serve (execute c) rs s"
  shows "\<exists>v' \<in> set (db_invoices t).
      v' = v\<lparr>si_paid_amount := si_paid_amount v', si_payment_status := si_payment_status v'\<rparr>
      \<and> si_paid_amount v \<le> si_paid_amount v' \<and> si_paid_amount v' \<le> si_grand_total v
      \<and> filter (\<lambda>i. ii_sales_invoice_id i = si_id v) (db_invoice_items t)
          = filter (\<lambda>i. ii_sales_invoice_id i = si_id v) (db_invoice_items s)"
proof -
  obtain v' where v': "v' \<in> set (db_invoices t)" "later_invoice v v'"
    using serve_evolves(2) [OF assms(1,2)] assms(3) unfolding evolves_def t_def by blast
  have "invoice_ok v'" using serve_evolves(1) [OF assms(1,2)] v'(1) by (simp add: database_ok_def t_def)
  then have "si_paid_amount v' \<le> si_grand_total v'" unfolding invoice_ok_def by blast
  moreover obtain items where items: "db_invoice_items t = db_invoice_items s @ items"
      "\<forall>i \<in> set items. ii_sales_invoice_id i \<notin> si_id ` set (db_invoices s)"
    using serve_evolves(2) [OF assms(1,2)] unfolding evolves_def t_def by blast
  have "filter (\<lambda>i. ii_sales_invoice_id i = si_id v) items = []"
    using items(2) assms(3) by (auto simp: filter_empty_conv)
  ultimately show ?thesis using v' later_invoice_sel(2) [OF v'(2)] items(1) by (auto simp: later_invoice_def)
qed

section \<open>Repeated sales\<close>

lemma key_remembered:
  assumes "create_retail_invoice a s = Inr (r, t)" "rs_idempotency_key a = Some k" "ids_ok s"
  shows "idem_lookup (rs_organization_id a) k (db_idempotency t) = Some (sr_invoice_id r)"
    "\<exists>v \<in> set (db_invoices t). si_id v = sr_invoice_id r"
  using assms(1,3)
proof (atomize (full), cases rule: create_retail_invoice_cases)
  case replayed
  then show "idem_lookup (rs_organization_id a) k (db_idempotency t) = Some (sr_invoice_id r)
      \<and> (\<exists>v \<in> set (db_invoices t). si_id v = sr_invoice_id r)"
    using assms(2)
    by (auto simp: replayed_sale_def idem_lookup_def get_invoice_def dest: first_row_Some split: option.splits)
next
  case (fresh products number q draft priced moves items paid invoice)
  have "sr_invoice_id r = si_id draft" "si_id invoice = si_id draft"
    by (simp_all add: fresh(18) fresh(9) fresh(4) draft_invoice_def)
  moreover have "db_invoices t = db_invoices s @ [invoice]" by (subst fresh(17), simp)
  moreover have "idem_lookup (rs_organization_id a) k (db_idempotency t) = Some (si_id draft)"
    using fresh(16) idem.find_store assms(2) by (simp add: sale_keyed_def)
  ultimately show "idem_lookup (rs_organization_id a) k (db_idempotency t) = Some (sr_invoice_id r)
      \<and> (\<exists>v \<in> set (db_invoices t). si_id v = sr_invoice_id r)" by simp
qed

lemma replay_answers:
  assumes "idem_lookup (rs_organization_id b) k (db_idempotency u) = Some i" "\<exists>v \<in> set (db_invoices u). si_id v = i"
    and "rs_idempotency_key b = Some k" "rs_lines b \<noteq> []"
  shows "\<exists>r. create_retail_invoice b u = Inr (r, u) \<and> sr_replayed r \<and> sr_invoice_id r = i"
proof -
  obtain x where x: "idem_find (rs_organization_id b) k (db_idempotency u) = Some x" "ik_entity_id x = i"
    using assms(1) by (auto simp: idem_lookup_def)
  obtain v where "get_invoice i u = Some v"
    using assms(2) first_row_None [of "\<lambda>v. si_id v = i" "db_invoices u"] by (auto simp: get_invoice_def)
  moreover then have "si_id v = i" by (auto simp: get_invoice_def dest: first_row_Some)
  ultimately show ?thesis using x assms(3,4) by (simp add: create_retail_invoice_def replayed_sale_def)
qed

text \<open>
  C9: A repeated sale is not sold twice. Once a sale with an idempotency key has succeeded, every
  later request of the organization with the key, whatever its cart and whatever requests came in
  between, answers with the same invoice, marked as a replay, and changes nothing: no stock, payment,
  journal entry or number.
\<close>

theorem sale_replay_is_safe:
  fixes c :: crypto
  assumes "create_retail_invoice a s = Inr (r, t)" "database_ok s" "payments_ok (rs_payments a)"
    and "rs_idempotency_key a = Some k" "\<forall>x \<in> set rs. admissible (snd x)"
    and "rs_organization_id b = rs_organization_id a" "rs_idempotency_key b = Some k" "rs_lines b \<noteq> []"
  defines "u \<equiv> serve (execute c) rs t"
  shows "\<exists>r'. create_retail_invoice b u = Inr (r', u) \<and> sr_replayed r' \<and> sr_invoice_id r' = sr_invoice_id r"
proof -
  have ids: "ids_ok s" using assms(2) by (simp add: database_ok_def)
  note key = key_remembered [OF assms(1,4) ids]
  have "database_ok t" by (rule sale_keeps [OF assms(1-3)])
  then have ev: "evolves t u" unfolding u_def by (rule serve_evolves(2) [OF _ assms(5)])
  have "idem_lookup (rs_organization_id b) k (db_idempotency u) = Some (sr_invoice_id r)"
    using ev key(1) by (simp add: evolves_def assms(6))
  moreover have "\<exists>v \<in> set (db_invoices u). si_id v = sr_invoice_id r"
    using ev key(2) later_invoice_sel(1) unfolding evolves_def by metis
  ultimately show ?thesis using assms(7,8) by (rule replay_answers)
qed

section \<open>Examples\<close>

text \<open>The order of the dealer is dispatched twice; the sale of the till is sent twice, and a price changes between.\<close>

definition price_rise :: update_product_request where
  "price_rise = \<lparr>ud_name = None, ud_barcode = None, ud_hsn_code = None, ud_retail_price = Some (Some 150),
     ud_wholesale_price = None, ud_mrp = None, ud_gst_rate = None, ud_min_stock = None, ud_is_active = None\<rparr>"

definition sample_morning :: "(timestamp \<times> command) list" where
  "sample_morning =
     [(601 * 86400, EditProduct sample_clerk 7 price_rise), (601 * 86400 + 5, Dispatch 601 sample_clerk 1),
      (601 * 86400 + 9, Dispatch 601 sample_clerk 1)]"

lemma sample_morning_admissible: "\<forall>r \<in> set sample_morning. admissible (snd r)"
  by (simp add: sample_morning_def price_rise_def valid_product_update_def nonneg_field_def)

lemma ordered_row: "\<exists>v. v \<in> set (db_orders ordered_database) \<and> so_id v = 1 \<and> so_grand_total v = 168 \<and> so_status v = CONFIRMED"
proof -
  have "map (\<lambda>v. (so_id v, so_grand_total v, so_status v)) (db_orders ordered_database) = [(1, 168, CONFIRMED)]" by code_simp
  then have "(1, 168, CONFIRMED) \<in> set (map (\<lambda>v. (so_id v, so_grand_total v, so_status v)) (db_orders ordered_database))" by simp
  then show ?thesis by auto
qed

theorem order_lifecycle_witness:
  "\<exists>v' \<in> set (db_orders (serve (execute sample_crypto) sample_morning ordered_database)). so_id v' = 1 \<and> so_grand_total v' = 168"
proof -
  obtain v where v: "v \<in> set (db_orders ordered_database)" "so_id v = 1" "so_grand_total v = 168"
    using ordered_row by blast
  obtain v' where "v' \<in> set (db_orders (serve (execute sample_crypto) sample_morning ordered_database))"
      "so_id v' = so_id v" "so_grand_total v' = so_grand_total v"
    using order_lifecycle [OF ordered_database_ok(1) sample_morning_admissible v(1), of sample_crypto] by fastforce
  then show ?thesis using v(2,3) by auto
qed

lemma shipped_row: "\<exists>v. v \<in> set (db_invoices shipped_database) \<and> si_grand_total v = 168"
proof -
  have "map si_grand_total (db_invoices shipped_database) = [168]" by code_simp
  then have "168 \<in> set (map si_grand_total (db_invoices shipped_database))" by simp
  then show ?thesis by auto
qed

theorem invoices_are_snapshots_witness:
  "\<exists>v \<in> set (db_invoices (serve (execute sample_crypto) sample_morning shipped_database)). si_grand_total v = 168"
proof -
  obtain v where v: "v \<in> set (db_invoices shipped_database)" "si_grand_total v = 168" using shipped_row by blast
  obtain v' where v': "v' \<in> set (db_invoices (serve (execute sample_crypto) sample_morning shipped_database))"
      "v' = v\<lparr>si_paid_amount := si_paid_amount v', si_payment_status := si_payment_status v'\<rparr>"
    using invoices_are_snapshots [OF shipped_database_ok sample_morning_admissible v(1), of sample_crypto] by blast
  have "si_grand_total v' = si_grand_total v" by (subst v'(2)) simp
  then show ?thesis using v' v(2) by auto
qed

text \<open>The second request sells three units instead of two.\<close>

theorem sale_replay_is_safe_witness:
  "\<exists>r t r'. create_invoice 600 sample_clerk (Some ''till-1'') sample_cart stocked_database = Inr (r, t)
     \<and> create_invoice 601 sample_clerk (Some ''till-1'')
         (sample_cart\<lparr>ci_lines := [\<lparr>sl_product_id = 7, sl_base_quantity = 3, sl_discount_percent = 0\<rparr>]\<rparr>)
         (serve (execute sample_crypto) sample_morning t)
       = Inr (r', serve (execute sample_crypto) sample_morning t)
     \<and> sr_replayed r' \<and> sr_invoice_id r' = sr_invoice_id r"
proof (rule sample_sale_service)
  fix a r t
  assume a: "create_retail_invoice a stocked_database = Inr (r, t)" "payments_ok (rs_payments a)"
      "rs_idempotency_key a = Some ''till-1''" "rs_organization_id a = 1"
    and run: "create_invoice 600 sample_clerk (Some ''till-1'') sample_cart stocked_database = Inr (r, t)"
  let ?u = "serve (execute sample_crypto) sample_morning t"
  let ?cart = "sample_cart\<lparr>ci_lines := [\<lparr>sl_product_id = 7, sl_base_quantity = 3, sl_discount_percent = 0\<rparr>]\<rparr>"
  obtain b where b: "create_invoice 601 sample_clerk (Some ''till-1'') ?cart ?u = create_retail_invoice b ?u"
      "rs_organization_id b = 1" "rs_idempotency_key b = Some ''till-1''" "rs_lines b \<noteq> []"
  proof (rule that)
    show "create_invoice 601 sample_clerk (Some ''till-1'') ?cart ?u = create_retail_invoice
        \<lparr>rs_organization_id = 1, rs_warehouse_id = 4, rs_invoice_date = today ?u, rs_lines = ci_lines ?cart,
         rs_payments = ci_payments ?cart, rs_customer_id = Some 5, rs_branch_id = default_branch_id sample_clerk,
         rs_created_by = Some 3, rs_idempotency_key = Some ''till-1'', rs_as_of = Some 601\<rparr> ?u"
      by (simp add: create_invoice_def require_permission_def has_permission_def sample_clerk_def sample_cart_def)
  qed (simp_all add: sample_cart_def)
  have "rs_organization_id b = rs_organization_id a" using a(4) b(2) by simp
  from sale_replay_is_safe [OF a(1) stocked_database_ok(1) a(2,3) sample_morning_admissible this b(3,4), of sample_crypto]
  show ?thesis using run b(1) by auto
qed

end
