(* ===== verification/Registers.thy ===== *)
theory Registers
  imports Catalogue Wholesale Purchases
begin

text \<open>
  The listing endpoints of the trading modules: the invoice and order registers of
  \<open>app/modules/sales/api.py\<close> and \<open>wholesale_api.py\<close>, the receivables and payment listings of
  \<open>collections/api.py\<close>, the stock, movement and batch listings of \<open>inventory/api.py\<close>, and the journal
  register and customer statement of \<open>accounting/api.py\<close>. All of them read the database and change
  nothing; joins, filters, grouping and order are written out over the tables.
\<close>

section \<open>Joins\<close>

text \<open>Outer joins on nullable keys: the customer's and the actor's name, when there is one.\<close>

definition customer_name :: "database \<Rightarrow> uuid option \<Rightarrow> string option" where
  "customer_name s i = Option.bind i (\<lambda>c. map_option cs_name (get_customer c s))"

definition actor_name :: "database \<Rightarrow> uuid option \<Rightarrow> string option" where
  "actor_name s i = Option.bind i (\<lambda>u. map_option us_full_name (get_user u (db_identity s)))"

definition warehouse_name :: "database \<Rightarrow> uuid \<Rightarrow> string option" where
  "warehouse_name s i = map_option wh_name (warehouse_row i s)"

text \<open>\<open>func.date\<close> of a timestamp in an optional period.\<close>

definition within_days :: "date option \<Rightarrow> date option \<Rightarrow> timestamp \<Rightarrow> bool" where
  "within_days date_from date_to t = in_period date_from date_to (utc_date t)"

section \<open>Invoices\<close>

record invoice_list_item =
  vl_id :: uuid
  vl_invoice_number :: string
  vl_invoice_date :: date
  vl_channel :: sale_channel
  vl_customer_name :: "string option"
  vl_warehouse_name :: string
  vl_grand_total :: decimal
  vl_paid_amount :: decimal
  vl_outstanding :: decimal
  vl_payment_status :: payment_status
  vl_created_by_name :: "string option"

text \<open>The row of the query, which has no result when the inner join finds no warehouse.\<close>

definition to_list_item :: "database \<Rightarrow> sales_invoice \<Rightarrow> invoice_list_item option" where
  "to_list_item s invoice =
     map_option (\<lambda>w. \<lparr>vl_id = si_id invoice, vl_invoice_number = si_invoice_number invoice,
        vl_invoice_date = si_invoice_date invoice, vl_channel = si_channel invoice,
        vl_customer_name = customer_name s (si_customer_id invoice), vl_warehouse_name = w,
        vl_grand_total = si_grand_total invoice, vl_paid_amount = si_paid_amount invoice,
        vl_outstanding = si_grand_total invoice - si_paid_amount invoice,
        vl_payment_status = si_payment_status invoice, vl_created_by_name = actor_name s (si_created_by invoice)\<rparr>)
     (warehouse_name s (si_warehouse_id invoice))"

record invoice_filter =
  vf_channel :: "sale_channel option"
  vf_customer_id :: "uuid option"
  vf_payment_status :: "payment_status option"
  vf_date_from :: "date option"
  vf_date_to :: "date option"
  vf_search :: "string option"

definition invoice_matches ::
  "(string \<Rightarrow> string \<Rightarrow> bool) \<Rightarrow> invoice_filter \<Rightarrow> uuid \<Rightarrow> sales_invoice \<Rightarrow> bool" where
  "invoice_matches ilike f organization_id v \<longleftrightarrow>
     si_organization_id v = organization_id
     \<and> given (vf_channel f) (\<lambda>c. si_channel v = c)
     \<and> given (vf_customer_id f) (\<lambda>c. si_customer_id v = Some c)
     \<and> given (vf_payment_status f) (\<lambda>p. si_payment_status v = p)
     \<and> in_period (vf_date_from f) (vf_date_to f) (si_invoice_date v)
     \<and> searched ilike (vf_search f) (si_invoice_number v)"

definition invoice_rows ::
  "(string \<Rightarrow> string \<Rightarrow> bool) \<Rightarrow> invoice_filter \<Rightarrow> uuid \<Rightarrow> database \<Rightarrow> invoice_list_item list" where
  "invoice_rows ilike f organization_id s =
     List.map_filter (to_list_item s)
       (newest_first si_invoice_date (filter (invoice_matches ilike f organization_id) (db_invoices s)))"

text \<open>The page, with the value of all the rows of the query.\<close>

definition list_invoices ::
  "(string \<Rightarrow> string \<Rightarrow> bool) \<Rightarrow> current_user \<Rightarrow> invoice_filter \<Rightarrow> nat \<Rightarrow> nat \<Rightarrow> database
     \<Rightarrow> (invoice_list_item page \<times> decimal) res" where
  "list_invoices ilike user f limit offset s =
     res_bind (require_permission ''sales.create'' user) (\<lambda>user.
     let rows = invoice_rows ilike f (cu_organization_id user) s
     in Inr (page_of limit offset rows, \<Sum>r\<leftarrow>rows. vl_grand_total r))"

record invoice_item_out =
  vo_product_id :: uuid
  vo_product_name :: string
  vo_sku :: string
  vo_hsn_code :: "string option"
  vo_unit_code :: string
  vo_base_quantity :: decimal
  vo_unit_price :: decimal
  vo_price_source :: price_source
  vo_discount_amount :: decimal
  vo_taxable_value :: decimal
  vo_gst_rate :: decimal
  vo_tax_amount :: decimal
  vo_line_total :: decimal

record invoice_payment_out =
  vp_method :: payment_method
  vp_amount :: decimal
  vp_reference :: "string option"

record invoice_detail =
  vd_head :: invoice_list_item
  vd_subtotal :: decimal
  vd_discount_total :: decimal
  vd_tax_total :: decimal
  vd_customer_id :: "uuid option"
  vd_customer_phone :: "string option"
  vd_customer_gstin :: "string option"
  vd_customer_address :: "string option"
  vd_customer_village :: "string option"
  vd_items :: "invoice_item_out list"
  vd_payments :: "invoice_payment_out list"

definition to_invoice_item_out :: "database \<Rightarrow> sales_invoice_item \<Rightarrow> invoice_item_out option" where
  "to_invoice_item_out s item =
     (case get_product (ii_product_id item) (db_products s) of
        None \<Rightarrow> None
      | Some p \<Rightarrow> map_option (\<lambda>u.
          \<lparr>vo_product_id = ii_product_id item, vo_product_name = pd_name p, vo_sku = pd_sku p,
           vo_hsn_code = pd_hsn_code p, vo_unit_code = u, vo_base_quantity = ii_base_quantity item,
           vo_unit_price = ii_unit_price item, vo_price_source = ii_price_source item,
           vo_discount_amount = ii_discount_amount item, vo_taxable_value = ii_taxable_value item,
           vo_gst_rate = ii_gst_rate item, vo_tax_amount = ii_tax_amount item,
           vo_line_total = ii_line_total item\<rparr>) (unit_code s p))"

text \<open>
  The items of one invoice are inserted in one transaction, whose rows share the time of their
  creation; the query's order leaves them as the table has them. The payments are in the order of
  their receipt.
\<close>

definition invoice_payments :: "database \<Rightarrow> uuid \<Rightarrow> invoice_payment_out list" where
  "invoice_payments s invoice_id =
     map (\<lambda>(p, l). \<lparr>vp_method = py_method p, vp_amount = pl_amount l, vp_reference = py_reference p\<rparr>)
       (sort_key (\<lambda>(p, l). py_received_at p)
         (List.map_filter (\<lambda>l. map_option (\<lambda>p. (p, l)) (first_row (\<lambda>p. py_id p = pl_payment_id l) (db_payments s)))
           (filter (\<lambda>l. pl_sales_invoice_id l = Some invoice_id) (db_payment_allocations s))))"

definition show_invoice :: "current_user \<Rightarrow> uuid \<Rightarrow> database \<Rightarrow> invoice_detail res" where
  "show_invoice user invoice_id s =
     res_bind (require_permission ''sales.create'' user) (\<lambda>user.
     case first_row (\<lambda>v. si_id v = invoice_id \<and> si_organization_id v = cu_organization_id user) (db_invoices s) of
       None \<Rightarrow> Inl not_found
     | Some invoice \<Rightarrow> (case to_list_item s invoice of
         None \<Rightarrow> Inl not_found
       | Some head \<Rightarrow>
           let buyer = Option.bind (si_customer_id invoice) (\<lambda>c. get_customer c s)
           in Inr \<lparr>vd_head = head, vd_subtotal = si_subtotal invoice, vd_discount_total = si_discount_total invoice,
                vd_tax_total = si_tax_total invoice, vd_customer_id = si_customer_id invoice,
                vd_customer_phone = Option.bind buyer cs_phone, vd_customer_gstin = Option.bind buyer cs_gstin,
                vd_customer_address = Option.bind buyer cs_address, vd_customer_village = Option.bind buyer cs_village,
                vd_items = List.map_filter (to_invoice_item_out s)
                  (filter (\<lambda>i. ii_sales_invoice_id i = si_id invoice) (db_invoice_items s)),
                vd_payments = invoice_payments s (si_id invoice)\<rparr>))"

section \<open>Orders\<close>

record order_list_item =
  ol_id :: uuid
  ol_order_number :: string
  ol_order_date :: date
  ol_status :: sales_order_status
  ol_customer_id :: uuid
  ol_customer_name :: string
  ol_warehouse_name :: string
  ol_grand_total :: decimal
  ol_credit_override_approved :: bool
  ol_sales_invoice_id :: "uuid option"

definition to_order_list_item :: "database \<Rightarrow> sales_order \<Rightarrow> order_list_item option" where
  "to_order_list_item s order =
     (case (get_customer (so_customer_id order) s, warehouse_name s (so_warehouse_id order)) of
        (Some c, Some w) \<Rightarrow> Some
          \<lparr>ol_id = so_id order, ol_order_number = so_order_number order, ol_order_date = so_order_date order,
           ol_status = so_status order, ol_customer_id = so_customer_id order, ol_customer_name = cs_name c,
           ol_warehouse_name = w, ol_grand_total = so_grand_total order,
           ol_credit_override_approved = so_credit_override_approved order,
           ol_sales_invoice_id = so_sales_invoice_id order\<rparr>
      | _ \<Rightarrow> None)"

definition OPEN_ORDER_STATUSES :: "sales_order_status list" where
  "OPEN_ORDER_STATUSES = [QUOTATION, CONFIRMED, PARTIALLY_DISPATCHED]"

record order_filter =
  of_status :: "sales_order_status option"
  of_customer_id :: "uuid option"
  of_search :: "string option"

definition order_rows ::
  "(string \<Rightarrow> string \<Rightarrow> bool) \<Rightarrow> order_filter \<Rightarrow> uuid \<Rightarrow> database \<Rightarrow> order_list_item list" where
  "order_rows ilike f organization_id s =
     List.map_filter (to_order_list_item s) (newest_first so_order_date
       (filter (\<lambda>v. so_organization_id v = organization_id \<and> given (of_status f) (\<lambda>x. so_status v = x)
          \<and> given (of_customer_id f) (\<lambda>c. so_customer_id v = c) \<and> searched ilike (of_search f) (so_order_number v))
        (db_orders s)))"

text \<open>The value of the open orders is that of all of them, whatever the filters.\<close>

definition list_orders ::
  "(string \<Rightarrow> string \<Rightarrow> bool) \<Rightarrow> current_user \<Rightarrow> order_filter \<Rightarrow> nat \<Rightarrow> nat \<Rightarrow> database
     \<Rightarrow> (order_list_item page \<times> decimal) res" where
  "list_orders ilike user f limit offset s =
     res_bind (require_permission ''sales.create'' user) (\<lambda>user.
     Inr (page_of limit offset (order_rows ilike f (cu_organization_id user) s),
          sum_rows (\<lambda>v. so_organization_id v = cu_organization_id user \<and> so_status v \<in> set OPEN_ORDER_STATUSES)
            so_grand_total (db_orders s)))"

record order_item_out =
  oo_product_id :: uuid
  oo_product_name :: string
  oo_sku :: string
  oo_base_quantity :: decimal
  oo_reserved_quantity :: decimal
  oo_dispatched_quantity :: decimal
  oo_unit_price :: decimal
  oo_price_source :: price_source
  oo_taxable_value :: decimal
  oo_gst_rate :: decimal
  oo_tax_amount :: decimal
  oo_line_total :: decimal

definition to_order_item_out :: "database \<Rightarrow> sales_order_item \<Rightarrow> order_item_out option" where
  "to_order_item_out s item =
     map_option (\<lambda>p. \<lparr>oo_product_id = ot_product_id item, oo_product_name = pd_name p, oo_sku = pd_sku p,
        oo_base_quantity = ot_base_quantity item, oo_reserved_quantity = ot_reserved_quantity item,
        oo_dispatched_quantity = ot_dispatched_quantity item, oo_unit_price = ot_unit_price item,
        oo_price_source = ot_price_source item, oo_taxable_value = ot_taxable_value item,
        oo_gst_rate = ot_gst_rate item, oo_tax_amount = ot_tax_amount item, oo_line_total = ot_line_total item\<rparr>)
     (get_product (ot_product_id item) (db_products s))"

record order_detail =
  od_head :: order_list_item
  od_subtotal :: decimal
  od_tax_total :: decimal
  od_items :: "order_item_out list"

definition show_order :: "current_user \<Rightarrow> uuid \<Rightarrow> database \<Rightarrow> order_detail res" where
  "show_order user sales_order_id s =
     res_bind (require_permission ''sales.create'' user) (\<lambda>user.
     case first_row (\<lambda>v. so_id v = sales_order_id \<and> so_organization_id v = cu_organization_id user) (db_orders s) of
       None \<Rightarrow> Inl not_found
     | Some order \<Rightarrow> (case to_order_list_item s order of
         None \<Rightarrow> Inl not_found
       | Some head \<Rightarrow> Inr
           \<lparr>od_head = head, od_subtotal = so_subtotal order, od_tax_total = so_tax_total order,
            od_items = List.map_filter (to_order_item_out s)
              (filter (\<lambda>i. ot_sales_order_id i = so_id order) (db_order_items s))\<rparr>))"

end
