(* ===== verification/Statements.thy ===== *)
theory Statements
  imports Registers
begin

text \<open>
  The other listing endpoints: receivables and payments of \<open>app/modules/collections/api.py\<close>, stock
  levels, the stock ledger and batches of \<open>inventory/api.py\<close>, the journal register and the customer
  statement of \<open>accounting/api.py\<close>. The last section shows what the totals of the statements are.
\<close>

section \<open>Receivables\<close>

record receivables_row =
  rr_customer_id :: uuid
  rr_customer_name :: string
  rr_customer_code :: string
  rr_phone :: "string option"
  rr_open_invoices :: nat
  rr_outstanding :: decimal
  rr_oldest_invoice_date :: date
  rr_days_overdue :: int

text \<open>The open invoices that the join finds for a customer, whatever organization issued them.\<close>

definition customer_open :: "database \<Rightarrow> customer \<Rightarrow> sales_invoice list" where
  "customer_open s c =
     filter (\<lambda>v. si_customer_id v = Some (cs_id c) \<and> si_payment_status v \<noteq> PAID) (db_invoices s)"

definition owed :: "database \<Rightarrow> customer \<Rightarrow> decimal" where
  "owed s c = (\<Sum>v\<leftarrow>customer_open s c. si_grand_total v - si_paid_amount v)"

definition receivables_row_of :: "date \<Rightarrow> database \<Rightarrow> customer \<Rightarrow> receivables_row" where
  "receivables_row_of day s c =
     (let oldest = Min (set (map si_invoice_date (customer_open s c)))
      in \<lparr>rr_customer_id = cs_id c, rr_customer_name = cs_name c, rr_customer_code = cs_code c,
          rr_phone = cs_phone c, rr_open_invoices = length (customer_open s c), rr_outstanding = Money (owed s c),
          rr_oldest_invoice_date = oldest, rr_days_overdue = day - oldest\<rparr>)"

text \<open>The grouped query with its \<open>HAVING\<close>, largest debt first; a group is never empty.\<close>

definition debtors :: "uuid \<Rightarrow> database \<Rightarrow> customer list" where
  "debtors organization_id s =
     sort_key (\<lambda>c. - owed s c)
       (filter (\<lambda>c. cs_organization_id c = organization_id \<and> 0 < owed s c) (db_customers s))"

definition receivables_listing :: "current_user \<Rightarrow> database \<Rightarrow> (receivables_row list \<times> decimal) res" where
  "receivables_listing user s =
     res_bind (require_permission ''payment.receive'' user) (\<lambda>user.
     let rows = map (receivables_row_of (today s) s) (debtors (cu_organization_id user) s)
     in Inr (rows, foldl (\<lambda>t r. Money (t + rr_outstanding r)) 0 rows))"

section \<open>Payments\<close>

record payment_out =
  px_id :: uuid
  px_received_at :: timestamp
  px_customer_id :: "uuid option"
  px_customer_name :: "string option"
  px_method :: payment_method
  px_amount :: decimal
  px_reference :: "string option"
  px_received_by :: "string option"

definition to_payment_out :: "database \<Rightarrow> payment \<Rightarrow> payment_out" where
  "to_payment_out s p =
     \<lparr>px_id = py_id p, px_received_at = py_received_at p, px_customer_id = py_customer_id p,
      px_customer_name = customer_name s (py_customer_id p), px_method = py_method p, px_amount = py_amount p,
      px_reference = py_reference p, px_received_by = actor_name s (py_created_by p)\<rparr>"

definition inbound_payments ::
  "uuid option \<Rightarrow> date option \<Rightarrow> date option \<Rightarrow> uuid \<Rightarrow> database \<Rightarrow> payment list" where
  "inbound_payments customer_id date_from date_to organization_id s =
     filter (\<lambda>p. py_organization_id p = organization_id \<and> py_direction p = INBOUND
        \<and> given customer_id (\<lambda>c. py_customer_id p = Some c) \<and> within_days date_from date_to (py_received_at p))
     (db_payments s)"

definition list_payments ::
  "current_user \<Rightarrow> uuid option \<Rightarrow> date option \<Rightarrow> date option \<Rightarrow> nat \<Rightarrow> nat \<Rightarrow> database
     \<Rightarrow> (payment_out page \<times> decimal) res" where
  "list_payments user customer_id date_from date_to limit offset s =
     res_bind (require_permission ''payment.receive'' user) (\<lambda>user.
     let rows = newest_first py_received_at
                  (inbound_payments customer_id date_from date_to (cu_organization_id user) s)
     in Inr (page_of limit offset (map (to_payment_out s) rows), \<Sum>p\<leftarrow>rows. py_amount p))"

section \<open>Stock levels\<close>

record stock_row_out =
  sx_product_id :: uuid
  sx_product_name :: string
  sx_sku :: string
  sx_unit_code :: string
  sx_warehouse_id :: uuid
  sx_warehouse_name :: string
  sx_on_hand :: decimal
  sx_reserved :: decimal
  sx_available :: decimal
  sx_min_stock :: decimal
  sx_is_low :: bool

text \<open>
  The grouped query: one row for each product and warehouse that the organization has a balance of,
  with the batches summed.
\<close>

definition stock_row :: "uuid \<Rightarrow> database \<Rightarrow> uuid \<times> uuid \<Rightarrow> stock_row_out option" where
  "stock_row organization_id s k =
     (case k of (p, w) \<Rightarrow>
       let mine = (\<lambda>b. sb_organization_id b = organization_id \<and> sb_product_id b = p \<and> sb_warehouse_id b = w);
           on_hand = sum_rows mine sb_on_hand (iv_balances (db_inventory s));
           reserved = sum_rows mine sb_reserved (iv_balances (db_inventory s))
       in (case (get_product p (db_products s), warehouse_name s w) of
             (Some product, Some warehouse) \<Rightarrow> map_option (\<lambda>u.
               \<lparr>sx_product_id = p, sx_product_name = pd_name product, sx_sku = pd_sku product, sx_unit_code = u,
                sx_warehouse_id = w, sx_warehouse_name = warehouse, sx_on_hand = on_hand, sx_reserved = reserved,
                sx_available = on_hand - reserved, sx_min_stock = pd_min_stock product,
                sx_is_low = (0 < pd_min_stock product \<and> on_hand < pd_min_stock product)\<rparr>) (unit_code s product)
           | _ \<Rightarrow> None))"

definition stock_rows ::
  "(string \<Rightarrow> string \<Rightarrow> bool) \<Rightarrow> uuid option \<Rightarrow> string option \<Rightarrow> bool \<Rightarrow> uuid \<Rightarrow> database \<Rightarrow> stock_row_out list" where
  "stock_rows ilike warehouse_id search low_only organization_id s =
     filter (\<lambda>r. (searched ilike search (sx_product_name r) \<or> searched ilike search (sx_sku r))
        \<and> (low_only \<longrightarrow> sx_on_hand r < sx_min_stock r))
     (List.map_filter (stock_row organization_id s)
       (remdups (map (\<lambda>b. (sb_product_id b, sb_warehouse_id b))
         (filter (\<lambda>b. sb_organization_id b = organization_id \<and> given warehouse_id (\<lambda>w. sb_warehouse_id b = w))
           (iv_balances (db_inventory s))))))"

definition list_stock ::
  "(string \<Rightarrow> string \<Rightarrow> bool) \<Rightarrow> (string \<Rightarrow> string) \<Rightarrow> current_user \<Rightarrow> uuid option \<Rightarrow> string option \<Rightarrow> bool
     \<Rightarrow> nat \<Rightarrow> nat \<Rightarrow> database \<Rightarrow> stock_row_out page res" where
  "list_stock ilike collate user warehouse_id search low_only limit offset s =
     res_bind (require_permission ''inventory.view'' user) (\<lambda>user.
     Inr (page_of limit offset (sort_key (\<lambda>r. (collate (sx_product_name r), collate (sx_warehouse_name r)))
       (stock_rows ilike warehouse_id search low_only (cu_organization_id user) s))))"

section \<open>The stock ledger\<close>

record movement_out =
  mx_movement :: stock_movement
  mx_product_name :: string
  mx_sku :: string
  mx_warehouse_name :: string
  mx_batch_number :: "string option"
  mx_actor_name :: "string option"

definition batch_row :: "uuid \<Rightarrow> database \<Rightarrow> batch option" where
  "batch_row i s = first_row (\<lambda>b. bt_id b = i) (iv_batches (db_inventory s))"

definition to_movement_out :: "database \<Rightarrow> stock_movement \<Rightarrow> movement_out option" where
  "to_movement_out s m =
     (case (get_product (mv_product_id m) (db_products s), warehouse_name s (mv_warehouse_id m)) of
        (Some p, Some w) \<Rightarrow> Some
          \<lparr>mx_movement = m, mx_product_name = pd_name p, mx_sku = pd_sku p, mx_warehouse_name = w,
           mx_batch_number = Option.bind (mv_batch_id m) (\<lambda>b. map_option bt_batch_number (batch_row b s)),
           mx_actor_name = actor_name s (mv_created_by m)\<rparr>
      | _ \<Rightarrow> None)"

record movement_filter =
  mf_product_id :: "uuid option"
  mf_warehouse_id :: "uuid option"
  mf_movement_type :: "movement_type option"
  mf_date_from :: "date option"
  mf_date_to :: "date option"

definition list_movements ::
  "current_user \<Rightarrow> movement_filter \<Rightarrow> nat \<Rightarrow> nat \<Rightarrow> database \<Rightarrow> movement_out page res" where
  "list_movements user f limit offset s =
     res_bind (require_permission ''inventory.view'' user) (\<lambda>user.
     Inr (page_of limit offset (List.map_filter (to_movement_out s) (newest_first mv_created_at
       (filter (\<lambda>m. mv_organization_id m = cu_organization_id user
          \<and> given (mf_product_id f) (\<lambda>p. mv_product_id m = p) \<and> given (mf_warehouse_id f) (\<lambda>w. mv_warehouse_id m = w)
          \<and> given (mf_movement_type f) (\<lambda>t. mv_movement_type m = t)
          \<and> within_days (mf_date_from f) (mf_date_to f) (mv_created_at m)) (iv_movements (db_inventory s)))))))"

section \<open>Batches\<close>

record batch_row_out =
  bx_batch_id :: uuid
  bx_batch_number :: string
  bx_product_id :: uuid
  bx_product_name :: string
  bx_warehouse_id :: uuid
  bx_warehouse_name :: string
  bx_expiry_date :: "date option"
  bx_days_to_expiry :: "int option"
  bx_on_hand :: decimal
  bx_reserved :: decimal
  bx_available :: decimal
  bx_is_expired :: bool

definition to_batch_row_out :: "database \<Rightarrow> stock_balance \<Rightarrow> batch_row_out option" where
  "to_batch_row_out s b =
     (case (Option.bind (sb_batch_id b) (\<lambda>i. batch_row i s), get_product (sb_product_id b) (db_products s),
            warehouse_name s (sb_warehouse_id b)) of
        (Some batch, Some p, Some w) \<Rightarrow>
          let days = map_option (\<lambda>e. e - today s) (bt_expiry_date batch)
          in Some \<lparr>bx_batch_id = bt_id batch, bx_batch_number = bt_batch_number batch, bx_product_id = sb_product_id b,
               bx_product_name = pd_name p, bx_warehouse_id = sb_warehouse_id b, bx_warehouse_name = w,
               bx_expiry_date = bt_expiry_date batch, bx_days_to_expiry = days, bx_on_hand = sb_on_hand b,
               bx_reserved = sb_reserved b, bx_available = sb_on_hand b - sb_reserved b,
               bx_is_expired = (case days of None \<Rightarrow> False | Some d \<Rightarrow> d < 0)\<rparr>
      | _ \<Rightarrow> None)"

text \<open>\<open>order_by(Batch.expiry_date.asc().nulls_last())\<close>.\<close>

definition expiry_key :: "batch_row_out \<Rightarrow> bool \<times> date" where
  "expiry_key r = (case bx_expiry_date r of None \<Rightarrow> (True, 0) | Some d \<Rightarrow> (False, d))"

definition list_batches ::
  "current_user \<Rightarrow> uuid option \<Rightarrow> uuid option \<Rightarrow> int option \<Rightarrow> nat \<Rightarrow> database \<Rightarrow> batch_row_out list res" where
  "list_batches user product_id warehouse_id expiring_within_days limit s =
     res_bind (require_permission ''inventory.view'' user) (\<lambda>user.
     Inr (take limit (sort_key expiry_key
       (filter (\<lambda>r. given expiring_within_days (\<lambda>n. case bx_expiry_date r of None \<Rightarrow> False | Some d \<Rightarrow> d \<le> today s + n))
         (List.map_filter (to_batch_row_out s)
           (filter (\<lambda>b. sb_organization_id b = cu_organization_id user \<and> 0 < sb_on_hand b
              \<and> given product_id (\<lambda>p. sb_product_id b = p) \<and> given warehouse_id (\<lambda>w. sb_warehouse_id b = w))
            (iv_balances (db_inventory s))))))))"

section \<open>The journal register\<close>

record journal_line_out =
  jo_account_code :: string
  jo_account_name :: string
  jo_debit :: decimal
  jo_credit :: decimal

record journal_entry_out =
  je_out_entry :: journal_entry
  je_out_total :: decimal
  je_out_lines :: "journal_line_out list"

definition to_journal_line_out :: "books \<Rightarrow> journal_entry_line \<Rightarrow> journal_line_out option" where
  "to_journal_line_out s l =
     map_option (\<lambda>a. \<lparr>jo_account_code = ac_code a, jo_account_name = ac_name a, jo_debit = jl_debit l,
         jo_credit = jl_credit l\<rparr>)
     (first_row (\<lambda>a. ac_id a = jl_account_id l) (bk_accounts s))"

text \<open>The lines of an entry are collected in the order of the query, and the total is that of their debits.\<close>

definition to_journal_entry_out :: "books \<Rightarrow> journal_entry \<Rightarrow> journal_entry_out" where
  "to_journal_entry_out s e =
     (let lines = List.map_filter (to_journal_line_out s) (filter (\<lambda>l. jl_entry_id l = je_id e) (bk_lines s))
      in \<lparr>je_out_entry = e, je_out_total = foldl (\<lambda>t l. Money (t + jo_debit l)) 0 lines, je_out_lines = lines\<rparr>)"

definition list_journals ::
  "current_user \<Rightarrow> date option \<Rightarrow> date option \<Rightarrow> nat \<Rightarrow> nat \<Rightarrow> books \<Rightarrow> journal_entry_out page res" where
  "list_journals user date_from date_to limit offset s =
     res_bind (require_permission ''report.view_profit'' user) (\<lambda>user.
     Inr (page_of limit offset (map (to_journal_entry_out s) (newest_first je_entry_date
       (filter (\<lambda>e. je_organization_id e = cu_organization_id user \<and> in_period date_from date_to (je_entry_date e))
         (bk_entries s))))))"

section \<open>The customer statement\<close>

datatype ledger_kind = INVOICE_ROW | PAYMENT_ROW

record ledger_row =
  lr_entry_date :: date
  lr_kind :: ledger_kind
  lr_reference :: string
  lr_debit :: decimal
  lr_credit :: decimal
  lr_running_balance :: decimal

record customer_statement =
  st_customer_id :: uuid
  st_customer_name :: string
  st_opening_balance :: decimal
  st_rows :: "ledger_row list"
  st_closing_balance :: decimal
  st_credit_limit :: decimal
  st_available_credit :: decimal

text \<open>\<open>method.value.upper()\<close>.\<close>

fun method_label :: "payment_method \<Rightarrow> string" where
  "method_label CASH = ''CASH''"
| "method_label UPI = ''UPI''"
| "method_label CARD = ''CARD''"
| "method_label BANK_TRANSFER = ''BANK_TRANSFER''"
| "method_label CHEQUE = ''CHEQUE''"
| "method_label ON_CREDIT = ''CREDIT''"
| "method_label ADVANCE = ''ADVANCE''"

text \<open>\<open>pay.reference or pay.method.value.upper()\<close>: an empty reference counts as none.\<close>

definition payment_reference :: "payment \<Rightarrow> string" where
  "payment_reference p = (case py_reference p of None \<Rightarrow> method_label (py_method p)
     | Some r \<Rightarrow> if r = [] then method_label (py_method p) else r)"

type_synonym ledger_event = "date \<times> ledger_kind \<times> string \<times> decimal \<times> decimal"

definition invoice_event :: "sales_invoice \<Rightarrow> ledger_event" where
  "invoice_event v = (si_invoice_date v, INVOICE_ROW, si_invoice_number v, si_grand_total v, 0)"

definition payment_event :: "payment \<Rightarrow> ledger_event" where
  "payment_event p = (utc_date (py_received_at p), PAYMENT_ROW, payment_reference p, 0, py_amount p)"

text \<open>The sort key \<open>(e[0], e[1])\<close>: of one day, \<open>"invoice"\<close> comes before \<open>"payment"\<close>.\<close>

definition event_key :: "ledger_event \<Rightarrow> date \<times> bool" where
  "event_key e = (fst e, fst (snd e) = PAYMENT_ROW)"

fun ledger_rows :: "decimal \<Rightarrow> ledger_event list \<Rightarrow> ledger_row list \<times> decimal" where
  "ledger_rows balance [] = ([], balance)"
| "ledger_rows balance ((d, kind, reference, debit, credit) # es) =
     (let b = Money (balance + debit - credit); (rows, closing) = ledger_rows b es
      in (\<lparr>lr_entry_date = d, lr_kind = kind, lr_reference = reference, lr_debit = Money debit,
           lr_credit = Money credit, lr_running_balance = b\<rparr> # rows, closing))"

definition customer_events ::
  "uuid \<Rightarrow> uuid \<Rightarrow> date option \<Rightarrow> date option \<Rightarrow> database \<Rightarrow> ledger_event list" where
  "customer_events organization_id customer_id date_from date_to s =
     sort_key event_key
       (map invoice_event (filter (\<lambda>v. si_organization_id v = organization_id \<and> si_customer_id v = Some customer_id
          \<and> in_period date_from date_to (si_invoice_date v)) (db_invoices s))
        @ map payment_event (inbound_payments (Some customer_id) date_from date_to organization_id s))"

definition customer_ledger ::
  "current_user \<Rightarrow> uuid \<Rightarrow> date option \<Rightarrow> date option \<Rightarrow> database \<Rightarrow> customer_statement res" where
  "customer_ledger user customer_id date_from date_to s =
     res_bind (require_permission ''customer.view'' user) (\<lambda>user.
     case get_customer customer_id s of
       None \<Rightarrow> Inl not_found
     | Some customer \<Rightarrow>
     if cs_organization_id customer \<noteq> cu_organization_id user then Inl not_found
     else let (rows, balance) = ledger_rows (cs_opening_balance customer)
                (customer_events (cu_organization_id user) customer_id date_from date_to s)
     in Inr \<lparr>st_customer_id = cs_id customer, st_customer_name = cs_name customer,
          st_opening_balance = Money (cs_opening_balance customer), st_rows = rows, st_closing_balance = balance,
          st_credit_limit = cs_credit_limit customer,
          st_available_credit = Money (cs_credit_limit customer - balance)\<rparr>)"

end
