(* ===== verification/Reports.thy ===== *)
theory Reports
  imports Statements
begin

text \<open>
  Reports, \<open>app/modules/reports/service.py\<close> and the endpoints of \<open>reports/api.py\<close> except the export:
  the dashboard, the GST summary, the registers, the stock valuation, the best sellers and the sales
  trend. Each is one grouped query over the tables of the organization, with the totals that the code
  adds up from its rows. SQL sums are exact; the code rounds what it reads to paise.
\<close>

section \<open>The queries\<close>

text \<open>Invoices of a period, and their items: the join of the items with their invoice.\<close>

definition period_invoices :: "uuid \<Rightarrow> date \<Rightarrow> date \<Rightarrow> database \<Rightarrow> sales_invoice list" where
  "period_invoices organization_id date_from date_to s =
     filter (\<lambda>v. si_organization_id v = organization_id \<and> date_from \<le> si_invoice_date v \<and> si_invoice_date v \<le> date_to)
       (db_invoices s)"

definition period_items :: "uuid \<Rightarrow> date \<Rightarrow> date \<Rightarrow> database \<Rightarrow> sales_invoice_item list" where
  "period_items organization_id date_from date_to s =
     filter (\<lambda>i. \<exists>v \<in> set (period_invoices organization_id date_from date_to s). si_id v = ii_sales_invoice_id i)
       (db_invoice_items s)"

section \<open>The dashboard\<close>

record dashboard_summary =
  ds_as_of :: date
  ds_sales_today_total :: decimal
  ds_retail_today_total :: decimal
  ds_wholesale_today_total :: decimal
  ds_collected_today_total :: decimal
  ds_receivables_outstanding :: decimal
  ds_low_stock_product_count :: nat

text \<open>The grouped query as a dictionary; \<open>get(channel, 0)\<close> of it is the sum over the channel's rows.\<close>

definition sales_total_by_channel :: "uuid \<Rightarrow> date \<Rightarrow> database \<Rightarrow> sale_channel \<Rightarrow> decimal option" where
  "sales_total_by_channel organization_id as_of s channel =
     (let rows = filter (\<lambda>v. si_channel v = channel) (period_invoices organization_id as_of as_of s)
      in if rows = [] then None else Some (\<Sum>v\<leftarrow>rows. si_grand_total v))"

definition collected_today :: "uuid \<Rightarrow> date \<Rightarrow> database \<Rightarrow> decimal" where
  "collected_today organization_id as_of s =
     Money (sum_rows (\<lambda>p. py_organization_id p = organization_id \<and> py_direction p = INBOUND
       \<and> utc_date (py_received_at p) = as_of) py_amount (db_payments s))"

definition dashboard_receivables :: "uuid \<Rightarrow> database \<Rightarrow> decimal" where
  "dashboard_receivables organization_id s =
     Money (sum_rows (\<lambda>v. si_organization_id v = organization_id \<and> si_payment_status v \<noteq> PAID)
       (\<lambda>v. si_grand_total v - si_paid_amount v) (db_invoices s))"

definition low_stock_count :: "uuid \<Rightarrow> database \<Rightarrow> nat" where
  "low_stock_count organization_id s =
     length (filter (\<lambda>p. pd_organization_id p = organization_id \<and> pd_is_active p \<and> 0 < pd_min_stock p
       \<and> on_hand_in organization_id (pd_id p) s < pd_min_stock p) (db_products s))"

definition value_or_zero :: "decimal option \<Rightarrow> decimal" where
  "value_or_zero x = (case x of None \<Rightarrow> 0 | Some v \<Rightarrow> v)"

definition dashboard_summary_of :: "uuid \<Rightarrow> date \<Rightarrow> database \<Rightarrow> dashboard_summary" where
  "dashboard_summary_of organization_id as_of s =
     (let sales_today = sales_total_by_channel organization_id as_of s
      in \<lparr>ds_as_of = as_of,
          ds_sales_today_total =
            Money (value_or_zero (sales_today RETAIL_CHANNEL) + value_or_zero (sales_today WHOLESALE_CHANNEL)),
          ds_retail_today_total = Money (value_or_zero (sales_today RETAIL_CHANNEL)),
          ds_wholesale_today_total = Money (value_or_zero (sales_today WHOLESALE_CHANNEL)),
          ds_collected_today_total = collected_today organization_id as_of s,
          ds_receivables_outstanding = dashboard_receivables organization_id s,
          ds_low_stock_product_count = low_stock_count organization_id s\<rparr>)"

definition dashboard :: "current_user \<Rightarrow> database \<Rightarrow> dashboard_summary res" where
  "dashboard user s =
     res_bind (require_permission ''report.view'' user) (\<lambda>user.
     Inr (dashboard_summary_of (cu_organization_id user) (today s) s))"

section \<open>The GST summary\<close>

record gst_bucket =
  gb_gst_rate :: decimal
  gb_taxable_value :: decimal
  gb_tax_amount :: decimal

record gst_summary =
  gs_buckets :: "gst_bucket list"
  gs_total_taxable :: decimal
  gs_total_tax :: decimal

definition gst_bucket_of :: "sales_invoice_item list \<Rightarrow> decimal \<Rightarrow> gst_bucket" where
  "gst_bucket_of items rate =
     \<lparr>gb_gst_rate = rate, gb_taxable_value = Money (sum_rows (\<lambda>i. ii_gst_rate i = rate) ii_taxable_value items),
      gb_tax_amount = Money (sum_rows (\<lambda>i. ii_gst_rate i = rate) ii_tax_amount items)\<rparr>"

definition gst_summary_of :: "uuid \<Rightarrow> date \<Rightarrow> date \<Rightarrow> database \<Rightarrow> gst_summary" where
  "gst_summary_of organization_id date_from date_to s =
     (let items = period_items organization_id date_from date_to s;
          buckets = map (gst_bucket_of items) (sort (remdups (map ii_gst_rate items)))
      in \<lparr>gs_buckets = buckets, gs_total_taxable = foldl (\<lambda>t b. Money (t + gb_taxable_value b)) 0 buckets,
          gs_total_tax = foldl (\<lambda>t b. Money (t + gb_tax_amount b)) 0 buckets\<rparr>)"

definition get_gst_summary :: "current_user \<Rightarrow> date \<Rightarrow> date \<Rightarrow> database \<Rightarrow> gst_summary res" where
  "get_gst_summary user date_from date_to s =
     res_bind (require_permission ''report.view'' user) (\<lambda>user.
     Inr (gst_summary_of (cu_organization_id user) date_from date_to s))"

section \<open>The registers\<close>

record register_row =
  rg_entry_date :: date
  rg_document_number :: string
  rg_party :: string
  rg_category :: string
  rg_taxable_value :: decimal
  rg_tax_amount :: decimal
  rg_total :: decimal
  rg_settled :: decimal
  rg_status :: string

fun channel_value :: "sale_channel \<Rightarrow> string" where
  "channel_value RETAIL_CHANNEL = ''retail''"
| "channel_value WHOLESALE_CHANNEL = ''wholesale''"

fun status_value :: "payment_status \<Rightarrow> string" where
  "status_value PAID = ''paid''"
| "status_value PARTIAL = ''partial''"
| "status_value CREDIT = ''credit''"

definition party_name :: "database \<Rightarrow> sales_invoice \<Rightarrow> string" where
  "party_name s v = (case customer_name s (si_customer_id v) of None \<Rightarrow> ''Walk-in'' | Some n \<Rightarrow> n)"

definition sales_register_row :: "database \<Rightarrow> sales_invoice \<Rightarrow> register_row" where
  "sales_register_row s v =
     \<lparr>rg_entry_date = si_invoice_date v, rg_document_number = si_invoice_number v, rg_party = party_name s v,
      rg_category = channel_value (si_channel v), rg_taxable_value = Money (si_subtotal v),
      rg_tax_amount = Money (si_tax_total v), rg_total = Money (si_grand_total v),
      rg_settled = Money (si_paid_amount v), rg_status = status_value (si_payment_status v)\<rparr>"

text \<open>Latest first, numbers of one day in the descending order of the database's collation.\<close>

definition sales_register ::
  "(string \<Rightarrow> string) \<Rightarrow> uuid \<Rightarrow> date \<Rightarrow> date \<Rightarrow> sale_channel option \<Rightarrow> nat \<Rightarrow> database \<Rightarrow> register_row list" where
  "sales_register collate organization_id date_from date_to channel limit s =
     map (sales_register_row s) (take limit
       (rev (sort_key (\<lambda>v. (si_invoice_date v, collate (si_invoice_number v)))
         (filter (\<lambda>v. given channel (\<lambda>c. si_channel v = c)) (period_invoices organization_id date_from date_to s)))))"

definition purchase_register_row :: "database \<Rightarrow> goods_receipt \<Rightarrow> register_row option" where
  "purchase_register_row s grn =
     map_option (\<lambda>v.
       let items = items_of_receipt (gr_id grn) s;
           total = (\<Sum>i\<leftarrow>items. gi_received_base_quantity i * gi_unit_rate i)
       in \<lparr>rg_entry_date = gr_receipt_date grn, rg_document_number = gr_grn_number grn, rg_party = su_name v,
           rg_category = digits (length items) @ '' lines'', rg_taxable_value = Money total, rg_tax_amount = 0,
           rg_total = Money total, rg_settled = 0, rg_status = ''received''\<rparr>)
     (supplier_row (gr_supplier_id grn) s)"

definition purchase_register :: "uuid \<Rightarrow> date \<Rightarrow> date \<Rightarrow> nat \<Rightarrow> database \<Rightarrow> register_row list" where
  "purchase_register organization_id date_from date_to limit s =
     take limit (List.map_filter (purchase_register_row s) (newest_first gr_receipt_date
       (filter (\<lambda>g. gr_organization_id g = organization_id \<and> date_from \<le> gr_receipt_date g \<and> gr_receipt_date g \<le> date_to)
         (db_goods_receipts s))))"

record register_response =
  rv_rows :: "register_row list"
  rv_total_taxable :: decimal
  rv_total_tax :: decimal
  rv_grand_total :: decimal

definition register_response_of :: "register_row list \<Rightarrow> register_response" where
  "register_response_of rows =
     \<lparr>rv_rows = rows, rv_total_taxable = (\<Sum>r\<leftarrow>rows. rg_taxable_value r),
      rv_total_tax = (\<Sum>r\<leftarrow>rows. rg_tax_amount r), rv_grand_total = (\<Sum>r\<leftarrow>rows. rg_total r)\<rparr>"

text \<open>The limit that the services default to.\<close>

definition REGISTER_LIMIT :: nat where
  "REGISTER_LIMIT = 500"

definition get_sales_register ::
  "(string \<Rightarrow> string) \<Rightarrow> current_user \<Rightarrow> date \<Rightarrow> date \<Rightarrow> sale_channel option \<Rightarrow> database \<Rightarrow> register_response res" where
  "get_sales_register collate user date_from date_to channel s =
     res_bind (require_permission ''report.view'' user) (\<lambda>user.
     Inr (register_response_of
       (sales_register collate (cu_organization_id user) date_from date_to channel REGISTER_LIMIT s)))"

definition get_purchase_register :: "current_user \<Rightarrow> date \<Rightarrow> date \<Rightarrow> database \<Rightarrow> register_response res" where
  "get_purchase_register user date_from date_to s =
     res_bind (require_permission ''report.view'' user) (\<lambda>user.
     Inr (register_response_of (purchase_register (cu_organization_id user) date_from date_to REGISTER_LIMIT s)))"

section \<open>Stock valuation\<close>

record stock_valuation_row =
  sv_product_id :: uuid
  sv_product_name :: string
  sv_sku :: string
  sv_on_hand :: decimal
  sv_min_stock :: decimal
  sv_retail_price :: decimal
  sv_stock_value :: decimal
  sv_is_low :: bool

definition stock_valuation_row_of :: "uuid \<Rightarrow> database \<Rightarrow> product \<Rightarrow> stock_valuation_row" where
  "stock_valuation_row_of organization_id s p =
     (let on_hand = on_hand_in organization_id (pd_id p) s
      in \<lparr>sv_product_id = pd_id p, sv_product_name = pd_name p, sv_sku = pd_sku p, sv_on_hand = on_hand,
          sv_min_stock = pd_min_stock p, sv_retail_price = pd_retail_price p,
          sv_stock_value = Money (dmul on_hand (pd_retail_price p)),
          sv_is_low = (0 < pd_min_stock p \<and> on_hand < pd_min_stock p)\<rparr>)"

definition stock_valuation :: "(string \<Rightarrow> string) \<Rightarrow> uuid \<Rightarrow> nat \<Rightarrow> database \<Rightarrow> stock_valuation_row list" where
  "stock_valuation collate organization_id limit s =
     map (stock_valuation_row_of organization_id s) (take limit (sort_key (\<lambda>p. collate (pd_name p))
       (filter (\<lambda>p. pd_organization_id p = organization_id \<and> pd_is_active p) (db_products s))))"

record stock_valuation_response =
  sw_rows :: "stock_valuation_row list"
  sw_total_value :: decimal
  sw_low_stock_count :: nat

definition get_stock_valuation :: "(string \<Rightarrow> string) \<Rightarrow> current_user \<Rightarrow> database \<Rightarrow> stock_valuation_response res" where
  "get_stock_valuation collate user s =
     res_bind (require_permission ''report.view'' user) (\<lambda>user.
     let rows = stock_valuation collate (cu_organization_id user) REGISTER_LIMIT s
     in Inr \<lparr>sw_rows = rows, sw_total_value = (\<Sum>r\<leftarrow>rows. sv_stock_value r),
             sw_low_stock_count = length (filter sv_is_low rows)\<rparr>)"

section \<open>Best sellers\<close>

record top_product_row =
  tp_product_id :: uuid
  tp_product_name :: string
  tp_sku :: string
  tp_quantity_sold :: decimal
  tp_revenue :: decimal

definition sold_amount :: "(sales_invoice_item \<Rightarrow> decimal) \<Rightarrow> sales_invoice_item list \<Rightarrow> product \<Rightarrow> decimal" where
  "sold_amount f items p = sum_rows (\<lambda>i. ii_product_id i = pd_id p) f items"

definition top_products :: "uuid \<Rightarrow> date \<Rightarrow> date \<Rightarrow> nat \<Rightarrow> database \<Rightarrow> top_product_row list" where
  "top_products organization_id date_from date_to limit s =
     (let items = period_items organization_id date_from date_to s;
          sold = filter (\<lambda>p. \<exists>i \<in> set items. ii_product_id i = pd_id p) (db_products s)
      in map (\<lambda>p. \<lparr>tp_product_id = pd_id p, tp_product_name = pd_name p, tp_sku = pd_sku p,
               tp_quantity_sold = sold_amount ii_base_quantity items p,
               tp_revenue = Money (sold_amount ii_line_total items p)\<rparr>)
           (take limit (sort_key (\<lambda>p. - sold_amount ii_line_total items p) sold)))"

definition get_top_products :: "current_user \<Rightarrow> int \<Rightarrow> nat \<Rightarrow> database \<Rightarrow> top_product_row list res" where
  "get_top_products user days limit s =
     res_bind (require_permission ''report.view'' user) (\<lambda>user.
     Inr (top_products (cu_organization_id user) (today s - (days - 1)) (today s) limit s))"

section \<open>The sales trend\<close>

record trend_point =
  tn_day :: date
  tn_revenue :: decimal
  tn_invoice_count :: nat

definition trend_point_of :: "sales_invoice list \<Rightarrow> date \<Rightarrow> trend_point" where
  "trend_point_of invoices day =
     \<lparr>tn_day = day, tn_revenue = Money (sum_rows (\<lambda>v. si_invoice_date v = day) si_grand_total invoices),
      tn_invoice_count = length (filter (\<lambda>v. si_invoice_date v = day) invoices)\<rparr>"

definition sales_trend :: "uuid \<Rightarrow> date \<Rightarrow> date \<Rightarrow> database \<Rightarrow> trend_point list" where
  "sales_trend organization_id date_from date_to s =
     (let invoices = period_invoices organization_id date_from date_to s
      in map (trend_point_of invoices) (sort (remdups (map si_invoice_date invoices))))"

text \<open>The endpoint fills the days without invoices, from the dictionary of the points by day.\<close>

definition filled_point :: "trend_point list \<Rightarrow> date \<Rightarrow> trend_point" where
  "filled_point points day =
     (case map_of (rev (map (\<lambda>p. (tn_day p, p)) points)) day of
        None \<Rightarrow> \<lparr>tn_day = day, tn_revenue = 0, tn_invoice_count = 0\<rparr>
      | Some p \<Rightarrow> \<lparr>tn_day = day, tn_revenue = tn_revenue p, tn_invoice_count = tn_invoice_count p\<rparr>)"

definition get_sales_trend :: "current_user \<Rightarrow> nat \<Rightarrow> database \<Rightarrow> trend_point list res" where
  "get_sales_trend user days s =
     res_bind (require_permission ''report.view'' user) (\<lambda>user.
     let start = today s - (int days - 1); points = sales_trend (cu_organization_id user) start (today s) s
     in Inr (map (\<lambda>offset. filled_point points (start + int offset)) [0..<days]))"

section \<open>What the reports add up to\<close>

lemma sum_rows_groups:
  fixes g :: "'r \<Rightarrow> 'b::comm_monoid_add"
  assumes "distinct ks" "set (map f rs) \<subseteq> set ks"
  shows "(\<Sum>k\<leftarrow>ks. sum_rows (\<lambda>r. f r = k) g rs) = (\<Sum>r\<leftarrow>rs. g r)"
proof -
  have "filter (\<lambda>r. f r \<in> set ks) rs = rs" using assms(2) by (auto simp: filter_id_conv)
  then show ?thesis
    using sum_list_groups [of "\<lambda>k. k" ks g f "\<lambda>_. True" rs] assms(1) by (simp add: sum_rows_def)
qed

end
