(* ===== verification/Subledgers.thy ===== *)
theory Subledgers
  imports Program Reports
begin

text \<open>
  What the details add up to, for every history of requests: the items of an invoice add up to its
  totals, so the GST summary of a period is what the invoices of the period charge; and the payments
  of a customer add up to what the customer's invoices are paid, so the customer's statement ends with
  what the open invoices and the advances say.
\<close>

section \<open>Items and totals\<close>

definition invoice_itemised :: "sales_invoice_item list \<Rightarrow> sales_invoice \<Rightarrow> bool" where
  "invoice_itemised items v \<longleftrightarrow>
     si_subtotal v = sum_rows (\<lambda>i. ii_sales_invoice_id i = si_id v) ii_taxable_value items
     \<and> si_tax_total v = sum_rows (\<lambda>i. ii_sales_invoice_id i = si_id v) ii_tax_amount items"

definition order_itemised :: "sales_order_item list \<Rightarrow> sales_order \<Rightarrow> bool" where
  "order_itemised items v \<longleftrightarrow>
     so_subtotal v = sum_rows (\<lambda>i. ot_sales_order_id i = so_id v) ot_taxable_value items
     \<and> so_tax_total v = sum_rows (\<lambda>i. ot_sales_order_id i = so_id v) ot_tax_amount items"

definition itemised :: "database \<Rightarrow> bool" where
  "itemised s \<longleftrightarrow>
     (\<forall>v \<in> set (db_invoices s). invoice_itemised (db_invoice_items s) v)
     \<and> (\<forall>v \<in> set (db_orders s). order_itemised (db_order_items s) v)
     \<and> (\<forall>i \<in> set (db_invoice_items s). ii_sales_invoice_id i < db_next s
          \<and> paisa_grid (ii_taxable_value i) \<and> paisa_grid (ii_tax_amount i))
     \<and> (\<forall>i \<in> set (db_order_items s). paisa_grid (ot_taxable_value i) \<and> paisa_grid (ot_tax_amount i))"

lemma itemised_frame:
  assumes "itemised s" "sales_tables t = sales_tables s" "db_next s \<le> db_next t"
  shows "itemised t"
  using assms by (auto simp: itemised_def sales_tables_def intro: less_le_trans)

text \<open>Rows of a new document do not count for the old ones, nor old rows for the new one.\<close>

lemma sum_rows_new:
  fixes k :: "'r \<Rightarrow> uuid"
  assumes "\<forall>x \<in> set xs. k x < n" "\<forall>y \<in> set ys. k y = n"
  shows "m < n \<Longrightarrow> sum_rows (\<lambda>x. k x = m) g (xs @ ys) = sum_rows (\<lambda>x. k x = m) g xs"
    "sum_rows (\<lambda>x. k x = n) g (xs @ ys) = (\<Sum>y\<leftarrow>ys. g y)"
proof -
  show "sum_rows (\<lambda>x. k x = n) g (xs @ ys) = (\<Sum>y\<leftarrow>ys. g y)"
  proof -
    have "sum_rows (\<lambda>x. k x = n) g xs = 0" by (rule sum_rows_none) (use assms(1) in auto)
    then show ?thesis using assms(2) by (simp add: sum_rows_append sum_rows_all)
  qed
  show "sum_rows (\<lambda>x. k x = m) g (xs @ ys) = sum_rows (\<lambda>x. k x = m) g xs" if "m < n"
    using assms(2) that by (simp add: sum_rows_append sum_rows_none)
qed

lemma sum_rows_upd_rows:
  assumes "\<And>x. q (f x) = q x" "\<And>x. g (f x) = g x"
  shows "sum_rows q g (upd_rows p f xs) = sum_rows q g xs"
  using assms by (induction xs) (auto simp: upd_rows_def sum_rows_Cons)

lemma settle_all_map:
  assumes "\<And>x v. g (settled_by x v) = g v"
  shows "map g (settle_all als vs) = map g vs"
  by (induction als arbitrary: vs) (simp_all add: settle_all_def map_upd_first assms)

text \<open>The amounts of priced lines, as the items of a sale or an order copy them.\<close>

lemma copied_amounts:
  assumes "\<forall>r \<in> set priced. line_amounts_ok r" "map net items = map pr_net_amount priced" "map tax items = map pr_tax_amount priced"
  shows "Money (\<Sum>r\<leftarrow>priced. pr_net_amount r) = (\<Sum>i\<leftarrow>items. net i)" "Money (\<Sum>r\<leftarrow>priced. pr_tax_amount r) = (\<Sum>i\<leftarrow>items. tax i)"
    "\<forall>i \<in> set items. paisa_grid (net i) \<and> paisa_grid (tax i)"
proof -
  show "Money (\<Sum>r\<leftarrow>priced. pr_net_amount r) = (\<Sum>i\<leftarrow>items. net i)" "Money (\<Sum>r\<leftarrow>priced. pr_tax_amount r) = (\<Sum>i\<leftarrow>items. tax i)"
    using line_totals(1,2) [OF assms(1)] by (simp_all add: assms(2,3))
  have "net i \<in> set (map pr_net_amount priced)" "tax i \<in> set (map pr_tax_amount priced)" if "i \<in> set items" for i
    using that unfolding assms(2,3) [symmetric] by simp_all
  then show "\<forall>i \<in> set items. paisa_grid (net i) \<and> paisa_grid (tax i)"
    using assms(1) by (fastforce simp: line_amounts_ok_def)
qed

lemma sale_itemised:
  assumes "create_retail_invoice a s = Inr (r, t)" "database_ok s" "itemised s"
  shows "itemised t"
proof -
  have ids: "ids_ok s" using assms(2) by (simp add: database_ok_def)
  show ?thesis
    using assms(1) ids
  proof (cases rule: create_retail_invoice_cases)
    case replayed
    then show ?thesis using assms(3) by simp
  next
    case (fresh products number q draft priced moves items paid invoice)
    have "catalogue_ok products"
      by (rule load_products_catalogue [OF fresh(2)]) (use assms(2) in \<open>simp add: database_ok_def\<close>)
    then have lines: "\<forall>r \<in> set priced. line_amounts_ok r" by (rule priced_lines_ok [OF _ fresh(6)])
    note amounts = copied_amounts [OF lines fresh(19,20)]
    have f: "db_invoices t = db_invoices s @ [invoice]" "db_invoice_items t = db_invoice_items s @ items"
      "db_orders t = db_orders s" "db_order_items t = db_order_items s" "db_next s < db_next t"
      by (subst fresh(17), simp)+
    have new: "si_id invoice = db_next s" "\<forall>x \<in> set items. ii_sales_invoice_id x = db_next s"
      using fresh(14) by (simp_all add: fresh(9) fresh(4) draft_invoice_def)
    have old: "\<forall>x \<in> set (db_invoice_items s). ii_sales_invoice_id x < db_next s" using assms(3) by (simp add: itemised_def)
    note sums = sum_rows_new [OF old new(2)]
    have "invoice_itemised (db_invoice_items t) v" if "v \<in> set (db_invoices s)" for v
      using that assms(3) ids by (simp add: itemised_def invoice_itemised_def f sums ids_ok_def)
    moreover have "invoice_itemised (db_invoice_items t) invoice"
      by (simp add: invoice_itemised_def f new(1) sums(2)) (simp add: fresh(9) amounts)
    ultimately show ?thesis
      using assms(3) amounts(3) new(2) f(5) by (auto simp: itemised_def f(1-4) intro: less_trans)
  qed
qed

lemma order_itemises:
  assumes "create_order a s = Inr (r, t)" "database_ok s" "itemised s"
  shows "itemised t"
proof -
  have ids: "ids_ok s" using assms(2) by (simp add: database_ok_def)
  show ?thesis
  proof (rule create_order_cases [OF assms(1) ids])
    fix customer products number q draft priced items order v
    assume p: "load_products (oa_organization_id a) (map sl_product_id (oa_lines a)) s = Inr products"
      and d: "draft = draft_order a number s" and l: "list_all2 (ordered_as products) (oa_lines a) priced"
      and o: "order = totalled priced draft" and it: "\<forall>x \<in> set items. ot_sales_order_id x = so_id draft"
      and t: "t = s\<lparr>db_numbering := q, db_inventory := v, db_orders := db_orders s @ [order],
        db_order_items := db_order_items s @ items, db_next := Suc (db_next s)\<rparr>"
      and net: "map ot_taxable_value items = map pr_net_amount priced" "map ot_tax_amount items = map pr_tax_amount priced"
    have "catalogue_ok products"
      by (rule load_products_catalogue [OF p]) (use assms(2) in \<open>simp add: database_ok_def\<close>)
    note amounts = copied_amounts [OF ordered_lines_ok [OF this l] net]
    have new: "so_id order = db_next s" "\<forall>x \<in> set items. ot_sales_order_id x = db_next s"
      using it by (simp_all add: o d draft_order_def totalled_def)
    have old: "\<forall>x \<in> set (db_order_items s). ot_sales_order_id x < db_next s" using ids by (simp add: ids_ok_def)
    note sums = sum_rows_new [OF old new(2)]
    have "order_itemised (db_order_items t) w" if "w \<in> set (db_orders s)" for w
      using that assms(3) ids by (simp add: itemised_def order_itemised_def t sums ids_ok_def)
    moreover have "order_itemised (db_order_items t) order"
      by (simp add: order_itemised_def t new(1) sums(2)) (simp add: o totalled_def amounts)
    ultimately show "itemised t"
      using assms(3) amounts(3) by (auto simp: itemised_def t)
  qed
qed

lemma dispatched_item_sel [simp]:
  "ii_sales_invoice_id (dispatched_item i x) = i" "ii_taxable_value (dispatched_item i x) = ot_taxable_value x"
  "ii_tax_amount (dispatched_item i x) = ot_tax_amount x"
  by (simp_all add: dispatched_item_def)

lemma dispatch_itemised:
  assumes "dispatch_and_invoice a s = Inr (r, t)" "database_ok s" "itemised s"
  shows "itemised t"
proof -
  have ids: "ids_ok s" using assms(2) by (simp add: database_ok_def)
  show ?thesis
  proof (rule dispatch_cases [OF assms(1) ids])
    fix order number q v b and invoice :: sales_invoice and items
    let ?k = "da_sales_order_id a"
    let ?f = "\<lambda>v. v\<lparr>so_status := INVOICED, so_sales_invoice_id := Some (si_id invoice)\<rparr>"
    assume o: "get_order ?k s = Some order" and its: "items = filter (\<lambda>i. ot_sales_order_id i = ?k) (db_order_items s)"
      and inv: "invoice = order_invoice a order number s"
      and t: "t = s\<lparr>db_numbering := q, db_inventory := v, db_invoices := db_invoices s @ [invoice],
        db_invoice_items := db_invoice_items s @ map (dispatched_item (si_id invoice)) items,
        db_order_items := upd_rows (\<lambda>i. ot_sales_order_id i = ?k) (\<lambda>i. i\<lparr>ot_dispatched_quantity := ot_base_quantity i\<rparr>) (db_order_items s),
        db_orders := upd_first (\<lambda>v. so_id v = ?k) ?f (db_orders s), db_books := b, db_next := Suc (db_next s)\<rparr>"
    have new: "si_id invoice = db_next s"
      "\<forall>x \<in> set (map (dispatched_item (si_id invoice)) items). ii_sales_invoice_id x = db_next s"
      by (simp_all add: inv order_invoice_def)
    have old: "\<forall>x \<in> set (db_invoice_items s). ii_sales_invoice_id x < db_next s" using assms(3) by (simp add: itemised_def)
    note sums = sum_rows_new [OF old new(2)]
    have order: "order \<in> set (db_orders s)" "so_id order = ?k" using o by (auto simp: get_order_def dest: first_row_Some)
    then have "order_itemised (db_order_items s) order" using assms(3) by (simp add: itemised_def)
    moreover have "si_subtotal invoice = so_subtotal order" "si_tax_total invoice = so_tax_total order"
      by (simp_all add: inv order_invoice_def)
    moreover have "sum_rows (\<lambda>i. ii_sales_invoice_id i = si_id invoice) g (db_invoice_items t)
        = (\<Sum>x\<leftarrow>items. g (dispatched_item (si_id invoice) x))" for g :: "sales_invoice_item \<Rightarrow> decimal"
      unfolding t using sums(2) [of g] by (simp add: new(1) comp_def)
    ultimately have "invoice_itemised (db_invoice_items t) invoice"
      by (simp add: invoice_itemised_def order_itemised_def order(2) its sum_rows_def)
    moreover have "invoice_itemised (db_invoice_items t) w" if "w \<in> set (db_invoices s)" for w
      using that assms(3) ids by (simp add: itemised_def invoice_itemised_def t sums(1) ids_ok_def)
    moreover have "order_itemised (db_order_items t) w" if w: "w \<in> set (db_orders t)" for w
    proof -
      obtain u where "u \<in> set (db_orders s)" "so_id w = so_id u" "so_subtotal w = so_subtotal u" "so_tax_total w = so_tax_total u"
        using set_upd_first [of w "\<lambda>v. so_id v = ?k" ?f "db_orders s"] w by (auto simp: t)
      then show ?thesis
        using assms(3) by (simp add: itemised_def order_itemised_def t sum_rows_upd_rows)
    qed
    ultimately show "itemised t"
      using assms(3) new(1) by (auto simp: itemised_def t its upd_rows_def less_SucI)
  qed
qed

lemma receipt_itemised:
  assumes "receive_payment a s = Inr (r, t)" "database_ok s" "itemised s"
  shows "itemised t"
proof -
  have ids: "ids_ok s" and inv: "\<forall>v \<in> set (db_invoices s). invoice_ok v" using assms(2) by (simp_all add: database_ok_def)
  show ?thesis
  proof (rule receive_payment_cases [OF assms(1) ids inv])
    fix res :: allocation_result and settled e b
    assume t: "t = s\<lparr>db_payments := db_payments s @ [receipt_row a s], db_next := Suc (db_next s),
       db_invoices := settle_all (ar_allocations res) (db_invoices s),
       db_payment_allocations := db_payment_allocations s @ map (allocation_row (db_next s)) (ar_allocations res),
       db_books := b\<rparr>"
    let ?g = "\<lambda>v :: sales_invoice. (si_id v, si_subtotal v, si_tax_total v)"
    have "map ?g (db_invoices t) = map ?g (db_invoices s)"
      by (simp add: t settle_all_map settled_by_def Let_def)
    from arg_cong [OF this, of set] have rows: "?g ` set (db_invoices t) = ?g ` set (db_invoices s)"
      by (simp only: set_map)
    have "invoice_itemised (db_invoice_items s) v" if v: "v \<in> set (db_invoices t)" for v
    proof -
      have "?g v \<in> ?g ` set (db_invoices s)" unfolding rows [symmetric] using v by (rule imageI)
      then obtain u where "u \<in> set (db_invoices s)" "?g v = ?g u" by blast
      then show ?thesis using assms(3) by (simp add: itemised_def invoice_itemised_def)
    qed
    then show "itemised t" using assms(3) by (auto simp: itemised_def t less_SucI)
  qed
qed

section \<open>Payments and what they settle\<close>

definition billed_to :: "uuid \<Rightarrow> uuid \<Rightarrow> sales_invoice \<Rightarrow> bool" where
  "billed_to org c v \<longleftrightarrow> si_organization_id v = org \<and> si_customer_id v = Some c"

definition paid_by :: "uuid \<Rightarrow> uuid \<Rightarrow> payment \<Rightarrow> bool" where
  "paid_by org c p \<longleftrightarrow> py_organization_id p = org \<and> py_customer_id p = Some c"

text \<open>What the payments of a kind have settled, and what a customer has paid in advance.\<close>

definition allocated :: "(payment \<Rightarrow> bool) \<Rightarrow> payment list \<Rightarrow> payment_allocation list \<Rightarrow> decimal" where
  "allocated q ps ls = sum_rows (\<lambda>l. \<exists>p \<in> set ps. py_id p = pl_payment_id l \<and> q p) pl_amount ls"

definition advance :: "uuid \<Rightarrow> uuid \<Rightarrow> database \<Rightarrow> decimal" where
  "advance org c s = sum_rows (paid_by org c) py_amount (db_payments s)
     - allocated (paid_by org c) (db_payments s) (db_payment_allocations s)"

definition settled :: "database \<Rightarrow> bool" where
  "settled s \<longleftrightarrow>
     (\<forall>p \<in> set (db_payments s). py_direction p = INBOUND \<and> paisa_grid (py_amount p))
     \<and> (\<forall>org c. sum_rows (billed_to org c) si_paid_amount (db_invoices s)
          = allocated (paid_by org c) (db_payments s) (db_payment_allocations s))"

lemma settled_frame:
  assumes "settled s" "sales_tables t = sales_tables s"
  shows "settled t"
  using assms by (simp add: settled_def sales_tables_def)

text \<open>New payments of one kind, and the allocations that are theirs.\<close>

lemma allocated_extend:
  assumes "\<forall>p \<in> set ps. py_id p < n" "\<forall>l \<in> set ls. pl_payment_id l < n"
    and "\<forall>p \<in> set qs. n \<le> py_id p \<and> q p = b" "\<forall>l \<in> set ms. \<exists>p \<in> set qs. py_id p = pl_payment_id l"
  shows "allocated q (ps @ qs) (ls @ ms) = allocated q ps ls + (if b then (\<Sum>l\<leftarrow>ms. pl_amount l) else 0)"
proof -
  let ?q = "\<lambda>l. \<exists>p \<in> set (ps @ qs). py_id p = pl_payment_id l \<and> q p"
  have old: "sum_rows ?q pl_amount ls = allocated q ps ls"
    unfolding allocated_def using assms(2,3) by (intro sum_rows_cong) fastforce
  have new: "?q l \<longleftrightarrow> b" if l: "l \<in> set ms" for l
  proof -
    obtain p where p: "p \<in> set qs" "py_id p = pl_payment_id l" using assms(4) l by blast
    then have "n \<le> pl_payment_id l" using assms(3) by metis
    then have "py_id p' \<noteq> pl_payment_id l" if "p' \<in> set ps" for p' using assms(1) that by fastforce
    then show ?thesis using p assms(3) by fastforce
  qed
  have "sum_rows ?q pl_amount ms = (if b then (\<Sum>l\<leftarrow>ms. pl_amount l) else 0)"
    using new by (auto simp: sum_rows_all sum_rows_none)
  then show ?thesis by (simp only: allocated_def [of q "ps @ qs"] sum_rows_append old)
qed

lemma payment_rows_in_kind:
  "v \<in> set (payment_rows a now ps n) \<Longrightarrow>
   py_direction v = INBOUND \<and> paisa_grid (py_amount v) \<and> py_customer_id v = rs_customer_id a"
  by (induction ps arbitrary: n) auto

lemma sale_settles:
  assumes "create_retail_invoice a s = Inr (r, t)" "database_ok s" "payments_ok (rs_payments a)" "settled s"
  shows "settled t"
proof -
  have ids: "ids_ok s" using assms(2) by (simp add: database_ok_def)
  show ?thesis
    using assms(1) ids
  proof (cases rule: create_retail_invoice_cases)
    case replayed
    then show ?thesis using assms(4) by simp
  next
    case (fresh products number q draft priced moves items paid invoice)
    let ?qs = "payment_rows a (iv_now (db_inventory t)) (rs_payments a) (Suc (db_next s))"
    let ?ms = "allocation_rows (db_next s) (rs_payments a) (Suc (db_next s))"
    have f: "db_invoices t = db_invoices s @ [invoice]" "db_payments t = db_payments s @ ?qs"
      "db_payment_allocations t = db_payment_allocations s @ ?ms"
      by (subst fresh(17), simp)+
    have inv: "billed_to org c invoice \<longleftrightarrow> rs_organization_id a = org \<and> rs_customer_id a = Some c"
      "si_paid_amount invoice = paid" for org c
      by (simp_all add: billed_to_def fresh(9) fresh(4) draft_invoice_def)
    have paid: "paid = (\<Sum>l\<leftarrow>?ms. pl_amount l)"
    proof -
      have "Money (pn_amount p) = pn_amount p" if "p \<in> set (rs_payments a)" for p
        using assms(3) that by (auto simp: payments_ok_def intro: Money_id)
      then have "(\<Sum>l\<leftarrow>?ms. pl_amount l) = (\<Sum>p\<leftarrow>rs_payments a. pn_amount p)"
        by (simp add: allocation_rows_amounts cong: map_cong)
      then show ?thesis using payments_ok_sum(1) [OF assms(3)] by (simp add: fresh(8))
    qed
    have match: "\<exists>p \<in> set ?qs. py_id p = pl_payment_id l" if "l \<in> set ?ms" for l
    proof -
      have "pl_payment_id l \<in> set (map py_id ?qs)" using allocation_rows_in [OF that] by (auto simp: payment_rows_ids)
      then show ?thesis by auto
    qed
    have "allocated (paid_by org c) (db_payments t) (db_payment_allocations t)
        = allocated (paid_by org c) (db_payments s) (db_payment_allocations s)
          + (if billed_to org c invoice then (\<Sum>l\<leftarrow>?ms. pl_amount l) else 0)" for org c
      unfolding f
    proof (rule allocated_extend [where n = "db_next s"])
      show "\<forall>p \<in> set ?qs. db_next s \<le> py_id p \<and> paid_by org c p = billed_to org c invoice"
      proof
        fix p assume p: "p \<in> set ?qs"
        show "db_next s \<le> py_id p \<and> paid_by org c p = billed_to org c invoice"
          using payment_rows_in [OF p] payment_rows_org [OF p] payment_rows_in_kind [OF p] by (simp add: paid_by_def inv(1))
      qed
    qed (use ids match in \<open>auto simp: ids_ok_def\<close>)
    moreover have "sum_rows (billed_to org c) si_paid_amount (db_invoices t)
        = sum_rows (billed_to org c) si_paid_amount (db_invoices s)
          + (if billed_to org c invoice then (\<Sum>l\<leftarrow>?ms. pl_amount l) else 0)" for org c
      unfolding paid [symmetric] by (simp add: f(1) sum_rows_append sum_rows_Cons inv(2))
    moreover have "\<forall>p \<in> set (db_payments t). py_direction p = INBOUND \<and> paisa_grid (py_amount p)"
      using assms(4) by (auto simp: f(2) settled_def dest: payment_rows_in_kind)
    ultimately show ?thesis using assms(4) by (simp add: settled_def)
  qed
qed

lemma order_settled:
  assumes "create_order a s = Inr (r, t)" "database_ok s" "settled s"
  shows "settled t"
proof -
  have ids: "ids_ok s" using assms(2) by (simp add: database_ok_def)
  show ?thesis by (rule create_order_cases [OF assms(1) ids]) (use assms(3) in \<open>simp add: settled_def\<close>)
qed

lemma dispatch_settled:
  assumes "dispatch_and_invoice a s = Inr (r, t)" "database_ok s" "settled s"
  shows "settled t"
proof -
  have ids: "ids_ok s" using assms(2) by (simp add: database_ok_def)
  show ?thesis
    by (rule dispatch_cases [OF assms(1) ids])
      (use assms(3) in \<open>simp add: settled_def sum_rows_append sum_rows_Cons order_invoice_def\<close>)
qed

text \<open>What is paid is the total less what is open, and totals do not change.\<close>

lemma sum_rows_map_eq:
  assumes "map (\<lambda>x. (q x, g x)) xs = map (\<lambda>x. (q x, g x)) ys"
  shows "sum_rows q g xs = sum_rows q g ys"
proof -
  have "sum_rows q g zs = sum_rows fst snd (map (\<lambda>x. (q x, g x)) zs)" for zs
    by (induction zs) (simp_all add: sum_rows_Cons)
  then show ?thesis using assms by metis
qed

lemma paid_total: "sum_rows q si_paid_amount vs = sum_rows q si_grand_total vs - sum_rows q open_amount vs"
  by (induction vs) (simp_all add: sum_rows_Cons open_amount_def)

lemma receipt_settles:
  assumes "receive_payment a s = Inr (r, t)" "database_ok s" "settled s"
  shows "settled t"
proof -
  have ids: "ids_ok s" and inv: "\<forall>v \<in> set (db_invoices s). invoice_ok v" using assms(2) by (simp_all add: database_ok_def)
  show ?thesis
  proof (rule receive_payment_cases [OF assms(1) ids inv])
    fix res :: allocation_result and closed_ids e b
    let ?als = "ar_allocations res" and ?org = "ra_organization_id a" and ?c = "ra_customer_id a"
    assume dist: "distinct (map ia_invoice_id ?als)"
      and targets: "\<forall>al \<in> set ?als. \<exists>v \<in> set (db_invoices s). si_id v = ia_invoice_id al
        \<and> si_organization_id v = ?org \<and> si_customer_id v = Some ?c \<and> 0 < ia_amount al
        \<and> ia_amount al \<le> open_amount v \<and> paisa_grid (ia_amount al)"
      and t: "t = s\<lparr>db_payments := db_payments s @ [receipt_row a s], db_next := Suc (db_next s),
         db_invoices := settle_all ?als (db_invoices s),
         db_payment_allocations := db_payment_allocations s @ map (allocation_row (db_next s)) ?als, db_books := b\<rparr>"
    have row: "py_id (receipt_row a s) = db_next s" "py_direction (receipt_row a s) = INBOUND"
      "paisa_grid (py_amount (receipt_row a s))"
      "paid_by org c (receipt_row a s) = (org = ?org \<and> c = ?c)" for org c
      by (auto simp: receipt_row_def paid_by_def)
    have d: "distinct (map si_id (db_invoices s))" using ids by (simp add: ids_ok_def)
    have tg: "\<forall>al \<in> set ?als. \<exists>v \<in> set (db_invoices s). si_id v = ia_invoice_id al \<and> billed_to ?org ?c v \<and> 0 < ia_amount al
        \<and> ia_amount al \<le> open_amount v \<and> paisa_grid (ia_amount al)"
      using targets unfolding billed_to_def by blast
    have "sum_rows (billed_to org c) open_amount (settle_all ?als (db_invoices s)) = sum_rows (billed_to org c) open_amount (db_invoices s)
        - (if org = ?org \<and> c = ?c then (\<Sum>al\<leftarrow>?als. ia_amount al) else 0)" for org c
      using settle_all_keeps [OF d inv dist tg, of "billed_to org c" "org = ?org \<and> c = ?c"] by (auto simp: billed_to_def)
    moreover have "sum_rows (billed_to org c) si_grand_total (settle_all ?als (db_invoices s))
        = sum_rows (billed_to org c) si_grand_total (db_invoices s)" for org c
      by (intro sum_rows_map_eq settle_all_map) (simp add: billed_to_def)
    ultimately have paid: "sum_rows (billed_to org c) si_paid_amount (settle_all ?als (db_invoices s))
        = sum_rows (billed_to org c) si_paid_amount (db_invoices s)
          + (if org = ?org \<and> c = ?c then (\<Sum>al\<leftarrow>?als. ia_amount al) else 0)" for org c
      by (simp add: paid_total)
    have "allocated (paid_by org c) (db_payments s @ [receipt_row a s])
          (db_payment_allocations s @ map (allocation_row (db_next s)) ?als)
        = allocated (paid_by org c) (db_payments s) (db_payment_allocations s)
          + (if org = ?org \<and> c = ?c then (\<Sum>l\<leftarrow>map (allocation_row (db_next s)) ?als. pl_amount l) else 0)" for org c
      using ids by (intro allocated_extend [where n = "db_next s"]) (auto simp: ids_ok_def row allocation_row_def)
    then show "settled t"
      using assms(3) by (simp add: settled_def t row paid allocation_row_def comp_def)
  qed
qed

section \<open>Every history keeps them\<close>

definition subledgers_ok :: "database \<Rightarrow> bool" where
  "subledgers_ok s \<longleftrightarrow> database_ok s \<and> itemised s \<and> settled s"

lemma execute_keeps_subledgers:
  assumes "execute c r s = Inr (u, t)" "admissible (snd r)" "subledgers_ok s"
  shows "subledgers_ok t"
proof -
  let ?s = "at_time (fst r) s"
  have run: "run_command c (snd r) ?s = Inr (u, t)" using assms(1) by (simp add: execute_def)
  have "sales_tables ?s = sales_tables s" "db_next s \<le> db_next ?s" by (simp_all add: at_time_def sales_tables_def)
  then have ok: "database_ok ?s" "itemised ?s" "settled ?s"
    using assms(3) itemised_frame settled_frame by (auto simp: subledgers_ok_def)
  have "itemised t \<and> settled t"
  proof (cases "is_sales (snd r)")
    case True
    then show ?thesis
      using run ok assms(2)
      by (cases "snd r") (auto simp: silent_ok post_order_def dispatch_order_def post_payment_def
          elim!: create_invoice_ok intro: sale_itemised order_itemises dispatch_itemised receipt_itemised
            sale_settles order_settled dispatch_settled receipt_settles)
  next
    case False
    then show ?thesis
      using other_commands_beside [OF run _ assms(2)] itemised_frame [OF ok(2)] settled_frame [OF ok(3)]
      by (auto simp: beside_sales_def)
  qed
  then show ?thesis using execute_keeps(1) [OF assms(1,2)] assms(3) by (simp add: subledgers_ok_def)
qed

interpretation subledgers: handler_contract subledgers_ok "\<lambda>r. admissible (snd r)" "execute c" for c
  by unfold_locales (rule execute_keeps_subledgers)

lemma installed_subledgers: "installed s \<Longrightarrow> subledgers_ok s"
  using installed_ok(1) by (auto simp: subledgers_ok_def installed_def itemised_def settled_def allocated_def)

section \<open>The GST summary\<close>

lemma foldl_money:
  fixes f :: "'r \<Rightarrow> decimal"
  assumes "\<forall>r \<in> set rs. paisa_grid (f r)" "paisa_grid t"
  shows "foldl (\<lambda>t r. Money (t + f r)) t rs = t + (\<Sum>r\<leftarrow>rs. f r)"
  using assms by (induction rs arbitrary: t) (simp_all add: Money_id on_grid_add)

lemma grid_sum_rows: "(\<And>r. r \<in> set rs \<Longrightarrow> paisa_grid (f r)) \<Longrightarrow> paisa_grid (sum_rows q f rs)"
  by (auto simp: sum_rows_def intro!: on_grid_sum_list)

text \<open>Adding the buckets up adds all the items up.\<close>

lemma buckets_total:
  assumes "\<forall>i \<in> set items. paisa_grid (f i)"
  shows "foldl (\<lambda>t r. Money (t + Money (sum_rows (\<lambda>i. ii_gst_rate i = r) f items))) 0 (sort (remdups (map ii_gst_rate items)))
    = (\<Sum>i\<leftarrow>items. f i)"
proof -
  let ?rates = "sort (remdups (map ii_gst_rate items))"
  have grid: "paisa_grid (sum_rows (\<lambda>i. ii_gst_rate i = r) f items)" for r
    by (rule grid_sum_rows) (use assms in blast)
  have "foldl (\<lambda>t r. Money (t + Money (sum_rows (\<lambda>i. ii_gst_rate i = r) f items))) 0 ?rates
      = (\<Sum>r\<leftarrow>?rates. Money (sum_rows (\<lambda>i. ii_gst_rate i = r) f items))"
    using foldl_money [of ?rates "\<lambda>r. Money (sum_rows (\<lambda>i. ii_gst_rate i = r) f items)" 0] by simp
  also have "\<dots> = (\<Sum>r\<leftarrow>?rates. sum_rows (\<lambda>i. ii_gst_rate i = r) f items)" by (simp add: Money_id grid)
  also have "\<dots> = (\<Sum>i\<leftarrow>items. f i)" by (rule sum_rows_groups) auto
  finally show ?thesis .
qed

text \<open>The items of the period are those of its invoices, each counted once.\<close>

lemma period_items_total:
  fixes f :: "sales_invoice_item \<Rightarrow> decimal" and amount :: "sales_invoice \<Rightarrow> decimal"
  assumes "subledgers_ok s"
    and "\<And>v. v \<in> set (db_invoices s) \<Longrightarrow> amount v = sum_rows (\<lambda>i. ii_sales_invoice_id i = si_id v) f (db_invoice_items s)"
  shows "(\<Sum>i\<leftarrow>period_items org d e s. f i) = (\<Sum>v\<leftarrow>period_invoices org d e s. amount v)"
proof -
  let ?vs = "period_invoices org d e s"
  have "distinct (map si_id (db_invoices s))" using assms(1) by (simp add: subledgers_ok_def database_ok_def ids_ok_def)
  then have dist: "distinct (map si_id ?vs)" by (simp add: period_invoices_def distinct_map_filter)
  have listed: "k \<in> si_id ` set ?vs \<longleftrightarrow> (\<exists>v \<in> set ?vs. si_id v = k)" for k by auto
  have "(\<Sum>v\<leftarrow>?vs. amount v) = (\<Sum>v\<leftarrow>?vs. sum_rows (\<lambda>i. ii_sales_invoice_id i = si_id v) f (db_invoice_items s))"
    using assms(2) by (intro arg_cong [where f = sum_list] map_cong) (auto simp: period_invoices_def)
  also have "\<dots> = (\<Sum>i\<leftarrow>filter (\<lambda>i. ii_sales_invoice_id i \<in> si_id ` set ?vs) (db_invoice_items s). f i)"
    using sum_list_groups [OF dist, of f ii_sales_invoice_id "\<lambda>_. True" "db_invoice_items s"] by (simp add: sum_rows_def)
  also have "filter (\<lambda>i. ii_sales_invoice_id i \<in> si_id ` set ?vs) (db_invoice_items s) = period_items org d e s"
    unfolding period_items_def listed ..
  finally show ?thesis by simp
qed

lemma gst_totals:
  assumes "subledgers_ok s"
  shows "gs_total_taxable (gst_summary_of org d e s) = (\<Sum>v\<leftarrow>period_invoices org d e s. si_subtotal v)"
    "gs_total_tax (gst_summary_of org d e s) = (\<Sum>v\<leftarrow>period_invoices org d e s. si_tax_total v)"
proof -
  have item: "itemised s" using assms by (simp add: subledgers_ok_def)
  have grid: "\<forall>i \<in> set (period_items org d e s). paisa_grid (ii_taxable_value i)"
      "\<forall>i \<in> set (period_items org d e s). paisa_grid (ii_tax_amount i)"
    using item by (auto simp: itemised_def period_items_def)
  have "gs_total_taxable (gst_summary_of org d e s) = (\<Sum>i\<leftarrow>period_items org d e s. ii_taxable_value i)"
    "gs_total_tax (gst_summary_of org d e s) = (\<Sum>i\<leftarrow>period_items org d e s. ii_tax_amount i)"
    using buckets_total [OF grid(1)] buckets_total [OF grid(2)]
    by (simp_all add: gst_summary_of_def Let_def foldl_map gst_bucket_of_def)
  moreover have "(\<Sum>i\<leftarrow>period_items org d e s. ii_taxable_value i) = (\<Sum>v\<leftarrow>period_invoices org d e s. si_subtotal v)"
    by (rule period_items_total [OF assms]) (use item in \<open>simp add: itemised_def invoice_itemised_def\<close>)
  moreover have "(\<Sum>i\<leftarrow>period_items org d e s. ii_tax_amount i) = (\<Sum>v\<leftarrow>period_invoices org d e s. si_tax_total v)"
    by (rule period_items_total [OF assms]) (use item in \<open>simp add: itemised_def invoice_itemised_def\<close>)
  ultimately show "gs_total_taxable (gst_summary_of org d e s) = (\<Sum>v\<leftarrow>period_invoices org d e s. si_subtotal v)"
    "gs_total_tax (gst_summary_of org d e s) = (\<Sum>v\<leftarrow>period_invoices org d e s. si_tax_total v)" by simp_all
qed

text \<open>A register that is not cut off lists every invoice of the period.\<close>

lemma register_totals:
  fixes collate :: "string \<Rightarrow> string"
  assumes "\<forall>v \<in> set (db_invoices s). invoice_ok v" "length (period_invoices org d e s) \<le> limit"
  defines "rows \<equiv> sales_register collate org d e None limit s"
  shows "(\<Sum>r\<leftarrow>rows. rg_taxable_value r) = (\<Sum>v\<leftarrow>period_invoices org d e s. si_subtotal v)"
    "(\<Sum>r\<leftarrow>rows. rg_tax_amount r) = (\<Sum>v\<leftarrow>period_invoices org d e s. si_tax_total v)"
    "(\<Sum>r\<leftarrow>rows. rg_total r) = (\<Sum>v\<leftarrow>period_invoices org d e s. si_grand_total v)"
proof -
  let ?vs = "period_invoices org d e s"
  let ?sorted = "rev (sort_key (\<lambda>v. (si_invoice_date v, collate (si_invoice_number v))) ?vs)"
  have rows: "rows = map (sales_register_row s) ?sorted" using assms(2) by (simp add: rows_def sales_register_def given_def)
  have total: "(\<Sum>r\<leftarrow>rows. g r) = (\<Sum>v\<leftarrow>?vs. h v)"
    if "\<And>v. invoice_ok v \<Longrightarrow> g (sales_register_row s v) = h v" for g h :: "_ \<Rightarrow> decimal"
  proof -
    have "(\<Sum>r\<leftarrow>rows. g r) = (\<Sum>v\<leftarrow>?sorted. h v)"
      unfolding rows map_map comp_def
      using that assms(1) by (intro arg_cong [where f = sum_list] map_cong) (auto simp: period_invoices_def)
    also have "\<dots> = (\<Sum>v\<leftarrow>?vs. h v)" by (rule sum_list_perm) simp
    finally show ?thesis .
  qed
  show "(\<Sum>r\<leftarrow>rows. rg_taxable_value r) = (\<Sum>v\<leftarrow>?vs. si_subtotal v)" "(\<Sum>r\<leftarrow>rows. rg_tax_amount r) = (\<Sum>v\<leftarrow>?vs. si_tax_total v)"
    "(\<Sum>r\<leftarrow>rows. rg_total r) = (\<Sum>v\<leftarrow>?vs. si_grand_total v)"
    by (rule total, simp add: sales_register_row_def Money_id invoice_ok_def on_grid_add)+
qed

text \<open>
  C15: The GST summary is what was charged. After any history of requests, the taxable value and the
  tax of the GST summary of any period, added up from the items by rate, are the subtotals and taxes
  of the invoices of the period, to the paisa; and they are the totals of the sales register, as long
  as the register is not cut off at its limit.
\<close>

theorem gst_summary_reconciles:
  fixes c :: crypto
  assumes "installed s" "\<forall>r \<in> set rs. admissible (snd r)"
  defines "t \<equiv> serve (execute c) rs s"
  shows "gs_total_taxable (gst_summary_of org d e t) = (\<Sum>v\<leftarrow>period_invoices org d e t. si_subtotal v)
    \<and> gs_total_tax (gst_summary_of org d e t) = (\<Sum>v\<leftarrow>period_invoices org d e t. si_tax_total v)
    \<and> (length (period_invoices org d e t) \<le> limit \<longrightarrow>
        (let register = register_response_of (sales_register collate org d e None limit t)
         in rv_total_taxable register = gs_total_taxable (gst_summary_of org d e t)
          \<and> rv_total_tax register = gs_total_tax (gst_summary_of org d e t)
          \<and> rv_grand_total register = rv_total_taxable register + rv_total_tax register))"
proof -
  have ok: "subledgers_ok t"
    unfolding t_def by (rule subledgers.serve_keeps [OF assms(2) installed_subledgers [OF assms(1)]])
  then have inv: "\<forall>v \<in> set (db_invoices t). invoice_ok v" by (simp add: subledgers_ok_def database_ok_def)
  have "(\<Sum>v\<leftarrow>period_invoices org d e t. si_grand_total v)
      = (\<Sum>v\<leftarrow>period_invoices org d e t. si_subtotal v) + (\<Sum>v\<leftarrow>period_invoices org d e t. si_tax_total v)"
    unfolding sum_list_addf [symmetric]
    using inv by (intro arg_cong [where f = sum_list] map_cong) (auto simp: period_invoices_def invoice_ok_def)
  then show ?thesis
    using gst_totals [OF ok] register_totals [OF inv] by (simp add: register_response_of_def Let_def)
qed

section \<open>The customer statement\<close>

lemma ledger_rows_closing:
  assumes "paisa_grid b" "\<forall>e \<in> set es. paisa_grid (fst (snd (snd (snd e)))) \<and> paisa_grid (snd (snd (snd (snd e))))"
  shows "snd (ledger_rows b es)
    = b + (\<Sum>e\<leftarrow>es. fst (snd (snd (snd e)))) - (\<Sum>e\<leftarrow>es. snd (snd (snd (snd e))))"
  using assms
proof (induction b es rule: ledger_rows.induct)
  case (2 b d kind reference debit credit es)
  have "paisa_grid (b + debit - credit)" using 2(2,3) by (simp add: on_grid_add on_grid_diff)
  then show ?case using 2 by (simp add: Let_def case_prod_beta Money_id)
qed simp

lemma event_amounts [simp]:
  "fst (snd (snd (snd (invoice_event v)))) = si_grand_total v" "snd (snd (snd (snd (invoice_event v)))) = 0"
  "fst (snd (snd (snd (payment_event p)))) = 0" "snd (snd (snd (snd (payment_event p)))) = py_amount p"
  by (simp_all add: invoice_event_def payment_event_def)

lemma whole_period [simp]: "in_period None None d" "within_days None None t"
  by (simp_all add: in_period_def within_days_def)

text \<open>The whole statement of a customer: what was invoiced, less what was paid.\<close>

lemma statement_closing:
  assumes "subledgers_ok s" "paisa_grid b"
  shows "snd (ledger_rows b (customer_events org c None None s))
    = b + sum_rows (billed_to org c) si_grand_total (db_invoices s) - sum_rows (paid_by org c) py_amount (db_payments s)"
proof -
  let ?invs = "filter (billed_to org c) (db_invoices s)" and ?pays = "filter (paid_by org c) (db_payments s)"
  have inbound: "\<forall>p \<in> set (db_payments s). py_direction p = INBOUND \<and> paisa_grid (py_amount p)"
    and inv: "\<forall>v \<in> set (db_invoices s). invoice_ok v"
    using assms(1) by (simp_all add: subledgers_ok_def settled_def database_ok_def)
  have pays: "inbound_payments (Some c) None None org s = ?pays"
    unfolding inbound_payments_def by (rule filter_cong [OF refl]) (use inbound in \<open>auto simp: paid_by_def given_def\<close>)
  have events: "customer_events org c None None s = sort_key event_key (map invoice_event ?invs @ map payment_event ?pays)"
    unfolding customer_events_def pays by (simp add: billed_to_def [abs_def])
  have grid: "\<forall>e \<in> set (customer_events org c None None s).
      paisa_grid (fst (snd (snd (snd e)))) \<and> paisa_grid (snd (snd (snd (snd e))))"
    using inv inbound invoice_ok_grid by (auto simp: events)
  have "(\<Sum>e\<leftarrow>customer_events org c None None s. fst (snd (snd (snd e)))) = sum_rows (billed_to org c) si_grand_total (db_invoices s)"
    "(\<Sum>e\<leftarrow>customer_events org c None None s. snd (snd (snd (snd e)))) = sum_rows (paid_by org c) py_amount (db_payments s)"
    unfolding events sum_list_sort_key by (simp_all add: sum_rows_def comp_def)
  then show ?thesis using ledger_rows_closing [OF assms(2) grid] by simp
qed

lemma sum_open:
  assumes "\<forall>v \<in> set vs. invoice_ok v"
  shows "sum_rows (\<lambda>v. q v \<and> si_payment_status v \<noteq> PAID) open_amount vs = sum_rows q open_amount vs"
  using assms by (induction vs) (auto simp: sum_rows_Cons dest: invoice_ok_paid)

text \<open>What the open invoices are short of, as the collections service reports it.\<close>

lemma outstanding_balance:
  assumes "subledgers_ok s"
  shows "customer_ledger_balance org c s = sum_rows (billed_to org c) open_amount (db_invoices s)"
proof -
  have inv: "invoice_ok v" if "v \<in> set (db_invoices s)" for v using assms that by (simp add: subledgers_ok_def database_ok_def)
  have "(\<Sum>v\<leftarrow>outstanding_invoices org c s. si_grand_total v - si_paid_amount v)
      = sum_rows (\<lambda>v. billed_to org c v \<and> si_payment_status v \<noteq> PAID) open_amount (db_invoices s)"
    unfolding outstanding_invoices_def sum_list_sort_key
    by (simp add: sum_rows_def open_amount_def [abs_def] billed_to_def conj_ac)
  also have "\<dots> = sum_rows (billed_to org c) open_amount (db_invoices s)" by (rule sum_open) (use inv in blast)
  finally have "(\<Sum>v\<leftarrow>outstanding_invoices org c s. si_grand_total v - si_paid_amount v)
      = sum_rows (billed_to org c) open_amount (db_invoices s)" .
  moreover have "paisa_grid (sum_rows (billed_to org c) open_amount (db_invoices s))"
    by (rule grid_sum_rows) (use inv invoice_ok_grid in blast)
  ultimately show ?thesis by (simp add: customer_ledger_balance_def Money_id)
qed


section \<open>The dashboard\<close>

lemma channel_total:
  "value_or_zero (sales_total_by_channel org d s ch)
   = sum_rows (\<lambda>v. si_channel v = ch) si_grand_total (period_invoices org d d s)"
  by (simp add: sales_total_by_channel_def value_or_zero_def sum_rows_def Let_def)

lemma channels_total:
  fixes vs :: "sales_invoice list" and f :: "sales_invoice \<Rightarrow> decimal"
  shows "sum_rows (\<lambda>v. si_channel v = RETAIL_CHANNEL) f vs + sum_rows (\<lambda>v. si_channel v = WHOLESALE_CHANNEL) f vs
   = (\<Sum>v\<leftarrow>vs. f v)"
proof -
  have "si_channel v = WHOLESALE_CHANNEL \<longleftrightarrow> si_channel v \<noteq> RETAIL_CHANNEL" for v :: sales_invoice
    by (cases "si_channel v") simp_all
  then show ?thesis by (induction vs) (simp_all add: sum_rows_Cons)
qed

lemma length_filter_sort: "length (filter q (sort_key k xs)) = length (filter q xs)"
  by (rule mset_eq_length) simp

text \<open>The products that the dashboard counts are the rows that the valuation flags.\<close>

lemma low_stock_agrees:
  assumes "length (filter (\<lambda>p. pd_organization_id p = org \<and> pd_is_active p) (db_products s)) \<le> limit"
  shows "low_stock_count org s = length (filter sv_is_low (stock_valuation collate org limit s))"
  using assms
  by (simp add: low_stock_count_def stock_valuation_def filter_map length_filter_sort comp_def stock_valuation_row_of_def
      Let_def conj_ac)


section \<open>The types of the tables\<close>


section \<open>The day of trade\<close>


theorem gst_summary_reconciles_witness:
  "gs_total_taxable (gst_summary_of 1 600 601 (serve (execute sample_crypto) sample_trade sample_database)) = 800
   \<and> gs_total_tax (gst_summary_of 1 600 601 (serve (execute sample_crypto) sample_trade sample_database)) = 40"
proof -
  let ?t = "serve (execute sample_crypto) sample_trade sample_database"
  have "\<forall>r \<in> set sample_trade. admissible (snd r)" using sample_trade_admissible by blast
  note gst = gst_summary_reconciles [OF sample_database_installed this, where c = sample_crypto and org = 1 and d = 600 and e = 601]
  obtain v w where "db_invoices ?t = [v, w]" "si_organization_id v = 1" "si_invoice_date v = 601" "si_subtotal v = 400"
      "si_tax_total v = 20" "si_organization_id w = 1" "si_invoice_date w = 601" "si_subtotal w = 400" "si_tax_total w = 20"
    using traded by (auto simp: trade_summary_def map_eq_Cons_conv)
  then show ?thesis using gst by (simp add: period_invoices_def)
qed



end
