(* ===== verification/Shelves.thy ===== *)
theory Shelves
  imports Program
begin

text \<open>
  What the stock tables promise, as an abstract machine: per warehouse and product one quantity on the
  shelf and one promised to orders, moved by four guarded events. The section on requests states which
  events a request stands for, read off its body and the open documents; the simulation shows that the
  program does exactly these, batches, first-expiry-first-out draws, ledger rows and rollbacks included.
  Transfers are left out: they ignore what is promised (\<open>transfer_strands_reservation\<close>).
\<close>

section \<open>The machine\<close>

record shelf =
  sf_stock :: "uuid \<Rightarrow> uuid \<Rightarrow> decimal"
  sf_promised :: "uuid \<Rightarrow> uuid \<Rightarrow> decimal"

datatype shelf_event =
    Bring uuid uuid decimal
  | Take uuid uuid decimal
  | Promise uuid uuid decimal
  | Unpromise uuid uuid decimal

definition shift :: "uuid \<Rightarrow> uuid \<Rightarrow> decimal \<Rightarrow> (uuid \<Rightarrow> uuid \<Rightarrow> decimal) \<Rightarrow> uuid \<Rightarrow> uuid \<Rightarrow> decimal" where
  "shift w p q f = (\<lambda>w' p'. f w' p' + (if w' = w \<and> p' = p then q else 0))"

fun shelf_act :: "shelf_event \<Rightarrow> shelf \<Rightarrow> shelf option" where
  "shelf_act (Bring w p q) a = (if 0 < q then Some (a\<lparr>sf_stock := shift w p q (sf_stock a)\<rparr>) else None)"
| "shelf_act (Take w p q) a =
     (if 0 < q \<and> q \<le> sf_stock a w p - sf_promised a w p then Some (a\<lparr>sf_stock := shift w p (- q) (sf_stock a)\<rparr>) else None)"
| "shelf_act (Promise w p q) a =
     (if 0 < q \<and> q \<le> sf_stock a w p - sf_promised a w p
      then Some (a\<lparr>sf_promised := shift w p q (sf_promised a)\<rparr>) else None)"
| "shelf_act (Unpromise w p q) a =
     (if 0 < q \<and> q \<le> sf_promised a w p then Some (a\<lparr>sf_promised := shift w p (- q) (sf_promised a)\<rparr>) else None)"

definition shelf_ok :: "shelf \<Rightarrow> bool" where
  "shelf_ok a \<longleftrightarrow> (\<forall>w p. 0 \<le> sf_promised a w p \<and> sf_promised a w p \<le> sf_stock a w p)"

lemma shelf_act_ok: "shelf_act e a = Some b \<Longrightarrow> shelf_ok a \<Longrightarrow> shelf_ok b"
proof -
  have le: "x - q \<le> y" if "0 < q" "x \<le> y" for x q y :: decimal using that by linarith
  show "shelf_act e a = Some b \<Longrightarrow> shelf_ok a \<Longrightarrow> shelf_ok b"
    by (cases e) (auto simp: shelf_ok_def shift_def add_increasing2 le split: if_splits intro: order_trans)
qed

text \<open>What an event adds to the stock of a product in a warehouse.\<close>

fun stock_moved :: "uuid \<Rightarrow> uuid \<Rightarrow> shelf_event \<Rightarrow> decimal" where
  "stock_moved w p (Bring w' p' q) = (if w = w' \<and> p = p' then q else 0)"
| "stock_moved w p (Take w' p' q) = (if w = w' \<and> p = p' then - q else 0)"
| "stock_moved w p _ = 0"

lemma shelf_act_moved: "shelf_act e a = Some b \<Longrightarrow> sf_stock b w p = sf_stock a w p + stock_moved w p e"
  by (cases e) (auto simp: shift_def split: if_splits)

section \<open>Simulation\<close>

fun run_events :: "('e \<Rightarrow> 'a \<Rightarrow> 'a option) \<Rightarrow> 'e list \<Rightarrow> 'a \<Rightarrow> 'a option" where
  "run_events act [] a = Some a"
| "run_events act (e # es) a = Option.bind (act e a) (run_events act es)"

lemma run_events_append: "run_events act (es @ fs) a = Option.bind (run_events act es a) (run_events act fs)"
  by (induction es arbitrary: a) (auto split: Option.bind_split)

lemma run_events_keeps:
  assumes "run_events act es a = Some b" "P a" "\<And>e a b. act e a = Some b \<Longrightarrow> P a \<Longrightarrow> P b"
  shows "P b"
  using assms(1,2) by (induction es arbitrary: a) (auto simp: bind_eq_Some_conv intro: assms(3))

lemma run_events_moved:
  "run_events shelf_act es a = Some b \<Longrightarrow> sf_stock b w p = sf_stock a w p + (\<Sum>e\<leftarrow>es. stock_moved w p e)"
  by (induction es arbitrary: a) (auto simp: bind_eq_Some_conv shelf_act_moved algebra_simps)

text \<open>The events of a history of requests; those of a refused request do not happen.\<close>

fun event_history :: "('x \<Rightarrow> 's \<Rightarrow> ('b \<times> 's) res) \<Rightarrow> ('x \<Rightarrow> 's \<Rightarrow> 'e list) \<Rightarrow> 'x list \<Rightarrow> 's \<Rightarrow> 'e list" where
  "event_history handler events [] s = []"
| "event_history handler events (x # xs) s =
     (case handler x s of
        Inl e \<Rightarrow> event_history handler events xs s
      | Inr (b, t) \<Rightarrow> events x s @ event_history handler events xs t)"

text \<open>
  A contract of handlers that besides keeping the invariant run an abstract machine: one request is
  the run of its events, so every history is the run of its event history.
\<close>

locale simulation = handler_contract inv_ok admissible handler
  for inv_ok :: "'s \<Rightarrow> bool" and admissible :: "'x \<Rightarrow> bool" and handler :: "'x \<Rightarrow> 's \<Rightarrow> ('b \<times> 's) res" +
  fixes view :: "'s \<Rightarrow> 'a"
    and events :: "'x \<Rightarrow> 's \<Rightarrow> 'e list"
    and act :: "'e \<Rightarrow> 'a \<Rightarrow> 'a option"
  assumes handler_simulates:
    "admissible x \<Longrightarrow> inv_ok s \<Longrightarrow> handler x s = Inr (b, t) \<Longrightarrow> run_events act (events x s) (view s) = Some (view t)"
begin

lemma history_simulates:
  "\<forall>x \<in> set xs. admissible x \<Longrightarrow> inv_ok s \<Longrightarrow>
   run_events act (event_history handler events xs s) (view s) = Some (view (serve handler xs s))"
proof (induction xs arbitrary: s)
  case (Cons x xs)
  show ?case
  proof (cases "handler x s")
    case (Inr r)
    obtain b t where r: "r = (b, t)" by (cases r)
    have "inv_ok t" using Cons.prems Inr r by (auto intro: handler_keeps)
    moreover have "run_events act (events x s) (view s) = Some (view t)"
      using Cons.prems Inr r by (auto intro: handler_simulates)
    ultimately show ?thesis
      using Cons by (simp add: Inr r serve_def run_request_def run_events_append)
  qed (use Cons in \<open>simp add: serve_def run_request_def\<close>)
qed (simp add: serve_def)

end

section \<open>The operations on stock\<close>

definition shelf_of :: "inventory \<Rightarrow> shelf" where
  "shelf_of v = \<lparr>sf_stock = stock_of v, sf_promised = reservations_of v\<rparr>"

definition stock_refines :: "inventory \<Rightarrow> shelf_event list \<Rightarrow> inventory \<Rightarrow> bool" where
  "stock_refines v es t \<longleftrightarrow>
     ledger_ok t \<and> reserved_ok t \<and> run_events shelf_act es (shelf_of v) = Some (shelf_of t)"

lemma stock_refines_ok: "stock_refines v es t \<Longrightarrow> ledger_ok t" "stock_refines v es t \<Longrightarrow> reserved_ok t"
  by (simp_all add: stock_refines_def)

lemma refines_refl: "ledger_ok v \<Longrightarrow> reserved_ok v \<Longrightarrow> stock_refines v [] v"
  by (simp add: stock_refines_def)

lemma refines_trans: "stock_refines v es m \<Longrightarrow> stock_refines m fs t \<Longrightarrow> stock_refines v (es @ fs) t"
  by (simp add: stock_refines_def run_events_append)

lemma shelf_eqI:
  "(\<And>w p. stock_of t w p = sf_stock a w p) \<Longrightarrow> (\<And>w p. reservations_of t w p = sf_promised a w p) \<Longrightarrow> a = shelf_of t"
  by (cases a) (auto simp: shelf_of_def fun_eq_iff)

lemma fold_refines:
  assumes "\<And>x v t. f x v = Inr t \<Longrightarrow> ledger_ok v \<Longrightarrow> reserved_ok v \<Longrightarrow> stock_refines v (g x) t"
    and "fold_res f xs v = Inr t" "ledger_ok v" "reserved_ok v"
  shows "stock_refines v (concat (map g xs)) t"
  using assms(2-4)
proof (induction xs arbitrary: v)
  case (Cons x xs)
  obtain m where m: "f x v = Inr m" "fold_res f xs m = Inr t" using Cons.prems(1) by auto
  have one: "stock_refines v (g x) m" by (rule assms(1) [OF m(1) Cons.prems(2,3)])
  show ?case using refines_trans [OF one Cons.IH [OF m(2) stock_refines_ok [OF one]]] by simp
qed (simp add: refines_refl)

lemma map_refines:
  assumes "\<And>x v y t. f x v = Inr (y, t) \<Longrightarrow> ledger_ok v \<Longrightarrow> reserved_ok v \<Longrightarrow> stock_refines v (g x) t"
    and "map_state f xs v = Inr (ys, t)" "ledger_ok v" "reserved_ok v"
  shows "stock_refines v (concat (map g xs)) t"
  using assms(2-4)
proof (induction xs arbitrary: v ys)
  case (Cons x xs)
  obtain y m ys' where m: "f x v = Inr (y, m)" "map_state f xs m = Inr (ys', t)"
    using Cons.prems(1) by (auto simp only: map_state_Cons_ok)
  have one: "stock_refines v (g x) m" by (rule assms(1) [OF m(1) Cons.prems(2,3)])
  show ?case using refines_trans [OF one Cons.IH [OF m(2) stock_refines_ok [OF one]]] by simp
qed (simp add: refines_refl)

text \<open>What is shown as available is on the shelf and not promised.\<close>

lemma available_unpromised:
  assumes "reserved_ok v"
  shows "available w p d v \<le> stock_of v w p - reservations_of v w p"
proof -
  let ?rows = "filter (\<lambda>b. sb_warehouse_id b = w \<and> sb_product_id b = p) (iv_balances v)"
  have "available w p d v \<le> (\<Sum>b\<leftarrow>batch_availability w p v. ba_available b)"
    unfolding available_def sum_list_map_filter' by (rule sum_list_mono) (auto simp: batch_availability_def)
  also have "\<dots> = (\<Sum>b\<leftarrow>filter (\<lambda>b. sb_reserved b < sb_on_hand b) ?rows. sb_on_hand b - sb_reserved b)"
    by (simp add: batch_availability_def comp_def conj_ac)
  also have "\<dots> \<le> (\<Sum>b\<leftarrow>?rows. sb_on_hand b - sb_reserved b)"
    unfolding sum_list_map_filter' [of _ _ ?rows] by (rule sum_list_mono) (use assms in \<open>auto simp: reserved_ok_def\<close>)
  finally show ?thesis
    by (simp add: stock_of_def reservations_of_def sum_rows_def sum_list_subtractf)
qed

lemma issue_refines:
  assumes "issue_fefo a v = Inr (ps, t)" "movement_direction (is_movement_type a) = - 1" "ledger_ok v" "reserved_ok v"
  shows "stock_refines v [Take (is_warehouse_id a) (is_product_id a) (is_base_quantity a)] t"
proof -
  note k = issue_keeps [OF assms(1,3,2)]
  have q: "0 < is_base_quantity a" "is_base_quantity a \<le> available (is_warehouse_id a) (is_product_id a) (is_as_of a) v"
    using assms(1) allocate_fefo_available [of "is_warehouse_id a" "is_product_id a" v "is_base_quantity a" "is_as_of a"]
    by (auto simp: is_ok_iff issue_fefo_ok)
  show ?thesis
    using q(1) order_trans [OF q(2) available_unpromised [OF assms(4)]] k(1,2) assms(4)
    by (auto simp: stock_refines_def shift_def k(3,4) intro!: shelf_eqI) (simp_all add: shelf_of_def)
qed

lemma reserve_refines:
  fixes a :: reserve_args
  assumes "reserve a v = Inr (u, t)" "ledger_ok v" "reserved_ok v"
  shows "stock_refines v [Promise (rv_warehouse_id a) (rv_product_id a) (rv_base_quantity a)] t"
proof -
  note k = reserve_keeps [OF assms]
  have "is_ok (reserve a v)" by (simp add: assms(1) is_ok_iff)
  then have q: "0 < rv_base_quantity a" "rv_base_quantity a \<le> available (rv_warehouse_id a) (rv_product_id a) (rv_as_of a) v"
    using reserve_succeeds_iff [OF assms(2,3)] by simp_all
  show ?thesis
    using q(1) order_trans [OF q(2) available_unpromised [OF assms(3)]] k(1,2)
    by (auto simp: stock_refines_def shift_def k(4,5) intro!: shelf_eqI) (simp_all add: shelf_of_def)
qed

lemma release_refines:
  assumes "release_reservation w p q v = Inr (u, t)" "ledger_ok v" "reserved_ok v"
  shows "stock_refines v [Unpromise w p q] t"
  using release_keeps [OF assms]
  by (auto simp: stock_refines_def shift_def intro!: shelf_eqI) (simp_all add: shelf_of_def)

text \<open>A correction brings what it adds and takes what it removes.\<close>

definition corrected :: "uuid \<Rightarrow> uuid \<Rightarrow> decimal \<Rightarrow> shelf_event" where
  "corrected w p q = (if q < 0 then Take w p (- q) else Bring w p q)"

lemma adjust_refines:
  assumes "adjust a v = Inr (ps, t)" "movement_direction (aj_movement_type a) \<le> 0" "ledger_ok v" "reserved_ok v"
  shows "stock_refines v [corrected (aj_warehouse_id a) (aj_product_id a) (aj_signed_quantity a)] t"
proof -
  note k = adjust_effect [OF assms(1,3), unfolded assms(2), simplified]
  have "- aj_signed_quantity a \<le> available (aj_warehouse_id a) (aj_product_id a) (aj_as_of a) v"
    if neg: "aj_signed_quantity a < 0"
    using adjust_removal_cases [OF assms(1) neg]
      allocate_fefo_available [of "aj_warehouse_id a" "aj_product_id a" v "- aj_signed_quantity a" "aj_as_of a"]
    by (metis is_ok_iff)
  then have "- aj_signed_quantity a \<le> stock_of v (aj_warehouse_id a) (aj_product_id a)
      - reservations_of v (aj_warehouse_id a) (aj_product_id a)" if "aj_signed_quantity a < 0"
    using that available_unpromised [OF assms(4)] order_trans by blast
  then show ?thesis
    using k assms(2,4) adjust_nonzero [OF assms(1)]
    by (auto simp: stock_refines_def shift_def corrected_def intro!: shelf_eqI) (simp_all add: shelf_of_def)
qed

lemma receive_stock_refines:
  assumes "receive_stock a i l v = Inr (x, t)" "ledger_ok v" "reserved_ok v"
  shows "stock_refines v [Bring (ga_warehouse_id a) (rl_product_id l) (line_units l)] t"
  using receive_stock_keeps [OF assms(1,2)] assms(3)
  by (auto simp: stock_refines_def shift_def intro!: shelf_eqI) (simp_all add: shelf_of_def)

text \<open>The return of a part is one inbound movement.\<close>

lemma return_refines:
  assumes "post_movement (return_movement org job part by) v = Inr (x, t)" "ledger_ok v" "reserved_ok v"
  shows "stock_refines v [Bring (rj_warehouse_id job) (rt_product_id part) (rt_base_quantity part)] t"
proof -
  have d: "0 < rt_base_quantity part" "pm_base_quantity x = rt_base_quantity part"
    using assms(1) by (auto simp: movement_delta_def return_movement_def required_args_def movement_direction_def
        INBOUND_TYPES_def Let_def split: if_splits elim!: post_movement_effect)
  show ?thesis
    using d post_movement_ledger_ok [OF assms(1,2)] post_movement_reserved_ok [OF assms(1,3) ledger_ok_unique [OF assms(2)]]
      post_movement_on_hand(3,4) [OF assms(1)]
    by (auto simp: stock_refines_def shift_def return_movement_def required_args_def intro!: shelf_eqI)
      (simp_all add: shelf_of_def)
qed

section \<open>The lines of the documents\<close>

lemma sale_lines_refine:
  assumes "map_state (\<lambda>l. issue_fefo (sale_issue a i l)) ls v = Inr (ms, t)" "ledger_ok v" "reserved_ok v"
  shows "stock_refines v (map (\<lambda>l. Take (rs_warehouse_id a) (sl_product_id l) (sl_base_quantity l)) ls) t"
proof -
  have "stock_refines v (concat (map (\<lambda>l. [Take (rs_warehouse_id a) (sl_product_id l) (sl_base_quantity l)]) ls)) t"
    by (rule map_refines [OF _ assms]) (drule issue_refines,
      simp_all add: sale_issue_def movement_direction_def INBOUND_TYPES_def OUTBOUND_TYPES_def)
  then show ?thesis by (simp add: concat_map_singleton)
qed

lemma order_lines_refine:
  assumes "fold_res (reserve_on a) ls v = Inr t" "ledger_ok v" "reserved_ok v"
  shows "stock_refines v (map (\<lambda>l. Promise (oa_warehouse_id a) (sl_product_id l) (sl_base_quantity l)) ls) t"
proof -
  have "stock_refines v (concat (map (\<lambda>l. [Promise (oa_warehouse_id a) (sl_product_id l) (sl_base_quantity l)]) ls)) t"
    by (rule fold_refines [OF _ assms]) (auto simp: reserve_on_def dest: reserve_refines)
  then show ?thesis by (simp add: concat_map_singleton)
qed

definition ship_events :: "uuid \<Rightarrow> sales_order_item \<Rightarrow> shelf_event list" where
  "ship_events w item = [Unpromise w (ot_product_id item) (ot_base_quantity item), Take w (ot_product_id item) (ot_base_quantity item)]"

lemma ship_refines:
  assumes "ship_on a order i item v = Inr t" "ledger_ok v" "reserved_ok v"
  shows "stock_refines v (ship_events (so_warehouse_id order) item) t"
proof -
  obtain u m ps where m: "release_reservation (so_warehouse_id order) (ot_product_id item) (ot_base_quantity item) v = Inr (u, m)"
      "issue_fefo (dispatch_issue a order i item) m = Inr (ps, t)"
    using assms(1) by (auto simp: ship_on_def)
  note one = release_refines [OF m(1) assms(2,3)]
  have "stock_refines m [Take (so_warehouse_id order) (ot_product_id item) (ot_base_quantity item)] t"
    using issue_refines [OF m(2) _ stock_refines_ok [OF one]]
    by (simp add: dispatch_issue_def movement_direction_def INBOUND_TYPES_def OUTBOUND_TYPES_def)
  from refines_trans [OF one this] show ?thesis by (simp add: ship_events_def)
qed

lemma receipt_lines_refine:
  assumes "map_state (\<lambda>l. receive_stock a i l) ls v = Inr (xs, t)" "ledger_ok v" "reserved_ok v"
  shows "stock_refines v (map (\<lambda>l. Bring (ga_warehouse_id a) (rl_product_id l) (line_units l)) ls) t"
proof -
  have "stock_refines v (concat (map (\<lambda>l. [Bring (ga_warehouse_id a) (rl_product_id l) (line_units l)]) ls)) t"
    by (rule map_refines [OF _ assms]) (rule receive_stock_refines)
  then show ?thesis by (simp add: concat_map_singleton)
qed

section \<open>The events of a request\<close>

text \<open>Whether a finalization is a replay of an invoice that its key already names.\<close>

definition replays :: "current_user \<Rightarrow> string option \<Rightarrow> database \<Rightarrow> bool" where
  "replays user key s \<longleftrightarrow>
     (case key of None \<Rightarrow> False | Some k \<Rightarrow>
     (case idem_find (cu_organization_id user) k (db_idempotency s) of None \<Rightarrow> False | Some e \<Rightarrow>
        get_invoice (ik_entity_id e) s \<noteq> None))"

fun workshop_events :: "workshop_command \<Rightarrow> database \<Rightarrow> shelf_event list" where
  "workshop_events (PostPart user i p q) s =
     (case first_row (\<lambda>j. rj_id j = i) (db_repair_jobs s) of None \<Rightarrow> [] | Some job \<Rightarrow> [Take (rj_warehouse_id job) p q])"
| "workshop_events (PostReturn user i p) s =
     (case first_row (\<lambda>x. rt_id x = p) (db_repair_job_parts s) of None \<Rightarrow> [] | Some part \<Rightarrow>
     (case first_row (\<lambda>j. rj_id j = rt_repair_job_id part) (db_repair_jobs s) of None \<Rightarrow> [] | Some job \<Rightarrow>
        [Bring (rj_warehouse_id job) (rt_product_id part) (rt_base_quantity part)]))"
| "workshop_events _ s = []"

text \<open>
  A sale takes its lines unless it is a replay, an order promises them unless it is a quotation, a
  dispatch turns the promise of every item into a take, a receipt brings paid and free units.
\<close>

fun shelf_events :: "command \<Rightarrow> database \<Rightarrow> shelf_event list" where
  "shelf_events (Sell day user key p) s =
     (if replays user key s then []
      else map (\<lambda>l. Take (ci_warehouse_id p) (sl_product_id l) (sl_base_quantity l)) (ci_lines p))"
| "shelf_events (Order day user p) s =
     (if co_is_quotation p then []
      else map (\<lambda>l. Promise (co_warehouse_id p) (sl_product_id l) (sl_base_quantity l)) (co_lines p))"
| "shelf_events (Dispatch day user i) s =
     (case get_order i s of None \<Rightarrow> [] | Some order \<Rightarrow>
        concat (map (ship_events (so_warehouse_id order)) (filter (\<lambda>x. ot_sales_order_id x = i) (db_order_items s))))"
| "shelf_events (ReceiveGoods user p) s =
     map (\<lambda>l. Bring (qb_warehouse_id p) (rl_product_id l) (line_units l)) (map receipt_line_of (qb_lines p))"
| "shelf_events (Workshop w) s = workshop_events w s"
| "shelf_events (Correct user p) s =
     [corrected (aq_warehouse_id p) (aq_product_id p)
        (if aq_movement_type p \<in> {DAMAGE, EXPIRY} then - \<bar>aq_signed_quantity p\<bar> else aq_signed_quantity p)]"
| "shelf_events _ s = []"

section \<open>Requests run the machine\<close>

abbreviation request_refines :: "database \<Rightarrow> shelf_event list \<Rightarrow> database \<Rightarrow> bool" where
  "request_refines s es t \<equiv> stock_refines (db_inventory s) es (db_inventory t)"

lemma replayed_iff:
  "rs_organization_id a = cu_organization_id user \<Longrightarrow> rs_idempotency_key a = key \<Longrightarrow>
   replayed_sale a s = None \<longleftrightarrow> \<not> replays user key s"
  by (auto simp: replayed_sale_def replays_def split: option.splits)

lemma sell_refines:
  assumes "create_invoice day user key p s = Inr (r, t)"
    and ok: "ids_ok s" "ledger_ok (db_inventory s)" "reserved_ok (db_inventory s)"
  shows "request_refines s (shelf_events (Sell day user key p) s) t"
proof -
  obtain a where a: "create_retail_invoice a s = Inr (r, t)" "rs_lines a = ci_lines p" "rs_warehouse_id a = ci_warehouse_id p"
      "rs_organization_id a = cu_organization_id user" "rs_idempotency_key a = key"
    using assms(1) by (rule create_invoice_ok)
  note rep = replayed_iff [OF a(4,5), of s]
  show ?thesis
    using a(1) ok(1)
  proof (cases rule: create_retail_invoice_cases)
    case replayed
    then show ?thesis using rep refines_refl [OF ok(2,3)] by simp
  next
    case (fresh products number q draft priced moves items paid invoice)
    then show ?thesis using rep sale_lines_refine [OF fresh(7) ok(2,3)] by (simp add: a(2,3))
  qed
qed

lemma order_refines:
  assumes "post_order day user p s = Inr (r, t)"
    and ok: "ids_ok s" "ledger_ok (db_inventory s)" "reserved_ok (db_inventory s)"
  shows "request_refines s (shelf_events (Order day user p) s) t"
proof -
  obtain a where a: "create_order a s = Inr (r, t)" "oa_lines a = co_lines p" "oa_warehouse_id a = co_warehouse_id p"
      "oa_is_quotation a = co_is_quotation p"
    using assms(1) by (auto simp: post_order_def)
  from a(1) ok(1) obtain customer grand v where "order_confirmed a customer grand s v" "db_inventory t = v"
    by (rule create_order_cases) simp
  then show ?thesis
    using order_lines_refine [OF _ ok(2,3), of a "co_lines p" v] refines_refl [OF ok(2,3)]
    by (auto simp: order_confirmed_def a(2-4))
qed

lemma dispatch_refines:
  assumes "dispatch_order day user i s = Inr (r, t)"
    and ok: "ids_ok s" "ledger_ok (db_inventory s)" "reserved_ok (db_inventory s)"
  shows "request_refines s (shelf_events (Dispatch day user i) s) t"
proof -
  obtain a where a: "dispatch_and_invoice a s = Inr (r, t)" "da_sales_order_id a = i"
    using assms(1) by (auto simp: dispatch_order_def)
  from a(1) ok(1) obtain order j items where o: "get_order i s = Some order"
      "items = filter (\<lambda>x. ot_sales_order_id x = i) (db_order_items s)"
      "fold_res (ship_on a order j) items (db_inventory s) = Inr (db_inventory t)"
    unfolding a(2) [symmetric] by (rule dispatch_cases) simp
  show ?thesis
    using fold_refines [OF _ o(3) ok(2,3), of "ship_events (so_warehouse_id order)"] ship_refines
    by (simp add: o(1,2))
qed

lemma receipt_refines:
  assumes "create_goods_receipt user p s = Inr (r, t)" "ledger_ok (db_inventory s)" "reserved_ok (db_inventory s)"
  shows "request_refines s (shelf_events (ReceiveGoods user p) s) t"
proof -
  obtain a where a: "receive_goods a s = Inr (r, t)" "ga_lines a = map receipt_line_of (qb_lines p)"
      "ga_warehouse_id a = qb_warehouse_id p" "ga_purchase_order_id a = None"
    using assms(1) by (auto simp: create_goods_receipt_def)
  from a(1) show ?thesis
  proof (cases rule: receive_goods_cases)
    case (1 number q landed charges xs items v es)
    then show ?thesis using receipt_lines_refine [OF 1(4) assms(2,3)] by (simp add: a(2-4))
  qed
qed

lemma consume_refines:
  assumes "consume_part a s = Inr (r, t)" "ledger_ok (db_inventory s)" "reserved_ok (db_inventory s)"
    and "cn_repair_job_id a = i" "cn_product_id a = p" "cn_base_quantity a = q"
  shows "request_refines s (shelf_events (Workshop (PostPart user i p q)) s) t"
  using assms(1)
proof (cases rule: consume_part_cases)
  case (1 job product moves v)
  have "movement_direction (is_movement_type (part_issue a job)) = - 1"
    by (simp add: part_issue_def movement_direction_def INBOUND_TYPES_def OUTBOUND_TYPES_def)
  from issue_refines [OF 1(5) this assms(2,3)] show ?thesis using 1(1) by (simp add: 1(6) part_issue_def assms(4-6))
qed

lemma return_part_refines:
  assumes "return_part org i by s = Inr (r, t)" "ledger_ok (db_inventory s)" "reserved_ok (db_inventory s)"
  shows "request_refines s (shelf_events (Workshop (PostReturn user j i)) s) t"
  using assms(1)
proof (cases rule: return_part_cases)
  case (1 part job x v)
  then show ?thesis using return_refines [OF 1(5) assms(2,3)] by simp
qed

lemma workshop_refines:
  assumes "run_workshop w s = Inr (u, t)" "ledger_ok (db_inventory s)" "reserved_ok (db_inventory s)"
  shows "request_refines s (shelf_events (Workshop w) s) t"
proof (cases w)
  case (PostPart user i p q)
  then obtain a r where "consume_part a s = Inr (r, t)" "cn_repair_job_id a = i" "cn_product_id a = p" "cn_base_quantity a = q"
    using assms(1) by (auto simp: silent_ok post_part_def)
  with PostPart assms(2,3) show ?thesis using consume_refines by simp
next
  case (PostReturn user i p)
  then show ?thesis using assms return_part_refines by (auto simp: silent_ok post_return_def)
qed (use assms in \<open>auto simp: silent_ok post_job_def create_job_def insert_job_def update_status_def complete_job_def
    set_labour_and_complete_def update_job_def Let_def split: prod.splits if_splits dest!: issue_number_ok
    intro: refines_refl\<close>)

lemma correction_refines:
  assumes "on_inventory (create_adjustment user p) s = Inr (r, t)" "ledger_ok (db_inventory s)" "reserved_ok (db_inventory s)"
  shows "request_refines s (shelf_events (Correct user p) s) t"
proof -
  obtain v where v: "create_adjustment user p (db_inventory s) = Inr (r, v)" "t = s\<lparr>db_inventory := v\<rparr>"
    using assms(1) by (auto simp: on_inventory_ok)
  obtain i q where r: "r = (i, q)" by (cases r)
  from v(1) [unfolded r] obtain a ps where a: "adjust a (db_inventory s) = Inr (ps, v)" "aj_movement_type a = aq_movement_type p"
      "aq_movement_type p \<in> ADJUSTMENT_TYPES" "aj_warehouse_id a = aq_warehouse_id p" "aj_product_id a = aq_product_id p"
      "aj_signed_quantity a = (if aq_movement_type p \<in> {DAMAGE, EXPIRY} then - \<bar>aq_signed_quantity p\<bar> else aq_signed_quantity p)"
    by (rule create_adjustment_ok)
  then show ?thesis
    using adjust_refines [OF a(1) _ assms(2,3)] adjustment_direction [OF a(3)] by (simp add: v(2))
qed

lemma receive_payment_refines:
  assumes "post_payment user p s = Inr (r, t)" "database_ok s"
  shows "db_inventory t = db_inventory s"
proof -
  obtain a where a: "receive_payment a s = Inr (r, t)" using assms(1) by (auto simp: post_payment_def)
  show ?thesis by (rule receive_payment_cases [OF a]) (use assms(2) in \<open>simp_all add: database_ok_def\<close>)
qed

lemma master_data_refines:
  "create_supplier user v s = Inr (r1, t) \<Longrightarrow> db_inventory t = db_inventory s"
  "create_product user p s = Inr (r8, t) \<Longrightarrow> db_inventory t = db_inventory s"
  "update_product user i q s = Inr (r9, t) \<Longrightarrow> db_inventory t = db_inventory s"
  "create_customer user c s = Inr (r2, t) \<Longrightarrow> db_inventory t = db_inventory s"
  "update_customer user i uc s = Inr (r3, t) \<Longrightarrow> db_inventory t = db_inventory s"
  "create_branch user b s = Inr (r4, t) \<Longrightarrow> db_inventory t = db_inventory s"
  "create_warehouse user w s = Inr (r5, t) \<Longrightarrow> db_inventory t = db_inventory s"
  "update_profile user o' s = Inr (r6, t) \<Longrightarrow> db_inventory t = db_inventory s"
  "on_identity f s = Inr (r7, t) \<Longrightarrow> db_inventory t = db_inventory s"
  by (auto simp: create_supplier_def create_customer_def update_customer_def create_branch_def create_warehouse_def
      create_product_def update_product_def update_profile_def on_identity_def Let_def split: option.splits if_splits)

lemma command_refines:
  assumes "run_command c x s = Inr (u, t)" "\<not> is_transfer x" "database_ok s" "fulfilment_ok s"
  shows "request_refines s (shelf_events x s) t"
proof -
  have ok: "ids_ok s" "ledger_ok (db_inventory s)" "reserved_ok (db_inventory s)"
    using assms(3,4) by (simp_all add: database_ok_def fulfilment_ok_def)
  note same = refines_refl [OF ok(2,3)]
  show ?thesis
    using assms(1,2) same
    by (cases x)
      (auto simp: silent_ok simp del: shelf_events.simps(1-6) dest: sell_refines [OF _ ok] order_refines [OF _ ok]
        dispatch_refines [OF _ ok] receipt_refines [OF _ ok(2,3)] workshop_refines [OF _ ok(2,3)]
        correction_refines [OF _ ok(2,3)] receive_payment_refines [OF _ assms(3)] master_data_refines)
qed

lemma shelf_at_time [simp]:
  "shelf_of (db_inventory (at_time now s)) = shelf_of (db_inventory s)" "shelf_events x (at_time now s) = shelf_events x s"
proof -
  show "shelf_of (db_inventory (at_time now s)) = shelf_of (db_inventory s)"
    by (simp add: shelf_of_def at_time_def stock_of_def reservations_of_def fun_eq_iff)
  have f: "get_order i (at_time now s) = get_order i s" "get_invoice i (at_time now s) = get_invoice i s"
    "db_order_items (at_time now s) = db_order_items s" "db_idempotency (at_time now s) = db_idempotency s"
    "db_repair_jobs (at_time now s) = db_repair_jobs s" "db_repair_job_parts (at_time now s) = db_repair_job_parts s" for i
    by (simp_all add: at_time_def get_order_def get_invoice_def)
  have "workshop_events w (at_time now s) = workshop_events w s" for w
    by (cases w) (simp_all add: f split: option.split)
  then show "shelf_events x (at_time now s) = shelf_events x s"
    by (cases x) (simp_all add: f replays_def split: option.split)
qed

interpretation stockroom: simulation "\<lambda>s. database_ok s \<and> fulfilment_ok s"
  "\<lambda>r. admissible (snd r) \<and> \<not> is_transfer (snd r)" "execute c" "\<lambda>s. shelf_of (db_inventory s)"
  "\<lambda>r. shelf_events (snd r)" shelf_act for c
proof unfold_locales
  fix r s u t
  assume r: "admissible (snd r) \<and> \<not> is_transfer (snd r)" and s: "database_ok s \<and> fulfilment_ok s"
    and run: "execute c r s = Inr (u, t)"
  have "request_refines (at_time (fst r) s) (shelf_events (snd r) (at_time (fst r) s)) t"
    using command_refines [OF run [unfolded execute_def]] r s by simp
  then show "run_events shelf_act (shelf_events (snd r) s) (shelf_of (db_inventory s)) = Some (shelf_of (db_inventory t))"
    by (simp add: stock_refines_def)
qed

lemma empty_shelf: "installed s \<Longrightarrow> shelf_of (db_inventory s) = \<lparr>sf_stock = \<lambda>_ _. 0, sf_promised = \<lambda>_ _. 0\<rparr>"
proof -
  assume "installed s"
  then obtain now where "db_inventory s = empty_inventory now" by (auto simp: installed_def)
  then show ?thesis by (simp add: shelf_of_def stock_of_def reservations_of_def empty_inventory_def fun_eq_iff)
qed


text \<open>The events of the day of trade.\<close>

lemma sample_trade_events:
  "event_history (execute sample_crypto) (\<lambda>r. shelf_events (snd r)) sample_trade sample_database
   = [Bring 4 7 12, Promise 4 7 5, Promise 4 7 5, Promise 4 7 1, Unpromise 4 7 5, Take 4 7 5, Unpromise 4 7 5, Take 4 7 5]"
  by code_simp


end
