(* ===== verification/Exports.thy ===== *)
theory Exports
  imports Reports
begin

text \<open>
  The CSV export of \<open>app/modules/reports/api.py\<close>: the registers of \<open>Reports\<close> written by the csv module
  with its default dialect, dates in ISO format and amounts with two places. A reader of the same
  dialect and formats gives back the register, whatever the names in it contain.
\<close>

section \<open>The csv module\<close>

abbreviation (input) QUOTE :: char where "QUOTE \<equiv> CHR 0x22"
abbreviation (input) COMMA :: char where "COMMA \<equiv> CHR '',''"
abbreviation (input) CR :: char where "CR \<equiv> CHR 0x0D"
abbreviation (input) LF :: char where "LF \<equiv> CHR 0x0A"

text \<open>The writer quotes a field that has a character of its own, and doubles the quotes in it.\<close>

definition csv_special :: "char \<Rightarrow> bool" where
  "csv_special c \<longleftrightarrow> c \<in> {QUOTE, COMMA, CR, LF}"

definition doubled :: "string \<Rightarrow> string" where
  "doubled f = concat (map (\<lambda>c. if c = QUOTE then [QUOTE, QUOTE] else [c]) f)"

definition csv_cell :: "string \<Rightarrow> string" where
  "csv_cell f = (if list_ex csv_special f then QUOTE # doubled f @ [QUOTE] else f)"

fun joined :: "string \<Rightarrow> string list \<Rightarrow> string" where
  "joined sep [] = []"
| "joined sep [f] = f"
| "joined sep (f # g # fs) = f @ sep @ joined sep (g # fs)"

text \<open>A row of one empty field is quoted too, lest it be an empty line.\<close>

definition csv_row :: "string list \<Rightarrow> string" where
  "csv_row fs = (if fs = [[]] then [QUOTE, QUOTE] else joined [COMMA] (map csv_cell fs)) @ [CR, LF]"

definition write_csv :: "string list list \<Rightarrow> string" where
  "write_csv rows = concat (map csv_row rows)"

section \<open>A reader of the same dialect\<close>

datatype csv_mode = Fresh | Plain | Quoted | Closed

fun read_csv :: "csv_mode \<Rightarrow> string \<Rightarrow> string list \<Rightarrow> string \<Rightarrow> string list list option" where
  "read_csv m cell row [] = (if m = Fresh \<and> cell = [] \<and> row = [] then Some [] else None)"
| "read_csv m cell row (c # cs) =
     (if m = Quoted then
        (if c = QUOTE then read_csv Closed cell row cs else read_csv Quoted (cell @ [c]) row cs)
      else if c = COMMA then read_csv Fresh [] (row @ [cell]) cs
      else if c = CR then
        (case cs of [] \<Rightarrow> None | d # ds \<Rightarrow>
           if d = LF then map_option (\<lambda>rows. (row @ [cell]) # rows) (read_csv Fresh [] [] ds) else None)
      else if c = QUOTE \<and> m = Closed then read_csv Quoted (cell @ [QUOTE]) row cs
      else if c = QUOTE \<and> m = Fresh then read_csv Quoted [] row cs
      else if csv_special c \<or> m = Closed then None
      else read_csv Plain (cell @ [c]) row cs)"

declare read_csv.simps [simp del]

definition ends_cell :: "string \<Rightarrow> bool" where
  "ends_cell rest \<longleftrightarrow> (case rest of [] \<Rightarrow> False | c # _ \<Rightarrow> c = COMMA \<or> c = CR)"

lemma read_plain:
  "\<not> list_ex csv_special f \<Longrightarrow> m \<in> {Fresh, Plain} \<Longrightarrow>
   \<exists>m' \<in> {Fresh, Plain}. read_csv m cell row (f @ rest) = read_csv m' (cell @ f) row rest"
proof (induction f arbitrary: m cell)
  case (Cons c f)
  have "read_csv m cell row (c # f @ rest) = read_csv Plain (cell @ [c]) row (f @ rest)"
    using Cons.prems by (auto simp: read_csv.simps(2) csv_special_def)
  then show ?case using Cons.IH [of Plain "cell @ [c]"] Cons.prems by simp
qed auto

lemma read_quoted:
  assumes "ends_cell rest"
  shows "read_csv Quoted cell row (doubled f @ QUOTE # rest) = read_csv Closed (cell @ f) row rest"
proof (induction f arbitrary: cell)
  case Nil
  then show ?case by (simp add: doubled_def read_csv.simps(2))
next
  case (Cons c f)
  show ?case
  proof (cases "c = QUOTE")
    case True
    then have "read_csv Quoted cell row (doubled (c # f) @ QUOTE # rest)
        = read_csv Quoted (cell @ [c]) row (doubled f @ QUOTE # rest)"
      by (simp add: doubled_def read_csv.simps(2))
    then show ?thesis using Cons by simp
  next
    case False
    then have "read_csv Quoted cell row (doubled (c # f) @ QUOTE # rest)
        = read_csv Quoted (cell @ [c]) row (doubled f @ QUOTE # rest)"
      by (simp add: doubled_def read_csv.simps(2))
    then show ?thesis using Cons by simp
  qed
qed

text \<open>Whatever is in a cell, the reader arrives behind it with the cell.\<close>

lemma read_cell:
  assumes "ends_cell rest"
  shows "\<exists>m \<in> {Fresh, Plain, Closed}. read_csv Fresh [] row (csv_cell f @ rest) = read_csv m f row rest"
proof (cases "list_ex csv_special f")
  case True
  then show ?thesis
    using read_quoted [OF assms, of "[]" row f] by (simp add: csv_cell_def read_csv.simps(2))
next
  case False
  then show ?thesis using read_plain [of f Fresh "[]" row rest] by (auto simp: csv_cell_def)
qed

lemma read_separator: "m \<in> {Fresh, Plain, Closed} \<Longrightarrow> read_csv m f row (COMMA # rest) = read_csv Fresh [] (row @ [f]) rest"
  by (auto simp: read_csv.simps(2))

lemma read_line_end:
  "m \<in> {Fresh, Plain, Closed} \<Longrightarrow>
   read_csv m f row (CR # LF # rest) = map_option (\<lambda>rows. (row @ [f]) # rows) (read_csv Fresh [] [] rest)"
  by (auto simp: read_csv.simps(2))

lemma read_row:
  "fs \<noteq> [] \<Longrightarrow> read_csv Fresh [] row (joined [COMMA] (map csv_cell fs) @ CR # LF # rest)
   = map_option (\<lambda>rows. (row @ fs) # rows) (read_csv Fresh [] [] rest)"
proof (induction fs arbitrary: row)
  case (Cons f fs)
  show ?case
  proof (cases fs)
    case Nil
    have "ends_cell (CR # LF # rest)" by (simp add: ends_cell_def)
    from read_cell [OF this, of row f] show ?thesis by (auto simp: Nil read_line_end)
  next
    case (Cons g gs)
    let ?rest = "COMMA # joined [COMMA] (map csv_cell fs) @ CR # LF # rest"
    have "ends_cell ?rest" by (simp add: ends_cell_def)
    from read_cell [OF this, of row f] have "read_csv Fresh [] row (csv_cell f @ ?rest)
        = read_csv Fresh [] (row @ [f]) (joined [COMMA] (map csv_cell fs) @ CR # LF # rest)"
      by (auto simp: read_separator)
    then show ?thesis using Cons.IH [of "row @ [f]"] by (simp add: Cons)
  qed
qed simp

lemma read_write_csv:
  assumes "\<forall>fs \<in> set rows. fs \<noteq> []"
  shows "read_csv Fresh [] [] (write_csv rows) = Some rows"
  using assms
proof (induction rows)
  case (Cons fs rows)
  have one: "read_csv Fresh [] [] (csv_row fs @ rest) = map_option (\<lambda>rows. fs # rows) (read_csv Fresh [] [] rest)" for rest
  proof (cases "fs = [[]]")
    case True
    then show ?thesis by (simp add: csv_row_def read_csv.simps(2))
  next
    case False
    then show ?thesis using read_row [of fs "[]" rest] Cons.prems by (simp add: csv_row_def)
  qed
  show ?case using Cons by (simp add: write_csv_def one)
qed (simp add: write_csv_def read_csv.simps(1))

section \<open>Dates\<close>

text \<open>The calendar of Python's datetime module, by the ordinal of the day; day 0 is 1970-01-01.\<close>

definition is_leap :: "nat \<Rightarrow> bool" where
  "is_leap y \<longleftrightarrow> y mod 4 = 0 \<and> (y mod 100 \<noteq> 0 \<or> y mod 400 = 0)"

definition days_before_year :: "nat \<Rightarrow> nat" where
  "days_before_year y = 365 * (y - 1) + (y - 1) div 4 - (y - 1) div 100 + (y - 1) div 400"

definition month_lengths :: "bool \<Rightarrow> nat list" where
  "month_lengths leap = [31, if leap then 29 else 28, 31, 30, 31, 30, 31, 31, 30, 31, 30, 31]"

definition days_before_month :: "bool \<Rightarrow> nat \<Rightarrow> nat" where
  "days_before_month leap m = sum_list (take (m - 1) (month_lengths leap))"

definition ymd2ord :: "nat \<times> nat \<times> nat \<Rightarrow> nat" where
  "ymd2ord = (\<lambda>(y, m, d). days_before_year y + days_before_month (is_leap y) m + d)"

text \<open>The month by an estimate that is at most one too high.\<close>

definition month_day :: "bool \<Rightarrow> nat \<Rightarrow> nat \<times> nat" where
  "month_day leap k =
     (let month = (k + 50) div 32;
          month = (if k < days_before_month leap month then month - 1 else month)
      in (month, k - days_before_month leap month + 1))"

definition ord2ymd :: "nat \<Rightarrow> nat \<times> nat \<times> nat" where
  "ord2ymd n =
     (let m = n - 1; n400 = m div 146097; r = m mod 146097;
          n100 = r div 36524; r1 = r mod 36524;
          n4 = r1 div 1461; r2 = r1 mod 1461;
          n1 = r2 div 365; k = r2 mod 365;
          year = 400 * n400 + 1 + 100 * n100 + 4 * n4 + n1
      in if n1 = 4 \<or> n100 = 4 then (year - 1, 12, 31)
         else (year, month_day (n1 = 3 \<and> (n4 \<noteq> 24 \<or> n100 = 3)) k))"

definition isoformat :: "date \<Rightarrow> string" where
  "isoformat day =
     (let (y, m, d) = ord2ymd (nat (day + 719163))
      in zero_padded 4 y @ ''-'' @ zero_padded 2 m @ ''-'' @ zero_padded 2 d)"

text \<open>The days that a date can be: \<open>date.min\<close> to \<open>date.max\<close>.\<close>

definition valid_date :: "date \<Rightarrow> bool" where
  "valid_date d \<longleftrightarrow> - 719162 \<le> d \<and> d \<le> 2932896"

definition read_date :: "string \<Rightarrow> date" where
  "read_date t = int (ymd2ord (value_of (take 4 t), value_of (take 2 (drop 5 t)), value_of (take 2 (drop 8 t)))) - 719163"

lemma days_before_year_split:
  assumes "b \<le> 3" "c \<le> 24" "e \<le> 3"
  shows "days_before_year (400 * a + 1 + 100 * b + 4 * c + e) = 146097 * a + 36524 * b + 1461 * c + 365 * e"
proof -
  let ?y = "400 * a + 100 * b + 4 * c + e"
  have "?y div 4 = 100 * a + 25 * b + c" "?y div 100 = 4 * a + b" "?y div 400 = a"
    by (rule div_nat_eqI; use assms in simp)+
  then show ?thesis by (simp add: days_before_year_def)
qed

lemma is_leap_split:
  assumes "b \<le> 3" "c \<le> 24" "e \<le> 3"
  shows "is_leap (400 * a + 1 + 100 * b + 4 * c + e) \<longleftrightarrow> e = 3 \<and> (c \<noteq> 24 \<or> b = 3)"
proof -
  let ?y = "400 * a + 1 + 100 * b + 4 * c + e"
  have leap: "is_leap y \<longleftrightarrow> 4 dvd y \<and> (\<not> 100 dvd y \<or> 400 dvd y)" for y
    by (simp add: is_leap_def dvd_eq_mod_eq_0)
  have "?y = 4 * (100 * a + 25 * b + c) + (e + 1)" by simp
  then have "4 dvd ?y \<longleftrightarrow> 4 dvd e + 1" by (metis dvd_add_right_iff dvd_triv_left)
  then have four: "4 dvd ?y \<longleftrightarrow> e = 3" using assms(3) by (auto dest: dvd_imp_le)
  have hundred: "100 dvd ?y \<longleftrightarrow> c = 24" if "e = 3"
  proof -
    have "?y = 100 * (4 * a + b) + 4 * (c + 1)" using that by simp
    then have "100 dvd ?y \<longleftrightarrow> 100 dvd 4 * (c + 1)" by (metis dvd_add_right_iff dvd_triv_left)
    then show ?thesis using assms(2) by (auto dest: dvd_imp_le)
  qed
  have "400 dvd ?y \<longleftrightarrow> b = 3" if "e = 3" "c = 24"
  proof -
    have "?y = 400 * a + 100 * (b + 1)" using that by simp
    then have "400 dvd ?y \<longleftrightarrow> 400 dvd 100 * (b + 1)" by (metis dvd_add_right_iff dvd_triv_left)
    then show ?thesis using assms(1) by (auto dest: dvd_imp_le)
  qed
  then show ?thesis using four hundred by (auto simp: leap)
qed

lemma days_before_month_simps:
  "days_before_month leap 0 = 0" "days_before_month leap (Suc 0) = 0" "days_before_month leap 2 = 31"
  "days_before_month leap 3 = (if leap then 60 else 59)" "days_before_month leap 4 = (if leap then 91 else 90)"
  "days_before_month leap 5 = (if leap then 121 else 120)" "days_before_month leap 6 = (if leap then 152 else 151)"
  "days_before_month leap 7 = (if leap then 182 else 181)" "days_before_month leap 8 = (if leap then 213 else 212)"
  "days_before_month leap 9 = (if leap then 244 else 243)" "days_before_month leap 10 = (if leap then 274 else 273)"
  "days_before_month leap 11 = (if leap then 305 else 304)" "days_before_month leap 12 = (if leap then 335 else 334)"
  by (simp_all add: days_before_month_def month_lengths_def)

lemma month_day_correct:
  assumes "k < (if leap then 366 else 365)"
  shows "days_before_month leap (fst (month_day leap k)) + snd (month_day leap k) = k + 1
    \<and> fst (month_day leap k) \<le> 12 \<and> snd (month_day leap k) \<le> 31 \<and> 1 \<le> snd (month_day leap k)"
proof -
  define v where "v = (k + 50) div 32"
  have b: "32 * v \<le> k + 50" "k + 50 < 32 * v + 32" using v_def by simp_all
  moreover have "1 \<le> v" "v < 13" using b assms by (simp_all split: if_splits)
  then have "v = 1 \<or> v = 2 \<or> v = 3 \<or> v = 4 \<or> v = 5 \<or> v = 6 \<or> v = 7 \<or> v = 8 \<or> v = 9 \<or> v = 10 \<or> v = 11 \<or> v = 12"
    by (auto simp: eval_nat_numeral less_Suc_eq)
  ultimately show ?thesis
    using assms unfolding month_day_def Let_def v_def [symmetric]
    by (elim disjE; hypsubst; cases leap) (simp_all add: days_before_month_simps, auto)
qed

lemma ymd2ord_ord2ymd:
  assumes "1 \<le> n"
  shows "ymd2ord (ord2ymd n) = n"
proof -
  define a where "a = (n - 1) div 146097"
  define r where "r = (n - 1) mod 146097"
  define b where "b = r div 36524"
  define r1 where "r1 = r mod 36524"
  define c where "c = r1 div 1461"
  define r2 where "r2 = r1 mod 1461"
  define e where "e = r2 div 365"
  define k where "k = r2 mod 365"
  note defs = a_def r_def b_def r1_def c_def r2_def e_def k_def
  have n: "n = 146097 * a + r + 1" using assms unfolding a_def r_def by simp
  have r: "r = 36524 * b + r1" "r < 146097" by (simp_all add: b_def r1_def r_def)
  have r1: "r1 = 1461 * c + r2" "r1 < 36524" by (simp_all add: c_def r2_def r1_def)
  have r2: "r2 = 365 * e + k" "r2 < 1461" "k < 365" by (simp_all add: e_def k_def r2_def)
  have c: "c \<le> 24" and e: "e \<le> 4" and b: "b \<le> 4" using r r1 r2 by linarith+
  have ord: "ord2ymd n = (if e = 4 \<or> b = 4 then (400 * a + 1 + 100 * b + 4 * c + e - 1, 12, 31)
      else (400 * a + 1 + 100 * b + 4 * c + e, month_day (e = 3 \<and> (c \<noteq> 24 \<or> b = 3)) k))"
    by (simp add: ord2ymd_def Let_def defs)
  consider "b = 4" | "b < 4" "e = 4" | "b < 4" "e < 4" using b e by linarith
  then show ?thesis
  proof cases
    case 1
    then have z: "c = 0" "e = 0" "k = 0" "r1 = 0" using r r1 r2 by linarith+
    have ord: "ord2ymd n = (400 + 400 * a, 12, 31)" by (simp add: ord 1 z)
    show ?thesis
      unfolding ord using days_before_year_split [of 3 24 3 a] is_leap_split [of 3 24 3 a] n r z 1
      by (simp add: ymd2ord_def days_before_month_simps)
  next
    case 2
    then have z: "k = 0" "c < 24" using r r1 r2 c by linarith+
    have ord: "ord2ymd n = (4 + (400 * a + (100 * b + 4 * c)), 12, 31)" by (simp add: ord 2)
    show ?thesis
      unfolding ord using days_before_year_split [of b c 3 a] is_leap_split [of b c 3 a] n r r1 r2 z 2
      by (simp add: ymd2ord_def days_before_month_simps)
  next
    case 3
    define y where "y = 400 * a + 1 + 100 * b + 4 * c + e"
    define leap where "leap = (e = 3 \<and> (c \<noteq> 24 \<or> b = 3))"
    have "ord2ymd n = (y, month_day leap k)" using 3 by (simp only: ord y_def leap_def) simp
    moreover have "days_before_year y = 146097 * a + 36524 * b + 1461 * c + 365 * e" "is_leap y = leap"
      unfolding y_def leap_def using 3 c by (intro days_before_year_split is_leap_split; simp)+
    moreover have "n = 146097 * a + 36524 * b + 1461 * c + 365 * e + (k + 1)" using n r(1) r1(1) r2(1) by simp
    moreover have "days_before_month leap (fst (month_day leap k)) + snd (month_day leap k) = k + 1"
      using month_day_correct [of k leap] r2(3) by simp
    ultimately show ?thesis by (simp only: ymd2ord_def case_prod_beta fst_conv snd_conv)
  qed
qed

lemma if_pair_cases:
  assumes "x = (if c then (u, 12, 31) else (v, month_day leap k))" "k < 365"
  obtains y where "x = (y, 12, 31)" | y leap k where "x = (y, month_day leap k)" "k < 365"
  using assms by (cases c) auto

lemma ord2ymd_cases:
  obtains y where "ord2ymd n = (y, 12, 31)" | y leap k where "ord2ymd n = (y, month_day leap k)" "k < 365"
  by (rule if_pair_cases [OF ord2ymd_def [of n, unfolded Let_def]]) (rule mod_less_divisor, simp)

lemma ord2ymd_parts:
  assumes "1 \<le> n" "n \<le> 3652059" "ord2ymd n = (y, m, d)"
  shows "y < 10000" "m < 100" "d < 100"
proof -
  have "m \<le> 12 \<and> d \<le> 31 \<and> 1 \<le> d"
  proof (rule ord2ymd_cases [of n])
    fix y' leap k
    assume o: "ord2ymd n = (y', month_day leap k)" and "k < 365"
    then have "k < (if leap then 366 else 365)" by simp
    from month_day_correct [OF this] show ?thesis using o assms(3) by (cases "month_day leap k") simp
  qed (use assms(3) in simp)
  then show "m < 100" "d < 100" by simp_all
  have n: "n = days_before_year y + days_before_month (is_leap y) m + d"
    using ymd2ord_ord2ymd [OF assms(1)] assms(3) by (simp add: ymd2ord_def)
  show "y < 10000"
  proof (rule ccontr)
    assume "\<not> y < 10000"
    then have "9999 \<le> y - 1" by simp
    then have "365 * 9999 + 9999 div 4 - 9999 div 100 + 9999 div 400 \<le> days_before_year y"
      unfolding days_before_year_def by simp
    then show False using n assms(2) \<open>m \<le> 12 \<and> d \<le> 31 \<and> 1 \<le> d\<close> by simp
  qed
qed

lemma length_digits: "n < 10 ^ Suc k \<Longrightarrow> length (digits n) \<le> Suc k"
proof (induction k arbitrary: n)
  case 0
  then show ?case by (subst digits.simps) simp
next
  case (Suc k)
  have "n div 10 < 10 ^ Suc k" using Suc.prems by (simp add: less_mult_imp_div_less)
  then show ?case using Suc.IH [of "n div 10"] by (subst digits.simps) simp
qed

lemma length_zero_padded: "n < 10 ^ k \<Longrightarrow> 0 < k \<Longrightarrow> length (zero_padded k n) = k"
  using length_digits [of n "k - 1"] by (simp add: zero_padded_def)

lemma read_isoformat:
  assumes "valid_date d"
  shows "read_date (isoformat d) = d"
proof -
  define n where "n = nat (d + 719163)"
  have n: "1 \<le> n" "n \<le> 3652059" "int n = d + 719163" using assms by (auto simp: n_def valid_date_def le_nat_iff nat_le_iff)
  obtain y m k where o: "ord2ymd n = (y, m, k)" by (cases "ord2ymd n")
  note b = ord2ymd_parts [OF n(1,2) o]
  have len: "length (zero_padded 4 y) = 4" "length (zero_padded 2 m) = 2" "length (zero_padded 2 k) = 2"
    by (rule length_zero_padded; use b in simp)+
  have "ymd2ord (y, m, k) = n" using ymd2ord_ord2ymd [OF n(1)] by (simp add: o)
  then show ?thesis
    using n(3) by (simp add: isoformat_def n_def [symmetric] o read_date_def len zero_padded_value)
qed

section \<open>Amounts\<close>

text \<open>\<open>.2f\<close> of a decimal, which rounds half to even where there are more places.\<close>

definition fixed2 :: "decimal \<Rightarrow> string" where
  "fixed2 x =
     (let n = round_half_even (x * 100); m = nat \<bar>n\<bar>
      in (if n < 0 then ''-'' else []) @ digits (m div 100) @ ''.'' @ zero_padded 2 (m mod 100))"

definition read_amount :: "string \<Rightarrow> decimal" where
  "read_amount t =
     (let (sign, t) = (case t of [] \<Rightarrow> (1, []) | c # cs \<Rightarrow> if c = CHR ''-'' then (- 1, cs) else (1, t))
      in sign * (of_nat (value_of (takeWhile (\<lambda>c. c \<noteq> CHR ''.'') t) * 100
                   + value_of (tl (dropWhile (\<lambda>c. c \<noteq> CHR ''.'') t))) / 100))"

lemma round_half_even_of_int [simp]: "round_half_even (of_int k) = k"
  by (simp add: round_half_even_def)

lemma digits_not:
  "CHR ''.'' \<notin> set (digits n)" "CHR ''-'' \<notin> set (digits n)"
proof -
  have "(48 :: nat) \<le> of_char c" if "c \<in> set (digits n)" for c
    using digits_chars [OF that] digit_char_value by fastforce
  moreover have "\<not> (48 :: nat) \<le> of_char (CHR ''.'')" "\<not> (48 :: nat) \<le> of_char (CHR ''-'')" by code_simp+
  ultimately show "CHR ''.'' \<notin> set (digits n)" "CHR ''-'' \<notin> set (digits n)" by blast+
qed

lemma read_fixed2:
  assumes "paisa_grid x"
  shows "read_amount (fixed2 x) = x"
proof -
  obtain k where x: "x = of_int k / 100" using assms by (auto simp: on_grid_iff)
  define m where "m = nat \<bar>k\<bar>"
  define w where "w = digits (m div 100) @ ''.'' @ zero_padded 2 (m mod 100)"
  have "\<forall>c \<in> set (digits (m div 100)). c \<noteq> CHR ''.''" using digits_not(1) [of "m div 100"] by blast
  then have tw: "takeWhile (\<lambda>c. c \<noteq> CHR ''.'') w = digits (m div 100)" "dropWhile (\<lambda>c. c \<noteq> CHR ''.'') w = CHR ''.'' # zero_padded 2 (m mod 100)"
    by (simp_all add: w_def)
  have "value_of (digits (m div 100)) * 100 + value_of (zero_padded 2 (m mod 100)) = m"
    by (simp add: value_of_digits zero_padded_value)
  then have sum: "of_nat (value_of (digits (m div 100)) * 100 + value_of (zero_padded 2 (m mod 100))) = (of_nat m :: decimal)"
    by (rule arg_cong)
  obtain c cs where c: "digits (m div 100) = c # cs" by (cases "digits (m div 100)") simp_all
  then have ne: "c \<noteq> CHR ''-''" using digits_not(2) [of "m div 100"] by auto
  have f: "fixed2 x = (if k < 0 then ''-'' else []) @ w"
    by (simp add: fixed2_def x Let_def w_def m_def)
  have "read_amount (fixed2 x) = (if k < 0 then - 1 else 1) * (of_nat m / 100)"
  proof (cases "k < 0")
    case True
    then show ?thesis by (simp add: f read_amount_def tw sum del: of_nat_add of_nat_mult)
  next
    case False
    have "w = c # cs @ ''.'' @ zero_padded 2 (m mod 100)" by (simp add: w_def c)
    then have "read_amount w = of_nat (value_of (takeWhile (\<lambda>c. c \<noteq> CHR ''.'') w) * 100
        + value_of (tl (dropWhile (\<lambda>c. c \<noteq> CHR ''.'') w))) / 100"
      using ne by (simp add: read_amount_def)
    then show ?thesis using False by (simp add: f tw sum del: of_nat_add of_nat_mult)
  qed
  then show ?thesis by (simp add: x m_def)
qed

section \<open>The export\<close>

definition CSV_HEADERS :: "string list" where
  "CSV_HEADERS = [''Date'', ''Document'', ''Party'', ''Category'', ''Taxable value'', ''Tax'', ''Total'', ''Settled'', ''Status'']"

definition csv_cells :: "register_row \<Rightarrow> string list" where
  "csv_cells r = [isoformat (rg_entry_date r), rg_document_number r, rg_party r, rg_category r,
     fixed2 (rg_taxable_value r), fixed2 (rg_tax_amount r), fixed2 (rg_total r), fixed2 (rg_settled r), rg_status r]"

definition export_text :: "register_row list \<Rightarrow> string" where
  "export_text rows = write_csv (CSV_HEADERS # map csv_cells rows)"

definition export_filename :: "string \<Rightarrow> date \<Rightarrow> date \<Rightarrow> string" where
  "export_filename register date_from date_to =
     register @ ''-register-'' @ isoformat date_from @ ''-to-'' @ isoformat date_to @ ''.csv''"

text \<open>The rows are those of the services, without a channel filter; any other register is unknown.\<close>

definition export_register ::
  "(string \<Rightarrow> string) \<Rightarrow> current_user \<Rightarrow> string \<Rightarrow> date \<Rightarrow> date \<Rightarrow> database \<Rightarrow> (string \<times> string) res" where
  "export_register collate user register date_from date_to s =
     res_bind (require_permission ''report.view'' user) (\<lambda>user.
     res_bind
       (if register = ''sales'' then
          Inr (sales_register collate (cu_organization_id user) date_from date_to None REGISTER_LIMIT s)
        else if register = ''purchases'' then
          Inr (purchase_register (cu_organization_id user) date_from date_to REGISTER_LIMIT s)
        else Inl not_found) (\<lambda>rows.
     Inr (export_filename register date_from date_to, export_text rows)))"

definition read_cells :: "string list \<Rightarrow> register_row" where
  "read_cells fs =
     \<lparr>rg_entry_date = read_date (fs ! 0), rg_document_number = fs ! 1, rg_party = fs ! 2, rg_category = fs ! 3,
      rg_taxable_value = read_amount (fs ! 4), rg_tax_amount = read_amount (fs ! 5), rg_total = read_amount (fs ! 6),
      rg_settled = read_amount (fs ! 7), rg_status = fs ! 8\<rparr>"

definition read_register :: "string \<Rightarrow> register_row list option" where
  "read_register text =
     (case read_csv Fresh [] [] text of
        Some (header # rows) \<Rightarrow> if header = CSV_HEADERS then Some (map read_cells rows) else None
      | _ \<Rightarrow> None)"

definition row_printable :: "register_row \<Rightarrow> bool" where
  "row_printable r \<longleftrightarrow> valid_date (rg_entry_date r) \<and> paisa_grid (rg_taxable_value r) \<and> paisa_grid (rg_tax_amount r)
     \<and> paisa_grid (rg_total r) \<and> paisa_grid (rg_settled r)"

lemma read_export_text:
  assumes "\<forall>r \<in> set rows. row_printable r"
  shows "read_register (export_text rows) = Some rows"
proof -
  have "\<forall>fs \<in> set (CSV_HEADERS # map csv_cells rows). fs \<noteq> []" by (auto simp: CSV_HEADERS_def csv_cells_def)
  from read_write_csv [OF this]
  have csv: "read_csv Fresh [] [] (export_text rows) = Some (CSV_HEADERS # map csv_cells rows)" by (simp add: export_text_def)
  have "read_cells (csv_cells r) = r" if "r \<in> set rows" for r
    using assms that by (auto simp: row_printable_def read_cells_def csv_cells_def read_isoformat read_fixed2)
  then have "map read_cells (map csv_cells rows) = rows" by (simp add: map_idI)
  then show ?thesis by (simp only: read_register_def csv list.case option.case if_True simp_thms)
qed

lemma in_sales_register:
  "r \<in> set (sales_register collate org d e ch n s) \<Longrightarrow> \<exists>v. r = sales_register_row s v \<and> d \<le> si_invoice_date v \<and> si_invoice_date v \<le> e"
  by (auto simp: sales_register_def period_invoices_def dest!: in_set_takeD)

lemma in_purchase_register:
  "r \<in> set (purchase_register org d e n s) \<Longrightarrow>
   \<exists>g. purchase_register_row s g = Some r \<and> d \<le> gr_receipt_date g \<and> gr_receipt_date g \<le> e"
  by (auto simp: purchase_register_def map_filter_def newest_first_def dest!: in_set_takeD) blast

lemma registers_printable:
  assumes "valid_date d" "valid_date e"
  shows "r \<in> set (sales_register collate org d e ch n s) \<Longrightarrow> row_printable r"
    "r \<in> set (purchase_register org d e n s) \<Longrightarrow> row_printable r"
  using assms
  by (auto simp: row_printable_def valid_date_def sales_register_row_def purchase_register_row_def Let_def
      dest!: in_sales_register in_purchase_register)

text \<open>
  C39: The export can be read back. Whatever the names of customers and suppliers contain, a reader of
  the downloaded file that knows nothing but the CSV dialect, the date and the amount format gets
  exactly the rows that the register endpoint answers with for the same period, amounts and dates
  included; the file is named after the register and the period, and every other register is unknown.
\<close>

theorem export_roundtrip:
  assumes "valid_date d" "valid_date e"
  shows "(has_permission user ''report.view'' \<and> register \<in> {''sales'', ''purchases''} \<longrightarrow>
      (\<exists>text answer. export_register collate user register d e s = Inr (export_filename register d e, text)
         \<and> (if register = ''sales'' then get_sales_register collate user d e None s else get_purchase_register user d e s)
             = Inr answer
         \<and> read_register text = Some (rv_rows answer)))
    \<and> (\<not> (has_permission user ''report.view'' \<and> register \<in> {''sales'', ''purchases''}) \<longrightarrow>
      (\<exists>err. export_register collate user register d e s = Inl err))"
  using read_export_text registers_printable [OF assms]
  by (auto simp: export_register_def get_sales_register_def get_purchase_register_def register_response_of_def
      require_permission_def)

text \<open>A receipt of a supplier whose name has a comma and quotes in it.\<close>

definition quoted_supplier :: supplier where
  "quoted_supplier = sample_supplier\<lparr>su_name := ''Rao, '' @ [QUOTE] @ ''Sons'' @ [QUOTE]\<rparr>"

theorem export_roundtrip_witness:
  "\<exists>text row. export_register id sample_clerk ''purchases'' 600 600 (stocked_database\<lparr>db_suppliers := [quoted_supplier]\<rparr>)
      = Inr (''purchases-register-1971-08-24-to-1971-08-24.csv'', text)
    \<and> read_register text = Some [row] \<and> rg_entry_date row = 600 \<and> rg_party row = su_name quoted_supplier"
proof -
  define s where "s = stocked_database\<lparr>db_suppliers := [quoted_supplier]\<rparr>"
  have d: "valid_date 600" by (simp add: valid_date_def)
  have "ord2ymd 719763 = (1971, 8, 24)"
    by (simp add: ord2ymd_def month_day_def days_before_month_simps Let_def)
  moreover have "zero_padded 4 1971 @ ''-'' @ zero_padded 2 8 @ ''-'' @ zero_padded 2 24 = ''1971-08-24''" by code_simp
  ultimately have "isoformat 600 = ''1971-08-24''" by (simp add: isoformat_def)
  then have f: "export_filename ''purchases'' 600 600 = ''purchases-register-1971-08-24-to-1971-08-24.csv''"
    by (simp add: export_filename_def)
  have "map (\<lambda>r. (rg_entry_date r, rg_party r)) (purchase_register 1 600 600 REGISTER_LIMIT s) = [(600, su_name quoted_supplier)]"
    unfolding s_def by code_simp
  then obtain row where row: "purchase_register 1 600 600 REGISTER_LIMIT s = [row]" "rg_entry_date row = 600"
      "rg_party row = su_name quoted_supplier" by (auto simp: map_eq_Cons_conv)
  have perm: "has_permission sample_clerk ''report.view''" by (simp add: sample_clerk_def has_permission_def)
  have "cu_organization_id sample_clerk = 1" by (simp add: sample_clerk_def)
  with perm have answer: "get_purchase_register sample_clerk 600 600 s = Inr (register_response_of [row])"
    using perm by (simp add: get_purchase_register_def row(1) [unfolded One_nat_def])
  obtain content where "export_register id sample_clerk ''purchases'' 600 600 s = Inr (export_filename ''purchases'' 600 600, content)"
      "read_register content = Some [row]"
    using export_roundtrip [OF d d, of sample_clerk "''purchases''" id s] perm answer
    by (auto simp: register_response_of_def)
  then show ?thesis using row(2,3) unfolding s_def [symmetric] f by blast
qed

end
