(* ===== verification/RoleMigration.thy ===== *)
theory RoleMigration
  imports Logins Organizations
begin

text \<open>
  The data migration \<open>migrations/versions/c9f1a70b34d2_phase9_collapse_roles_to_three.py\<close>, which
  collapses the eight roles of older databases to the three of \<open>DEFAULT_ROLES\<close>, and its downgrade:
  renaming, dropping and creating roles, syncing their grants, revoking the sessions. The theorems
  compare a migrated database with a newly provisioned one, and what people could do before with what
  they can do after. The schema steps of the migrations are not modelled.
\<close>

section \<open>The role sets\<close>

definition RENAMES :: "(string \<times> string \<times> string) list" where
  "RENAMES = [(''billing_operator'', ''counter_sales'', ''Counter / Sales''),
     (''inventory_manager'', ''store_inventory'', ''Store / Inventory'')]"

definition RETIRED :: "string list" where
  "RETIRED = [''administrator'', ''billing_operator'', ''wholesale_salesperson'', ''inventory_manager'',
     ''accountant'', ''service_technician'', ''auditor'']"

text \<open>The owner's grants are the catalogue as it stands.\<close>

definition all_codes :: "identity \<Rightarrow> string list" where
  "all_codes s = map pe_code (id_permissions s)"

definition migration_role_specs :: "identity \<Rightarrow> role_spec list" where
  "migration_role_specs s =
     [\<lparr>rs_code = ''owner'', rs_name = ''Owner'', rs_permissions = all_codes s\<rparr>,
      \<lparr>rs_code = ''counter_sales'', rs_name = ''Counter / Sales'', rs_permissions =
        [''product.view'', ''inventory.view'', ''sales.create'', ''sales.finalize'', ''customer.view'',
         ''customer.create'', ''payment.receive'']\<rparr>,
      \<lparr>rs_code = ''store_inventory'', rs_name = ''Store / Inventory'', rs_permissions =
        [''product.view'', ''product.create'', ''product.update'', ''inventory.view'', ''inventory.adjust'',
         ''stock.transfer'', ''purchase.view'', ''purchase.create'']\<rparr>]"

definition legacy_roles :: "identity \<Rightarrow> role_spec list" where
  "legacy_roles s =
     [\<lparr>rs_code = ''owner'', rs_name = ''Owner'', rs_permissions = all_codes s\<rparr>,
      \<lparr>rs_code = ''administrator'', rs_name = ''Administrator'', rs_permissions =
        [''product.view'', ''product.create'', ''product.update'', ''inventory.view'', ''purchase.view'',
         ''purchase.create'', ''sales.create'', ''customer.view'', ''customer.create'', ''report.view'',
         ''user.manage'', ''settings.manage'']\<rparr>,
      \<lparr>rs_code = ''billing_operator'', rs_name = ''Billing Operator'', rs_permissions =
        [''product.view'', ''inventory.view'', ''sales.create'', ''customer.view'', ''customer.create'',
         ''payment.receive'']\<rparr>,
      \<lparr>rs_code = ''wholesale_salesperson'', rs_name = ''Wholesale Salesperson'', rs_permissions =
        [''product.view'', ''inventory.view'', ''sales.create'', ''customer.view'', ''customer.create'',
         ''payment.receive'', ''report.view'']\<rparr>,
      \<lparr>rs_code = ''inventory_manager'', rs_name = ''Inventory Manager'', rs_permissions =
        [''product.view'', ''product.create'', ''product.update'', ''inventory.view'', ''inventory.adjust'',
         ''stock.transfer'', ''purchase.view'', ''purchase.create'']\<rparr>,
      \<lparr>rs_code = ''accountant'', rs_name = ''Accountant'', rs_permissions =
        [''payment.receive'', ''report.view'', ''report.view_profit'', ''customer.view'']\<rparr>,
      \<lparr>rs_code = ''service_technician'', rs_name = ''Service Technician'', rs_permissions =
        [''service.manage'', ''inventory.view'', ''product.view'']\<rparr>,
      \<lparr>rs_code = ''auditor'', rs_name = ''Auditor'', rs_permissions =
        [''product.view'', ''inventory.view'', ''purchase.view'', ''customer.view'', ''report.view'',
         ''report.view_profit'', ''audit.view'']\<rparr>]"

section \<open>The steps\<close>

text \<open>One \<open>UPDATE\<close>: the condition looks at the table as it was before.\<close>

definition rename_role :: "string \<times> string \<times> string \<Rightarrow> identity \<Rightarrow> identity" where
  "rename_role = (\<lambda>(old_code, new_code, new_name) s.
     s\<lparr>id_roles := upd_rows
         (\<lambda>r. ro_code r = old_code \<and> \<not> (\<exists>other \<in> set (id_roles s).
            ro_organization_id other = ro_organization_id r \<and> ro_code other = new_code))
         (\<lambda>r. r\<lparr>ro_code := new_code, ro_name := new_name\<rparr>) (id_roles s)\<rparr>)"

definition drop_roles :: "string list \<Rightarrow> identity \<Rightarrow> identity" where
  "drop_roles codes s =
     (let retired_ids = map ro_id (filter (\<lambda>r. ro_code r \<in> set codes) (id_roles s))
      in s\<lparr>id_user_roles := filter (\<lambda>u. ur_role_id u \<notin> set retired_ids) (id_user_roles s),
           id_role_permissions := filter (\<lambda>g. rq_role_id g \<notin> set retired_ids) (id_role_permissions s),
           id_roles := filter (\<lambda>r. ro_id r \<notin> set retired_ids) (id_roles s)\<rparr>)"

definition create_missing_role :: "uuid \<Rightarrow> role_spec \<Rightarrow> identity \<Rightarrow> identity" where
  "create_missing_role org spec s =
     (if \<exists>r \<in> set (id_roles s). ro_organization_id r = org \<and> ro_code r = rs_code spec then s
      else s\<lparr>id_roles := id_roles s @ [\<lparr>ro_id = id_next s, ro_organization_id = org, ro_name = rs_name spec,
               ro_code = rs_code spec, ro_description = None, ro_is_system = True\<rparr>],
             id_next := Suc (id_next s)\<rparr>)"

definition create_missing_roles :: "uuid list \<Rightarrow> role_spec list \<Rightarrow> identity \<Rightarrow> identity" where
  "create_missing_roles orgs specs s = fold (\<lambda>org. fold (create_missing_role org) specs) orgs s"

text \<open>The grants of one role; a code that is not in the catalogue is skipped.\<close>

definition set_grants :: "uuid \<Rightarrow> string list \<Rightarrow> identity \<Rightarrow> identity" where
  "set_grants role_id perms s =
     s\<lparr>id_role_permissions := filter (\<lambda>g. rq_role_id g \<noteq> role_id) (id_role_permissions s)
         @ map (\<lambda>p. \<lparr>rq_role_id = role_id, rq_permission_id = pe_id p\<rparr>)
             (List.map_filter (\<lambda>c. permission_row c s) perms)\<rparr>"

definition sync_permissions :: "role_spec list \<Rightarrow> identity \<Rightarrow> identity" where
  "sync_permissions specs s =
     fold (\<lambda>spec s. fold (\<lambda>r. set_grants (ro_id r) (rs_permissions spec))
        (filter (\<lambda>r. ro_code r = rs_code spec) (id_roles s)) s) specs s"

definition revoke_all_sessions :: "timestamp \<Rightarrow> identity \<Rightarrow> identity" where
  "revoke_all_sessions now s =
     s\<lparr>id_sessions := upd_rows (\<lambda>v. ss_revoked_at v = None) (\<lambda>v. v\<lparr>ss_revoked_at := Some now\<rparr>) (id_sessions s),
       id_tokens := upd_rows (\<lambda>k. tk_revoked_at k = None) (\<lambda>k. k\<lparr>tk_revoked_at := Some now\<rparr>) (id_tokens s)\<rparr>"

definition upgrade :: "timestamp \<Rightarrow> uuid list \<Rightarrow> identity \<Rightarrow> identity" where
  "upgrade now orgs s =
     (let specs = migration_role_specs s;
          renamed = fold rename_role RENAMES s;
          dropped = drop_roles RETIRED renamed;
          created = create_missing_roles orgs specs dropped
      in revoke_all_sessions now (sync_permissions specs created))"

text \<open>The renames run backwards with the names of the legacy roles.\<close>

definition rename_back :: "role_spec list \<Rightarrow> string \<times> string \<times> string \<Rightarrow> identity \<Rightarrow> identity" where
  "rename_back legacy = (\<lambda>(old_code, new_code, _) s.
     rename_role (new_code, old_code,
       case first_row (\<lambda>d. rs_code d = old_code) legacy of Some d \<Rightarrow> rs_name d | None \<Rightarrow> []) s)"

definition downgrade :: "timestamp \<Rightarrow> uuid list \<Rightarrow> identity \<Rightarrow> identity" where
  "downgrade now orgs s =
     (let legacy = legacy_roles s;
          renamed = fold (rename_back legacy) RENAMES s;
          dropped = drop_roles [''counter_sales'', ''store_inventory''] renamed;
          created = create_missing_roles orgs legacy dropped
      in revoke_all_sessions now (sync_permissions legacy created))"

section \<open>What the steps keep\<close>

text \<open>\<open>uq_role_code\<close>: an organization has one role of a code.\<close>

definition roles_unique :: "identity \<Rightarrow> bool" where
  "roles_unique s \<longleftrightarrow> (\<forall>r \<in> set (id_roles s). \<forall>q \<in> set (id_roles s).
     ro_organization_id r = ro_organization_id q \<and> ro_code r = ro_code q \<longrightarrow> r = q)"

definition roles_ok :: "identity \<Rightarrow> bool" where
  "roles_ok s \<longleftrightarrow> identity_ok s \<and> roles_unique s"

text \<open>The tables that renaming, creating and granting roles leave as they are.\<close>

definition same_people :: "identity \<Rightarrow> identity \<Rightarrow> bool" where
  "same_people s t \<longleftrightarrow> id_users t = id_users s \<and> id_user_roles t = id_user_roles s \<and> id_permissions t = id_permissions s
     \<and> id_user_branches t = id_user_branches s \<and> id_sessions t = id_sessions s \<and> id_tokens t = id_tokens s"

lemma same_people_refl: "same_people s s"
  by (simp add: same_people_def)

lemma same_people_trans: "same_people s t \<Longrightarrow> same_people t u \<Longrightarrow> same_people s u"
  by (simp add: same_people_def)

lemma role_codes_eq:
  "role_codes i s = concat (map (\<lambda>g. map pe_code (filter (\<lambda>p. pe_id p = rq_permission_id g) (id_permissions s)))
     (filter (\<lambda>g. rq_role_id g = i) (id_role_permissions s)))"
proof -
  have c: "[pe_code p. p \<leftarrow> ps, pe_id p = k] = map pe_code (filter (\<lambda>p. pe_id p = k) ps)" for k ps
    by (induction ps) auto
  have "concat (map (\<lambda>g. if rq_role_id g = i then f g else []) gs) = concat (map f (filter (\<lambda>g. rq_role_id g = i) gs))"
    for f :: "role_permission \<Rightarrow> string list" and gs by (induction gs) auto
  then show ?thesis unfolding role_codes_def c by simp
qed

lemma filter_absorb: "(\<And>x. P x \<Longrightarrow> Q x) \<Longrightarrow> filter P (filter Q xs) = filter P xs"
  by (induction xs) auto

definition renamed :: "string \<Rightarrow> string \<Rightarrow> string \<Rightarrow> role list \<Rightarrow> role \<Rightarrow> role" where
  "renamed a b n rs r =
     (if ro_code r = a \<and> \<not> (\<exists>q \<in> set rs. ro_organization_id q = ro_organization_id r \<and> ro_code q = b)
      then r\<lparr>ro_code := b, ro_name := n\<rparr> else r)"

lemma rename_role_roles: "id_roles (rename_role (a, b, n) s) = map (renamed a b n (id_roles s)) (id_roles s)"
  by (simp add: rename_role_def upd_rows_def renamed_def)

lemma renamed_sel [simp]:
  "ro_id (renamed a b n rs r) = ro_id r" "ro_organization_id (renamed a b n rs r) = ro_organization_id r"
  by (simp_all add: renamed_def)

lemma renamed_unique:
  assumes "\<forall>r \<in> set rs. \<forall>q \<in> set rs. ro_organization_id r = ro_organization_id q \<and> ro_code r = ro_code q \<longrightarrow> r = q"
    and "r \<in> set rs" "q \<in> set rs" "ro_organization_id r = ro_organization_id q"
    and "ro_code (renamed a b n rs r) = ro_code (renamed a b n rs q)"
  shows "r = q"
  using assms(5) assms(1-4) unfolding renamed_def by (auto split: if_splits)

lemma rename_role_keeps:
  assumes "roles_ok s"
  shows "roles_ok (rename_role x s)" "same_people s (rename_role x s)" "id_next (rename_role x s) = id_next s"
    "role_codes i (rename_role x s) = role_codes i s"
    "map ro_id (id_roles (rename_role x s)) = map ro_id (id_roles s)"
proof -
  obtain a b n where x: "x = (a, b, n)" by (cases x)
  let ?t = "rename_role x s"
  have f: "id_users ?t = id_users s" "id_user_roles ?t = id_user_roles s" "id_permissions ?t = id_permissions s"
    "id_role_permissions ?t = id_role_permissions s" "id_user_branches ?t = id_user_branches s" "id_next ?t = id_next s"
    "id_sessions ?t = id_sessions s" "id_tokens ?t = id_tokens s"
    by (simp_all add: rename_role_def x)
  then show "same_people s ?t" "id_next ?t = id_next s" "role_codes i ?t = role_codes i s"
    by (simp_all add: same_people_def role_codes_eq)
  show ids: "map ro_id (id_roles ?t) = map ro_id (id_roles s)"
    by (simp add: rename_role_def x upd_rows_def)
  have "\<forall>r \<in> set (id_roles ?t). ro_id r < id_next s"
    using assms by (auto simp: x rename_role_roles roles_ok_def identity_ok_def)
  then have "identity_ok ?t" using assms ids by (simp add: roles_ok_def identity_ok_def f)
  moreover have "roles_unique ?t"
    using assms renamed_unique [of "id_roles s" _ _ a b n]
    unfolding x roles_ok_def roles_unique_def rename_role_roles by auto
  ultimately show "roles_ok ?t" by (simp add: roles_ok_def)
qed

lemma drop_roles_keeps:
  assumes "roles_ok s"
  shows "roles_ok (drop_roles codes s)"
    "id_roles (drop_roles codes s) = filter (\<lambda>r. ro_code r \<notin> set codes) (id_roles s)"
    "id_user_roles (drop_roles codes s) = filter (\<lambda>u. ur_role_id u \<notin> ro_id ` {r \<in> set (id_roles s). ro_code r \<in> set codes}) (id_user_roles s)"
    "id_permissions (drop_roles codes s) = id_permissions s" "id_next (drop_roles codes s) = id_next s"
    "id_users (drop_roles codes s) = id_users s"
    "r \<in> set (id_roles s) \<Longrightarrow> ro_code r \<notin> set codes \<Longrightarrow> role_codes (ro_id r) (drop_roles codes s) = role_codes (ro_id r) s"
proof -
  let ?t = "drop_roles codes s"
  let ?ids = "ro_id ` {r \<in> set (id_roles s). ro_code r \<in> set codes}"
  have d: "distinct (map ro_id (id_roles s))" using assms by (simp add: roles_ok_def identity_ok_def)
  have mem: "ro_id r \<in> ?ids \<longleftrightarrow> ro_code r \<in> set codes" if "r \<in> set (id_roles s)" for r
    using d that by (auto simp: distinct_map inj_on_def)
  have t: "?t = s\<lparr>id_user_roles := filter (\<lambda>u. ur_role_id u \<notin> ?ids) (id_user_roles s),
      id_role_permissions := filter (\<lambda>g. rq_role_id g \<notin> ?ids) (id_role_permissions s),
      id_roles := filter (\<lambda>r. ro_id r \<notin> ?ids) (id_roles s)\<rparr>"
    by (simp add: drop_roles_def Let_def)
  have roles: "filter (\<lambda>r. ro_id r \<notin> ?ids) (id_roles s) = filter (\<lambda>r. ro_code r \<notin> set codes) (id_roles s)"
    by (rule filter_cong) (simp_all add: mem)
  show "id_roles ?t = filter (\<lambda>r. ro_code r \<notin> set codes) (id_roles s)" by (simp add: t roles)
  show "id_user_roles ?t = filter (\<lambda>u. ur_role_id u \<notin> ?ids) (id_user_roles s)"
    "id_permissions ?t = id_permissions s" "id_next ?t = id_next s" "id_users ?t = id_users s"
    by (simp_all add: t)
  show "roles_ok ?t"
    using assms by (auto simp: t roles_ok_def identity_ok_def roles_unique_def distinct_map_filter)
  show "role_codes (ro_id r) ?t = role_codes (ro_id r) s" if "r \<in> set (id_roles s)" "ro_code r \<notin> set codes"
  proof -
    have n: "ro_id r \<notin> ?ids" unfolding mem [OF that(1)] by (rule that(2))
    have "filter (\<lambda>g. rq_role_id g = ro_id r) (filter (\<lambda>g. rq_role_id g \<notin> ?ids) gs) = filter (\<lambda>g. rq_role_id g = ro_id r) gs"
      for gs :: "role_permission list"
      by (rule filter_absorb) (metis n)
    then show ?thesis unfolding role_codes_eq t by simp
  qed
qed

text \<open>Creating adds roles without grants, at most one for every organization and code.\<close>

definition roles_grown :: "role_spec list \<Rightarrow> identity \<Rightarrow> identity \<Rightarrow> bool" where
  "roles_grown specs s t \<longleftrightarrow> same_people s t \<and> id_role_permissions t = id_role_permissions s
     \<and> (\<exists>new. id_roles t = id_roles s @ new \<and> (\<forall>r \<in> set new. ro_code r \<in> rs_code ` set specs \<and> id_next s \<le> ro_id r))
     \<and> id_next s \<le> id_next t"

lemma roles_grown_refl: "roles_grown specs s s"
  by (simp add: roles_grown_def same_people_def)

lemma roles_grown_trans: "roles_grown specs s t \<Longrightarrow> roles_grown specs t u \<Longrightarrow> roles_grown specs s u"
  unfolding roles_grown_def by (auto intro: same_people_trans) (meson order_trans)

lemma create_missing_role_keeps:
  assumes "roles_ok s" "spec \<in> set specs"
  shows "roles_ok (create_missing_role org spec s)" "roles_grown specs s (create_missing_role org spec s)"
    "\<exists>r \<in> set (id_roles (create_missing_role org spec s)). ro_organization_id r = org \<and> ro_code r = rs_code spec"
  using assms
  by (auto simp: create_missing_role_def roles_grown_def same_people_def roles_ok_def identity_ok_def roles_unique_def
      less_SucI)

lemma create_for_org:
  assumes "roles_ok s" "set ds \<subseteq> set specs"
  shows "roles_ok (fold (create_missing_role org) ds s) \<and> roles_grown specs s (fold (create_missing_role org) ds s)
    \<and> (\<forall>spec \<in> set ds. \<exists>r \<in> set (id_roles (fold (create_missing_role org) ds s)).
         ro_organization_id r = org \<and> ro_code r = rs_code spec)"
  using assms
proof (induction ds arbitrary: s)
  case (Cons d ds)
  let ?m = "create_missing_role org d s"
  have one: "roles_ok ?m" "roles_grown specs s ?m"
    "\<exists>r \<in> set (id_roles ?m). ro_organization_id r = org \<and> ro_code r = rs_code d"
    using create_missing_role_keeps [OF Cons.prems(1), of d specs org] Cons.prems(2) by simp_all
  have IH: "roles_ok (fold (create_missing_role org) ds ?m)" "roles_grown specs ?m (fold (create_missing_role org) ds ?m)"
    "\<forall>spec \<in> set ds. \<exists>r \<in> set (id_roles (fold (create_missing_role org) ds ?m)).
         ro_organization_id r = org \<and> ro_code r = rs_code spec"
    using Cons.IH [OF one(1)] Cons.prems(2) by simp_all
  have "\<exists>r \<in> set (id_roles (fold (create_missing_role org) ds ?m)). ro_organization_id r = org \<and> ro_code r = rs_code d"
    using one(3) IH(2) unfolding roles_grown_def by fastforce
  then show ?case using IH roles_grown_trans [OF one(2) IH(2)] by simp
qed (simp add: roles_grown_refl)

lemma create_missing_roles_keeps:
  assumes "roles_ok s"
  shows "roles_ok (create_missing_roles orgs specs s) \<and> roles_grown specs s (create_missing_roles orgs specs s)
    \<and> (\<forall>org \<in> set orgs. \<forall>spec \<in> set specs. \<exists>r \<in> set (id_roles (create_missing_roles orgs specs s)).
         ro_organization_id r = org \<and> ro_code r = rs_code spec)"
  using assms unfolding create_missing_roles_def
proof (induction orgs arbitrary: s)
  case (Cons org orgs)
  let ?m = "fold (create_missing_role org) specs s" and ?run = "fold (\<lambda>org. fold (create_missing_role org) specs) orgs"
  have one: "roles_ok ?m" "roles_grown specs s ?m"
    "\<forall>spec \<in> set specs. \<exists>r \<in> set (id_roles ?m). ro_organization_id r = org \<and> ro_code r = rs_code spec"
    using create_for_org [OF Cons.prems subset_refl] by simp_all
  have IH: "roles_ok (?run ?m)" "roles_grown specs ?m (?run ?m)"
    "\<forall>org \<in> set orgs. \<forall>spec \<in> set specs. \<exists>r \<in> set (id_roles (?run ?m)). ro_organization_id r = org \<and> ro_code r = rs_code spec"
    using Cons.IH [OF one(1)] by simp_all
  have "\<exists>r \<in> set (id_roles (?run ?m)). ro_organization_id r = org \<and> ro_code r = rs_code spec" if "spec \<in> set specs" for spec
    using one(3) IH(2) that unfolding roles_grown_def by fastforce
  then show ?case using IH roles_grown_trans [OF one(2) IH(2)] by simp
qed (simp add: roles_grown_refl)

section \<open>Syncing the grants\<close>

lemma known_codes:
  assumes "distinct (map pe_id (id_permissions s))"
  shows "concat (map (\<lambda>g. map pe_code (filter (\<lambda>p. pe_id p = rq_permission_id g) (id_permissions s)))
      (map (\<lambda>p. \<lparr>rq_role_id = i, rq_permission_id = pe_id p\<rparr>) (List.map_filter (\<lambda>c. permission_row c s) perms)))
    = filter (\<lambda>c. permission_row c s \<noteq> None) perms"
proof (induction perms)
  case (Cons c perms)
  show ?case
  proof (cases "permission_row c s")
    case (Some p)
    then have "map pe_code (filter (\<lambda>q. pe_id q = pe_id p) (id_permissions s)) = [c]"
      by (intro permission_of_id [OF assms]) (simp add: permission_row_def)
    then show ?thesis using Cons Some by simp
  qed (use Cons in simp)
qed simp

lemma role_codes_set_grants:
  assumes "distinct (map pe_id (id_permissions s))"
  shows "role_codes i (set_grants j perms s)
    = (if i = j then filter (\<lambda>c. permission_row c s \<noteq> None) perms else role_codes i s)"
proof (cases "i = j")
  case True
  then show ?thesis
    using known_codes [OF assms, of i perms] by (simp add: role_codes_eq set_grants_def filter_filter filter_map comp_def)
next
  case False
  then have "filter (\<lambda>g. rq_role_id g = i) (filter (\<lambda>g. rq_role_id g \<noteq> j) gs) = filter (\<lambda>g. rq_role_id g = i) gs"
    for gs :: "role_permission list"
    by (intro filter_absorb) auto
  then show ?thesis using False by (simp add: role_codes_eq set_grants_def filter_map comp_def)
qed

text \<open>Two identity tables that differ in the grants only.\<close>

definition regranted :: "identity \<Rightarrow> identity \<Rightarrow> bool" where
  "regranted s t \<longleftrightarrow> (\<exists>gs. t = s\<lparr>id_role_permissions := gs\<rparr>)"

lemma regranted_refl: "regranted s s"
  unfolding regranted_def by (rule exI [of _ "id_role_permissions s"]) simp

lemma regranted_trans: "regranted s t \<Longrightarrow> regranted t u \<Longrightarrow> regranted s u"
  by (auto simp: regranted_def)

lemma set_grants_keeps:
  assumes "roles_ok s" "i < id_next s"
  shows "roles_ok (set_grants i perms s)" "regranted s (set_grants i perms s)"
proof -
  show "regranted s (set_grants i perms s)" by (auto simp: regranted_def set_grants_def)
  have "pe_id p < id_next s" if "p \<in> set (List.map_filter (\<lambda>c. permission_row c s) perms)" for p
    using that assms(1)
    by (auto simp: map_filter_def permission_row_def roles_ok_def identity_ok_def dest: first_row_Some)
  then show "roles_ok (set_grants i perms s)"
    using assms by (auto simp: roles_ok_def identity_ok_def roles_unique_def set_grants_def)
qed

lemma set_grants_all:
  fixes perms :: "string list"
  assumes "roles_ok s" "\<forall>r \<in> set rs. ro_id r < id_next s"
  defines "t \<equiv> fold (\<lambda>r. set_grants (ro_id r) perms) rs s"
  shows "roles_ok t \<and> regranted s t
    \<and> role_codes i t = (if i \<in> ro_id ` set rs then filter (\<lambda>c. permission_row c s \<noteq> None) perms else role_codes i s)"
  using assms(1,2) unfolding t_def
proof (induction rs arbitrary: s)
  case (Cons r rs)
  let ?m = "set_grants (ro_id r) perms s"
  have m: "roles_ok ?m" "regranted s ?m" using Cons.prems by (simp_all add: set_grants_keeps)
  have same: "permission_row c ?m = permission_row c s" "id_next ?m = id_next s" for c
    by (simp_all add: set_grants_def permission_row_def)
  have "distinct (map pe_id (id_permissions s))" using Cons.prems(1) by (simp add: roles_ok_def identity_ok_def)
  from role_codes_set_grants [OF this, of i "ro_id r" perms] show ?case
    using Cons.IH [OF m(1)] Cons.prems(2) regranted_trans [OF m(2)] by (auto simp: same)
qed (simp add: regranted_refl)

lemma sync_permissions_keeps:
  assumes "roles_ok s" "distinct (map rs_code specs)" "r \<in> set (id_roles s)"
  shows "roles_ok (sync_permissions specs s) \<and> regranted s (sync_permissions specs s)
    \<and> role_codes (ro_id r) (sync_permissions specs s)
      = (case first_row (\<lambda>d. rs_code d = ro_code r) specs of
           None \<Rightarrow> role_codes (ro_id r) s
         | Some d \<Rightarrow> filter (\<lambda>c. permission_row c s \<noteq> None) (rs_permissions d))"
  using assms unfolding sync_permissions_def
proof (induction specs arbitrary: s)
  case (Cons d specs)
  let ?rs = "filter (\<lambda>r. ro_code r = rs_code d) (id_roles s)"
  let ?known = "filter (\<lambda>c. permission_row c s \<noteq> None)"
  define m where "m = fold (\<lambda>r. set_grants (ro_id r) (rs_permissions d)) ?rs s"
  define t where "t = fold (\<lambda>spec s. fold (\<lambda>r. set_grants (ro_id r) (rs_permissions spec))
      (filter (\<lambda>r. ro_code r = rs_code spec) (id_roles s)) s) specs m"
  have "\<forall>r \<in> set ?rs. ro_id r < id_next s" using Cons.prems(1) by (auto simp: roles_ok_def identity_ok_def)
  note one = set_grants_all [OF Cons.prems(1) this, of "rs_permissions d", folded m_def]
  have "regranted s m" using one by blast
  then obtain gs where m: "m = s\<lparr>id_role_permissions := gs\<rparr>" by (auto simp: regranted_def)
  have "ro_id r \<in> ro_id ` set ?rs \<longleftrightarrow> ro_code r = rs_code d"
    using Cons.prems(1,3) by (auto simp: roles_ok_def identity_ok_def distinct_map inj_on_def)
  then have codes: "role_codes (ro_id r) m = (if ro_code r = rs_code d then ?known (rs_permissions d) else role_codes (ro_id r) s)"
    using one [of "ro_id r"] by simp
  have last: "first_row (\<lambda>d'. rs_code d' = ro_code r) specs = None" if "ro_code r = rs_code d"
    using Cons.prems(2) that by (fastforce simp: first_row_None image_iff)
  have rows: "permission_row c m = permission_row c s" for c by (simp add: m permission_row_def)
  have "roles_ok m" "r \<in> set (id_roles m)" "distinct (map rs_code specs)" using one Cons.prems by (simp_all add: m)
  from Cons.IH [OF this(1,3,2)] have IH: "roles_ok t" "regranted m t"
    "role_codes (ro_id r) t = (case first_row (\<lambda>d. rs_code d = ro_code r) specs of
       None \<Rightarrow> role_codes (ro_id r) m | Some d \<Rightarrow> ?known (rs_permissions d))"
    unfolding t_def [symmetric] rows by simp_all
  have "role_codes (ro_id r) t = (case first_row (\<lambda>d. rs_code d = ro_code r) (d # specs) of
       None \<Rightarrow> role_codes (ro_id r) s | Some d \<Rightarrow> ?known (rs_permissions d))"
    using IH(3) codes last by (cases "ro_code r = rs_code d") (auto split: option.split)
  then show ?case
    using IH(1) regranted_trans [OF \<open>regranted s m\<close> IH(2)] by (simp add: m_def [symmetric] t_def [symmetric])
qed (simp add: regranted_refl)

section \<open>The migrated database\<close>

lemma migration_specs_distinct: "distinct (map rs_code (migration_role_specs s))" "distinct (map rs_code (legacy_roles s))"
  by (simp_all add: migration_role_specs_def legacy_roles_def)

lemma revoke_all_sessions_keeps:
  "role_codes i (revoke_all_sessions now s) = role_codes i s" "id_roles (revoke_all_sessions now s) = id_roles s"
  "id_user_roles (revoke_all_sessions now s) = id_user_roles s" "id_permissions (revoke_all_sessions now s) = id_permissions s"
  "roles_ok (revoke_all_sessions now s) = roles_ok s" "id_users (revoke_all_sessions now s) = id_users s"
  "\<forall>v \<in> set (id_sessions (revoke_all_sessions now s)). ss_revoked_at v \<noteq> None"
  "\<forall>k \<in> set (id_tokens (revoke_all_sessions now s)). tk_revoked_at k \<noteq> None"
  by (auto simp: revoke_all_sessions_def role_codes_eq roles_ok_def identity_ok_def roles_unique_def upd_rows_def)

text \<open>The steps of a migration together; the renames are those of either direction.\<close>

lemma renames_keep:
  assumes "roles_ok s"
  shows "roles_ok (fold rename_role xs s) \<and> same_people s (fold rename_role xs s) \<and> id_next (fold rename_role xs s) = id_next s
    \<and> (\<forall>i. role_codes i (fold rename_role xs s) = role_codes i s)
    \<and> map ro_id (id_roles (fold rename_role xs s)) = map ro_id (id_roles s)"
  using assms
proof (induction xs arbitrary: s)
  case (Cons x xs)
  note one = rename_role_keeps [OF Cons.prems, where x = x]
  from Cons.IH [OF one(1)] one(2-5) show ?case by (auto intro: same_people_trans)
qed (simp add: same_people_refl)

definition converged :: "uuid list \<Rightarrow> string list \<Rightarrow> role_spec list \<Rightarrow> identity \<Rightarrow> identity" where
  "converged orgs dropped specs s = sync_permissions specs (create_missing_roles orgs specs (drop_roles dropped s))"

lemma converged_correct:
  fixes orgs :: "uuid list" and dropped :: "string list"
  assumes "roles_ok s" "distinct (map rs_code specs)"
  defines "t \<equiv> converged orgs dropped specs s"
  shows "roles_ok t" "id_permissions t = id_permissions s" "id_users t = id_users s"
    "id_user_roles t = filter (\<lambda>u. ur_role_id u \<notin> ro_id ` {r \<in> set (id_roles s). ro_code r \<in> set dropped}) (id_user_roles s)"
    "\<forall>org \<in> set orgs. \<forall>spec \<in> set specs. \<exists>r \<in> set (id_roles t). ro_organization_id r = org \<and> ro_code r = rs_code spec"
    "r \<in> set (id_roles t) \<Longrightarrow> r \<in> set (id_roles s) \<and> ro_code r \<notin> set dropped
       \<or> ro_code r \<in> rs_code ` set specs \<and> id_next s \<le> ro_id r"
    "r \<in> set (id_roles t) \<Longrightarrow> spec \<in> set specs \<Longrightarrow> ro_code r = rs_code spec \<Longrightarrow>
       role_codes (ro_id r) t = filter (\<lambda>c. permission_row c s \<noteq> None) (rs_permissions spec)"
    "r \<in> set (id_roles t) \<Longrightarrow> ro_code r \<notin> rs_code ` set specs \<Longrightarrow> role_codes (ro_id r) t = role_codes (ro_id r) s"
    "r \<in> set (id_roles s) \<Longrightarrow> ro_code r \<notin> set dropped \<Longrightarrow> r \<in> set (id_roles t)"
proof -
  define d where "d = drop_roles dropped s"
  define n where "n = create_missing_roles orgs specs d"
  have t: "t = sync_permissions specs n" by (simp add: t_def converged_def n_def d_def)
  note drop = drop_roles_keeps [OF assms(1), where codes = dropped, folded d_def]
  note made = create_missing_roles_keeps [OF drop(1), of orgs specs, folded n_def]
  have n: "roles_ok n" using made by blast
  have grown: "same_people d n" "id_role_permissions n = id_role_permissions d"
    using made by (simp_all add: roles_grown_def)
  have "\<exists>new. id_roles n = id_roles d @ new \<and> (\<forall>r \<in> set new. ro_code r \<in> rs_code ` set specs \<and> id_next d \<le> ro_id r)"
    using made unfolding roles_grown_def by blast
  then obtain new where new: "id_roles n = id_roles d @ new"
      "\<forall>r \<in> set new. ro_code r \<in> rs_code ` set specs \<and> id_next d \<le> ro_id r" by blast
  have sync: "roles_ok t \<and> regranted n t" if "r \<in> set (id_roles n)" for r
    using sync_permissions_keeps [OF n assms(2) that] by (simp add: t)
  have none: "sync_permissions specs n = n" if "id_roles n = []"
    using that unfolding sync_permissions_def by (induction specs) auto
  have all: "roles_ok t \<and> regranted n t"
    using sync none n by (cases "id_roles n") (auto simp: t regranted_refl)
  then obtain gs where gs: "t = n\<lparr>id_role_permissions := gs\<rparr>" by (auto simp: regranted_def)
  show "roles_ok t" using all by blast
  show "id_permissions t = id_permissions s" "id_users t = id_users s"
    "id_user_roles t = filter (\<lambda>u. ur_role_id u \<notin> ro_id ` {r \<in> set (id_roles s). ro_code r \<in> set dropped}) (id_user_roles s)"
    using grown drop(3,4,6) by (simp_all add: gs same_people_def)
  show "\<forall>org \<in> set orgs. \<forall>spec \<in> set specs. \<exists>r \<in> set (id_roles t). ro_organization_id r = org \<and> ro_code r = rs_code spec"
    using made by (simp add: gs)
  show "r \<in> set (id_roles s) \<and> ro_code r \<notin> set dropped \<or> ro_code r \<in> rs_code ` set specs \<and> id_next s \<le> ro_id r"
    if "r \<in> set (id_roles t)" for r
    using that new drop(2,5) by (auto simp: gs)
  show "r \<in> set (id_roles t)" if "r \<in> set (id_roles s)" "ro_code r \<notin> set dropped" for r
    using that new(1) drop(2) by (simp add: gs)
  have rows: "permission_row c n = permission_row c s" for c
    using grown(1) drop(4) by (simp add: permission_row_def same_people_def)
  have codes: "role_codes (ro_id r) t = (case first_row (\<lambda>d. rs_code d = ro_code r) specs of
       None \<Rightarrow> role_codes (ro_id r) n | Some d \<Rightarrow> filter (\<lambda>c. permission_row c s \<noteq> None) (rs_permissions d))"
    if "r \<in> set (id_roles t)" for r
    using sync_permissions_keeps [OF n assms(2), of r] that unfolding t [symmetric] rows by (simp add: gs)
  show "role_codes (ro_id r) t = filter (\<lambda>c. permission_row c s \<noteq> None) (rs_permissions spec)"
    if "r \<in> set (id_roles t)" "spec \<in> set specs" "ro_code r = rs_code spec" for r spec
  proof (cases "first_row (\<lambda>d. rs_code d = ro_code r) specs")
    case None
    then show ?thesis using that by (auto simp: first_row_None)
  next
    case (Some d')
    from first_row_Some [OF this] have "d' = spec"
      using assms(2) that(2,3) by (auto simp: distinct_map inj_on_def)
    then show ?thesis using codes [OF that(1)] Some by simp
  qed
  show "role_codes (ro_id r) t = role_codes (ro_id r) s" if "r \<in> set (id_roles t)" "ro_code r \<notin> rs_code ` set specs" for r
  proof -
    have "first_row (\<lambda>d. rs_code d = ro_code r) specs = None" using that(2) by (fastforce simp: first_row_None image_iff)
    then have "role_codes (ro_id r) t = role_codes (ro_id r) n" using codes [OF that(1)] by simp
    also have "\<dots> = role_codes (ro_id r) d" using grown by (simp add: role_codes_eq same_people_def)
    also have "\<dots> = role_codes (ro_id r) s"
      using that new(2) new(1) drop(2) by (intro drop(7)) (auto simp: gs)
    finally show ?thesis .
  qed
qed

lemma upgrade_eq:
  "upgrade now orgs s = revoke_all_sessions now
     (converged orgs RETIRED (migration_role_specs s) (fold rename_role RENAMES s))"
  by (simp add: upgrade_def converged_def Let_def)

text \<open>References of the identity tables to roles resolve.\<close>

definition catalogue_seeded :: "identity \<Rightarrow> bool" where
  "catalogue_seeded s \<longleftrightarrow> set (all_codes s) = set ALL_PERMISSION_CODES"

lemma known_in_catalogue: "catalogue_seeded s \<Longrightarrow> c \<in> set ALL_PERMISSION_CODES \<Longrightarrow> permission_row c s \<noteq> None"
proof -
  assume "catalogue_seeded s" "c \<in> set ALL_PERMISSION_CODES"
  then have "c \<in> pe_code ` set (id_permissions s)" by (simp add: catalogue_seeded_def all_codes_def)
  then show ?thesis by (auto simp: permission_row_def first_row_None)
qed

text \<open>The specification that the migration spells out is that of the program.\<close>

lemma specs_are_defaults:
  assumes "catalogue_seeded s"
  shows "map rs_code (migration_role_specs s) = map rs_code DEFAULT_ROLES"
    "spec \<in> set DEFAULT_ROLES \<Longrightarrow> \<exists>d \<in> set (migration_role_specs s). rs_code d = rs_code spec
       \<and> set (filter (\<lambda>c. permission_row c s \<noteq> None) (rs_permissions d)) = set (rs_permissions spec)"
proof -
  show "map rs_code (migration_role_specs s) = map rs_code DEFAULT_ROLES"
    by (simp add: migration_role_specs_def DEFAULT_ROLES_def)
  have known: "filter (\<lambda>c. permission_row c s \<noteq> None) cs = cs" if "set cs \<subseteq> set ALL_PERMISSION_CODES" for cs
    using known_in_catalogue [OF assms] that by (intro filter_True) blast
  assume spec: "spec \<in> set DEFAULT_ROLES"
  have all: "list_all2 (\<lambda>d spec. rs_code d = rs_code spec \<and> set (rs_permissions d) = set (rs_permissions spec))
      (migration_role_specs s) DEFAULT_ROLES"
    using assms by (simp add: DEFAULT_ROLES_def migration_role_specs_def catalogue_seeded_def)
  obtain i where "i < length DEFAULT_ROLES" "DEFAULT_ROLES ! i = spec" using spec unfolding in_set_conv_nth by blast
  then have "migration_role_specs s ! i \<in> set (migration_role_specs s)" "rs_code (migration_role_specs s ! i) = rs_code spec"
      "set (rs_permissions (migration_role_specs s ! i)) = set (rs_permissions spec)"
    using list_all2_nthD2 [OF all] list_all2_lengthD [OF all] by auto
  then obtain d where d: "d \<in> set (migration_role_specs s)" "rs_code d = rs_code spec"
      "set (rs_permissions d) = set (rs_permissions spec)" by blast
  moreover have "set (rs_permissions spec) \<subseteq> set ALL_PERMISSION_CODES"
    using spec default_roles_in_catalogue by blast
  ultimately show "\<exists>d \<in> set (migration_role_specs s). rs_code d = rs_code spec
       \<and> set (filter (\<lambda>c. permission_row c s \<noteq> None) (rs_permissions d)) = set (rs_permissions spec)"
    using known [of "rs_permissions d"] by (intro bexI [of _ d]) simp_all
qed

text \<open>
  C37: A migrated database is like a new one. Whatever roles an older database has, after the upgrade
  every organization has exactly one role of each code of \<open>DEFAULT_ROLES\<close>, granting exactly what a newly
  provisioned organization's role grants; no retired role is left, every assignment that is left is one
  that was there, and every session and refresh token is revoked.
\<close>

theorem upgrade_converges:
  assumes "roles_ok s" "catalogue_seeded s" "org \<in> set orgs" "spec \<in> set DEFAULT_ROLES"
  shows "roles_ok (upgrade now orgs s)
    \<and> (\<exists>!r. r \<in> set (id_roles (upgrade now orgs s)) \<and> ro_organization_id r = org \<and> ro_code r = rs_code spec)
    \<and> (\<forall>r \<in> set (id_roles (upgrade now orgs s)). ro_code r = rs_code spec \<longrightarrow>
         set (role_codes (ro_id r) (upgrade now orgs s)) = set (rs_permissions spec))
    \<and> (\<forall>r \<in> set (id_roles (upgrade now orgs s)). ro_code r \<notin> set RETIRED)
    \<and> set (id_user_roles (upgrade now orgs s)) \<subseteq> set (id_user_roles s)
    \<and> (\<forall>v \<in> set (id_sessions (upgrade now orgs s)). ss_revoked_at v \<noteq> None)
    \<and> (\<forall>k \<in> set (id_tokens (upgrade now orgs s)). tk_revoked_at k \<noteq> None)"
proof -
  define m where "m = fold rename_role RENAMES s"
  define u where "u = converged orgs RETIRED (migration_role_specs s) m"
  have t: "upgrade now orgs s = revoke_all_sessions now u" by (simp add: upgrade_eq u_def m_def)
  have m: "roles_ok m" "same_people s m" using renames_keep [OF assms(1)] by (simp_all add: m_def)
  have rows: "permission_row c m = permission_row c s" for c using m(2) by (simp add: same_people_def permission_row_def)
  note conv = converged_correct [OF m(1) migration_specs_distinct(1) [of s], where orgs = orgs and dropped = RETIRED, folded u_def]
  obtain d where d: "d \<in> set (migration_role_specs s)" "rs_code d = rs_code spec"
      "set (filter (\<lambda>c. permission_row c s \<noteq> None) (rs_permissions d)) = set (rs_permissions spec)"
    using specs_are_defaults(2) [OF assms(2,4)] by blast
  have u: "roles_ok u" by (rule conv(1))
  have "\<exists>r \<in> set (id_roles u). ro_organization_id r = org \<and> ro_code r = rs_code spec"
    using conv(5) assms(3) d(1) unfolding d(2) [symmetric] by blast
  then have "\<exists>!r. r \<in> set (id_roles u) \<and> ro_organization_id r = org \<and> ro_code r = rs_code spec"
    using u by (auto simp: roles_ok_def roles_unique_def)
  moreover have "set (role_codes (ro_id r) u) = set (rs_permissions spec)"
    if "r \<in> set (id_roles u)" "ro_code r = rs_code spec" for r
    using conv(7) [OF that(1) d(1)] that(2) d(2,3) by (simp add: rows)
  moreover have "ro_code r \<notin> set RETIRED" if "r \<in> set (id_roles u)" for r
  proof -
    have "rs_code ` set (migration_role_specs s) \<inter> set RETIRED = {}"
      by (simp add: migration_role_specs_def RETIRED_def)
    then show ?thesis using conv(6) [OF that] by blast
  qed
  moreover have "set (id_user_roles u) \<subseteq> set (id_user_roles s)"
    using conv(4) m(2) by (auto simp: same_people_def)
  ultimately show ?thesis
    unfolding t using u by (simp add: revoke_all_sessions_keeps)
qed

text \<open>The downgrade gives every organization the eight roles again, with their grants.\<close>

lemma downgrade_eq:
  "downgrade now orgs s = revoke_all_sessions now (converged orgs [''counter_sales'', ''store_inventory''] (legacy_roles s)
     (fold rename_role [(''counter_sales'', ''billing_operator'', ''Billing Operator''),
        (''store_inventory'', ''inventory_manager'', ''Inventory Manager'')] s))"
  by (simp add: downgrade_def converged_def Let_def RENAMES_def rename_back_def legacy_roles_def)

lemma downgrade_restores_roles:
  assumes "roles_ok s" "catalogue_seeded s" "org \<in> set orgs" "spec \<in> set (legacy_roles s)"
  shows "roles_ok (downgrade now orgs s)
    \<and> (\<exists>!r. r \<in> set (id_roles (downgrade now orgs s)) \<and> ro_organization_id r = org \<and> ro_code r = rs_code spec)
    \<and> (\<forall>r \<in> set (id_roles (downgrade now orgs s)). ro_code r = rs_code spec \<longrightarrow>
         role_codes (ro_id r) (downgrade now orgs s) = filter (\<lambda>c. permission_row c s \<noteq> None) (rs_permissions spec))"
proof -
  define m where "m = fold rename_role [(''counter_sales'', ''billing_operator'', ''Billing Operator''),
        (''store_inventory'', ''inventory_manager'', ''Inventory Manager'')] s"
  define u where "u = converged orgs [''counter_sales'', ''store_inventory''] (legacy_roles s) m"
  have t: "downgrade now orgs s = revoke_all_sessions now u" by (simp only: downgrade_eq u_def m_def)
  have m: "roles_ok m" "same_people s m" unfolding m_def using renames_keep [OF assms(1)] by blast+
  have rows: "permission_row c m = permission_row c s" for c using m(2) by (simp add: same_people_def permission_row_def)
  note conv = converged_correct [OF m(1) migration_specs_distinct(2) [of s], where orgs = orgs
      and dropped = "[''counter_sales'', ''store_inventory'']", folded u_def]
  have "\<exists>!r. r \<in> set (id_roles u) \<and> ro_organization_id r = org \<and> ro_code r = rs_code spec"
    using conv(1,5) assms(3,4) unfolding roles_ok_def roles_unique_def by metis
  then show ?thesis
    unfolding t using conv(1) conv(7) [OF _ assms(4)] by (simp add: revoke_all_sessions_keeps rows)
qed

section \<open>Who can do what afterwards\<close>

lemma set_get_user_permissions:
  "c \<in> set (get_user_permissions u s) \<longleftrightarrow>
   (\<exists>a \<in> set (id_user_roles s). ur_user_id a = u \<and> (\<exists>r \<in> set (id_roles s). ro_id r = ur_role_id a \<and> c \<in> set (role_codes (ro_id r) s)))"
  unfolding get_user_permissions_roles roles_of_def by (auto split: if_splits)

lemma renamed_origin:
  assumes "r \<in> set (id_roles (fold rename_role RENAMES s))"
  obtains r0 where "r0 \<in> set (id_roles s)" "ro_id r0 = ro_id r"
    "ro_code r = ro_code r0 \<or> ro_code r0 = ''billing_operator'' \<and> ro_code r = ''counter_sales''
     \<or> ro_code r0 = ''inventory_manager'' \<and> ro_code r = ''store_inventory''"
proof -
  obtain r0 r1 rs where r: "r0 \<in> set (id_roles s)"
      "r1 = renamed ''billing_operator'' ''counter_sales'' ''Counter / Sales'' (id_roles s) r0"
      "r = renamed ''inventory_manager'' ''store_inventory'' ''Store / Inventory'' rs r1"
    using assms by (auto simp: RENAMES_def rename_role_roles)
  have "ro_code r1 = ro_code r0 \<or> ro_code r0 = ''billing_operator'' \<and> ro_code r1 = ''counter_sales''"
    "ro_code r = ro_code r1 \<or> ro_code r1 = ''inventory_manager'' \<and> ro_code r = ''store_inventory''"
    by (simp_all add: r(2,3) renamed_def)
  then show ?thesis by (intro that [OF r(1)]) (auto simp: r(2,3))
qed

definition legacy_database :: "identity \<Rightarrow> bool" where
  "legacy_database s \<longleftrightarrow> roles_ok s \<and> catalogue_seeded s
     \<and> (\<forall>r \<in> set (id_roles s). ro_code r \<notin> {''counter_sales'', ''store_inventory''}
         \<and> (\<forall>d \<in> set (legacy_roles s). ro_code r = rs_code d \<longrightarrow> set (role_codes (ro_id r) s) = set (rs_permissions d)))"

text \<open>Each new role against the legacy role that it continues.\<close>

lemma continued_roles:
  assumes "d \<in> set (migration_role_specs s)"
  obtains "rs_code d = ''owner''" "d \<in> set (legacy_roles s)"
  | b where "rs_code d = ''counter_sales''" "b \<in> set (legacy_roles s)" "rs_code b = ''billing_operator''"
      "set (rs_permissions d) = insert ''sales.finalize'' (set (rs_permissions b))"
  | b where "rs_code d = ''store_inventory''" "b \<in> set (legacy_roles s)" "rs_code b = ''inventory_manager''"
      "set (rs_permissions d) = set (rs_permissions b)"
proof -
  consider "d = migration_role_specs s ! 0" | "d = migration_role_specs s ! 1" | "d = migration_role_specs s ! 2"
    using assms unfolding migration_role_specs_def set_simps nth_Cons_0 nth_Cons_Suc numeral_2_eq_2 One_nat_def by blast
  then show ?thesis
  proof cases
    case 1
    then show ?thesis by (intro that(1)) (simp_all add: migration_role_specs_def legacy_roles_def)
  next
    case 2
    have "legacy_roles s ! 2 \<in> set (legacy_roles s)" by (rule nth_mem) (simp add: legacy_roles_def)
    then show ?thesis
      by (rule that(2) [rotated]) (simp_all add: 2 migration_role_specs_def legacy_roles_def insert_commute)
  next
    case 3
    have "legacy_roles s ! 4 \<in> set (legacy_roles s)" by (rule nth_mem) (simp add: legacy_roles_def)
    then show ?thesis by (rule that(3) [rotated]) (simp_all add: 3 migration_role_specs_def legacy_roles_def)
  qed
qed


section \<open>A legacy organization\<close>

definition seeded_identity :: identity where
  "seeded_identity = ensure_permissions empty_identity"

lemma seeded: "roles_ok seeded_identity" "catalogue_seeded seeded_identity" "id_roles seeded_identity = []"
proof -
  have e: "identity_ok empty_identity" by (simp add: identity_ok_def empty_identity_def)
  show "id_roles seeded_identity = []" by code_simp
  moreover have "identity_ok seeded_identity"
    using ensure_all [OF e, of PERMISSIONS] by (simp add: seeded_identity_def ensure_permissions_def)
  ultimately show "roles_ok seeded_identity" by (simp add: roles_ok_def roles_unique_def)
  have "all_codes seeded_identity = ALL_PERMISSION_CODES" by code_simp
  then show "catalogue_seeded seeded_identity" by (simp add: catalogue_seeded_def)
qed

definition legacy_identity :: identity where
  "legacy_identity = converged [1] [] (legacy_roles seeded_identity) seeded_identity"

text \<open>User 3 is a billing operator.\<close>

definition sample_legacy :: identity where
  "sample_legacy = legacy_identity\<lparr>id_user_roles := [\<lparr>ur_user_id = 3, ur_role_id = 24, ur_branch_id = None\<rparr>]\<rparr>"

lemma sample_legacy_roles:
  "map (\<lambda>r. (ro_id r, ro_code r)) (id_roles legacy_identity)
   = [(22, ''owner''), (23, ''administrator''), (24, ''billing_operator''), (25, ''wholesale_salesperson''),
      (26, ''inventory_manager''), (27, ''accountant''), (28, ''service_technician''), (29, ''auditor'')]"
  "id_next legacy_identity = 30" "role_codes 24 legacy_identity = rs_permissions (legacy_roles seeded_identity ! 2)"
  by code_simp+

lemma sample_legacy_ok: "legacy_database sample_legacy"
proof -
  note conv = converged_correct [OF seeded(1) migration_specs_distinct(2) [of seeded_identity], where orgs = "[1]"
      and dropped = "[]", folded legacy_identity_def]
  have ok: "roles_ok legacy_identity" by (rule conv(1))
  then have "roles_ok sample_legacy"
    by (simp add: sample_legacy_def roles_ok_def roles_unique_def identity_ok_def sample_legacy_roles)
  moreover have perms: "id_permissions sample_legacy = id_permissions seeded_identity"
    using conv(2) by (simp add: sample_legacy_def)
  moreover have "ro_code r \<notin> {''counter_sales'', ''store_inventory''}" if "r \<in> set (id_roles sample_legacy)" for r
  proof -
    have "ro_code r \<in> snd ` set (map (\<lambda>r. (ro_id r, ro_code r)) (id_roles legacy_identity))"
      using that by (force simp: sample_legacy_def image_iff)
    then show ?thesis unfolding sample_legacy_roles by auto
  qed
  moreover have "set (role_codes (ro_id r) sample_legacy) = set (rs_permissions d)"
    if r: "r \<in> set (id_roles sample_legacy)" "d \<in> set (legacy_roles sample_legacy)" "ro_code r = rs_code d" for r d
  proof -
    have d: "d \<in> set (legacy_roles seeded_identity)" using r(2) by (simp add: legacy_roles_def all_codes_def perms)
    have "r \<in> set (id_roles legacy_identity)" using r(1) by (simp add: sample_legacy_def)
    from conv(7) [OF this d r(3)] have codes: "role_codes (ro_id r) sample_legacy
        = filter (\<lambda>c. permission_row c seeded_identity \<noteq> None) (rs_permissions d)"
      by (simp add: sample_legacy_def role_codes_eq)
    have "\<forall>d \<in> set (legacy_roles seeded_identity). set (rs_permissions d) \<subseteq> set (all_codes seeded_identity)"
      by code_simp
    then have "permission_row c seeded_identity \<noteq> None" if "c \<in> set (rs_permissions d)" for c
    proof -
      have "c \<in> pe_code ` set (id_permissions seeded_identity)"
        using \<open>\<forall>d \<in> set (legacy_roles seeded_identity). set (rs_permissions d) \<subseteq> set (all_codes seeded_identity)\<close> d that
        by (simp add: all_codes_def subset_iff)
      then show ?thesis by (auto simp: permission_row_def first_row_None)
    qed
    then show ?thesis unfolding codes by auto
  qed
  ultimately show ?thesis
    using seeded(2) by (simp add: legacy_database_def catalogue_seeded_def all_codes_def)
qed


theorem upgrade_converges_witness:
  "\<exists>r. r \<in> set (id_roles (upgrade 9 [1] sample_legacy)) \<and> ro_organization_id r = 1 \<and> ro_code r = ''counter_sales''
     \<and> set (role_codes (ro_id r) (upgrade 9 [1] sample_legacy)) = {''product.view'', ''inventory.view'', ''sales.create'',
         ''sales.finalize'', ''customer.view'', ''customer.create'', ''payment.receive''}"
proof -
  have ok: "roles_ok sample_legacy" "catalogue_seeded sample_legacy"
    using sample_legacy_ok by (simp_all add: legacy_database_def)
  have spec: "DEFAULT_ROLES ! 1 \<in> set DEFAULT_ROLES" by (rule nth_mem) (simp add: DEFAULT_ROLES_def)
  have one: "(1 :: uuid) \<in> set [1]" by simp
  note conv = upgrade_converges [OF ok one spec, of 9]
  have code: "rs_code (DEFAULT_ROLES ! 1) = ''counter_sales''" by (simp add: DEFAULT_ROLES_def)
  have perms: "set (rs_permissions (DEFAULT_ROLES ! 1)) = {''product.view'', ''inventory.view'', ''sales.create'',
         ''sales.finalize'', ''customer.view'', ''customer.create'', ''payment.receive''}"
    by (simp add: DEFAULT_ROLES_def)
  obtain r where r: "r \<in> set (id_roles (upgrade 9 [1] sample_legacy))" "ro_organization_id r = 1" "ro_code r = ''counter_sales''"
    using conv unfolding code by blast
  then have "set (role_codes (ro_id r) (upgrade 9 [1] sample_legacy)) = set (rs_permissions (DEFAULT_ROLES ! 1))"
    using conv unfolding code by blast
  then show ?thesis using r unfolding perms by blast
qed

end
