(* ===== verification/Notifications.thy ===== *)
theory Notifications
  imports Access Listing Exceptions
begin

text \<open>
  In-app notifications, \<open>app/modules/notifications/service.py\<close> and \<open>api.py\<close>: creating, listing and
  marking as read. A notification without a user is a broadcast to the organization, with one flag for
  all its readers.
\<close>

section \<open>The table and the service\<close>

record notification =
  nt_id :: uuid
  nt_organization_id :: uuid
  nt_user_id :: "uuid option"
  nt_type :: string
  nt_title :: string
  nt_body :: "string option"
  nt_is_read :: bool
  nt_created_at :: timestamp

record notifications =
  ns_rows :: "notification list"
  ns_next :: uuid
  ns_now :: timestamp

definition create_notification ::
  "uuid \<Rightarrow> string \<Rightarrow> string \<Rightarrow> string option \<Rightarrow> uuid option \<Rightarrow> notifications \<Rightarrow> notification \<times> notifications" where
  "create_notification organization_id type title body user_id s =
     (let n = \<lparr>nt_id = ns_next s, nt_organization_id = organization_id, nt_user_id = user_id, nt_type = type,
               nt_title = title, nt_body = body, nt_is_read = False, nt_created_at = ns_now s\<rparr>
      in (n, s\<lparr>ns_rows := ns_rows s @ [n], ns_next := Suc (ns_next s)\<rparr>))"

text \<open>The condition of both queries: the user's own notifications and the broadcasts.\<close>

definition addressed_to :: "uuid \<Rightarrow> uuid \<Rightarrow> notification \<Rightarrow> bool" where
  "addressed_to organization_id user_id n \<longleftrightarrow>
     nt_organization_id n = organization_id \<and> (nt_user_id n = Some user_id \<or> nt_user_id n = None)"

definition list_for_user :: "uuid \<Rightarrow> uuid \<Rightarrow> bool \<Rightarrow> notifications \<Rightarrow> notification list" where
  "list_for_user organization_id user_id unread_only s =
     newest_first nt_created_at
       (filter (\<lambda>n. addressed_to organization_id user_id n \<and> (unread_only \<longrightarrow> \<not> nt_is_read n)) (ns_rows s))"

definition mark_notification_read :: "uuid \<Rightarrow> uuid \<Rightarrow> uuid \<Rightarrow> notifications \<Rightarrow> notifications" where
  "mark_notification_read organization_id user_id notification_id s =
     s\<lparr>ns_rows := upd_rows (\<lambda>n. nt_id n = notification_id \<and> addressed_to organization_id user_id n)
         (\<lambda>n. n\<lparr>nt_is_read := True\<rparr>) (ns_rows s)\<rparr>"

section \<open>The endpoints\<close>

record notification_out =
  no_id :: uuid
  no_type :: string
  no_title :: string
  no_body :: "string option"
  no_is_read :: bool
  no_created_at :: timestamp

definition list_notifications :: "current_user \<Rightarrow> bool \<Rightarrow> notifications \<Rightarrow> notification_out list" where
  "list_notifications user unread_only s =
     map (\<lambda>n. \<lparr>no_id = nt_id n, no_type = nt_type n, no_title = nt_title n, no_body = nt_body n,
               no_is_read = nt_is_read n, no_created_at = nt_created_at n\<rparr>)
       (list_for_user (cu_organization_id user) (cu_user_id user) unread_only s)"

definition mark_read :: "current_user \<times> uuid \<Rightarrow> notifications \<Rightarrow> (unit \<times> notifications) res" where
  "mark_read = (\<lambda>(user, notification_id) s.
     Inr ((), mark_notification_read (cu_organization_id user) (cu_user_id user) notification_id s))"

section \<open>What reading changes\<close>

definition marked :: "uuid \<Rightarrow> uuid \<Rightarrow> uuid \<Rightarrow> notification \<Rightarrow> notification" where
  "marked org u i n = (if nt_id n = i \<and> addressed_to org u n then n\<lparr>nt_is_read := True\<rparr> else n)"

lemma marked_sel [simp]:
  "nt_id (marked org u i n) = nt_id n" "addressed_to org' v (marked org u i n) = addressed_to org' v n"
  "nt_is_read (marked org u i n) \<longleftrightarrow> nt_is_read n \<or> nt_id n = i \<and> addressed_to org u n"
  by (auto simp: marked_def addressed_to_def)

lemma mark_notification_read_rows:
  "ns_rows (mark_notification_read org u i s) = map (marked org u i) (ns_rows s)"
  by (simp add: mark_notification_read_def upd_rows_def marked_def)

lemma set_list_for_user:
  "n \<in> set (list_for_user org u b s) \<longleftrightarrow> n \<in> set (ns_rows s) \<and> addressed_to org u n \<and> (b \<longrightarrow> \<not> nt_is_read n)"
  by (simp add: list_for_user_def newest_first_def)

text \<open>A notification that is read is no longer listed as unread; the others are, as before.\<close>

lemma read_leaves_the_unread:
  "set (list_for_user org u True (mark_notification_read org u i s)) = {n \<in> set (list_for_user org u True s). nt_id n \<noteq> i}"
proof -
  have "marked org u i n = n" if "\<not> nt_is_read (marked org u i n)" for n
    using that by (auto simp: marked_def split: if_splits)
  moreover have "marked org u i n = n" if "nt_id n \<noteq> i" for n using that by (simp add: marked_def)
  ultimately show ?thesis
    unfolding set_eq_iff mem_Collect_eq set_list_for_user mark_notification_read_rows set_map image_iff
    by (metis marked_sel)
qed

text \<open>Unread notifications of one user, untouched by everyone else's requests.\<close>

definition waiting_for :: "notification \<Rightarrow> notifications \<Rightarrow> bool" where
  "waiting_for n s \<longleftrightarrow> n \<in> set (ns_rows s)"

interpretation personal: handler_contract "waiting_for n"
  "\<lambda>(user, i). nt_user_id n \<noteq> None \<and> nt_user_id n \<noteq> Some (cu_user_id user) \<or> nt_organization_id n \<noteq> cu_organization_id user"
  mark_read
  by unfold_locales
    (force simp: waiting_for_def mark_read_def mark_notification_read_rows addressed_to_def marked_def image_iff split: prod.splits)

lemma notifications_are_personal:
  assumes "n \<in> set (ns_rows s)" "nt_user_id n = Some u"
    and "\<forall>(user, i) \<in> set requests. cu_user_id user \<noteq> u"
  shows "n \<in> set (ns_rows (serve mark_read requests s))"
proof -
  have "waiting_for n (serve mark_read requests s)"
    by (rule personal.serve_keeps) (use assms in \<open>auto simp: waiting_for_def\<close>)
  then show ?thesis by (simp add: waiting_for_def)
qed

text \<open>A broadcast has one flag: once somebody has read it, it is unread for nobody in the organization.\<close>

lemma broadcast_read_for_everyone:
  assumes "distinct (map nt_id (ns_rows s))" "n \<in> set (ns_rows s)" "nt_user_id n = None" "nt_organization_id n = org"
    and "k \<in> set (list_for_user org v True (mark_notification_read org u (nt_id n) s))"
  shows "nt_id k \<noteq> nt_id n"
proof
  assume same: "nt_id k = nt_id n"
  obtain k0 where k0: "k0 \<in> set (ns_rows s)" "k = marked org u (nt_id n) k0" "\<not> nt_is_read k"
    using assms(5) by (auto simp: set_list_for_user mark_notification_read_rows)
  then have "k0 = n" using assms(1,2) same by (auto simp: distinct_map inj_on_def)
  then show False using k0(2,3) assms(3,4) by (simp add: addressed_to_def)
qed

end
