(* ===== verification/Spec2Isabelle.thy ===== *)
theory Spec2Isabelle
  imports Pricing Units Allocation LandedCost Stock Fulfilment Purchases ServiceJobs Logins
    Users Catalogue Program Documents Delivery Histories Subledgers Shelves Exports RoleMigration Notifications
begin

text \<open>
  A verification library for the backend of AgriFlow ERP (\<open>src/backend/app\<close>): stock with batches and
  expiry, counter sales, dealer orders, collections, purchases, a workshop, double-entry books,
  reports, and the users who may do these things. This theory only gathers the library and describes
  it; the paths below are relative to \<open>src/backend/app\<close>.

  \<^bold>\<open>The program and its model.\<close> A request runs an endpoint (\<open>modules/*/api.py\<close>), which checks a
  permission, calls a service (\<open>service.py\<close>) and commits; a service reads and writes rows of the
  tables (\<open>models.py\<close>) and calls other services on the same session. An exception rolls the whole
  request back. In the model a table is a list of records in the order of creation, a component's
  tables are a record, and \<open>Store.database\<close> holds them all. An operation of the source is a function
  of the same name from its arguments and the state to \<open>Inl\<close> of the exception or \<open>Inr\<close> of the result
  and the new state (\<open>Prelude.res\<close>, \<open>Exceptions.exn\<close>), with the guards and early returns in the order of
  the source; \<open>serve\<close> runs a list of requests, refused ones leaving the state as it is. The function
  \<open>Program.execute\<close> has one command for every endpoint that writes business tables, and the time at
  which the request arrives.

  \<^bold>\<open>Kernels.\<close> \<open>Decimals\<close> is Python's decimal arithmetic: exact sums and differences on the grids of the
  columns, products and quotients rounded to the 28 digits of the context. \<open>Money\<close>
  (\<open>common/money/decimal.py\<close>) quantises, splits taxes and distributes amounts; \<open>Units\<close>
  (\<open>common/units/conversion.py\<close>) converts quantities; \<open>Pricing\<close> (\<open>modules/pricing/engine.py\<close>) resolves
  prices and computes lines; \<open>Fefo\<close> (\<open>modules/inventory/fefo.py\<close>), \<open>Allocation\<close>
  (\<open>modules/collections/allocation.py\<close>) and \<open>LandedCost\<close> (\<open>modules/purchases/landed_cost.py\<close>) are the
  three allocations. \<open>Greedy\<close> is the contract of the loops that draw an amount from a list of sources;
  \<open>Fefo\<close>, \<open>Allocation\<close> and the release of reservations interpret it or follow it. What is shown: totals
  are conserved to the paisa, rounding stays within its bounds, the price is the first offer of the
  priority list, and errors are raised exactly on the documented inputs.

  \<^bold>\<open>Services.\<close> \<open>Inventory\<close> and \<open>Stock\<close> are \<open>modules/inventory\<close>: balances, the movement ledger, issue,
  receipt, adjustment, reservation, release and transfer. \<open>Numbering\<close>, \<open>Idempotency\<close> and \<open>Accounting\<close>
  are the modules of these names. \<open>Tables\<close> has the rows that documents share, \<open>Store\<close> the database and
  the helpers of several services. \<open>Sales\<close> and \<open>Wholesale\<close> are \<open>modules/sales\<close>, \<open>Collections\<close> is
  \<open>modules/collections\<close>, \<open>Purchases\<close> is \<open>modules/purchases\<close> and \<open>modules/suppliers\<close>, \<open>ServiceJobs\<close> is
  \<open>modules/service_jobs\<close> with the warranty rows, \<open>Catalogue\<close> is \<open>modules/catalogue\<close> and
  \<open>modules/customers\<close>, \<open>Notifications\<close> is \<open>modules/notifications\<close>. For each operation there is a case
  rule that lists what it did when it succeeded, and the invariant it keeps.

  \<^bold>\<open>Identity.\<close> \<open>Access\<close> is \<open>core/context.py\<close>, \<open>core/permissions.py\<close>, \<open>core/deps.py\<close> and
  \<open>core/ratelimit.py\<close>; \<open>Identity\<close>, \<open>Sessions\<close> and \<open>Logins\<close> are \<open>modules/auth\<close> with its login, refresh and
  logout as a step relation; \<open>Organizations\<close> and \<open>Users\<close> are the provisioning and the administration;
  \<open>RoleMigration\<close> is the data migration that collapsed eight roles to three.

  \<^bold>\<open>Queries.\<close> \<open>Listing\<close> has what listings share, \<open>Registers\<close> and \<open>Statements\<close> the listing endpoints,
  \<open>Reports\<close> and \<open>Exports\<close> the reports and their CSV download.

  \<^bold>\<open>Composition.\<close> \<open>Exceptions.handler_contract\<close> is the interface between a component and a history of
  requests: handlers that keep an invariant on admissible requests keep it through every history.
  \<open>Receivables\<close> states the invariant of the sales tables, stock and books together, \<open>Fulfilment\<close> that of
  orders and reservations, \<open>Program\<close> interprets the contract on the whole program. \<open>Documents\<close> says what
  one sale, order, dispatch or payment does from its guards to its last row; \<open>Delivery\<close> that a confirmed
  order can be shipped whatever happened since; \<open>Histories\<close> how documents change over time;
  \<open>Subledgers\<close> that statements, dashboard and GST summary agree with the documents and the books.
  \<open>Shelves\<close> is an abstract machine of stock and promises, and the program is shown to implement it by a
  simulation (the locale \<open>simulation\<close>, an extension of \<open>handler_contract\<close>).

  \<^bold>\<open>What is assumed.\<close> The state at the beginning is \<open>Program.installed\<close>: master data with prices that
  are not negative, and no document yet. Identities come from supplies of numbers that never repeat, as
  uuids do not. One request runs at a time: the row locks and advisory locks of the source serialise
  the writers of a row, and what interleavings do beyond that is not modelled. Values fit the scale of
  their columns where a theorem says so (\<open>paisa_grid\<close>, \<open>on_grid\<close>), and \<open>admissible\<close> has what the pydantic
  schemas check of a body, and that counter payments are whole paise, which they do not check. Times
  and dates are integers, seconds and days since 1970. Third-party code is an argument: argon2, SHA-256,
  the random source and the token signing are the record \<open>crypto\<close> with the documented laws as
  hypotheses, instantiated by \<open>sample_crypto\<close> in the witnesses; \<open>collate\<close> is the order of texts in the
  database and \<open>ilike\<close> its pattern match. A query without an order takes the order of creation. No
  model needs fuel: every loop of the program runs over a list, and the models recurse on it.

  \<^bold>\<open>Not modelled.\<close> The schema of the database (\<open>db_models.py\<close>, \<open>common/models\<close>, the other migrations) is
  declarative, and appears as the record types, the uniqueness checks of the inserts, and the foreign
  keys the invariants speak of. Engine, logging, redis, CORS and security headers, the health checks and
  the assembly of the routers (\<open>core/database.py\<close>, \<open>core/logging.py\<close>, \<open>core/redis.py\<close>, \<open>main.py\<close>,
  \<open>api\<close>) are I/O and wiring, \<open>core/config.py\<close> reads the environment. The module \<open>documents\<close> has a table
  and no operation. The demo data of \<open>seed.py\<close> only calls services that are modelled. The listing of
  audit records is not modelled, since the model keeps of an audit record only what the operations put
  into it. Narrations, warnings and texts of error messages are left out; an exception keeps its class
  and code.
\<close>

end
